(* ===== verification/Prelude.thy ===== *)
theory Prelude
  imports Main "HOL-Library.Word" "HOL-Library.Monad_Syntax"
begin

text \<open>
  Shared vocabulary of the development: C's fixed-width unsigned integers, arrays accessed with
  a bounds check, and big-endian 16-bit fields.

  A C \<open>int\<close> is an \<open>int\<close> (every value the modelled code computes stays far inside 32 bits),
  an \<open>uint8_t\<close>, \<open>uint16_t\<close> or \<open>uint32_t\<close> is a word of that width, and a C array is a list.
  Every array access of the code goes through \<open>rd\<close>, \<open>wr\<close>, \<open>rd_block\<close> or
  \<open>wr_block\<close>: the result \<open>None\<close> of a modelled function means that the C code would
  have undefined behaviour (an access outside an array) or would not return. A theorem that a
  function returns \<open>Some\<close> is therefore a memory-safety and termination statement.
\<close>

unbundle bit_operations_syntax

type_synonym u8 = "8 word"
type_synonym u16 = "16 word"
type_synonym u32 = "32 word"

named_theorems buf_simps \<open>bounds-checked array accesses with a known result\<close>
named_theorems wire_simps \<open>encoding and decoding of the fields of a frame\<close>

subsection \<open>Arrays\<close>

definition rd :: "'a list \<Rightarrow> int \<Rightarrow> 'a option" where
  "rd xs i = (if 0 \<le> i \<and> i < int (length xs) then Some (xs ! nat i) else None)"

definition wr :: "'a list \<Rightarrow> int \<Rightarrow> 'a \<Rightarrow> 'a list option" where
  "wr xs i v = (if 0 \<le> i \<and> i < int (length xs) then Some (xs[nat i := v]) else None)"

definition rd_block :: "'a list \<Rightarrow> int \<Rightarrow> int \<Rightarrow> 'a list option" where
  "rd_block xs i n =
     (if 0 \<le> i \<and> 0 \<le> n \<and> i + n \<le> int (length xs)
      then Some (take (nat n) (drop (nat i) xs)) else None)"

definition wr_block :: "'a list \<Rightarrow> int \<Rightarrow> 'a list \<Rightarrow> 'a list option" where
  "wr_block xs i ys =
     (if 0 \<le> i \<and> i + int (length ys) \<le> int (length xs)
      then Some (take (nat i) xs @ ys @ drop (nat i + length ys) xs) else None)"

lemma rd_Some: "0 \<le> i \<Longrightarrow> i < int (length xs) \<Longrightarrow> rd xs i = Some (xs ! nat i)"
  by (simp add: rd_def)

lemma rd_nat [buf_simps]: "rd xs (int n) = (if n < length xs then Some (xs ! n) else None)"
  by (simp add: rd_def)

lemma rd_numeral [buf_simps]:
  "rd xs (numeral k) = (if numeral k < length xs then Some (xs ! numeral k) else None)"
  by (simp add: rd_def)

lemma rd_0 [buf_simps]: "rd xs 0 = (if xs = [] then None else Some (xs ! 0))"
  by (auto simp: rd_def)

lemma rd_1 [buf_simps]: "rd xs 1 = (if 1 < length xs then Some (xs ! 1) else None)"
  by (auto simp: rd_def)

lemma rd_append1: "i < int (length xs) \<Longrightarrow> rd (xs @ ys) i = rd xs i"
  by (auto simp: rd_def nth_append nat_less_iff)

lemma rd_append2:
  "int (length xs) \<le> i \<Longrightarrow> rd (xs @ ys) i = rd ys (i - int (length xs))"
  by (auto simp: rd_def nth_append nat_less_iff nat_diff_distrib)

lemma wr_Some: "0 \<le> i \<Longrightarrow> i < int (length xs) \<Longrightarrow> wr xs i v = Some (xs[nat i := v])"
  by (simp add: wr_def)

lemma wr_nat [buf_simps]: "wr xs (int n) v = (if n < length xs then Some (xs[n := v]) else None)"
  by (simp add: wr_def)

lemma wr_numeral [buf_simps]:
  "wr xs (numeral k) v = (if numeral k < length xs then Some (xs[numeral k := v]) else None)"
  by (simp add: wr_def)

lemma wr_0 [buf_simps]: "wr xs 0 v = (if xs = [] then None else Some (xs[0 := v]))"
  by (auto simp: wr_def)

lemma wr_1 [buf_simps]: "wr xs 1 v = (if 1 < length xs then Some (xs[1 := v]) else None)"
  by (auto simp: wr_def)

lemma wr_length: "wr xs i v = Some ys \<Longrightarrow> length ys = length xs"
  by (auto simp: wr_def split: if_splits)

lemma wr_block_length: "wr_block xs i zs = Some ys \<Longrightarrow> length ys = length xs"
  by (auto simp: wr_block_def split: if_splits)

text \<open>
  Filling an array from the front, as the message builders do: a write at the end of the
  part already written extends it by one element.
\<close>

lemma wr_append_end [buf_simps]:
  "wr (xs @ y # ys) (int (length xs)) v = Some (xs @ v # ys)"
  by (simp add: wr_def)

lemma wr_append_at:
  "i = int (length xs) \<Longrightarrow> wr (xs @ y # ys) i v = Some (xs @ v # ys)"
  by (simp add: wr_def)

lemma wr_block_append_end:
  "length zs \<le> length ys \<Longrightarrow>
   wr_block (xs @ ys) (int (length xs)) zs = Some (xs @ zs @ drop (length zs) ys)"
  by (simp add: wr_block_def)

lemma rd_block_all:
  "0 \<le> n \<Longrightarrow> n \<le> int (length xs) \<Longrightarrow> rd_block xs 0 n = Some (take (nat n) xs)"
  by (simp add: rd_block_def)

lemma rd_block_length: "rd_block xs i n = Some ys \<Longrightarrow> length ys = nat n"
  by (auto simp: rd_block_def split: if_splits)

text \<open>
  An array whose front the code has filled with \<open>pre\<close> and whose other cells still hold what
  \<open>t\<close> holds: how the message builders leave a buffer on the stack.
\<close>

definition filled :: "'a list \<Rightarrow> 'a list \<Rightarrow> 'a list" where
  "filled pre t = pre @ drop (length pre) t"

lemma filled_nil [simp]: "filled [] t = t"
  by (simp add: filled_def)

lemma length_filled [simp]: "length pre \<le> length t \<Longrightarrow> length (filled pre t) = length t"
  by (simp add: filled_def)

lemma wr_filled:
  "i = int (length pre) \<Longrightarrow> length pre < length t \<Longrightarrow> wr (filled pre t) i v = Some (filled (pre @ [v]) t)"
  by (simp add: filled_def wr_append_at flip: Cons_nth_drop_Suc)

lemma wr_block_filled:
  "i = int (length pre) \<Longrightarrow> length pre + length ys \<le> length t \<Longrightarrow>
   wr_block (filled pre t) i ys = Some (filled (pre @ ys) t)"
  by (simp add: filled_def wr_block_append_end add.commute)

lemma wr_filled_inside:
  "0 \<le> i \<Longrightarrow> i < int (length pre) \<Longrightarrow> wr (filled pre t) i v = Some (filled (pre[nat i := v]) t)"
  by (simp add: filled_def wr_def list_update_append nat_less_iff)

lemma rd_filled: "i < int (length pre) \<Longrightarrow> rd (filled pre t) i = rd pre i"
  by (simp add: filled_def rd_append1)

lemma take_filled [simp]: "take (length pre) (filled pre t) = pre"
  by (simp add: filled_def)

lemma rd_block_filled:
  "n = int (length pre) \<Longrightarrow> rd_block (filled pre t) 0 n = Some pre"
  by (simp add: filled_def rd_block_def)

text \<open>Reading behind a header of known length.\<close>

lemma rd_behind: "int (length hdr) = h \<Longrightarrow> 0 \<le> k \<Longrightarrow> rd (hdr @ xs) (h + k) = rd xs k"
  by (simp add: rd_append2)

lemma rd_behind_0: "int (length hdr) = h \<Longrightarrow> rd (hdr @ xs) h = rd xs 0"
  by (simp add: rd_append2)

lemma rd_block_behind:
  "int (length hdr) = h \<Longrightarrow> 0 \<le> k \<Longrightarrow> rd_block (hdr @ xs) (h + k) n = rd_block xs k n"
  by (auto simp: rd_block_def nat_add_distrib)

lemma rd_Cons:
  "rd (x # xs) i = (if i = 0 then Some x else rd xs (i - 1))"
  by (auto simp: rd_def nth_Cons' nat_diff_distrib)

lemma list_all_take [simp]: "list_all P xs \<Longrightarrow> list_all P (take n xs)"
  by (auto simp: list_all_iff dest: in_set_takeD)

lemma list_all_drop [simp]: "list_all P xs \<Longrightarrow> list_all P (drop n xs)"
  by (auto simp: list_all_iff dest: in_set_dropD)

lemma list_all_update: "list_all P xs \<Longrightarrow> P v \<Longrightarrow> list_all P (xs[i := v])"
  by (auto simp: list_all_iff dest!: set_update_subset_insert [THEN subsetD])

subsection \<open>Counting loops\<close>

text \<open>
  \<open>for (i = a; i < a + n; i++) body\<close>: the body takes the index and the variables it changes.
  The rule below is the invariant rule of the loop: it also gives termination without a fault.
\<close>

primrec for_loop :: "nat \<Rightarrow> int \<Rightarrow> (int \<Rightarrow> 's \<Rightarrow> 's option) \<Rightarrow> 's \<Rightarrow> 's option" where
  "for_loop 0 i f s = Some s"
| "for_loop (Suc n) i f s = f i s \<bind> for_loop n (i + 1) f"

lemma for_loop_inv:
  assumes "P 0 s"
    and "\<And>k s. k < n \<Longrightarrow> P k s \<Longrightarrow> \<exists>s'. f (i + int k) s = Some s' \<and> P (Suc k) s'"
  shows "\<exists>s'. for_loop n i f s = Some s' \<and> P n s'"
  using assms
proof (induction n arbitrary: P i s)
  case 0
  then show ?case by simp
next
  case (Suc n)
  from Suc.prems(2) [of 0 s] Suc.prems(1) obtain t where t: "f i s = Some t" "P 1 t"
    by auto
  have "\<exists>s'. for_loop n (i + 1) f t = Some s' \<and> P (Suc n) s'"
  proof (rule Suc.IH [of "\<lambda>k. P (Suc k)"])
    show "P (Suc 0) t" using t by simp
    fix k s
    assume "k < n" "P (Suc k) s"
    then show "\<exists>s'. f (i + 1 + int k) s = Some s' \<and> P (Suc (Suc k)) s'"
      using Suc.prems(2) [of "Suc k" s] by (simp add: algebra_simps)
  qed
  with t show ?case by simp
qed

text \<open>When the state after \<open>k\<close> rounds is known as a function of \<open>k\<close>.\<close>

lemma for_loop_states:
  assumes "\<And>k. k < n \<Longrightarrow> f (i + int k) (S k) = Some (S (Suc k))"
  shows "for_loop n i f (S 0) = Some (S n)"
  using for_loop_inv [of "\<lambda>k s. s = S k" "S 0" n f i] assms by simp

lemma for_loop_inv_Some:
  assumes "P 0 s"
    and "\<And>k s s'. k < n \<Longrightarrow> P k s \<Longrightarrow> f (i + int k) s = Some s' \<Longrightarrow> P (Suc k) s'"
    and "for_loop n i f s = Some r"
  shows "P n r"
  using assms
proof (induction n arbitrary: P i s)
  case 0
  then show ?case by simp
next
  case (Suc n)
  from Suc.prems(3) obtain t where t: "f i s = Some t" "for_loop n (i + 1) f t = Some r"
    by (auto split: bind_splits)
  show ?case
  proof (rule Suc.IH [of "\<lambda>k. P (Suc k)" t "i + 1", OF _ _ t(2)])
    show "P (Suc 0) t" using Suc.prems(2) [of 0 s t] Suc.prems(1) t(1) by simp
    fix k s s'
    assume "k < n" "P (Suc k) s" "f (i + 1 + int k) s = Some s'"
    then show "P (Suc (Suc k)) s'"
      using Suc.prems(2) [of "Suc k" s s'] by (simp add: algebra_simps)
  qed
qed

subsection \<open>Bytes and 16-bit fields\<close>

text \<open>
  \<open>(hi << 8) + lo\<close> on two bytes promoted to \<open>int\<close>; \<open>(uint8_t)(x >> 8)\<close> and
  \<open>(uint8_t)(x & 0x00ff)\<close> on an \<open>int\<close> or a promoted \<open>uint16_t\<close>.
\<close>

definition be16 :: "u8 \<Rightarrow> u8 \<Rightarrow> int" where
  "be16 hi lo = push_bit 8 (uint hi) + uint lo"

definition be16_or :: "u8 \<Rightarrow> u8 \<Rightarrow> int" where
  "be16_or hi lo = push_bit 8 (uint hi) OR uint lo"

definition hi8 :: "int \<Rightarrow> u8" where
  "hi8 x = word_of_int (drop_bit 8 x)"

definition lo8 :: "int \<Rightarrow> u8" where
  "lo8 x = word_of_int (x AND 255)"

lemma uint_u8_range: "0 \<le> uint (b :: u8) \<and> uint b < 256"
  using uint_bounded [of b] by simp

lemma unat_u8_less: "unat (b :: u8) < 256"
  using unsigned_less [of b, where ?'a = nat] by simp

lemma uint_u16_range: "0 \<le> uint (w :: u16) \<and> uint w < 65536"
  using uint_bounded [of w] by simp

lemma and_255: "(x::int) AND 255 = x mod 256"
  using take_bit_eq_mask [of 8 x] by (simp add: mask_eq_exp_minus_1 take_bit_eq_mod)

lemma be16_eq: "be16 hi lo = uint hi * 256 + uint lo"
  by (simp add: be16_def push_bit_eq_mult)

lemma be16_range: "0 \<le> be16 hi lo \<and> be16 hi lo < 65536"
  using uint_u8_range [of hi] uint_u8_range [of lo] by (simp add: be16_eq)

lemma be16_nonneg [simp]: "0 \<le> be16 hi lo"
  using be16_range by blast

lemma be16_or_eq [wire_simps]: "be16_or hi lo = be16 hi lo"
proof -
  have "push_bit 8 (uint hi) AND uint lo = 0"
  proof (rule bit_eqI)
    fix n
    have "bit (uint lo) n \<Longrightarrow> n < 8" by (simp add: bit_uint_iff)
    then show "bit (push_bit 8 (uint hi) AND uint lo) n = bit (0::int) n"
      by (auto simp: bit_and_iff bit_push_bit_iff)
  qed
  then show ?thesis
    by (simp add: be16_or_def be16_def disjunctive_add_eq_or)
qed

lemma uint_hi8: "uint (hi8 x) = x div 256 mod 256"
  by (simp add: hi8_def uint_word_of_int drop_bit_eq_div)

lemma uint_lo8: "uint (lo8 x) = x mod 256"
  by (simp add: lo8_def uint_word_of_int and_255)

lemma be16_hi8_lo8 [wire_simps]: "0 \<le> x \<Longrightarrow> x < 65536 \<Longrightarrow> be16 (hi8 x) (lo8 x) = x"
  by (simp add: be16_eq uint_hi8 uint_lo8)

lemma be16_hi8_lo8_u16 [wire_simps]: "be16 (hi8 (uint w)) (lo8 (uint w)) = uint (w :: u16)"
  using uint_u16_range [of w] by (simp add: be16_hi8_lo8)

lemma hi8_be16 [wire_simps]: "hi8 (be16 a b) = a"
  using uint_u8_range [of a] uint_u8_range [of b]
  by (intro word_uint_eqI) (simp add: uint_hi8 be16_eq)

lemma lo8_be16 [wire_simps]: "lo8 (be16 a b) = b"
  using uint_u8_range [of a] uint_u8_range [of b]
  by (intro word_uint_eqI) (simp add: uint_lo8 be16_eq)

lemma uint_of_be16 [wire_simps]: "uint (word_of_int (be16 a b) :: u16) = be16 a b"
  using be16_range [of a b] by (simp add: uint_word_of_int)

lemma u16_of_uint [wire_simps]: "(word_of_int (uint w) :: u16) = w"
  by simp

end
