(* ===== verification/Modbus_Types.thy ===== *)
theory Modbus_Types
  imports Prelude
begin

text \<open>
  The constants of \<open>modbus.h\<close>, \<open>modbus-private.h\<close>, \<open>modbus-tcp-private.h\<close> and
  \<open>modbus-rtu-private.h\<close>, the structures \<open>modbus_t\<close>, \<open>modbus_mapping_t\<close> and \<open>sft_t\<close>, and the
  operating system the library calls, as a record of functions over an abstract world.

  A constant of the headers is an abbreviation, so that it is transparent to the simplifier.
\<close>

subsection \<open>Function codes, limits, exception codes\<close>

abbreviation (input) MODBUS_FC_READ_COILS :: int where "MODBUS_FC_READ_COILS \<equiv> 1"
abbreviation (input) MODBUS_FC_READ_DISCRETE_INPUTS :: int where "MODBUS_FC_READ_DISCRETE_INPUTS \<equiv> 2"
abbreviation (input) MODBUS_FC_READ_HOLDING_REGISTERS :: int where "MODBUS_FC_READ_HOLDING_REGISTERS \<equiv> 3"
abbreviation (input) MODBUS_FC_READ_INPUT_REGISTERS :: int where "MODBUS_FC_READ_INPUT_REGISTERS \<equiv> 4"
abbreviation (input) MODBUS_FC_WRITE_SINGLE_COIL :: int where "MODBUS_FC_WRITE_SINGLE_COIL \<equiv> 5"
abbreviation (input) MODBUS_FC_WRITE_SINGLE_REGISTER :: int where "MODBUS_FC_WRITE_SINGLE_REGISTER \<equiv> 6"
abbreviation (input) MODBUS_FC_READ_EXCEPTION_STATUS :: int where "MODBUS_FC_READ_EXCEPTION_STATUS \<equiv> 7"
abbreviation (input) MODBUS_FC_WRITE_MULTIPLE_COILS :: int where "MODBUS_FC_WRITE_MULTIPLE_COILS \<equiv> 15"
abbreviation (input) MODBUS_FC_WRITE_MULTIPLE_REGISTERS :: int where "MODBUS_FC_WRITE_MULTIPLE_REGISTERS \<equiv> 16"
abbreviation (input) MODBUS_FC_REPORT_SLAVE_ID :: int where "MODBUS_FC_REPORT_SLAVE_ID \<equiv> 17"
abbreviation (input) MODBUS_FC_MASK_WRITE_REGISTER :: int where "MODBUS_FC_MASK_WRITE_REGISTER \<equiv> 22"
abbreviation (input) MODBUS_FC_WRITE_AND_READ_REGISTERS :: int where "MODBUS_FC_WRITE_AND_READ_REGISTERS \<equiv> 23"

abbreviation (input) MODBUS_BROADCAST_ADDRESS :: int where "MODBUS_BROADCAST_ADDRESS \<equiv> 0"
abbreviation (input) MODBUS_TCP_SLAVE :: int where "MODBUS_TCP_SLAVE \<equiv> 255"

abbreviation (input) MODBUS_MAX_READ_BITS :: int where "MODBUS_MAX_READ_BITS \<equiv> 2000"
abbreviation (input) MODBUS_MAX_WRITE_BITS :: int where "MODBUS_MAX_WRITE_BITS \<equiv> 1968"
abbreviation (input) MODBUS_MAX_READ_REGISTERS :: int where "MODBUS_MAX_READ_REGISTERS \<equiv> 125"
abbreviation (input) MODBUS_MAX_WRITE_REGISTERS :: int where "MODBUS_MAX_WRITE_REGISTERS \<equiv> 123"
abbreviation (input) MODBUS_MAX_WR_WRITE_REGISTERS :: int where "MODBUS_MAX_WR_WRITE_REGISTERS \<equiv> 121"
abbreviation (input) MODBUS_MAX_WR_READ_REGISTERS :: int where "MODBUS_MAX_WR_READ_REGISTERS \<equiv> 125"
abbreviation (input) MODBUS_MAX_PDU_LENGTH :: int where "MODBUS_MAX_PDU_LENGTH \<equiv> 253"
abbreviation (input) MAX_MESSAGE_LENGTH :: nat where "MAX_MESSAGE_LENGTH \<equiv> 260"
abbreviation (input) MIN_REQ_LENGTH :: nat where "MIN_REQ_LENGTH \<equiv> 12"

abbreviation (input) MODBUS_EXCEPTION_ILLEGAL_FUNCTION :: int where "MODBUS_EXCEPTION_ILLEGAL_FUNCTION \<equiv> 1"
abbreviation (input) MODBUS_EXCEPTION_ILLEGAL_DATA_ADDRESS :: int where "MODBUS_EXCEPTION_ILLEGAL_DATA_ADDRESS \<equiv> 2"
abbreviation (input) MODBUS_EXCEPTION_ILLEGAL_DATA_VALUE :: int where "MODBUS_EXCEPTION_ILLEGAL_DATA_VALUE \<equiv> 3"
abbreviation (input) MODBUS_EXCEPTION_MAX :: int where "MODBUS_EXCEPTION_MAX \<equiv> 12"

abbreviation (input) MODBUS_ENOBASE :: int where "MODBUS_ENOBASE \<equiv> 112345678"
abbreviation (input) EMBXILFUN :: int where "EMBXILFUN \<equiv> 112345679"
abbreviation (input) EMBXILADD :: int where "EMBXILADD \<equiv> 112345680"
abbreviation (input) EMBXILVAL :: int where "EMBXILVAL \<equiv> 112345681"
abbreviation (input) EMBXGTAR :: int where "EMBXGTAR \<equiv> 112345689"
abbreviation (input) EMBBADCRC :: int where "EMBBADCRC \<equiv> 112345690"
abbreviation (input) EMBBADDATA :: int where "EMBBADDATA \<equiv> 112345691"
abbreviation (input) EMBBADEXC :: int where "EMBBADEXC \<equiv> 112345692"
abbreviation (input) EMBMDATA :: int where "EMBMDATA \<equiv> 112345694"
abbreviation (input) EMBBADSLAVE :: int where "EMBBADSLAVE \<equiv> 112345695"

text \<open>The messages; \<open>strerror\<close> of the C library gives those for its own numbers.\<close>

definition modbus_strerror :: "(int \<Rightarrow> string) \<Rightarrow> int \<Rightarrow> string" where
  "modbus_strerror strerror errnum =
     (if errnum = EMBXILFUN then ''Illegal function''
      else if errnum = EMBXILADD then ''Illegal data address''
      else if errnum = EMBXILVAL then ''Illegal data value''
      else if errnum = MODBUS_ENOBASE + 4 then ''Slave device or server failure''
      else if errnum = MODBUS_ENOBASE + 5 then ''Acknowledge''
      else if errnum = MODBUS_ENOBASE + 6 then ''Slave device or server is busy''
      else if errnum = MODBUS_ENOBASE + 7 then ''Negative acknowledge''
      else if errnum = MODBUS_ENOBASE + 8 then ''Memory parity error''
      else if errnum = MODBUS_ENOBASE + 10 then ''Gateway path unavailable''
      else if errnum = EMBXGTAR then ''Target device failed to respond''
      else if errnum = EMBBADCRC then ''Invalid CRC''
      else if errnum = EMBBADDATA then ''Invalid data''
      else if errnum = EMBBADEXC then ''Invalid exception code''
      else if errnum = EMBMDATA then ''Too many data''
      else if errnum = EMBBADSLAVE then ''Response not from requested slave''
      else strerror errnum)"

text \<open>Of the numbers the library itself uses, only exception 9 and \<open>EMBUNKEXC\<close> have no message.\<close>

lemma modbus_strerror_own:
  "(\<forall>f g. modbus_strerror f n = modbus_strerror g n) \<longleftrightarrow>
   n \<in> {MODBUS_ENOBASE + 1..EMBBADSLAVE} - {MODBUS_ENOBASE + 9, MODBUS_ENOBASE + 15}"
proof
  assume "\<forall>f g. modbus_strerror f n = modbus_strerror g n"
  then have "modbus_strerror (\<lambda>_. []) n = modbus_strerror (\<lambda>_. ''?'') n" by blast
  then show "n \<in> {MODBUS_ENOBASE + 1..EMBBADSLAVE} - {MODBUS_ENOBASE + 9, MODBUS_ENOBASE + 15}"
    by (auto simp: modbus_strerror_def split: if_splits)
next
  assume "n \<in> {MODBUS_ENOBASE + 1..EMBBADSLAVE} - {MODBUS_ENOBASE + 9, MODBUS_ENOBASE + 15}"
  then have "112345679 \<le> n" "n \<le> 112345695" "n \<noteq> 112345687" "n \<noteq> 112345693" by auto
  then show "\<forall>f g. modbus_strerror f n = modbus_strerror g n"
    by (auto simp: modbus_strerror_def; presburger)
qed


abbreviation (input) MODBUS_ERROR_RECOVERY_NONE :: int where "MODBUS_ERROR_RECOVERY_NONE \<equiv> 0"
abbreviation (input) MODBUS_ERROR_RECOVERY_LINK :: int where "MODBUS_ERROR_RECOVERY_LINK \<equiv> 2"
abbreviation (input) MODBUS_ERROR_RECOVERY_PROTOCOL :: int where "MODBUS_ERROR_RECOVERY_PROTOCOL \<equiv> 4"
abbreviation (input) MODBUS_QUIRK_NONE :: int where "MODBUS_QUIRK_NONE \<equiv> 0"
abbreviation (input) MODBUS_QUIRK_MAX_SLAVE :: int where "MODBUS_QUIRK_MAX_SLAVE \<equiv> 2"
abbreviation (input) MODBUS_QUIRK_REPLY_TO_BROADCAST :: int where "MODBUS_QUIRK_REPLY_TO_BROADCAST \<equiv> 4"

text \<open>The \<open>errno\<close> values of the C library the code compares with (Linux numbering).\<close>

abbreviation (input) EINTR :: int where "EINTR \<equiv> 4"
abbreviation (input) EBADF :: int where "EBADF \<equiv> 9"
abbreviation (input) ENOMEM :: int where "ENOMEM \<equiv> 12"
abbreviation (input) EINVAL :: int where "EINVAL \<equiv> 22"
abbreviation (input) EPIPE :: int where "EPIPE \<equiv> 32"
abbreviation (input) ENOPROTOOPT :: int where "ENOPROTOOPT \<equiv> 92"
abbreviation (input) ECONNRESET :: int where "ECONNRESET \<equiv> 104"
abbreviation (input) ETIMEDOUT :: int where "ETIMEDOUT \<equiv> 110"
abbreviation (input) ECONNREFUSED :: int where "ECONNREFUSED \<equiv> 111"
abbreviation (input) EINPROGRESS :: int where "EINPROGRESS \<equiv> 115"

subsection \<open>Structures\<close>

datatype msg_type = MSG_INDICATION | MSG_CONFIRMATION

record sft =
  sft_slave :: int
  sft_function :: int
  sft_t_id :: int

record timeval =
  tv_sec :: int
  tv_usec :: int

text \<open>
  \<open>modbus_tcp_t\<close>, \<open>modbus_tcp_pi_t\<close>, \<open>modbus_rtu_t\<close> (POSIX build, with the RS485 and RTS
  fields that Linux has). \<open>set_rts\<close> is a function pointer: the library's own function, or
  one the application installed, which the model knows by a number.
\<close>

record modbus_tcp =
  tcp_t_id :: u16
  tcp_port :: int
  tcp_ip :: string

record modbus_tcp_pi =
  pi_t_id :: u16
  pi_node :: string
  pi_service :: string

datatype set_rts_fn = Modbus_rtu_ioctl_rts | Custom_set_rts nat

text \<open>\<open>struct termios\<close>: the flag words, the two speeds, the control characters VMIN and VTIME.\<close>

record termios =
  c_iflag :: u32
  c_oflag :: u32
  c_cflag :: u32
  c_lflag :: u32
  c_ispeed :: int
  c_ospeed :: int
  c_vmin :: u8
  c_vtime :: u8

record modbus_rtu =
  rtu_device :: string
  rtu_baud :: int
  rtu_data_bit :: u8
  rtu_stop_bit :: u8
  rtu_parity :: char
  rtu_old_tios :: termios
  rtu_serial_mode :: int
  rtu_rts :: int
  rtu_rts_delay :: int
  rtu_onebyte_time :: int
  rtu_set_rts :: set_rts_fn
  rtu_confirmation_to_ignore :: bool

text \<open>
  \<open>ctx->backend\<close> and \<open>ctx->backend_data\<close> are always set together by the constructors
  \<open>modbus_new_tcp\<close>, \<open>modbus_new_tcp_pi\<close> and \<open>modbus_new_rtu\<close>: one tagged value stands for both.
\<close>

datatype backend = TCP_backend modbus_tcp | TCP_PI_backend modbus_tcp_pi | RTU_backend modbus_rtu

datatype backend_type = MODBUS_BACKEND_TYPE_RTU | MODBUS_BACKEND_TYPE_TCP

record modbus =
  ctx_slave :: int
  ctx_s :: int
  ctx_debug :: int
  ctx_error_recovery :: int
  ctx_quirks :: int
  ctx_response_timeout :: timeval
  ctx_byte_timeout :: timeval
  ctx_indication_timeout :: timeval
  ctx_backend :: backend

record mapping =
  mb_nb_bits :: int
  mb_start_bits :: int
  mb_nb_input_bits :: int
  mb_start_input_bits :: int
  mb_nb_input_registers :: int
  mb_start_input_registers :: int
  mb_nb_registers :: int
  mb_start_registers :: int
  mb_tab_bits :: "u8 list"
  mb_tab_input_bits :: "u8 list"
  mb_tab_input_registers :: "u16 list"
  mb_tab_registers :: "u16 list"

text \<open>The tables have the sizes their counters announce, and a bit is stored as 0 or 1.\<close>

definition is_bit :: "u8 \<Rightarrow> bool" where
  "is_bit b \<longleftrightarrow> b = 0 \<or> b = 1"

definition mapping_ok :: "mapping \<Rightarrow> bool" where
  "mapping_ok m \<longleftrightarrow>
     mb_nb_bits m = int (length (mb_tab_bits m)) \<and>
     mb_nb_input_bits m = int (length (mb_tab_input_bits m)) \<and>
     mb_nb_registers m = int (length (mb_tab_registers m)) \<and>
     mb_nb_input_registers m = int (length (mb_tab_input_registers m)) \<and>
     list_all is_bit (mb_tab_bits m) \<and> list_all is_bit (mb_tab_input_bits m)"

subsection \<open>The operating system\<close>

text \<open>
  Every system call of the library, as a function of the world \<open>'w\<close> it acts on. An error
  result carries the value the call leaves in \<open>errno\<close>; a successful read carries the bytes
  it stored, so that its return value is their number. \<open>os_select_set\<close> is \<open>select\<close> on a
  set of descriptors and yields the ready ones; \<open>os_stop_requested\<close> reads the flag that the
  program's signal handler sets, \<open>os_signal\<close> installs that handler. None of these has a definition here:
  the theorems either hold for any such record or name the documented behaviour they need.
\<close>

datatype sockopt = TCP_NODELAY | IP_TOS_LOWDELAY | SO_REUSEADDR

datatype sockaddr = Sockaddr_in u32 int | Sockaddr_other nat

record addrinfo =
  ai_family :: int
  ai_socktype :: int
  ai_protocol :: int
  ai_addr :: sockaddr

record 'w os =
  os_send :: "int \<Rightarrow> u8 list \<Rightarrow> 'w \<Rightarrow> (int + nat) \<times> 'w"
  os_write :: "int \<Rightarrow> u8 list \<Rightarrow> 'w \<Rightarrow> (int + nat) \<times> 'w"
  os_recv :: "int \<Rightarrow> int \<Rightarrow> 'w \<Rightarrow> (int + u8 list) \<times> 'w"
  os_recv_dontwait :: "int \<Rightarrow> int \<Rightarrow> 'w \<Rightarrow> (int + u8 list) \<times> 'w"
  os_read :: "int \<Rightarrow> int \<Rightarrow> 'w \<Rightarrow> (int + u8 list) \<times> 'w"
  os_select :: "int \<Rightarrow> timeval option \<Rightarrow> 'w \<Rightarrow> (int + nat) \<times> timeval option \<times> 'w"
  os_select_write :: "int \<Rightarrow> timeval \<Rightarrow> 'w \<Rightarrow> (int + nat) \<times> 'w"
  os_nanosleep :: "int \<times> int \<Rightarrow> 'w \<Rightarrow> (int \<times> int \<times> int) option \<times> 'w"
  os_usleep :: "int \<Rightarrow> 'w \<Rightarrow> 'w"
  os_socket :: "int \<Rightarrow> int \<Rightarrow> int \<Rightarrow> 'w \<Rightarrow> (int + nat) \<times> 'w"
  os_setsockopt :: "int \<Rightarrow> sockopt \<Rightarrow> 'w \<Rightarrow> (int + unit) \<times> 'w"
  os_getsockopt_error :: "int \<Rightarrow> 'w \<Rightarrow> (int + int) \<times> 'w"
  os_inet_pton :: "string \<Rightarrow> u32 option"
  os_getaddrinfo :: "string option \<Rightarrow> string \<Rightarrow> bool \<Rightarrow> 'w \<Rightarrow> (int + addrinfo list) \<times> 'w"
  os_connect :: "int \<Rightarrow> sockaddr \<Rightarrow> 'w \<Rightarrow> (int + unit) \<times> 'w"
  os_bind :: "int \<Rightarrow> sockaddr \<Rightarrow> 'w \<Rightarrow> (int + unit) \<times> 'w"
  os_listen :: "int \<Rightarrow> int \<Rightarrow> 'w \<Rightarrow> (int + unit) \<times> 'w"
  os_accept :: "int \<Rightarrow> 'w \<Rightarrow> (int + nat) \<times> 'w"
  os_shutdown :: "int \<Rightarrow> 'w \<Rightarrow> 'w"
  os_close :: "int \<Rightarrow> 'w \<Rightarrow> 'w"
  os_open :: "string \<Rightarrow> 'w \<Rightarrow> (int + nat) \<times> 'w"
  os_tcgetattr :: "int \<Rightarrow> 'w \<Rightarrow> termios \<times> 'w"
  os_tcsetattr :: "int \<Rightarrow> termios \<Rightarrow> 'w \<Rightarrow> (int + unit) \<times> 'w"
  os_cfsetispeed :: "int \<Rightarrow> termios \<Rightarrow> int + termios"
  os_cfsetospeed :: "int \<Rightarrow> termios \<Rightarrow> int + termios"
  os_tcflush :: "int \<Rightarrow> 'w \<Rightarrow> (int + unit) \<times> 'w"
  os_tiocmget :: "int \<Rightarrow> 'w \<Rightarrow> u32 \<times> 'w"
  os_tiocmset :: "int \<Rightarrow> u32 \<Rightarrow> 'w \<Rightarrow> 'w"
  os_tiocgrs485 :: "int \<Rightarrow> 'w \<Rightarrow> (int + u32) \<times> 'w"
  os_tiocsrs485 :: "int \<Rightarrow> u32 \<Rightarrow> 'w \<Rightarrow> (int + unit) \<times> 'w"
  os_select_set :: "int set \<Rightarrow> 'w \<Rightarrow> (int + int set) \<times> 'w"
  os_stop_requested :: "'w \<Rightarrow> bool \<times> 'w"
  os_signal :: "'w \<Rightarrow> bool \<times> 'w"
  os_stack :: "nat \<Rightarrow> u8"
  os_custom_rts :: "nat \<Rightarrow> int \<Rightarrow> bool \<Rightarrow> 'w \<Rightarrow> 'w"

text \<open>
  A local array of \<open>n\<close> bytes that the code has not initialised: its cells hold anything
  (\<open>os_stack\<close>), so a result that a theorem fixes does not depend on them.
\<close>

definition uninit :: "'w os \<Rightarrow> nat \<Rightarrow> u8 list" where
  "uninit os n = map (os_stack os) [0..<n]"

lemma length_uninit [simp]: "length (uninit os n) = n"
  by (simp add: uninit_def)

text \<open>
  The state a call of the library works on: the context, the C library's \<open>errno\<close>, the world.
  A \<open>modbus_t *\<close> argument of the public functions is either null or points to that context.
\<close>

datatype ctx_ptr = NULL_ctx | The_ctx

record 'w mst =
  st_ctx :: modbus
  st_errno :: int
  st_world :: 'w

abbreviation set_errno :: "int \<Rightarrow> 'w mst \<Rightarrow> 'w mst" where
  "set_errno e st \<equiv> st\<lparr>st_errno := e\<rparr>"

end
