(* ===== verification/Modbus_Strings.thy ===== *)
theory Modbus_Strings
  imports Modbus_Types
begin

text \<open>
  \<open>strlcpy\<close> of \<open>libmodbus/src/modbus.c\<close> (the fallback for C libraries without it), on the memory
  of the two strings: the source is its characters followed by the terminating NUL.
\<close>

abbreviation (input) NUL :: char where "NUL \<equiv> CHR 0x00"

text \<open>
  \<open>do { if ((*d++ = *s++) == 0) break; } while (--n != 0);\<close> with \<open>n\<close> the room left,
  \<open>d\<close> the index of the next cell and \<open>s\<close> the rest of the source. Reading past the end of the
  source or writing past the end of the destination is \<open>None\<close>.
\<close>

fun strlcpy_copy :: "nat \<Rightarrow> char list \<Rightarrow> int \<Rightarrow> char list \<Rightarrow> (nat \<times> char list \<times> int \<times> char list) option" where
  "strlcpy_copy 0 dest d s = Some (0, dest, d, s)"
| "strlcpy_copy (Suc n) dest d [] = None"
| "strlcpy_copy (Suc n) dest d (c # s) = do {
     dest \<leftarrow> wr dest d c;
     if c = NUL then Some (Suc n, dest, d + 1, s)
     else strlcpy_copy n dest (d + 1) s }"

text \<open>\<open>while (*s++) ;\<close>\<close>

fun skip_string :: "char list \<Rightarrow> char list option" where
  "skip_string [] = None"
| "skip_string (c # s) = (if c = NUL then Some s else skip_string s)"

definition strlcpy :: "char list \<Rightarrow> char list \<Rightarrow> nat \<Rightarrow> (int \<times> char list) option" where
  "strlcpy dest src dest_size = do {
     (n, dest, d, s) \<leftarrow>
       (if dest_size \<noteq> 0 \<and> dest_size - 1 \<noteq> 0 then strlcpy_copy (dest_size - 1) dest 0 src
        else Some (0, dest, 0, src));
     (dest, s) \<leftarrow>
       (if n = 0 then do {
          dest \<leftarrow> (if dest_size \<noteq> 0 then wr dest d NUL else Some dest);
          s \<leftarrow> skip_string s;
          Some (dest, s) }
        else Some (dest, s));
     Some (int (length src) - int (length s) - 1, dest) }"

text \<open>The characters of a C string stored in memory: those before the first NUL.\<close>

definition c_string :: "char list \<Rightarrow> string" where
  "c_string mem = takeWhile (\<lambda>c. c \<noteq> NUL) mem"

lemma skip_string_run: "NUL \<notin> set str \<Longrightarrow> skip_string (str @ NUL # rest) = Some rest"
  by (induction str) auto

lemma strlcpy_copy_run:
  assumes "NUL \<notin> set str" "length pre + n \<le> length (pre @ room)"
  shows "strlcpy_copy n (pre @ room) (int (length pre)) (str @ NUL # rest) =
    (if length str < n
     then Some (n - length str, pre @ str @ NUL # drop (Suc (length str)) room,
                int (length pre + Suc (length str)), rest)
     else Some (0, pre @ take n str @ drop n room, int (length pre + n), drop n str @ NUL # rest))"
  using assms
proof (induction n arbitrary: str pre room)
  case 0
  then show ?case by simp
next
  case (Suc n)
  then obtain r room' where room: "room = r # room'" by (cases room) auto
  show ?case
  proof (cases str)
    case Nil
    then show ?thesis by (simp add: room buf_simps)
  next
    case (Cons c str')
    have "strlcpy_copy n ((pre @ [c]) @ room') (int (length (pre @ [c]))) (str' @ NUL # rest) =
      (if length str' < n
       then Some (n - length str', (pre @ [c]) @ str' @ NUL # drop (Suc (length str')) room',
                  int (length (pre @ [c]) + Suc (length str')), rest)
       else Some (0, (pre @ [c]) @ take n str' @ drop n room', int (length (pre @ [c]) + n),
                  drop n str' @ NUL # rest))"
      using Suc.prems Cons room by (intro Suc.IH) auto
    with Cons Suc.prems show ?thesis by (auto simp: room buf_simps algebra_simps)
  qed
qed

lemma c_string_append: "NUL \<notin> set str \<Longrightarrow> c_string (str @ NUL # rest) = str"
  unfolding c_string_def by (induction str) auto

text \<open>C31: On a destination of at least \<open>dest_size\<close> cells, \<open>strlcpy\<close> stays inside both arrays,
  returns the length of the source string, and leaves in the destination the NUL-terminated
  prefix of it that fits in \<open>dest_size - 1\<close> characters (nothing at all when \<open>dest_size\<close> is 0);
  so the result is truncated exactly when the returned length is at least \<open>dest_size\<close>.\<close>

theorem strlcpy_truncates:
  assumes "NUL \<notin> set str" "dest_size \<le> length dest"
  shows "\<exists>dest'. strlcpy dest (str @ [NUL]) dest_size = Some (int (length str), dest') \<and>
    length dest' = length dest \<and>
    (if dest_size = 0 then dest' = dest
     else c_string dest' = take (dest_size - 1) str)"
proof (cases "dest_size \<le> 1")
  case True
  then show ?thesis
  proof (cases "dest_size = 0")
    case True
    then show ?thesis using assms by (simp add: strlcpy_def skip_string_run)
  next
    case False
    with True assms obtain d0 ds where "dest_size = 1" "dest = d0 # ds" by (cases dest) auto
    then show ?thesis using assms by (simp add: strlcpy_def skip_string_run buf_simps c_string_def)
  qed
next
  case False
  then obtain n where n: "dest_size = Suc (Suc n)" by (metis One_nat_def Suc_le_mono Zero_neq_Suc less_eq_nat.simps(1) not0_implies_Suc)
  have run: "strlcpy_copy (Suc n) dest 0 (str @ [NUL]) =
      (if length str < Suc n
       then Some (Suc n - length str, str @ NUL # drop (Suc (length str)) dest,
                  int (Suc (length str)), [])
       else Some (0, take (Suc n) str @ drop (Suc n) dest, int (Suc n), drop (Suc n) str @ [NUL]))"
    using strlcpy_copy_run [of str "[]" "Suc n" dest "[]"] assms n by simp
  show ?thesis
  proof (cases "length str < Suc n")
    case True
    with run assms n show ?thesis
      by (simp add: strlcpy_def c_string_append)
  next
    case False
    then have str: "length (take (Suc n) str) = Suc n" by simp
    have nn: "NUL \<notin> set (take (Suc n) str)" "NUL \<notin> set (drop (Suc n) str)"
      using assms(1) by (meson in_set_takeD in_set_dropD)+
    have "drop (Suc n) dest = dest ! Suc n # drop (Suc (Suc n)) dest"
      using assms n by (intro Cons_nth_drop_Suc [symmetric]) simp
    then have "wr (take (Suc n) str @ drop (Suc n) dest) (int (Suc n)) NUL =
        Some (take (Suc n) str @ NUL # drop (Suc (Suc n)) dest)"
      using wr_append_end [of "take (Suc n) str"] str by simp
    with False run nn assms n show ?thesis
      by (simp add: strlcpy_def skip_string_run c_string_append del: of_nat_Suc)
  qed
qed

theorem strlcpy_truncates_witness:
  "\<exists>d. strlcpy ''xxxx'' (''10.0'' @ [NUL]) 4 = Some (4, d) \<and> length d = 4 \<and> c_string d = ''10.''"
  using strlcpy_truncates [of "''10.0''" 4 "''xxxx''"] by (auto simp: eval_nat_numeral)

end
