(* ===== verification/Modbus_Framing.thy ===== *)
theory Modbus_Framing
  imports Modbus_Types
begin

text \<open>
  The contract between the protocol code of \<open>modbus.c\<close> and a backend (the part of
  \<open>modbus_backend_t\<close> that lays out frames): a frame is a header of \<open>hlen\<close> bytes ending with the
  slave, the PDU, and a trailer of \<open>clen\<close> bytes. The server and the client are proved against
  this contract; the TCP and RTU backends each provide it.
\<close>

text \<open>
  \<open>build\<close>, \<open>prepare\<close> and \<open>pre\<close> are \<open>build_response_basis\<close>, \<open>prepare_response_tid\<close> and
  \<open>send_msg_pre\<close>; \<open>basis\<close> is the header that \<open>build\<close> leaves in a buffer, \<open>final\<close> what \<open>pre\<close>
  turns a header into, \<open>trailer\<close> what it appends, \<open>header\<close> the header of a finished response,
  \<open>hdr_ok\<close> the headers a request may have and \<open>tid\<close> the transaction such a header carries.
\<close>

locale framing =
  fixes hlen clen :: int
    and build :: "sft \<Rightarrow> u8 list \<Rightarrow> (int \<times> u8 list) option"
    and prepare :: "u8 list \<Rightarrow> int \<Rightarrow> (int \<times> int) option"
    and pre :: "u8 list \<Rightarrow> int \<Rightarrow> (int \<times> u8 list) option"
    and basis :: "sft \<Rightarrow> u8 list \<Rightarrow> u8 list"
    and final :: "u8 list \<Rightarrow> nat \<Rightarrow> u8 list"
    and trailer :: "u8 list \<Rightarrow> u8 list"
    and header :: "sft \<Rightarrow> nat \<Rightarrow> u8 list"
    and hdr_ok :: "u8 list \<Rightarrow> bool"
    and tid :: "u8 list \<Rightarrow> int"
  assumes sizes: "1 \<le> hlen" "hlen \<le> 7" "0 \<le> clen" "hlen + clen \<le> 7"
    and length_basis: "int (length (basis sft t)) = hlen"
    and length_final: "int (length hdr) = hlen \<Longrightarrow> int (length (final hdr n)) = hlen"
    and length_trailer: "int (length (trailer body)) = clen"
    and build: "hlen < int (length t) \<Longrightarrow>
      build sft t = Some (hlen + 1, filled (basis sft t @ [word_of_int (sft_function sft)]) t)"
    and prepare: "int (length hdr) = hlen \<Longrightarrow>
      prepare (hdr @ xs) k = Some (tid hdr, k - clen)"
    and pre: "int (length hdr) = hlen \<Longrightarrow> length pdu \<le> 253 \<Longrightarrow>
      hlen + int (length pdu) + clen \<le> int (length t) \<Longrightarrow>
      pre (filled (hdr @ pdu) t) (hlen + int (length pdu)) =
        Some (hlen + int (length pdu) + clen,
          filled (final hdr (length pdu) @ pdu @ trailer (final hdr (length pdu) @ pdu)) t)"
    and final_basis: "final (basis sft t) n = header sft n"
    and final_echo: "hdr_ok hdr \<Longrightarrow> int (length hdr) = hlen \<Longrightarrow>
      final hdr n = header \<lparr>sft_slave = uint (last hdr), sft_function = f, sft_t_id = tid hdr\<rparr> n"
    and header_function: "header (sft\<lparr>sft_function := f\<rparr>) n = header sft n"
begin

text \<open>The frame that carries a PDU.\<close>

definition frame :: "sft \<Rightarrow> u8 list \<Rightarrow> u8 list" where
  "frame sft pdu = header sft (length pdu) @ pdu @ trailer (header sft (length pdu) @ pdu)"

lemma length_header: "int (length (header sft n)) = hlen"
  using length_final [OF length_basis] by (simp add: final_basis)

lemma length_frame: "int (length (frame sft pdu)) = hlen + int (length pdu) + clen"
  using length_header [of sft "length pdu"]
    length_trailer [of "header sft (length pdu) @ pdu"] by (simp add: frame_def)

lemma length_frame_le: "length pdu \<le> 253 \<Longrightarrow> length (frame sft pdu) \<le> 260"
  using length_frame [of sft pdu] sizes by linarith

lemma frame_function: "frame (sft\<lparr>sft_function := f\<rparr>) pdu = frame sft pdu"
  by (simp add: frame_def header_function)

text \<open>A response started with \<open>build\<close> and completed by \<open>pre\<close> is the frame of its PDU.\<close>

lemma pre_basis:
  assumes "length pdu \<le> 253" "hlen + int (length pdu) + clen \<le> int (length t)"
  shows "pre (filled (basis sft t @ pdu) t) (hlen + int (length pdu)) =
    Some (int (length (frame sft pdu)), filled (frame sft pdu) t)"
  using pre [OF length_basis assms, of sft t]
  by (simp only: length_frame) (simp add: frame_def final_basis)

lemma room_260: "length pdu \<le> 253 \<Longrightarrow> length t = 260 \<Longrightarrow> hlen + int (length pdu) + clen \<le> int (length t)"
  using sizes by simp

text \<open>So is a request copied back (without its trailer).\<close>

lemma pre_echo:
  assumes "hdr_ok hdr" "int (length hdr) = hlen" "length pdu \<le> 253" "length t = 260"
    and "sft = \<lparr>sft_slave = uint (last hdr), sft_function = f, sft_t_id = tid hdr\<rparr>"
  shows "pre (filled (hdr @ pdu) t) (hlen + int (length pdu)) =
    Some (int (length (frame sft pdu)), filled (frame sft pdu) t)"
  using pre [OF assms(2,3), of t] final_echo [OF assms(1,2)] sizes assms(3,4)
  by (simp only: length_frame) (simp add: frame_def assms(5))

end

text \<open>
  Requests: \<open>request\<close> is \<open>build_request_basis\<close>, which lays out the header and the first five
  bytes of the PDU and counts the transaction (\<open>advance\<close>); \<open>can_request\<close> says that the context
  can send at all, \<open>origin\<close> which slave and transaction its next request has. A server takes
  both back from the header.
\<close>

locale request_framing = framing hlen clen build prepare pre basis final trailer header hdr_ok tid
  for hlen clen :: int
    and build :: "sft \<Rightarrow> u8 list \<Rightarrow> (int \<times> u8 list) option"
    and prepare :: "u8 list \<Rightarrow> int \<Rightarrow> (int \<times> int) option"
    and pre :: "u8 list \<Rightarrow> int \<Rightarrow> (int \<times> u8 list) option"
    and basis :: "sft \<Rightarrow> u8 list \<Rightarrow> u8 list"
    and final :: "u8 list \<Rightarrow> nat \<Rightarrow> u8 list"
    and trailer :: "u8 list \<Rightarrow> u8 list"
    and header :: "sft \<Rightarrow> nat \<Rightarrow> u8 list"
    and hdr_ok :: "u8 list \<Rightarrow> bool"
    and tid :: "u8 list \<Rightarrow> int" +
  fixes request :: "int \<Rightarrow> int \<Rightarrow> int \<Rightarrow> u8 list \<Rightarrow> 'w mst \<Rightarrow> (int \<times> u8 list \<times> 'w mst) option"
    and can_request :: "'w mst \<Rightarrow> bool"
    and advance :: "'w mst \<Rightarrow> 'w mst"
    and origin :: "'w mst \<Rightarrow> sft"
  assumes request: "can_request st \<Longrightarrow> hlen + 5 \<le> int (length t) \<Longrightarrow>
      request f a n t st = Some (hlen + 5,
        filled (basis (origin st) t @ [word_of_int f, hi8 a, lo8 a, hi8 n, lo8 n]) t, advance st)"
    and header_ok: "hdr_ok (header sft k)"
    and header_slave: "can_request st \<Longrightarrow> uint (last (header (origin st) k)) = sft_slave (origin st)"
    and header_tid: "can_request st \<Longrightarrow> tid (header (origin st) k) = sft_t_id (origin st)"
begin

text \<open>The server's answer carries the slave and the transaction of the request.\<close>

lemma answer_header:
  assumes "can_request st"
  shows "header \<lparr>sft_slave = uint (last (header (origin st) n)), sft_function = f,
      sft_t_id = tid (header (origin st) n)\<rparr> k = header (origin st) k"
proof -
  have "\<lparr>sft_slave = uint (last (header (origin st) n)), sft_function = f,
      sft_t_id = tid (header (origin st) n)\<rparr> = (origin st)\<lparr>sft_function := f\<rparr>"
    using header_slave [OF assms] header_tid [OF assms] by simp
  then show ?thesis by (simp only: header_function)
qed

text \<open>A request finished by \<open>pre\<close>.\<close>

lemma pre_request:
  assumes "length pdu \<le> 253" "hlen + int (length pdu) + clen \<le> int (length t)"
  shows "pre (filled (basis (origin st) t @ pdu) t) (hlen + int (length pdu)) =
    Some (int (length (frame (origin st) pdu)), filled (frame (origin st) pdu) t)"
  by (rule pre_basis [OF assms])

end

end
