(* ===== verification/Modbus_Tcp.thy ===== *)
theory Modbus_Tcp
  imports Modbus_Strings Modbus_Framing
begin

text \<open>
  \<open>libmodbus/src/modbus-tcp.c\<close>: the TCP backend (IPv4 and protocol-independent), POSIX branches.
  A function of the C file called \<open>_modbus_tcp_f\<close> is \<open>modbus_tcp_f\<close> here. The result of a
  function is the C return value and the new state, or \<open>None\<close> where the code has no defined
  result.
\<close>

text \<open>A system call that returned -1 sets \<open>errno\<close>; otherwise its count is the result.\<close>

definition ret_count :: "(int + nat) \<times> 'w \<Rightarrow> 'w mst \<Rightarrow> int \<times> 'w mst" where
  "ret_count r st =
     (case r of (Inl e, w) \<Rightarrow> (-1, st\<lparr>st_errno := e, st_world := w\<rparr>)
      | (Inr n, w) \<Rightarrow> (int n, st\<lparr>st_world := w\<rparr>))"

definition ret_unit :: "(int + unit) \<times> 'w \<Rightarrow> 'w mst \<Rightarrow> int \<times> 'w mst" where
  "ret_unit r st =
     (case r of (Inl e, w) \<Rightarrow> (-1, st\<lparr>st_errno := e, st_world := w\<rparr>)
      | (Inr _, w) \<Rightarrow> (0, st\<lparr>st_world := w\<rparr>))"

text \<open>\<open>recv\<close> or \<open>read\<close> into \<open>buf + pos\<close>.\<close>

definition ret_bytes ::
    "(int + u8 list) \<times> 'w \<Rightarrow> u8 list \<Rightarrow> int \<Rightarrow> 'w mst \<Rightarrow> (int \<times> u8 list \<times> 'w mst) option" where
  "ret_bytes r buf pos st =
     (case r of (Inl e, w) \<Rightarrow> Some (-1, buf, st\<lparr>st_errno := e, st_world := w\<rparr>)
      | (Inr bs, w) \<Rightarrow> do {
          buf \<leftarrow> wr_block buf pos bs;
          Some (int (length bs), buf, st\<lparr>st_world := w\<rparr>) })"

text \<open>\<open>close(s)\<close> on the state.\<close>

definition close_fd :: "'w os \<Rightarrow> int \<Rightarrow> 'w mst \<Rightarrow> 'w mst" where
  "close_fd os s st = st\<lparr>st_world := os_close os s (st_world st)\<rparr>"

abbreviation set_ctx_s :: "int \<Rightarrow> 'w mst \<Rightarrow> 'w mst" where
  "set_ctx_s s st \<equiv> st\<lparr>st_ctx := (st_ctx st)\<lparr>ctx_s := s\<rparr>\<rparr>"

subsection \<open>Slave, headers, integrity\<close>

definition tcp_set_slave :: "int \<Rightarrow> 'w mst \<Rightarrow> int \<times> 'w mst" where
  "tcp_set_slave slave st =
     (let c = st_ctx st;
          max_slave = (if ctx_quirks c AND MODBUS_QUIRK_MAX_SLAVE \<noteq> 0 then 255 else 247) in
      if slave \<ge> 0 \<and> slave \<le> max_slave then (0, st\<lparr>st_ctx := c\<lparr>ctx_slave := slave\<rparr>\<rparr>)
      else if slave = MODBUS_TCP_SLAVE then (0, st\<lparr>st_ctx := c\<lparr>ctx_slave := slave\<rparr>\<rparr>)
      else (-1, set_errno EINVAL st))"

text \<open>
  The transaction identifier is the first member of both TCP structures, so the code reads it
  through a \<open>modbus_tcp_t *\<close> for either backend. An RTU structure starts with a pointer.
\<close>

fun get_t_id :: "backend \<Rightarrow> u16 option" where
  "get_t_id (TCP_backend d) = Some (tcp_t_id d)"
| "get_t_id (TCP_PI_backend d) = Some (pi_t_id d)"
| "get_t_id (RTU_backend d) = None"

fun set_t_id :: "u16 \<Rightarrow> backend \<Rightarrow> backend" where
  "set_t_id t (TCP_backend d) = TCP_backend (d\<lparr>tcp_t_id := t\<rparr>)"
| "set_t_id t (TCP_PI_backend d) = TCP_PI_backend (d\<lparr>pi_t_id := t\<rparr>)"
| "set_t_id t (RTU_backend d) = RTU_backend d"

definition next_t_id :: "u16 \<Rightarrow> u16" where
  "next_t_id t = (if uint t < 65535 then t + 1 else 0)"

definition tcp_build_request_basis ::
    "int \<Rightarrow> int \<Rightarrow> int \<Rightarrow> u8 list \<Rightarrow> 'w mst \<Rightarrow> (int \<times> u8 list \<times> 'w mst) option" where
  "tcp_build_request_basis function addr nb req st = do {
     t0 \<leftarrow> get_t_id (ctx_backend (st_ctx st));
     let t = next_t_id t0;
     let c = (st_ctx st)\<lparr>ctx_backend := set_t_id t (ctx_backend (st_ctx st))\<rparr>;
     req \<leftarrow> wr req 0 (hi8 (uint t));
     req \<leftarrow> wr req 1 (lo8 (uint t));
     req \<leftarrow> wr req 2 0;
     req \<leftarrow> wr req 3 0;
     req \<leftarrow> wr req 6 (word_of_int (ctx_slave c));
     req \<leftarrow> wr req 7 (word_of_int function);
     req \<leftarrow> wr req 8 (hi8 addr);
     req \<leftarrow> wr req 9 (lo8 addr);
     req \<leftarrow> wr req 10 (hi8 nb);
     req \<leftarrow> wr req 11 (lo8 nb);
     Some (12, req, st\<lparr>st_ctx := c\<rparr>) }"

definition tcp_build_response_basis :: "sft \<Rightarrow> u8 list \<Rightarrow> (int \<times> u8 list) option" where
  "tcp_build_response_basis sft rsp = do {
     rsp \<leftarrow> wr rsp 0 (hi8 (sft_t_id sft));
     rsp \<leftarrow> wr rsp 1 (lo8 (sft_t_id sft));
     rsp \<leftarrow> wr rsp 2 0;
     rsp \<leftarrow> wr rsp 3 0;
     rsp \<leftarrow> wr rsp 6 (word_of_int (sft_slave sft));
     rsp \<leftarrow> wr rsp 7 (word_of_int (sft_function sft));
     Some (8, rsp) }"

definition tcp_prepare_response_tid :: "u8 list \<Rightarrow> int \<Rightarrow> (int \<times> int) option" where
  "tcp_prepare_response_tid req req_length = do {
     r0 \<leftarrow> rd req 0;
     r1 \<leftarrow> rd req 1;
     Some (be16 r0 r1, req_length) }"

definition tcp_send_msg_pre :: "u8 list \<Rightarrow> int \<Rightarrow> (int \<times> u8 list) option" where
  "tcp_send_msg_pre req req_length = do {
     let mbap_length = req_length - 6;
     req \<leftarrow> wr req 4 (hi8 mbap_length);
     req \<leftarrow> wr req 5 (lo8 mbap_length);
     Some (req_length, req) }"

definition tcp_send :: "'w os \<Rightarrow> u8 list \<Rightarrow> int \<Rightarrow> 'w mst \<Rightarrow> (int \<times> 'w mst) option" where
  "tcp_send os req req_length st = do {
     bs \<leftarrow> rd_block req 0 req_length;
     Some (ret_count (os_send os (ctx_s (st_ctx st)) bs (st_world st)) st) }"

definition tcp_recv ::
    "'w os \<Rightarrow> u8 list \<Rightarrow> int \<Rightarrow> int \<Rightarrow> 'w mst \<Rightarrow> (int \<times> u8 list \<times> 'w mst) option" where
  "tcp_recv os rsp pos rsp_length st =
     ret_bytes (os_recv os (ctx_s (st_ctx st)) rsp_length (st_world st)) rsp pos st"

definition tcp_check_integrity :: "u8 list \<Rightarrow> int \<Rightarrow> 'w mst \<Rightarrow> (int \<times> 'w mst) option" where
  "tcp_check_integrity msg msg_length st = Some (msg_length, st)"

definition tcp_pre_check_confirmation ::
    "u8 list \<Rightarrow> u8 list \<Rightarrow> int \<Rightarrow> 'w mst \<Rightarrow> (int \<times> 'w mst) option" where
  "tcp_pre_check_confirmation req rsp rsp_length st = do {
     q0 \<leftarrow> rd req 0; q1 \<leftarrow> rd req 1;
     r0 \<leftarrow> rd rsp 0; r1 \<leftarrow> rd rsp 1;
     if q0 \<noteq> r0 \<or> q1 \<noteq> r1 then Some (-1, set_errno EMBBADDATA st)
     else do {
       r2 \<leftarrow> rd rsp 2; r3 \<leftarrow> rd rsp 3;
       let protocol_id = be16 r2 r3;
       if protocol_id \<noteq> 0 then Some (-1, set_errno EMBBADDATA st)
       else Some (0, st) } }"

subsection \<open>The framing contract\<close>

text \<open>The header of a TCP frame: transaction, protocol 0, length of what follows, unit.\<close>

definition tcp_basis :: "sft \<Rightarrow> u8 list \<Rightarrow> u8 list" where
  "tcp_basis sft t =
     [hi8 (sft_t_id sft), lo8 (sft_t_id sft), 0, 0, t ! 4, t ! 5, word_of_int (sft_slave sft)]"

definition tcp_final :: "u8 list \<Rightarrow> nat \<Rightarrow> u8 list" where
  "tcp_final hdr n = hdr[4 := hi8 (int n + 1), 5 := lo8 (int n + 1)]"

definition tcp_header :: "sft \<Rightarrow> nat \<Rightarrow> u8 list" where
  "tcp_header sft n =
     [hi8 (sft_t_id sft), lo8 (sft_t_id sft), 0, 0, hi8 (int n + 1), lo8 (int n + 1),
      word_of_int (sft_slave sft)]"

definition tcp_hdr_ok :: "u8 list \<Rightarrow> bool" where
  "tcp_hdr_ok hdr \<longleftrightarrow> hdr ! 2 = 0 \<and> hdr ! 3 = 0"

definition tcp_tid :: "u8 list \<Rightarrow> int" where
  "tcp_tid hdr = be16 (hdr ! 0) (hdr ! 1)"

lemma length_7:
  "length xs = 7 \<longleftrightarrow> (\<exists>a b c d e f g. xs = [a, b, c, d, e, f, g])"
  by (auto simp: numeral_eq_Suc length_Suc_conv)

lemma length_ge_8:
  "7 < length xs \<Longrightarrow> \<exists>a b c d e f g h ys. xs = a # b # c # d # e # f # g # h # ys"
  by (auto simp: numeral_eq_Suc Suc_less_eq2 length_Suc_conv Suc_le_length_iff less_eq_Suc_le)

lemma tcp_build_run:
  "7 < length t \<Longrightarrow> tcp_build_response_basis sft t =
     Some (8, filled (tcp_basis sft t @ [word_of_int (sft_function sft)]) t)"
  by (drule length_ge_8)
    (auto simp: tcp_build_response_basis_def tcp_basis_def filled_def buf_simps)

lemma tcp_pre_run:
  assumes "length hdr = 7" "length hdr + length pdu \<le> length t"
  shows "tcp_send_msg_pre (filled (hdr @ pdu) t) (7 + int (length pdu)) =
     Some (7 + int (length pdu), filled (tcp_final hdr (length pdu) @ pdu) t)"
  using assms
  by (auto simp: length_7 tcp_send_msg_pre_def tcp_final_def filled_def buf_simps algebra_simps Let_def)

interpretation tcp_framing: framing 7 0 tcp_build_response_basis tcp_prepare_response_tid
  tcp_send_msg_pre tcp_basis tcp_final "\<lambda>_. []" tcp_header tcp_hdr_ok tcp_tid
proof
  fix hdr xs :: "u8 list" and k :: int
  assume "int (length hdr) = 7"
  then have "length hdr = 7" by simp
  then show "tcp_prepare_response_tid (hdr @ xs) k = Some (tcp_tid hdr, k - 0)"
    by (auto simp: length_7 tcp_prepare_response_tid_def tcp_tid_def buf_simps)
next
  fix hdr pdu t :: "u8 list"
  assume "int (length hdr) = 7" "length pdu \<le> 253" "7 + int (length pdu) + 0 \<le> int (length t)"
  then show "tcp_send_msg_pre (filled (hdr @ pdu) t) (7 + int (length pdu)) =
      Some (7 + int (length pdu) + 0,
        filled (tcp_final hdr (length pdu) @ pdu @ []) t)"
    using tcp_pre_run [of hdr pdu t] by simp
next
  fix hdr :: "u8 list" and n f
  assume "tcp_hdr_ok hdr" "int (length hdr) = 7"
  then have "length hdr = 7" "tcp_hdr_ok hdr" by simp_all
  then show "tcp_final hdr n =
      tcp_header \<lparr>sft_slave = uint (last hdr), sft_function = f, sft_t_id = tcp_tid hdr\<rparr> n"
    by (auto simp: length_7 tcp_final_def tcp_header_def tcp_hdr_ok_def tcp_tid_def wire_simps)
qed (simp_all add: tcp_basis_def tcp_final_def tcp_header_def tcp_build_run)

text \<open>Requests: the transaction counter is incremented first, and wraps after 65535.\<close>

definition tcp_advance :: "'w mst \<Rightarrow> 'w mst" where
  "tcp_advance st =
     (case get_t_id (ctx_backend (st_ctx st)) of
        None \<Rightarrow> st
      | Some t \<Rightarrow> st\<lparr>st_ctx := (st_ctx st)\<lparr>ctx_backend :=
          set_t_id (next_t_id t) (ctx_backend (st_ctx st))\<rparr>\<rparr>)"

definition tcp_origin :: "'w mst \<Rightarrow> sft" where
  "tcp_origin st =
     \<lparr>sft_slave = uint (word_of_int (ctx_slave (st_ctx st)) :: u8), sft_function = 0,
      sft_t_id = (case get_t_id (ctx_backend (st_ctx st)) of
        None \<Rightarrow> 0 | Some t \<Rightarrow> uint (next_t_id t))\<rparr>"

lemma length_ge_12:
  "12 \<le> length xs \<Longrightarrow> \<exists>a b c d e f g h i j k l ys. xs = a # b # c # d # e # f # g # h # i # j # k # l # ys"
  by (auto simp: numeral_eq_Suc Suc_le_length_iff)

lemma tcp_request_run:
  assumes "get_t_id (ctx_backend (st_ctx st)) = Some t0" "12 \<le> length t"
  shows "tcp_build_request_basis f a n t st = Some (12,
    filled (tcp_basis (tcp_origin st) t @ [word_of_int f, hi8 a, lo8 a, hi8 n, lo8 n]) t, tcp_advance st)"
  using length_ge_12 [OF assms(2)]
  by (elim exE)
    (simp add: tcp_build_request_basis_def assms(1) Let_def buf_simps tcp_basis_def tcp_origin_def
      tcp_advance_def filled_def)

interpretation tcp_requests: request_framing 7 0 tcp_build_response_basis tcp_prepare_response_tid
  tcp_send_msg_pre tcp_basis tcp_final "\<lambda>_. []" tcp_header tcp_hdr_ok tcp_tid
  tcp_build_request_basis "\<lambda>st. get_t_id (ctx_backend (st_ctx st)) \<noteq> None" tcp_advance tcp_origin
  by unfold_locales
    (auto simp: tcp_request_run tcp_hdr_ok_def tcp_header_def tcp_tid_def tcp_origin_def wire_simps)

end
