(* ===== verification/Modbus_Tcp_Connect.thy ===== *)
theory Modbus_Tcp_Connect
  imports Modbus_Tcp
begin

text \<open>
  \<open>libmodbus/src/modbus-tcp.c\<close>, the part that opens, closes, waits on and drains sockets, and the
  two constructors. Linux build: SOCK_NONBLOCK and SOCK_CLOEXEC exist (no FIONBIO fallback), and
  \<open>accept4\<close> or \<open>accept\<close> is one system call of the model.
\<close>

abbreviation (input) PF_INET :: int where "PF_INET \<equiv> 2"
abbreviation (input) IPPROTO_TCP :: int where "IPPROTO_TCP \<equiv> 6"
abbreviation (input) SOCK_STREAM :: int where "SOCK_STREAM \<equiv> 1"
abbreviation (input) SOCK_CLOEXEC :: int where "SOCK_CLOEXEC \<equiv> 524288"
abbreviation (input) SOCK_NONBLOCK :: int where "SOCK_NONBLOCK \<equiv> 2048"
abbreviation (input) MODBUS_TCP_MAX_ADU_LENGTH :: int where "MODBUS_TCP_MAX_ADU_LENGTH \<equiv> 260"

subsection \<open>Opening a connection\<close>

definition tcp_set_ipv4_options :: "'w os \<Rightarrow> int \<Rightarrow> 'w mst \<Rightarrow> int \<times> 'w mst" where
  "tcp_set_ipv4_options os s st =
     (let (rc, st) = ret_unit (os_setsockopt os s TCP_NODELAY (st_world st)) st in
      if rc = -1 then (-1, st)
      else let (rc, st) = ret_unit (os_setsockopt os s IP_TOS_LOWDELAY (st_world st)) st in
        if rc = -1 then (-1, st) else (0, st))"

text \<open>\<open>_connect\<close>: a non-blocking connect, completed by waiting for the socket to be writable.\<close>

definition connect_sock :: "'w os \<Rightarrow> int \<Rightarrow> sockaddr \<Rightarrow> timeval \<Rightarrow> 'w mst \<Rightarrow> int \<times> 'w mst" where
  "connect_sock os sockfd addr ro_tv st =
     (let (rc, st) = ret_unit (os_connect os sockfd addr (st_world st)) st in
      if rc = -1 \<and> st_errno st = EINPROGRESS then
        (let (rc, st) = ret_count (os_select_write os sockfd ro_tv (st_world st)) st in
         if rc \<le> 0 then (-1, st)
         else (case os_getsockopt_error os sockfd (st_world st) of
             (Inr optval, w) \<Rightarrow>
               if optval = 0 then (0, st\<lparr>st_world := w\<rparr>)
               else (-1, set_errno ECONNREFUSED (st\<lparr>st_world := w\<rparr>))
           | (Inl e, w) \<Rightarrow> (-1, set_errno ECONNREFUSED (st\<lparr>st_world := w\<rparr>))))
      else (rc, st))"

definition tcp_connect :: "'w os \<Rightarrow> modbus_tcp \<Rightarrow> 'w mst \<Rightarrow> int \<times> 'w mst" where
  "tcp_connect os ctx_tcp st =
     (let flags = SOCK_STREAM OR SOCK_CLOEXEC OR SOCK_NONBLOCK;
          (s, st) = ret_count (os_socket os PF_INET flags 0 (st_world st)) st;
          st = set_ctx_s s st in
      if s < 0 then (-1, st)
      else let (rc, st) = tcp_set_ipv4_options os s st in
        if rc = -1 then (-1, set_ctx_s (-1) (close_fd os s st))
        else case os_inet_pton os (tcp_ip ctx_tcp) of
            None \<Rightarrow> (-1, set_ctx_s (-1) (close_fd os s st))
          | Some a \<Rightarrow>
              (let (rc, st) = connect_sock os s (Sockaddr_in a (tcp_port ctx_tcp))
                     (ctx_response_timeout (st_ctx st)) st in
               if rc = -1 then (-1, set_ctx_s (-1) (close_fd os s st))
               else (0, st)))"

text \<open>The loop over the addresses: the first that connects stores its socket in the context.\<close>

fun tcp_pi_connect_loop :: "'w os \<Rightarrow> addrinfo list \<Rightarrow> 'w mst \<Rightarrow> 'w mst" where
  "tcp_pi_connect_loop os [] st = st"
| "tcp_pi_connect_loop os (ai # ais) st =
     (let flags = ai_socktype ai OR SOCK_CLOEXEC OR SOCK_NONBLOCK;
          (s, st) = ret_count (os_socket os (ai_family ai) flags (ai_protocol ai) (st_world st)) st in
      if s < 0 then tcp_pi_connect_loop os ais st
      else
        let st = (if ai_family ai = PF_INET then snd (tcp_set_ipv4_options os s st) else st);
            (rc, st) = connect_sock os s (ai_addr ai) (ctx_response_timeout (st_ctx st)) st in
        if rc = -1 then tcp_pi_connect_loop os ais (close_fd os s st)
        else set_ctx_s s st)"

definition tcp_pi_connect :: "'w os \<Rightarrow> modbus_tcp_pi \<Rightarrow> 'w mst \<Rightarrow> int \<times> 'w mst" where
  "tcp_pi_connect os ctx_tcp_pi st =
     (case os_getaddrinfo os (Some (pi_node ctx_tcp_pi)) (pi_service ctx_tcp_pi) False (st_world st) of
        (Inl _, w) \<Rightarrow> (-1, set_errno ECONNREFUSED (st\<lparr>st_world := w\<rparr>))
      | (Inr ai_list, w) \<Rightarrow>
          (let st = tcp_pi_connect_loop os ai_list (st\<lparr>st_world := w\<rparr>) in
           if ctx_s (st_ctx st) < 0 then (-1, st) else (0, st)))"

definition tcp_is_connected :: "'w mst \<Rightarrow> bool" where
  "tcp_is_connected st \<longleftrightarrow> ctx_s (st_ctx st) \<ge> 0"

definition tcp_close :: "'w os \<Rightarrow> 'w mst \<Rightarrow> 'w mst" where
  "tcp_close os st =
     (let s = ctx_s (st_ctx st) in
      if s \<ge> 0 then
        set_ctx_s (-1) (close_fd os s (st\<lparr>st_world := os_shutdown os s (st_world st)\<rparr>))
      else st)"

text \<open>
  Draining the socket. \<open>rc_sum\<close> counts what was thrown away; the loop goes on while a full
  buffer was read.
\<close>

partial_function (option) tcp_flush_loop :: "'w os \<Rightarrow> int \<Rightarrow> 'w mst \<Rightarrow> (int \<times> 'w mst) option" where
  "tcp_flush_loop os rc_sum st = do {
     (rc, devnull, st) \<leftarrow> ret_bytes
       (os_recv_dontwait os (ctx_s (st_ctx st)) MODBUS_TCP_MAX_ADU_LENGTH (st_world st))
       (uninit os 260) 0 st;
     let rc_sum = (if rc > 0 then rc_sum + rc else rc_sum);
     if rc = MODBUS_TCP_MAX_ADU_LENGTH then tcp_flush_loop os rc_sum st
     else Some (rc_sum, st) }"

declare tcp_flush_loop.simps [code]

definition tcp_flush :: "'w os \<Rightarrow> 'w mst \<Rightarrow> (int \<times> 'w mst) option" where
  "tcp_flush os st = tcp_flush_loop os 0 st"

subsection \<open>Listening and accepting\<close>

definition modbus_tcp_listen :: "'w os \<Rightarrow> ctx_ptr \<Rightarrow> int \<Rightarrow> 'w mst \<Rightarrow> (int \<times> 'w mst) option" where
  "modbus_tcp_listen os p nb_connection st =
     (if p = NULL_ctx then Some (-1, set_errno EINVAL st)
      else case ctx_backend (st_ctx st) of
        TCP_backend ctx_tcp \<Rightarrow> Some (
          let (new_s, st) = ret_count
                (os_socket os PF_INET (SOCK_STREAM OR SOCK_CLOEXEC) IPPROTO_TCP (st_world st)) st in
          if new_s = -1 then (-1, st)
          else let (rc, st) = ret_unit (os_setsockopt os new_s SO_REUSEADDR (st_world st)) st in
            if rc = -1 then (-1, close_fd os new_s st)
            else let a = (if take 1 (tcp_ip ctx_tcp) = ''0'' then Some 0
                          else os_inet_pton os (tcp_ip ctx_tcp)) in
              case a of
                None \<Rightarrow> (-1, close_fd os new_s st)
              | Some a \<Rightarrow>
                  (let (rc, st) = ret_unit
                         (os_bind os new_s (Sockaddr_in a (tcp_port ctx_tcp)) (st_world st)) st in
                   if rc = -1 then (-1, close_fd os new_s st)
                   else let (rc, st) = ret_unit (os_listen os new_s nb_connection (st_world st)) st in
                     if rc = -1 then (-1, close_fd os new_s st)
                     else (new_s, st)))
      | _ \<Rightarrow> None)"

fun tcp_pi_listen_loop :: "'w os \<Rightarrow> int \<Rightarrow> addrinfo list \<Rightarrow> 'w mst \<Rightarrow> int \<times> 'w mst" where
  "tcp_pi_listen_loop os nb [] st = (-1, st)"
| "tcp_pi_listen_loop os nb (ai # ais) st =
     (let (s, st) = ret_count (os_socket os (ai_family ai) (ai_socktype ai OR SOCK_CLOEXEC)
            (ai_protocol ai) (st_world st)) st in
      if s < 0 then tcp_pi_listen_loop os nb ais st
      else
        let (rc, st) = ret_unit (os_setsockopt os s SO_REUSEADDR (st_world st)) st in
        if rc \<noteq> 0 then tcp_pi_listen_loop os nb ais (close_fd os s st)
        else
          let (rc, st) = ret_unit (os_bind os s (ai_addr ai) (st_world st)) st in
          if rc \<noteq> 0 then tcp_pi_listen_loop os nb ais (close_fd os s st)
          else
            let (rc, st) = ret_unit (os_listen os s nb (st_world st)) st in
            if rc \<noteq> 0 then tcp_pi_listen_loop os nb ais (close_fd os s st)
            else (s, st))"

definition modbus_tcp_pi_listen :: "'w os \<Rightarrow> ctx_ptr \<Rightarrow> int \<Rightarrow> 'w mst \<Rightarrow> (int \<times> 'w mst) option" where
  "modbus_tcp_pi_listen os p nb_connection st =
     (if p = NULL_ctx then Some (-1, set_errno EINVAL st)
      else case ctx_backend (st_ctx st) of
        TCP_PI_backend d \<Rightarrow> Some (
          let node = (if pi_node d = [] then None else Some (pi_node d));
              service = (if pi_service d = [] then ''502'' else pi_service d) in
          case os_getaddrinfo os node service True (st_world st) of
            (Inl _, w) \<Rightarrow> (-1, set_errno ECONNREFUSED (st\<lparr>st_world := w\<rparr>))
          | (Inr ai_list, w) \<Rightarrow>
              (let (new_s, st) = tcp_pi_listen_loop os nb_connection ai_list (st\<lparr>st_world := w\<rparr>) in
               if new_s < 0 then (-1, st) else (new_s, st)))
      | _ \<Rightarrow> None)"

definition modbus_tcp_accept :: "'w os \<Rightarrow> ctx_ptr \<Rightarrow> int \<Rightarrow> 'w mst \<Rightarrow> int \<times> 'w mst" where
  "modbus_tcp_accept os p s st =
     (if p = NULL_ctx then (-1, set_errno EINVAL st)
      else let (new_s, st) = ret_count (os_accept os s (st_world st)) st;
               st = set_ctx_s new_s st in
        if new_s < 0 then (-1, st) else (new_s, st))"

definition modbus_tcp_pi_accept :: "'w os \<Rightarrow> ctx_ptr \<Rightarrow> int \<Rightarrow> 'w mst \<Rightarrow> int \<times> 'w mst" where
  "modbus_tcp_pi_accept os p s st =
     (if p = NULL_ctx then (-1, set_errno EINVAL st)
      else let (new_s, st) = ret_count (os_accept os s (st_world st)) st;
               st = set_ctx_s new_s st in
        if new_s < 0 then (-1, st) else (new_s, st))"

subsection \<open>Waiting\<close>

text \<open>\<open>select\<close> is repeated while a signal interrupts it; a timeout is an error.\<close>

partial_function (option) tcp_select ::
    "'w os \<Rightarrow> timeval option \<Rightarrow> 'w mst \<Rightarrow> (int \<times> timeval option \<times> 'w mst) option" where
  "tcp_select os tv st =
     (case os_select os (ctx_s (st_ctx st)) tv (st_world st) of
        (Inl e, tv', w) \<Rightarrow>
          (let st = st\<lparr>st_errno := e, st_world := w\<rparr> in
           if e = EINTR then tcp_select os tv' st else Some (-1, tv', st))
      | (Inr n, tv', w) \<Rightarrow>
          (let st = st\<lparr>st_world := w\<rparr> in
           if n = 0 then Some (-1, tv', set_errno ETIMEDOUT st) else Some (int n, tv', st)))"

declare tcp_select.simps [code]

end
