(* ===== verification/Modbus_Crc.thy ===== *)
theory Modbus_Crc
  imports Modbus_Types
begin

text \<open>
  The CRC of RTU frames (\<open>crc16\<close> in \<open>libmodbus/src/modbus-rtu.c\<close>): the two lookup tables and the
  loop over the buffer as the code has them, the bitwise CRC-16/MODBUS they implement, and what
  the check value detects.
\<close>

definition table_crc_hi :: "u8 list" where
  "table_crc_hi = [
   0x00, 0xC1, 0x81, 0x40, 0x01, 0xC0, 0x80, 0x41, 0x01, 0xC0, 0x80, 0x41, 0x00, 0xC1,
   0x81, 0x40, 0x01, 0xC0, 0x80, 0x41, 0x00, 0xC1, 0x81, 0x40, 0x00, 0xC1, 0x81, 0x40,
   0x01, 0xC0, 0x80, 0x41, 0x01, 0xC0, 0x80, 0x41, 0x00, 0xC1, 0x81, 0x40, 0x00, 0xC1,
   0x81, 0x40, 0x01, 0xC0, 0x80, 0x41, 0x00, 0xC1, 0x81, 0x40, 0x01, 0xC0, 0x80, 0x41,
   0x01, 0xC0, 0x80, 0x41, 0x00, 0xC1, 0x81, 0x40, 0x01, 0xC0, 0x80, 0x41, 0x00, 0xC1,
   0x81, 0x40, 0x00, 0xC1, 0x81, 0x40, 0x01, 0xC0, 0x80, 0x41, 0x00, 0xC1, 0x81, 0x40,
   0x01, 0xC0, 0x80, 0x41, 0x01, 0xC0, 0x80, 0x41, 0x00, 0xC1, 0x81, 0x40, 0x00, 0xC1,
   0x81, 0x40, 0x01, 0xC0, 0x80, 0x41, 0x01, 0xC0, 0x80, 0x41, 0x00, 0xC1, 0x81, 0x40,
   0x01, 0xC0, 0x80, 0x41, 0x00, 0xC1, 0x81, 0x40, 0x00, 0xC1, 0x81, 0x40, 0x01, 0xC0,
   0x80, 0x41, 0x01, 0xC0, 0x80, 0x41, 0x00, 0xC1, 0x81, 0x40, 0x00, 0xC1, 0x81, 0x40,
   0x01, 0xC0, 0x80, 0x41, 0x00, 0xC1, 0x81, 0x40, 0x01, 0xC0, 0x80, 0x41, 0x01, 0xC0,
   0x80, 0x41, 0x00, 0xC1, 0x81, 0x40, 0x00, 0xC1, 0x81, 0x40, 0x01, 0xC0, 0x80, 0x41,
   0x01, 0xC0, 0x80, 0x41, 0x00, 0xC1, 0x81, 0x40, 0x01, 0xC0, 0x80, 0x41, 0x00, 0xC1,
   0x81, 0x40, 0x00, 0xC1, 0x81, 0x40, 0x01, 0xC0, 0x80, 0x41, 0x00, 0xC1, 0x81, 0x40,
   0x01, 0xC0, 0x80, 0x41, 0x01, 0xC0, 0x80, 0x41, 0x00, 0xC1, 0x81, 0x40, 0x01, 0xC0,
   0x80, 0x41, 0x00, 0xC1, 0x81, 0x40, 0x00, 0xC1, 0x81, 0x40, 0x01, 0xC0, 0x80, 0x41,
   0x01, 0xC0, 0x80, 0x41, 0x00, 0xC1, 0x81, 0x40, 0x00, 0xC1, 0x81, 0x40, 0x01, 0xC0,
   0x80, 0x41, 0x00, 0xC1, 0x81, 0x40, 0x01, 0xC0, 0x80, 0x41, 0x01, 0xC0, 0x80, 0x41,
   0x00, 0xC1, 0x81, 0x40]"

definition table_crc_lo :: "u8 list" where
  "table_crc_lo = [
   0x00, 0xC0, 0xC1, 0x01, 0xC3, 0x03, 0x02, 0xC2, 0xC6, 0x06, 0x07, 0xC7, 0x05, 0xC5,
   0xC4, 0x04, 0xCC, 0x0C, 0x0D, 0xCD, 0x0F, 0xCF, 0xCE, 0x0E, 0x0A, 0xCA, 0xCB, 0x0B,
   0xC9, 0x09, 0x08, 0xC8, 0xD8, 0x18, 0x19, 0xD9, 0x1B, 0xDB, 0xDA, 0x1A, 0x1E, 0xDE,
   0xDF, 0x1F, 0xDD, 0x1D, 0x1C, 0xDC, 0x14, 0xD4, 0xD5, 0x15, 0xD7, 0x17, 0x16, 0xD6,
   0xD2, 0x12, 0x13, 0xD3, 0x11, 0xD1, 0xD0, 0x10, 0xF0, 0x30, 0x31, 0xF1, 0x33, 0xF3,
   0xF2, 0x32, 0x36, 0xF6, 0xF7, 0x37, 0xF5, 0x35, 0x34, 0xF4, 0x3C, 0xFC, 0xFD, 0x3D,
   0xFF, 0x3F, 0x3E, 0xFE, 0xFA, 0x3A, 0x3B, 0xFB, 0x39, 0xF9, 0xF8, 0x38, 0x28, 0xE8,
   0xE9, 0x29, 0xEB, 0x2B, 0x2A, 0xEA, 0xEE, 0x2E, 0x2F, 0xEF, 0x2D, 0xED, 0xEC, 0x2C,
   0xE4, 0x24, 0x25, 0xE5, 0x27, 0xE7, 0xE6, 0x26, 0x22, 0xE2, 0xE3, 0x23, 0xE1, 0x21,
   0x20, 0xE0, 0xA0, 0x60, 0x61, 0xA1, 0x63, 0xA3, 0xA2, 0x62, 0x66, 0xA6, 0xA7, 0x67,
   0xA5, 0x65, 0x64, 0xA4, 0x6C, 0xAC, 0xAD, 0x6D, 0xAF, 0x6F, 0x6E, 0xAE, 0xAA, 0x6A,
   0x6B, 0xAB, 0x69, 0xA9, 0xA8, 0x68, 0x78, 0xB8, 0xB9, 0x79, 0xBB, 0x7B, 0x7A, 0xBA,
   0xBE, 0x7E, 0x7F, 0xBF, 0x7D, 0xBD, 0xBC, 0x7C, 0xB4, 0x74, 0x75, 0xB5, 0x77, 0xB7,
   0xB6, 0x76, 0x72, 0xB2, 0xB3, 0x73, 0xB1, 0x71, 0x70, 0xB0, 0x50, 0x90, 0x91, 0x51,
   0x93, 0x53, 0x52, 0x92, 0x96, 0x56, 0x57, 0x97, 0x55, 0x95, 0x94, 0x54, 0x9C, 0x5C,
   0x5D, 0x9D, 0x5F, 0x9F, 0x9E, 0x5E, 0x5A, 0x9A, 0x9B, 0x5B, 0x99, 0x59, 0x58, 0x98,
   0x88, 0x48, 0x49, 0x89, 0x4B, 0x8B, 0x8A, 0x4A, 0x4E, 0x8E, 0x8F, 0x4F, 0x8D, 0x4D,
   0x4C, 0x8C, 0x44, 0x84, 0x85, 0x45, 0x87, 0x47, 0x46, 0x86, 0x82, 0x42, 0x43, 0x83,
   0x41, 0x81, 0x80, 0x40]"

text \<open>
  \<open>buffer_length\<close> is an \<open>uint16_t\<close>. The two bytes are the running state, the pair
  \<open>(crc_hi, crc_lo)\<close>.
\<close>

definition crc16_step :: "u8 \<times> u8 \<Rightarrow> u8 \<Rightarrow> (u8 \<times> u8) option" where
  "crc16_step st b = (case st of (crc_hi, crc_lo) \<Rightarrow> do {
     let i = uint (crc_lo XOR b);
     thi \<leftarrow> rd table_crc_hi i;
     tlo \<leftarrow> rd table_crc_lo i;
     Some (tlo, crc_hi XOR thi) })"

definition crc16 :: "u8 list \<Rightarrow> int \<Rightarrow> u16 option" where
  "crc16 buffer buffer_length = do {
     (crc_hi, crc_lo) \<leftarrow> for_loop (nat (buffer_length mod 65536)) 0
       (\<lambda>k st. do { b \<leftarrow> rd buffer k; crc16_step st b }) (255, 255);
     Some (push_bit 8 (ucast crc_hi) OR ucast crc_lo) }"

subsection \<open>The bitwise reference\<close>

text \<open>One bit of CRC-16/MODBUS: reflected, polynomial 0xA001, initial value 0xFFFF.\<close>

definition crc_bit :: "u16 \<Rightarrow> u16" where
  "crc_bit c = (if c AND 1 \<noteq> 0 then drop_bit 1 c XOR 0xA001 else drop_bit 1 c)"

definition crc_byte :: "u16 \<Rightarrow> u8 \<Rightarrow> u16" where
  "crc_byte c b = (crc_bit ^^ 8) (c XOR ucast b)"

definition crc_spec :: "u8 list \<Rightarrow> u16" where
  "crc_spec bs = foldl crc_byte 0xFFFF bs"

subsection \<open>The tables hold eight steps of the bitwise CRC\<close>

lemma crc_bit_iff: "bit (crc_bit c) n \<longleftrightarrow> bit c (Suc n) \<noteq> (bit c 0 \<and> bit (0xA001 :: u16) n)"
  by (auto simp: crc_bit_def bit_simps and_one_eq odd_iff_mod_2_eq_one bit_0)

lemma crc_bit_xor: "crc_bit (x XOR y) = crc_bit x XOR crc_bit y"
  by (rule bit_word_eqI) (auto simp: crc_bit_iff bit_xor_iff)

lemma crc_bits_xor: "(crc_bit ^^ k) (x XOR y) = (crc_bit ^^ k) x XOR (crc_bit ^^ k) y"
  by (induction k) (simp_all add: crc_bit_xor)

lemma crc_bits_unfold:
  "(crc_bit ^^ 8) x =
   crc_bit (crc_bit (crc_bit (crc_bit (crc_bit (crc_bit (crc_bit (crc_bit x)))))))"
  by (simp add: eval_nat_numeral)

lemmas crc_bits_eval = crc_bits_unfold [of "numeral k"] crc_bits_unfold [of 0] crc_bits_unfold [of 1] for k
lemmas crc_bit_eval = crc_bit_def [of "numeral k"] crc_bit_def [of 0] crc_bit_def [of 1] for k

definition crc_join :: "u8 \<Rightarrow> u8 \<Rightarrow> u16" where
  "crc_join hi lo = push_bit 8 (ucast hi) OR ucast lo"

lemma crc_tables_map:
  "map (\<lambda>i. (crc_bit ^^ 8) (word_of_int i)) [0..255] =
   map2 (\<lambda>h l. push_bit 8 (ucast l) OR ucast h) table_crc_hi table_crc_lo"
  by (simp add: crc_bits_eval crc_bit_eval upto_rec1 table_crc_hi_def table_crc_lo_def)

lemma length_tables: "length table_crc_hi = 256" "length table_crc_lo = 256"
  by (simp_all add: table_crc_hi_def table_crc_lo_def)

lemma crc_tables:
  "crc_join (table_crc_lo ! unat (b :: u8)) (table_crc_hi ! unat b) = (crc_bit ^^ 8) (ucast b)"
proof -
  have b: "unat b < 256" by (rule unat_u8_less)
  have "map (\<lambda>i. (crc_bit ^^ 8) (word_of_int i)) [0..255] ! unat b = (crc_bit ^^ 8) (word_of_int (int (unat b)))"
  proof -
    have "int (unat b) \<le> 255" using b by linarith
    then have "[0..255] ! unat b = int (unat b)" by (subst nth_upto) simp_all
    then show ?thesis using b by (simp del: uint_nat)
  qed
  also have "word_of_int (int (unat b)) = (ucast b :: u16)"
    by (simp add: unsigned_ucast_eq of_nat_unat)
  finally show ?thesis
    using b unfolding crc_tables_map by (simp add: crc_join_def length_tables)
qed

lemma crc_bits_shifted: "k \<le> 8 \<Longrightarrow> (crc_bit ^^ k) (push_bit k (ucast (h :: u8))) = ucast h"
proof (induction k)
  case 0
  then show ?case by simp
next
  case (Suc k)
  have "crc_bit (push_bit (Suc k) (ucast h)) = push_bit k (ucast h)"
    using Suc.prems by (intro bit_word_eqI)
      (auto simp: crc_bit_iff bit_simps simp del: push_bit_Suc dest: bit_imp_le_length)
  then show ?case using Suc by (simp add: funpow_Suc_right del: funpow.simps push_bit_Suc)
qed

lemma crc_join_xor: "crc_join hi lo XOR ucast b = push_bit 8 (ucast hi) XOR ucast (lo XOR b)"
  by (rule bit_word_eqI) (auto simp: crc_join_def bit_simps dest: bit_imp_le_length)

lemma crc_join_xor_low: "ucast hi XOR crc_join l th = crc_join l (hi XOR th)"
  by (rule bit_word_eqI) (auto simp: crc_join_def bit_simps dest: bit_imp_le_length)

lemma crc16_step_run:
  "\<exists>hi' lo'. crc16_step (hi, lo) b = Some (hi', lo') \<and> crc_join hi' lo' = crc_byte (crc_join hi lo) b"
proof -
  let ?i = "lo XOR b"
  have i: "unat ?i < 256" by (rule unat_u8_less)
  then have rds: "rd table_crc_hi (uint ?i) = Some (table_crc_hi ! unat ?i)"
    "rd table_crc_lo (uint ?i) = Some (table_crc_lo ! unat ?i)"
    using rd_nat [of table_crc_hi "unat ?i"] rd_nat [of table_crc_lo "unat ?i"]
    by (simp_all add: length_tables)
  have "crc_byte (crc_join hi lo) b = ucast hi XOR (crc_bit ^^ 8) (ucast ?i)"
    by (simp add: crc_byte_def crc_join_xor crc_bits_xor crc_bits_shifted)
  also have "\<dots> = crc_join (table_crc_lo ! unat ?i) (hi XOR table_crc_hi ! unat ?i)"
    by (simp only: crc_tables [symmetric] crc_join_xor_low)
  finally show ?thesis by (simp add: crc16_step_def rds)
qed

lemma crc16_run:
  assumes "n \<le> length buf" "n < 65536"
  shows "crc16 buf (int n) = Some (crc_spec (take n buf))"
proof -
  let ?P = "\<lambda>k (hi, lo). crc_join hi lo = crc_spec (take k buf)"
  have "\<exists>s. for_loop n 0 (\<lambda>k st. do { b \<leftarrow> rd buf k; crc16_step st b }) (255, 255) = Some s \<and> ?P n s"
  proof (rule for_loop_inv)
    show "?P 0 (255, 255)" by (simp add: crc_spec_def crc_join_def)
    fix k s
    assume k: "k < n" and P: "?P k s"
    obtain hi lo where s: "s = (hi, lo)" by (cases s)
    have "take (Suc k) buf = take k buf @ [buf ! k]"
      using k assms by (simp add: take_Suc_conv_app_nth)
    then have "crc_spec (take (Suc k) buf) = crc_byte (crc_join hi lo) (buf ! k)"
      using P s by (simp add: crc_spec_def)
    then show "\<exists>s'. do { b \<leftarrow> rd buf (0 + int k); crc16_step s b } = Some s' \<and> ?P (Suc k) s'"
      using crc16_step_run [of hi lo "buf ! k"] k assms s by (auto simp: rd_nat)
  qed
  then show ?thesis using assms by (auto simp: crc16_def crc_join_def)
qed

text \<open>C17: The table-driven \<open>crc16\<close> over any prefix of a buffer (shorter than 65536 bytes)
  computes CRC-16/MODBUS: the bitwise reflected CRC with polynomial 0xA001 and initial value
  0xFFFF, without reading outside the buffer or the tables.\<close>

theorem crc16_is_crc_spec:
  assumes "n \<le> length buf" "n < 65536"
  shows "crc16 buf (int n) = Some (crc_spec (take n buf))"
  by (rule crc16_run [OF assms])

theorem crc16_is_crc_spec_witness:
  "crc16 [0x01, 0x04, 0x02, 0xFF, 0xFF, 0, 0] 5 = Some 0x80B8"
proof -
  have "crc_spec [0x01, 0x04, 0x02, 0xFF, 0xFF] = 0x80B8"
    by (simp add: crc_spec_def crc_byte_def crc_bits_eval crc_bit_eval)
  then show ?thesis
    using crc16_is_crc_spec [of 5 "[0x01, 0x04, 0x02, 0xFF, 0xFF, 0, 0]"] by simp
qed

subsection \<open>What the check value detects\<close>

text \<open>
  Each step is injective in the state, and a byte (or two consecutive bytes) can be recovered
  from the states before and after: a message changed within two neighbouring bytes has another
  check value.
\<close>

lemma crc_bit_inj: "crc_bit x = crc_bit y \<Longrightarrow> x = y"
proof (rule bit_word_eqI)
  fix n
  assume eq: "crc_bit x = crc_bit y" and n: "n < LENGTH(16)"
  have b15: "bit (crc_bit z) 15 \<longleftrightarrow> bit z 0" for z
    by (auto simp: crc_bit_iff dest: bit_imp_le_length)
  with eq have low: "bit x 0 = bit y 0" by metis
  show "bit x n = bit y n"
  proof (cases n)
    case 0
    then show ?thesis using low by simp
  next
    case (Suc m)
    have "bit (crc_bit x) m = bit (crc_bit y) m" using eq by simp
    then show ?thesis using low Suc by (auto simp: crc_bit_iff)
  qed
qed

lemma crc_bits_inj: "(crc_bit ^^ k) x = (crc_bit ^^ k) y \<Longrightarrow> x = y"
  by (induction k) (auto dest: crc_bit_inj)

lemma xor_cancel_left: "c XOR x = c XOR y \<longleftrightarrow> x = (y :: u16)"
  by (metis xor.assoc xor.left_neutral xor_self_eq)

lemma crc_byte_inj_state: "crc_byte c b = crc_byte d b \<Longrightarrow> c = d"
  by (auto simp: crc_byte_def xor.commute [of _ "ucast b"] xor_cancel_left dest: crc_bits_inj)

lemma crc_foldl_inj: "foldl crc_byte c bs = foldl crc_byte d bs \<Longrightarrow> c = d"
  by (induction bs arbitrary: c d) (auto dest: crc_byte_inj_state)

lemma crc_two_bytes:
  "crc_byte (crc_byte c a) b = (crc_bit ^^ 16) (c XOR crc_join b a)"
proof -
  have join: "c XOR crc_join b a = (c XOR ucast a) XOR push_bit 8 (ucast b)"
    by (rule bit_word_eqI) (auto simp: crc_join_def bit_simps dest: bit_imp_le_length)
  have "(crc_bit ^^ 16) z = (crc_bit ^^ 8) ((crc_bit ^^ 8) z)" for z
    by (simp flip: funpow_add [THEN fun_cong, unfolded comp_def])
  then show ?thesis
    by (simp add: crc_byte_def join crc_bits_xor crc_bits_shifted)
qed

lemma crc_join_inj: "crc_join h l = crc_join h' l' \<longleftrightarrow> h = h' \<and> l = l'"
proof
  assume eq: "crc_join h l = crc_join h' l'"
  have lo: "bit (crc_join p q) n = bit q n" if "n < 8" for p q n
    using that by (auto simp: crc_join_def bit_simps)
  have hi: "bit (crc_join p q) (8 + n) = bit p n" if "n < 8" for p q n
    using that by (auto simp: crc_join_def bit_simps dest: bit_imp_le_length)
  have "bit l n = bit l' n" if "n < 8" for n using that lo [of n] eq by metis
  then have "l = l'" by (intro bit_word_eqI) simp
  moreover have "bit h n = bit h' n" if "n < 8" for n using that hi [of n] eq by metis
  then have "h = h'" by (intro bit_word_eqI) simp
  ultimately show "h = h' \<and> l = l'" by simp
qed simp

text \<open>Any error burst confined to two adjacent bytes changes the check value.\<close>

lemma crc_detects_two_byte_burst:
  assumes "(a, b) \<noteq> (a', b')"
  shows "crc_spec (pre @ [a, b] @ post) \<noteq> crc_spec (pre @ [a', b'] @ post)"
proof
  assume "crc_spec (pre @ [a, b] @ post) = crc_spec (pre @ [a', b'] @ post)"
  then have "crc_byte (crc_byte (crc_spec pre) a) b = crc_byte (crc_byte (crc_spec pre) a') b'"
    by (auto simp: crc_spec_def dest: crc_foldl_inj)
  then have "crc_join b a = crc_join b' a'"
    by (auto simp: crc_two_bytes xor_cancel_left dest!: crc_bits_inj)
  with assms show False by (simp add: crc_join_inj)
qed

text \<open>A message followed by its check value, low byte first, has the check value 0.\<close>

lemma crc_residue: "crc_spec (body @ [lo, hi]) = 0 \<longleftrightarrow> crc_spec body = crc_join hi lo"
proof -
  have "crc_bit 0 = 0" by (simp add: crc_bit_def)
  then have zero: "(crc_bit ^^ 16) 0 = 0" by (simp add: eval_nat_numeral)
  have "crc_spec (body @ [lo, hi]) = (crc_bit ^^ 16) (crc_spec body XOR crc_join hi lo)"
    by (simp add: crc_spec_def crc_two_bytes)
  then have "crc_spec (body @ [lo, hi]) = 0 \<longleftrightarrow> crc_spec body XOR crc_join hi lo = 0"
    using crc_bits_inj [of 16 _ 0] zero by auto
  then show ?thesis by (metis xor_cancel_left xor_self_eq)
qed

lemma crc_join_be16: "crc_join hi lo = word_of_int (be16 hi lo)"
proof -
  have "be16 hi lo = be16_or hi lo" by (simp add: wire_simps)
  then show ?thesis
    by (intro bit_word_eqI) (auto simp: crc_join_def be16_or_def bit_simps dest: bit_imp_le_length)
qed

end
