(* ===== verification/Wire.thy ===== *)
theory Wire
  imports Modbus_Types
begin

text \<open>
  One concrete system to run the model on: a connection whose incoming bytes are a list and
  which records every message sent. It is used to apply the theorems to concrete inputs; the
  theorems themselves hold for every system with the behaviour they name.
\<close>

record wire =
  w_in :: "u8 list"
  w_out :: "u8 list list"

definition wire_send :: "int \<Rightarrow> u8 list \<Rightarrow> wire \<Rightarrow> (int + nat) \<times> wire" where
  "wire_send fd bs w = (Inr (length bs), w\<lparr>w_out := w_out w @ [bs]\<rparr>)"

definition wire_recv :: "int \<Rightarrow> int \<Rightarrow> wire \<Rightarrow> (int + u8 list) \<times> wire" where
  "wire_recv fd n w = (Inr (take (nat n) (w_in w)), w\<lparr>w_in := drop (nat n) (w_in w)\<rparr>)"

definition wire_recv_dontwait :: "int \<Rightarrow> int \<Rightarrow> wire \<Rightarrow> (int + u8 list) \<times> wire" where
  "wire_recv_dontwait fd n w =
     (if w_in w = [] \<or> n \<le> 0 then (Inl 11, w) else wire_recv fd n w)"

definition wire_select :: "int \<Rightarrow> timeval option \<Rightarrow> wire \<Rightarrow> (int + nat) \<times> timeval option \<times> wire" where
  "wire_select fd tv w = (Inr (if w_in w = [] then 0 else 1), tv, w)"

definition wire_os :: "wire os" where
  "wire_os = \<lparr>
     os_send = wire_send, os_write = wire_send, os_recv = wire_recv,
     os_recv_dontwait = wire_recv_dontwait, os_read = wire_recv, os_select = wire_select,
     os_select_write = (\<lambda>fd tv w. (Inr 1, w)),
     os_nanosleep = (\<lambda>req w. (None, w)), os_usleep = (\<lambda>us w. w),
     os_socket = (\<lambda>a b c w. (Inr 3, w)), os_setsockopt = (\<lambda>fd o' w. (Inr (), w)),
     os_getsockopt_error = (\<lambda>fd w. (Inr 0, w)), os_inet_pton = (\<lambda>s. None),
     os_getaddrinfo = (\<lambda>n s p w. (Inr [], w)), os_connect = (\<lambda>fd a w. (Inr (), w)),
     os_bind = (\<lambda>fd a w. (Inr (), w)), os_listen = (\<lambda>fd n w. (Inr (), w)),
     os_accept = (\<lambda>fd w. (Inr 4, w)), os_shutdown = (\<lambda>fd w. w), os_close = (\<lambda>fd w. w),
     os_open = (\<lambda>d w. (Inr 3, w)),
     os_tcgetattr = (\<lambda>fd w. (\<lparr>c_iflag = 0, c_oflag = 0, c_cflag = 0, c_lflag = 0,
        c_ispeed = 0, c_ospeed = 0, c_vmin = 0, c_vtime = 0\<rparr>, w)),
     os_tcsetattr = (\<lambda>fd t w. (Inr (), w)),
     os_cfsetispeed = (\<lambda>s t. Inr (t\<lparr>c_ispeed := s\<rparr>)), os_cfsetospeed = (\<lambda>s t. Inr (t\<lparr>c_ospeed := s\<rparr>)),
     os_tcflush = (\<lambda>fd w. (Inr (), w\<lparr>w_in := []\<rparr>)),
     os_tiocmget = (\<lambda>fd w. (0, w)), os_tiocmset = (\<lambda>fd f w. w),
     os_tiocgrs485 = (\<lambda>fd w. (Inr 0, w)), os_tiocsrs485 = (\<lambda>fd f w. (Inr (), w)),
     os_select_set = (\<lambda>fds w. (Inr fds, w)), os_stop_requested = (\<lambda>w. (w_in w = [], w)),
     os_signal = (\<lambda>w. (True, w)),
     os_stack = (\<lambda>i. 165),
     os_custom_rts = (\<lambda>k fd on w. w)\<rparr>"

text \<open>A TCP and a serial context, connected, with the library's default settings.\<close>

definition tcp_ctx :: "modbus" where
  "tcp_ctx = \<lparr>ctx_slave = 255, ctx_s = 3, ctx_debug = 0, ctx_error_recovery = 0, ctx_quirks = 0,
     ctx_response_timeout = \<lparr>tv_sec = 0, tv_usec = 500000\<rparr>,
     ctx_byte_timeout = \<lparr>tv_sec = 0, tv_usec = 500000\<rparr>,
     ctx_indication_timeout = \<lparr>tv_sec = 0, tv_usec = 0\<rparr>,
     ctx_backend = TCP_backend \<lparr>tcp_t_id = 0, tcp_port = 502, tcp_ip = ''127.0.0.1''\<rparr>\<rparr>"

definition rtu_ctx :: "modbus" where
  "rtu_ctx = tcp_ctx\<lparr>ctx_slave := 17, ctx_backend := RTU_backend
     \<lparr>rtu_device = ''/dev/ttyS0'', rtu_baud = 9600, rtu_data_bit = 8, rtu_stop_bit = 1,
      rtu_parity = CHR ''N'',
      rtu_old_tios = \<lparr>c_iflag = 0, c_oflag = 0, c_cflag = 0, c_lflag = 0,
        c_ispeed = 0, c_ospeed = 0, c_vmin = 0, c_vtime = 0\<rparr>,
      rtu_serial_mode = 0, rtu_rts = 0, rtu_rts_delay = 1041, rtu_onebyte_time = 1041,
      rtu_set_rts = Modbus_rtu_ioctl_rts, rtu_confirmation_to_ignore = False\<rparr>\<rparr>"

definition on_wire :: "modbus \<Rightarrow> u8 list \<Rightarrow> wire mst" where
  "on_wire c input = \<lparr>st_ctx = c, st_errno = 0, st_world = \<lparr>w_in = input, w_out = []\<rparr>\<rparr>"

text \<open>A small device: four coils and four registers from address 0, nothing else.\<close>

definition small_mapping :: "mapping" where
  "small_mapping = \<lparr>mb_nb_bits = 4, mb_start_bits = 0, mb_nb_input_bits = 0, mb_start_input_bits = 0,
     mb_nb_input_registers = 0, mb_start_input_registers = 0, mb_nb_registers = 4,
     mb_start_registers = 0, mb_tab_bits = [1, 0, 1, 1], mb_tab_input_bits = [],
     mb_tab_input_registers = [], mb_tab_registers = [10, 20, 30, 40]\<rparr>"

lemma small_mapping_ok: "mapping_ok small_mapping"
  by (simp add: mapping_ok_def small_mapping_def is_bit_def)

lemma on_wire_simps [simp]:
  "st_ctx (on_wire c input) = c" "st_world (on_wire c input) = \<lparr>w_in = input, w_out = []\<rparr>"
  "st_errno (on_wire c input) = 0"
  by (simp_all add: on_wire_def)

lemma tcp_ctx_backend [simp]:
  "ctx_backend tcp_ctx = TCP_backend \<lparr>tcp_t_id = 0, tcp_port = 502, tcp_ip = ''127.0.0.1''\<rparr>"
  by (simp add: tcp_ctx_def)

lemma tcp_ctx_simps [simp]:
  "ctx_slave tcp_ctx = 255" "ctx_s tcp_ctx = 3" "ctx_error_recovery tcp_ctx = 0"
  "ctx_quirks tcp_ctx = 0" "ctx_response_timeout tcp_ctx = \<lparr>tv_sec = 0, tv_usec = 500000\<rparr>"
  "ctx_byte_timeout tcp_ctx = \<lparr>tv_sec = 0, tv_usec = 500000\<rparr>"
  "ctx_indication_timeout tcp_ctx = \<lparr>tv_sec = 0, tv_usec = 0\<rparr>"
  by (simp_all add: tcp_ctx_def)

end
