(* ===== verification/Modbus_Rtu.thy ===== *)
theory Modbus_Rtu
  imports Modbus_Crc Modbus_Tcp Wire
begin

text \<open>
  \<open>libmodbus/src/modbus-rtu.c\<close>, frames and transmission (POSIX branches, Linux with RTS
  support). A function \<open>_modbus_rtu_f\<close> of the C file is \<open>rtu_f\<close> here.
\<close>

abbreviation (input) MODBUS_RTU_RTS_NONE :: int where "MODBUS_RTU_RTS_NONE \<equiv> 0"
abbreviation (input) MODBUS_RTU_RTS_UP :: int where "MODBUS_RTU_RTS_UP \<equiv> 1"
abbreviation (input) MODBUS_RTU_RTS_DOWN :: int where "MODBUS_RTU_RTS_DOWN \<equiv> 2"
abbreviation (input) TIOCM_RTS :: u32 where "TIOCM_RTS \<equiv> 4"

definition rtu_set_slave :: "int \<Rightarrow> 'w mst \<Rightarrow> int \<times> 'w mst" where
  "rtu_set_slave slave st =
     (let c = st_ctx st;
          max_slave = (if ctx_quirks c AND MODBUS_QUIRK_MAX_SLAVE \<noteq> 0 then 255 else 247) in
      if slave \<ge> 0 \<and> slave \<le> max_slave then (0, st\<lparr>st_ctx := c\<lparr>ctx_slave := slave\<rparr>\<rparr>)
      else (-1, set_errno EINVAL st))"

text \<open>The \<open>assert\<close> aborts the process when no slave was selected.\<close>

definition rtu_build_request_basis ::
    "int \<Rightarrow> int \<Rightarrow> int \<Rightarrow> u8 list \<Rightarrow> 'w mst \<Rightarrow> (int \<times> u8 list \<times> 'w mst) option" where
  "rtu_build_request_basis function addr nb req st =
     (if ctx_slave (st_ctx st) = -1 then None
      else do {
        req \<leftarrow> wr req 0 (word_of_int (ctx_slave (st_ctx st)));
        req \<leftarrow> wr req 1 (word_of_int function);
        req \<leftarrow> wr req 2 (hi8 addr);
        req \<leftarrow> wr req 3 (lo8 addr);
        req \<leftarrow> wr req 4 (hi8 nb);
        req \<leftarrow> wr req 5 (lo8 nb);
        Some (6, req, st) })"

definition rtu_build_response_basis :: "sft \<Rightarrow> u8 list \<Rightarrow> (int \<times> u8 list) option" where
  "rtu_build_response_basis sft rsp = do {
     rsp \<leftarrow> wr rsp 0 (word_of_int (sft_slave sft));
     rsp \<leftarrow> wr rsp 1 (word_of_int (sft_function sft));
     Some (2, rsp) }"

definition rtu_prepare_response_tid :: "u8 list \<Rightarrow> int \<Rightarrow> (int \<times> int) option" where
  "rtu_prepare_response_tid req req_length = Some (0, req_length - 2)"

definition rtu_send_msg_pre :: "u8 list \<Rightarrow> int \<Rightarrow> (int \<times> u8 list) option" where
  "rtu_send_msg_pre req req_length = do {
     crc \<leftarrow> crc16 req req_length;
     req \<leftarrow> wr req req_length (lo8 (uint crc));
     req \<leftarrow> wr req (req_length + 1) (hi8 (uint crc));
     Some (req_length + 2, req) }"

subsection \<open>Transmission\<close>

definition rtu_ioctl_rts :: "'w os \<Rightarrow> bool \<Rightarrow> 'w mst \<Rightarrow> 'w mst" where
  "rtu_ioctl_rts os on st =
     (let fd = ctx_s (st_ctx st);
          (flags, w) = os_tiocmget os fd (st_world st);
          flags = (if on then flags OR TIOCM_RTS else flags AND NOT TIOCM_RTS) in
      st\<lparr>st_world := os_tiocmset os fd flags w\<rparr>)"

text \<open>The call through the function pointer \<open>ctx_rtu->set_rts\<close>.\<close>

fun call_set_rts :: "'w os \<Rightarrow> set_rts_fn \<Rightarrow> bool \<Rightarrow> 'w mst \<Rightarrow> 'w mst" where
  "call_set_rts os Modbus_rtu_ioctl_rts on st = rtu_ioctl_rts os on st"
| "call_set_rts os (Custom_set_rts k) on st =
     st\<lparr>st_world := os_custom_rts os k (ctx_s (st_ctx st)) on (st_world st)\<rparr>"

definition do_usleep :: "'w os \<Rightarrow> int \<Rightarrow> 'w mst \<Rightarrow> 'w mst" where
  "do_usleep os us st = st\<lparr>st_world := os_usleep os us (st_world st)\<rparr>"

definition rtu_send ::
    "'w os \<Rightarrow> modbus_rtu \<Rightarrow> u8 list \<Rightarrow> int \<Rightarrow> 'w mst \<Rightarrow> (int \<times> 'w mst) option" where
  "rtu_send os ctx_rtu req req_length st = do {
     bs \<leftarrow> rd_block req 0 req_length;
     Some (
       if rtu_rts ctx_rtu \<noteq> MODBUS_RTU_RTS_NONE then
         (let up = (rtu_rts ctx_rtu = MODBUS_RTU_RTS_UP);
              st = call_set_rts os (rtu_set_rts ctx_rtu) up st;
              st = do_usleep os (rtu_rts_delay ctx_rtu) st;
              (size, st) = ret_count (os_write os (ctx_s (st_ctx st)) bs (st_world st)) st;
              st = do_usleep os (rtu_onebyte_time ctx_rtu * req_length + rtu_rts_delay ctx_rtu) st;
              st = call_set_rts os (rtu_set_rts ctx_rtu) (\<not> up) st in
          (size, st))
       else ret_count (os_write os (ctx_s (st_ctx st)) bs (st_world st)) st) }"

definition rtu_recv ::
    "'w os \<Rightarrow> u8 list \<Rightarrow> int \<Rightarrow> int \<Rightarrow> 'w mst \<Rightarrow> (int \<times> u8 list \<times> 'w mst) option" where
  "rtu_recv os rsp pos rsp_length st =
     ret_bytes (os_read os (ctx_s (st_ctx st)) rsp_length (st_world st)) rsp pos st"

definition rtu_flush :: "'w os \<Rightarrow> 'w mst \<Rightarrow> int \<times> 'w mst" where
  "rtu_flush os st = ret_unit (os_tcflush os (ctx_s (st_ctx st)) (st_world st)) st"

partial_function (option) rtu_select ::
    "'w os \<Rightarrow> timeval option \<Rightarrow> 'w mst \<Rightarrow> (int \<times> timeval option \<times> 'w mst) option" where
  "rtu_select os tv st =
     (case os_select os (ctx_s (st_ctx st)) tv (st_world st) of
        (Inl e, tv', w) \<Rightarrow>
          (let st = st\<lparr>st_errno := e, st_world := w\<rparr> in
           if e = EINTR then rtu_select os tv' st else Some (-1, tv', st))
      | (Inr n, tv', w) \<Rightarrow>
          (let st = st\<lparr>st_world := w\<rparr> in
           if n = 0 then Some (-1, tv', set_errno ETIMEDOUT st) else Some (int n, tv', st)))"

declare rtu_select.simps [code]

definition rtu_pre_check_confirmation ::
    "u8 list \<Rightarrow> u8 list \<Rightarrow> int \<Rightarrow> 'w mst \<Rightarrow> (int \<times> 'w mst) option" where
  "rtu_pre_check_confirmation req rsp rsp_length st = do {
     q0 \<leftarrow> rd req 0;
     r0 \<leftarrow> rd rsp 0;
     if q0 \<noteq> r0 \<and> uint q0 \<noteq> MODBUS_BROADCAST_ADDRESS then Some (-1, set_errno EMBBADSLAVE st)
     else Some (0, st) }"

text \<open>
  0 for a frame addressed to another slave (before the CRC is looked at), the length for a
  frame with a good CRC, otherwise -1.
\<close>

definition rtu_check_integrity ::
    "'w os \<Rightarrow> u8 list \<Rightarrow> int \<Rightarrow> 'w mst \<Rightarrow> (int \<times> 'w mst) option" where
  "rtu_check_integrity os msg msg_length st = do {
     m0 \<leftarrow> rd msg 0;
     let slave = uint m0;
     if slave \<noteq> ctx_slave (st_ctx st) \<and> slave \<noteq> MODBUS_BROADCAST_ADDRESS then Some (0, st)
     else do {
       crc_calculated \<leftarrow> crc16 msg (msg_length - 2);
       hi \<leftarrow> rd msg (msg_length - 1);
       lo \<leftarrow> rd msg (msg_length - 2);
       let crc_received = be16_or hi lo;
       if uint crc_calculated = crc_received then Some (msg_length, st)
       else
         let st = (if ctx_error_recovery (st_ctx st) AND MODBUS_ERROR_RECOVERY_PROTOCOL \<noteq> 0
                   then snd (rtu_flush os st) else st) in
         Some (-1, set_errno EMBBADCRC st) } }"

subsection \<open>Sending and checking a frame\<close>

lemma rtu_send_msg_pre_run:
  assumes "body \<noteq> []" "2 \<le> length room" "length body < 65536"
  shows "rtu_send_msg_pre (body @ room) (int (length body)) =
    Some (int (length body) + 2,
      body @ lo8 (uint (crc_spec body)) # hi8 (uint (crc_spec body)) # drop 2 room)"
proof -
  obtain x y room' where room: "room = x # y # room'"
    using assms(2) by (metis (no_types, opaque_lifting) One_nat_def Suc_le_length_iff numeral_2_eq_2)
  have crc: "crc16 (body @ room) (int (length body)) = Some (crc_spec body)"
    using crc16_run [of "length body" "body @ room"] assms(3) by simp
  have w2: "wr (body @ v # y # room') (int (length body) + 1) u = Some (body @ v # u # room')" for v u
    using wr_append_at [of "int (length body) + 1" "body @ [v]" y room' u] by simp
  show ?thesis
    unfolding rtu_send_msg_pre_def crc by (simp add: room wr_append_end w2)
qed

text \<open>The framing contract: the header is the slave, the trailer the CRC, low byte first.\<close>

definition rtu_basis :: "sft \<Rightarrow> u8 list \<Rightarrow> u8 list" where
  "rtu_basis sft t = [word_of_int (sft_slave sft)]"

definition rtu_trailer :: "u8 list \<Rightarrow> u8 list" where
  "rtu_trailer body = [lo8 (uint (crc_spec body)), hi8 (uint (crc_spec body))]"

lemma rtu_build_run:
  "1 < length t \<Longrightarrow> rtu_build_response_basis sft t =
     Some (2, filled (rtu_basis sft t @ [word_of_int (sft_function sft)]) t)"
  by (cases t; cases "tl t")
    (auto simp: rtu_build_response_basis_def rtu_basis_def filled_def buf_simps)

lemma rtu_pre_run:
  assumes "body \<noteq> []" "length body + 2 \<le> length t" "length body < 65536"
  shows "rtu_send_msg_pre (filled body t) (int (length body)) =
    Some (int (length body) + 2, filled (body @ rtu_trailer body) t)"
  using rtu_send_msg_pre_run [of body "drop (length body) t"] assms
  by (simp add: filled_def rtu_trailer_def add.commute)

interpretation rtu_framing: framing 1 2 rtu_build_response_basis rtu_prepare_response_tid
  rtu_send_msg_pre rtu_basis "\<lambda>hdr _. hdr" rtu_trailer "\<lambda>sft _. rtu_basis sft []"
  "\<lambda>_. True" "\<lambda>_. 0"
proof
  fix hdr pdu t :: "u8 list"
  assume "int (length hdr) = 1" "length pdu \<le> 253" "1 + int (length pdu) + 2 \<le> int (length t)"
  then show "rtu_send_msg_pre (filled (hdr @ pdu) t) (1 + int (length pdu)) =
      Some (1 + int (length pdu) + 2, filled (hdr @ pdu @ rtu_trailer (hdr @ pdu)) t)"
    using rtu_pre_run [of "hdr @ pdu" t] by (cases hdr) simp_all
next
  fix hdr :: "u8 list" and n :: nat and f
  assume "int (length hdr) = 1"
  then have "length hdr = Suc 0" by simp
  then show "hdr = rtu_basis \<lparr>sft_slave = uint (last hdr), sft_function = f, sft_t_id = 0\<rparr> []"
    by (auto simp: rtu_basis_def length_Suc_conv)
qed (simp_all add: rtu_basis_def rtu_trailer_def rtu_build_run rtu_prepare_response_tid_def)

definition rtu_origin :: "'w mst \<Rightarrow> sft" where
  "rtu_origin st =
     \<lparr>sft_slave = uint (word_of_int (ctx_slave (st_ctx st)) :: u8), sft_function = 0, sft_t_id = 0\<rparr>"

lemma length_ge_6:
  "6 \<le> length xs \<Longrightarrow> \<exists>a b c d e f ys. xs = a # b # c # d # e # f # ys"
  by (auto simp: numeral_eq_Suc Suc_le_length_iff)

lemma rtu_request_run:
  assumes "ctx_slave (st_ctx st) \<noteq> -1" "6 \<le> length t"
  shows "rtu_build_request_basis f a n t st = Some (6,
    filled (rtu_basis (rtu_origin st) t @ [word_of_int f, hi8 a, lo8 a, hi8 n, lo8 n]) t, st)"
  using length_ge_6 [OF assms(2)]
  by (elim exE)
    (simp add: rtu_build_request_basis_def assms(1) Let_def buf_simps rtu_basis_def rtu_origin_def
      filled_def)

interpretation rtu_requests: request_framing 1 2 rtu_build_response_basis rtu_prepare_response_tid
  rtu_send_msg_pre rtu_basis "\<lambda>hdr _. hdr" rtu_trailer "\<lambda>sft _. rtu_basis sft []"
  "\<lambda>_. True" "\<lambda>_. 0" rtu_build_request_basis "\<lambda>st. ctx_slave (st_ctx st) \<noteq> -1" "\<lambda>st. st" rtu_origin
  by unfold_locales (auto simp: rtu_request_run rtu_basis_def rtu_origin_def)

lemma rtu_check_integrity_run:
  assumes "body \<noteq> []" "length body < 65536"
    and "uint (hd body) = ctx_slave (st_ctx st) \<or> uint (hd body) = 0"
  shows "rtu_check_integrity os (body @ lo # hi # room) (int (length body) + 2) st =
    (if crc_spec body = word_of_int (be16 hi lo) then Some (int (length body) + 2, st)
     else Some (-1, set_errno EMBBADCRC
       (if ctx_error_recovery (st_ctx st) AND MODBUS_ERROR_RECOVERY_PROTOCOL \<noteq> 0
        then snd (rtu_flush os st) else st)))"
proof -
  have rds: "rd (body @ lo # hi # room) (1 + int (length body)) = Some hi"
    "rd (body @ lo # hi # room) (int (length body)) = Some lo"
    "rd (body @ lo # hi # room) 0 = Some (hd body)"
    using assms(1) by (simp_all add: rd_append2 rd_def nth_append hd_conv_nth nat_add_distrib)
  have crc: "crc16 (body @ lo # hi # room) (int (length body)) = Some (crc_spec body)"
    using crc16_run [of "length body" "body @ lo # hi # room"] assms(2) by simp
  have eq: "uint (crc_spec body) = be16 hi lo \<longleftrightarrow> crc_spec body = word_of_int (be16 hi lo)"
    by (metis uint_of_be16 word_uint_eqI)
  show ?thesis
    using assms(3) by (auto simp: rtu_check_integrity_def rds crc eq wire_simps Let_def)
qed

lemma rtu_flush_ctx: "st_ctx (snd (rtu_flush os st)) = st_ctx st"
  by (cases "os_tcflush os (ctx_s (st_ctx st)) (st_world st)")
    (auto simp: rtu_flush_def ret_unit_def split: sum.splits)

lemma rtu_check_integrity_residue:
  assumes "2 < length msg" "length msg < 65536" "n = int (length msg)"
    and "uint (hd msg) = ctx_slave (st_ctx st) \<or> uint (hd msg) = 0"
  shows "rtu_check_integrity os msg n st =
    (if crc_spec msg = 0 then Some (n, st)
     else Some (-1, set_errno EMBBADCRC
       (if ctx_error_recovery (st_ctx st) AND MODBUS_ERROR_RECOVERY_PROTOCOL \<noteq> 0
        then snd (rtu_flush os st) else st)))"
proof -
  define body where "body = take (length msg - 2) msg"
  have "length (drop (length msg - 2) msg) = 2" using assms(1) by simp
  then obtain lo hi where "drop (length msg - 2) msg = [lo, hi]"
    unfolding numeral_2_eq_2 length_Suc_conv by blast
  then have msg: "msg = body @ [lo, hi]" by (metis append_take_drop_id body_def)
  then have "body \<noteq> []" using assms(1) by auto
  moreover from this have "hd msg = hd body" by (simp add: msg)
  moreover have "n = int (length body) + 2" using assms(3) by (simp add: msg)
  ultimately show ?thesis
    using rtu_check_integrity_run [of body st os lo hi "[]"] assms(2,4) crc_residue [of body lo hi]
    by (simp only: msg crc_join_be16) simp
qed

lemma rtu_frame_residue: "crc_spec (body @ rtu_trailer body) = 0"
  by (simp add: rtu_trailer_def crc_residue crc_join_be16 wire_simps)

text \<open>C30: A frame that \<open>_modbus_rtu_send_msg_pre\<close> completed with its CRC, received by a context
  whose slave is the one addressed (or any context, for a broadcast), passes
  \<open>_modbus_rtu_check_integrity\<close>: the result is the frame's length and the state is unchanged.\<close>

theorem rtu_frame_accepted:
  assumes "body \<noteq> []" "length body + 2 \<le> length buf" "length body < 65536"
    and "take (length body) buf = body"
    and "uint (hd body) = ctx_slave (st_ctx st) \<or> uint (hd body) = 0"
  shows "\<exists>frame. rtu_send_msg_pre buf (int (length body)) = Some (int (length body) + 2, frame) \<and>
    rtu_check_integrity os frame (int (length body) + 2) st = Some (int (length body) + 2, st)"
proof -
  obtain room where buf: "buf = body @ room" "2 \<le> length room"
    using assms(2,4) by (metis add_le_cancel_left append_take_drop_id length_append)
  have "crc_spec body = word_of_int (be16 (hi8 (uint (crc_spec body))) (lo8 (uint (crc_spec body))))"
    by (simp add: wire_simps)
  then show ?thesis
    using rtu_send_msg_pre_run [OF assms(1) buf(2) assms(3)]
      rtu_check_integrity_run [OF assms(1,3,5)] by (simp add: buf)
qed

theorem rtu_frame_accepted_witness:
  "\<exists>frame. rtu_send_msg_pre [17, 3, 0, 0, 0, 1, 99, 99] 6 = Some (8, frame) \<and>
    rtu_check_integrity wire_os frame 8 (on_wire rtu_ctx []) = Some (8, on_wire rtu_ctx [])"
  using rtu_frame_accepted [of "[17, 3, 0, 0, 0, 1]" "[17, 3, 0, 0, 0, 1, 99, 99]" "on_wire rtu_ctx []" wire_os]
  by (simp add: rtu_ctx_def)

text \<open>C18: A frame completed by \<open>_modbus_rtu_send_msg_pre\<close> and damaged on the line anywhere
  behind the slave address, the CRC included, by a burst of errors that is confined to two
  neighbouring bytes: \<open>_modbus_rtu_check_integrity\<close> returns -1 with \<open>errno\<close> EMBBADCRC and leaves
  the context alone.\<close>

theorem rtu_damaged_frame_rejected:
  assumes "rtu_send_msg_pre buf (int k) = Some (n, pre @ [a, b] @ post)"
    and "length buf = k + 2" "0 < k" "k < 65534" "pre \<noteq> []" "(a, b) \<noteq> (a', b')"
    and "uint (hd pre) = ctx_slave (st_ctx st) \<or> uint (hd pre) = 0"
  shows "\<exists>st'. rtu_check_integrity os (pre @ [a', b'] @ post) n st = Some (-1, st') \<and>
    st_errno st' = EMBBADCRC \<and> st_ctx st' = st_ctx st"
proof -
  define body where "body = take k buf"
  have len: "length body = k" using assms(2) by (simp add: body_def)
  have "filled body buf = buf" using assms(2) by (simp add: filled_def body_def min_def)
  then have sent: "n = int k + 2" "pre @ [a, b] @ post = filled (body @ rtu_trailer body) buf"
    using rtu_pre_run [of body buf] assms(1-4) len by auto
  then have frame: "pre @ [a, b] @ post = body @ rtu_trailer body"
    using assms(2) len by (simp add: filled_def rtu_trailer_def)
  then have "length (pre @ [a, b] @ post) = k + 2" using len by (simp add: rtu_trailer_def)
  then have msg: "2 < length (pre @ [a', b'] @ post)" "length (pre @ [a', b'] @ post) < 65536"
    "n = int (length (pre @ [a', b'] @ post))"
    using assms(3,4) sent by simp_all
  have "crc_spec (pre @ [a', b'] @ post) \<noteq> 0"
    using crc_detects_two_byte_burst [OF assms(6), of pre post] rtu_frame_residue [of body]
    by (simp only: frame)
  moreover have "uint (hd (pre @ [a', b'] @ post)) = ctx_slave (st_ctx st) \<or>
      uint (hd (pre @ [a', b'] @ post)) = 0"
    using assms(5,7) by simp
  ultimately show ?thesis
    using rtu_check_integrity_residue [OF msg, of st os] rtu_flush_ctx [of os st] by simp
qed

theorem rtu_damaged_frame_rejected_witness:
  "\<exists>n pre a b st'. rtu_send_msg_pre [17, 3, 0, 0, 0, 1, 99, 99] 6 = Some (n, pre @ [a, b] @ []) \<and>
    rtu_check_integrity wire_os (pre @ [a, b + 1] @ []) n (on_wire rtu_ctx []) = Some (-1, st') \<and>
    st_errno st' = EMBBADCRC"
proof -
  let ?body = "[17, 3, 0, 0, 0, 1 :: u8]"
  obtain a b where ab: "rtu_trailer ?body = [a, b]" by (simp add: rtu_trailer_def)
  have sent: "rtu_send_msg_pre [17, 3, 0, 0, 0, 1, 99, 99] (int 6) = Some (8, ?body @ [a, b] @ [])"
    using rtu_pre_run [of ?body "[17, 3, 0, 0, 0, 1, 99, 99]"] ab by (simp add: filled_def)
  have "(a, b) \<noteq> (a, b + 1)" by simp
  from rtu_damaged_frame_rejected [OF sent _ _ _ _ this, of "on_wire rtu_ctx []" wire_os] sent
  show ?thesis by (simp add: rtu_ctx_def) blast
qed

end
