(* ===== verification/Modbus_Rtu_Connect.thy ===== *)
theory Modbus_Rtu_Connect
  imports Modbus_Rtu
begin

text \<open>
  \<open>libmodbus/src/modbus-rtu.c\<close>, the serial port: opening and configuring it, the RS485 and RTS
  settings, closing, and the constructor. The values of the \<open>termios\<close> and \<open>ioctl\<close> constants are
  those of Linux, where \<open>9600 == B9600\<close> is false.
\<close>

abbreviation (input) CREAD :: u32 where "CREAD \<equiv> 128"
abbreviation (input) CLOCAL :: u32 where "CLOCAL \<equiv> 2048"
abbreviation (input) CSIZE :: u32 where "CSIZE \<equiv> 48"
abbreviation (input) CS5 :: u32 where "CS5 \<equiv> 0"
abbreviation (input) CS6 :: u32 where "CS6 \<equiv> 16"
abbreviation (input) CS7 :: u32 where "CS7 \<equiv> 32"
abbreviation (input) CS8 :: u32 where "CS8 \<equiv> 48"
abbreviation (input) CSTOPB :: u32 where "CSTOPB \<equiv> 64"
abbreviation (input) PARENB :: u32 where "PARENB \<equiv> 256"
abbreviation (input) PARODD :: u32 where "PARODD \<equiv> 512"
abbreviation (input) LFLAGS_COOKED :: u32 where "LFLAGS_COOKED \<equiv> 27"
  \<comment> \<open>\<open>ICANON | ECHO | ECHOE | ISIG\<close>\<close>
abbreviation (input) INPCK :: u32 where "INPCK \<equiv> 16"
abbreviation (input) IFLAGS_SOFT_FLOW :: u32 where "IFLAGS_SOFT_FLOW \<equiv> 7168"
  \<comment> \<open>\<open>IXON | IXOFF | IXANY\<close>\<close>
abbreviation (input) OPOST :: u32 where "OPOST \<equiv> 1"

definition get_termios_speed :: "int \<Rightarrow> int" where
  "get_termios_speed baud =
     (if baud = 110 then 3 else if baud = 300 then 7 else if baud = 600 then 8
      else if baud = 1200 then 9 else if baud = 2400 then 11 else if baud = 4800 then 12
      else if baud = 9600 then 13 else if baud = 19200 then 14 else if baud = 38400 then 15
      else if baud = 57600 then 4097 else if baud = 115200 then 4098
      else if baud = 230400 then 4099 else if baud = 460800 then 4100
      else if baud = 500000 then 4101 else if baud = 576000 then 4102
      else if baud = 921600 then 4103 else if baud = 1000000 then 4104
      else if baud = 1152000 then 4105 else if baud = 1500000 then 4106
      else if baud = 2500000 then 4108 else if baud = 3000000 then 4109
      else if baud = 3500000 then 4110 else if baud = 4000000 then 4111
      else 13)"

text \<open>The flag words the code stores, from the zeroed structure with the speeds set.\<close>

definition rtu_control_flags :: "modbus_rtu \<Rightarrow> u32 \<Rightarrow> u32" where
  "rtu_control_flags d cflag =
     (let cflag = cflag OR (CREAD OR CLOCAL);
          cflag = cflag AND NOT CSIZE;
          bits = uint (rtu_data_bit d);
          cflag = (if bits = 5 then cflag OR CS5
                   else if bits = 6 then cflag OR CS6
                   else if bits = 7 then cflag OR CS7
                   else cflag OR CS8);
          cflag = (if rtu_stop_bit d = 1 then cflag AND NOT CSTOPB else cflag OR CSTOPB) in
      if rtu_parity d = CHR ''N'' then cflag AND NOT PARENB
      else if rtu_parity d = CHR ''E'' then (cflag OR PARENB) AND NOT PARODD
      else (cflag OR PARENB) OR PARODD)"

definition rtu_configure :: "modbus_rtu \<Rightarrow> termios \<Rightarrow> termios" where
  "rtu_configure d tios =
     (let iflag = (if rtu_parity d = CHR ''N'' then c_iflag tios AND NOT INPCK
                   else c_iflag tios OR INPCK) in
      tios\<lparr>c_cflag := rtu_control_flags d (c_cflag tios),
           c_lflag := c_lflag tios AND NOT LFLAGS_COOKED,
           c_iflag := iflag AND NOT IFLAGS_SOFT_FLOW,
           c_oflag := c_oflag tios AND NOT OPOST,
           c_vmin := 0, c_vtime := 0\<rparr>)"

definition zero_termios :: termios where
  "zero_termios = \<lparr>c_iflag = 0, c_oflag = 0, c_cflag = 0, c_lflag = 0,
     c_ispeed = 0, c_ospeed = 0, c_vmin = 0, c_vtime = 0\<rparr>"

definition set_rtu :: "modbus_rtu \<Rightarrow> 'w mst \<Rightarrow> 'w mst" where
  "set_rtu d st = st\<lparr>st_ctx := (st_ctx st)\<lparr>ctx_backend := RTU_backend d\<rparr>\<rparr>"

definition rtu_connect :: "'w os \<Rightarrow> modbus_rtu \<Rightarrow> 'w mst \<Rightarrow> int \<times> 'w mst" where
  "rtu_connect os d st =
     (let (s, st) = ret_count (os_open os (rtu_device d) (st_world st)) st;
          st = set_ctx_s s st in
      if s < 0 then (-1, st)
      else
        let (old, w) = os_tcgetattr os s (st_world st);
            d = d\<lparr>rtu_old_tios := old\<rparr>;
            st = set_rtu d (st\<lparr>st_world := w\<rparr>);
            speed = get_termios_speed (rtu_baud d) in
        case os_cfsetispeed os speed zero_termios of
          Inl e \<Rightarrow> (-1, set_ctx_s (-1) (close_fd os s (set_errno e st)))
        | Inr tios \<Rightarrow>
            (case os_cfsetospeed os speed tios of
               Inl e \<Rightarrow> (-1, set_ctx_s (-1) (close_fd os s (set_errno e st)))
             | Inr tios \<Rightarrow>
                 (let (rc, st) = ret_unit
                        (os_tcsetattr os s (rtu_configure d tios) (st_world st)) st in
                  if rc < 0 then (-1, set_ctx_s (-1) (close_fd os s st))
                  else (0, st))))"

definition rtu_is_connected :: "'w mst \<Rightarrow> bool" where
  "rtu_is_connected st \<longleftrightarrow> ctx_s (st_ctx st) \<ge> 0"

definition rtu_close :: "'w os \<Rightarrow> modbus_rtu \<Rightarrow> 'w mst \<Rightarrow> 'w mst" where
  "rtu_close os d st =
     (let s = ctx_s (st_ctx st) in
      if s \<ge> 0 then
        let st = snd (ret_unit (os_tcsetattr os s (rtu_old_tios d) (st_world st)) st) in
        set_ctx_s (-1) (close_fd os s st)
      else st)"

subsection \<open>RS485 mode and the RTS line\<close>

abbreviation (input) MODBUS_RTU_RS232 :: int where "MODBUS_RTU_RS232 \<equiv> 0"
abbreviation (input) MODBUS_RTU_RS485 :: int where "MODBUS_RTU_RS485 \<equiv> 1"
abbreviation (input) SER_RS485_ENABLED :: u32 where "SER_RS485_ENABLED \<equiv> 1"

definition ioctl_rs485 :: "'w os \<Rightarrow> bool \<Rightarrow> 'w mst \<Rightarrow> int \<times> 'w mst" where
  "ioctl_rs485 os on st =
     (let s = ctx_s (st_ctx st) in
      case os_tiocgrs485 os s (st_world st) of
        (Inl e, w) \<Rightarrow> (-1, set_errno e (st\<lparr>st_world := w\<rparr>))
      | (Inr flags, w) \<Rightarrow>
          (let flags = (if on then flags OR SER_RS485_ENABLED else flags AND NOT SER_RS485_ENABLED) in
           ret_unit (os_tiocsrs485 os s flags w) st))"

definition modbus_rtu_set_serial_mode ::
    "'w os \<Rightarrow> ctx_ptr \<Rightarrow> int \<Rightarrow> 'w mst \<Rightarrow> int \<times> 'w mst" where
  "modbus_rtu_set_serial_mode os p mode st =
     (if p = NULL_ctx then (-1, set_errno EINVAL st)
      else case ctx_backend (st_ctx st) of
        RTU_backend d \<Rightarrow>
          (if mode = MODBUS_RTU_RS485 then
             let (rc, st) = ioctl_rs485 os True st in
             if rc < 0 then (-1, st) else (0, set_rtu (d\<lparr>rtu_serial_mode := mode\<rparr>) st)
           else if mode = MODBUS_RTU_RS232 then
             let (rc, st) = (if rtu_serial_mode d = MODBUS_RTU_RS485
                             then ioctl_rs485 os False st else (0, st)) in
             if rc < 0 then (-1, st) else (0, set_rtu (d\<lparr>rtu_serial_mode := mode\<rparr>) st)
           else (-1, set_errno EINVAL st))
      | _ \<Rightarrow> (-1, set_errno EINVAL st))"

definition modbus_rtu_get_serial_mode :: "ctx_ptr \<Rightarrow> 'w mst \<Rightarrow> int \<times> 'w mst" where
  "modbus_rtu_get_serial_mode p st =
     (if p = NULL_ctx then (-1, set_errno EINVAL st)
      else case ctx_backend (st_ctx st) of
        RTU_backend d \<Rightarrow> (rtu_serial_mode d, st)
      | _ \<Rightarrow> (-1, set_errno EINVAL st))"

definition modbus_rtu_get_rts :: "ctx_ptr \<Rightarrow> 'w mst \<Rightarrow> int \<times> 'w mst" where
  "modbus_rtu_get_rts p st =
     (if p = NULL_ctx then (-1, set_errno EINVAL st)
      else case ctx_backend (st_ctx st) of
        RTU_backend d \<Rightarrow> (rtu_rts d, st)
      | _ \<Rightarrow> (-1, set_errno EINVAL st))"

definition modbus_rtu_set_rts :: "'w os \<Rightarrow> ctx_ptr \<Rightarrow> int \<Rightarrow> 'w mst \<Rightarrow> int \<times> 'w mst" where
  "modbus_rtu_set_rts os p mode st =
     (if p = NULL_ctx then (-1, set_errno EINVAL st)
      else case ctx_backend (st_ctx st) of
        RTU_backend d \<Rightarrow>
          (if mode = MODBUS_RTU_RTS_NONE \<or> mode = MODBUS_RTU_RTS_UP \<or> mode = MODBUS_RTU_RTS_DOWN
           then let st = set_rtu (d\<lparr>rtu_rts := mode\<rparr>) st in
             (0, call_set_rts os (rtu_set_rts d) (mode \<noteq> MODBUS_RTU_RTS_UP) st)
           else (-1, set_errno EINVAL st))
      | _ \<Rightarrow> (-1, set_errno EINVAL st))"

definition modbus_rtu_set_custom_rts :: "ctx_ptr \<Rightarrow> set_rts_fn \<Rightarrow> 'w mst \<Rightarrow> int \<times> 'w mst" where
  "modbus_rtu_set_custom_rts p f st =
     (if p = NULL_ctx then (-1, set_errno EINVAL st)
      else case ctx_backend (st_ctx st) of
        RTU_backend d \<Rightarrow> (0, set_rtu (d\<lparr>rtu_set_rts := f\<rparr>) st)
      | _ \<Rightarrow> (-1, set_errno EINVAL st))"

definition modbus_rtu_get_rts_delay :: "ctx_ptr \<Rightarrow> 'w mst \<Rightarrow> int \<times> 'w mst" where
  "modbus_rtu_get_rts_delay p st =
     (if p = NULL_ctx then (-1, set_errno EINVAL st)
      else case ctx_backend (st_ctx st) of
        RTU_backend d \<Rightarrow> (rtu_rts_delay d, st)
      | _ \<Rightarrow> (-1, set_errno EINVAL st))"

definition modbus_rtu_set_rts_delay :: "ctx_ptr \<Rightarrow> int \<Rightarrow> 'w mst \<Rightarrow> int \<times> 'w mst" where
  "modbus_rtu_set_rts_delay p us st =
     (if p = NULL_ctx \<or> us < 0 then (-1, set_errno EINVAL st)
      else case ctx_backend (st_ctx st) of
        RTU_backend d \<Rightarrow> (0, set_rtu (d\<lparr>rtu_rts_delay := us\<rparr>) st)
      | _ \<Rightarrow> (-1, set_errno EINVAL st))"

end
