(* ===== verification/Modbus_Context.thy ===== *)
theory Modbus_Context
  imports Modbus_Tcp_Connect Modbus_Rtu_Connect "HOL-Library.Signed_Division"
begin

text \<open>
  The context: the virtual table of the backends as dispatch on the backend of the context
  (\<open>_modbus_tcp_backend\<close>, \<open>_modbus_tcp_pi_backend\<close>, \<open>_modbus_rtu_backend\<close>), the constructors, and
  the settings functions of \<open>libmodbus/src/modbus.c\<close>.
\<close>

subsection \<open>The backend table\<close>

fun backend_type_of :: "backend \<Rightarrow> backend_type" where
  "backend_type_of (RTU_backend _) = MODBUS_BACKEND_TYPE_RTU"
| "backend_type_of _ = MODBUS_BACKEND_TYPE_TCP"

fun header_length :: "backend \<Rightarrow> int" where
  "header_length (RTU_backend _) = 1"
| "header_length _ = 7"

fun checksum_length :: "backend \<Rightarrow> int" where
  "checksum_length (RTU_backend _) = 2"
| "checksum_length _ = 0"

fun max_adu_length :: "backend \<Rightarrow> int" where
  "max_adu_length (RTU_backend _) = 256"
| "max_adu_length _ = 260"

abbreviation be :: "'w mst \<Rightarrow> backend" where "be st \<equiv> ctx_backend (st_ctx st)"

definition be_set_slave :: "int \<Rightarrow> 'w mst \<Rightarrow> int \<times> 'w mst" where
  "be_set_slave slave st =
     (case be st of RTU_backend _ \<Rightarrow> rtu_set_slave slave st | _ \<Rightarrow> tcp_set_slave slave st)"

definition be_build_request_basis ::
    "int \<Rightarrow> int \<Rightarrow> int \<Rightarrow> u8 list \<Rightarrow> 'w mst \<Rightarrow> (int \<times> u8 list \<times> 'w mst) option" where
  "be_build_request_basis function addr nb req st =
     (case be st of RTU_backend _ \<Rightarrow> rtu_build_request_basis function addr nb req st
      | _ \<Rightarrow> tcp_build_request_basis function addr nb req st)"

definition be_build_response_basis :: "backend \<Rightarrow> sft \<Rightarrow> u8 list \<Rightarrow> (int \<times> u8 list) option" where
  "be_build_response_basis b sft rsp =
     (case b of RTU_backend _ \<Rightarrow> rtu_build_response_basis sft rsp
      | _ \<Rightarrow> tcp_build_response_basis sft rsp)"

definition be_prepare_response_tid :: "backend \<Rightarrow> u8 list \<Rightarrow> int \<Rightarrow> (int \<times> int) option" where
  "be_prepare_response_tid b req req_length =
     (case b of RTU_backend _ \<Rightarrow> rtu_prepare_response_tid req req_length
      | _ \<Rightarrow> tcp_prepare_response_tid req req_length)"

definition be_send_msg_pre :: "backend \<Rightarrow> u8 list \<Rightarrow> int \<Rightarrow> (int \<times> u8 list) option" where
  "be_send_msg_pre b req req_length =
     (case b of RTU_backend _ \<Rightarrow> rtu_send_msg_pre req req_length
      | _ \<Rightarrow> tcp_send_msg_pre req req_length)"

definition be_send :: "'w os \<Rightarrow> u8 list \<Rightarrow> int \<Rightarrow> 'w mst \<Rightarrow> (int \<times> 'w mst) option" where
  "be_send os req req_length st =
     (case be st of RTU_backend d \<Rightarrow> rtu_send os d req req_length st
      | _ \<Rightarrow> tcp_send os req req_length st)"

definition be_recv ::
    "'w os \<Rightarrow> u8 list \<Rightarrow> int \<Rightarrow> int \<Rightarrow> 'w mst \<Rightarrow> (int \<times> u8 list \<times> 'w mst) option" where
  "be_recv os rsp pos rsp_length st =
     (case be st of RTU_backend _ \<Rightarrow> rtu_recv os rsp pos rsp_length st
      | _ \<Rightarrow> tcp_recv os rsp pos rsp_length st)"

definition be_check_integrity :: "'w os \<Rightarrow> u8 list \<Rightarrow> int \<Rightarrow> 'w mst \<Rightarrow> (int \<times> 'w mst) option" where
  "be_check_integrity os msg msg_length st =
     (case be st of RTU_backend _ \<Rightarrow> rtu_check_integrity os msg msg_length st
      | _ \<Rightarrow> tcp_check_integrity msg msg_length st)"

definition be_pre_check_confirmation ::
    "u8 list \<Rightarrow> u8 list \<Rightarrow> int \<Rightarrow> 'w mst \<Rightarrow> (int \<times> 'w mst) option" where
  "be_pre_check_confirmation req rsp rsp_length st =
     (case be st of RTU_backend _ \<Rightarrow> rtu_pre_check_confirmation req rsp rsp_length st
      | _ \<Rightarrow> tcp_pre_check_confirmation req rsp rsp_length st)"

definition be_connect :: "'w os \<Rightarrow> 'w mst \<Rightarrow> int \<times> 'w mst" where
  "be_connect os st =
     (case be st of RTU_backend d \<Rightarrow> rtu_connect os d st
      | TCP_backend d \<Rightarrow> tcp_connect os d st
      | TCP_PI_backend d \<Rightarrow> tcp_pi_connect os d st)"

definition be_is_connected :: "'w mst \<Rightarrow> bool" where
  "be_is_connected st =
     (case be st of RTU_backend _ \<Rightarrow> rtu_is_connected st | _ \<Rightarrow> tcp_is_connected st)"

definition be_close :: "'w os \<Rightarrow> 'w mst \<Rightarrow> 'w mst" where
  "be_close os st = (case be st of RTU_backend d \<Rightarrow> rtu_close os d st | _ \<Rightarrow> tcp_close os st)"

definition be_flush :: "'w os \<Rightarrow> 'w mst \<Rightarrow> (int \<times> 'w mst) option" where
  "be_flush os st = (case be st of RTU_backend _ \<Rightarrow> Some (rtu_flush os st) | _ \<Rightarrow> tcp_flush os st)"

definition be_select ::
    "'w os \<Rightarrow> timeval option \<Rightarrow> 'w mst \<Rightarrow> (int \<times> timeval option \<times> 'w mst) option" where
  "be_select os tv st =
     (case be st of RTU_backend _ \<Rightarrow> rtu_select os tv st | _ \<Rightarrow> tcp_select os tv st)"

subsection \<open>Framing through the table\<close>

text \<open>What the two backends promise of their frames, the code reaches through the table.\<close>

fun be_basis :: "backend \<Rightarrow> sft \<Rightarrow> u8 list \<Rightarrow> u8 list" where
  "be_basis (RTU_backend _) = rtu_basis"
| "be_basis _ = tcp_basis"

fun be_final :: "backend \<Rightarrow> u8 list \<Rightarrow> nat \<Rightarrow> u8 list" where
  "be_final (RTU_backend _) = (\<lambda>hdr _. hdr)"
| "be_final _ = tcp_final"

fun be_trailer :: "backend \<Rightarrow> u8 list \<Rightarrow> u8 list" where
  "be_trailer (RTU_backend _) = rtu_trailer"
| "be_trailer _ = (\<lambda>_. [])"

fun be_header :: "backend \<Rightarrow> sft \<Rightarrow> nat \<Rightarrow> u8 list" where
  "be_header (RTU_backend _) = (\<lambda>sft _. rtu_basis sft [])"
| "be_header _ = tcp_header"

fun be_hdr_ok :: "backend \<Rightarrow> u8 list \<Rightarrow> bool" where
  "be_hdr_ok (RTU_backend _) = (\<lambda>_. True)"
| "be_hdr_ok _ = tcp_hdr_ok"

fun be_tid :: "backend \<Rightarrow> u8 list \<Rightarrow> int" where
  "be_tid (RTU_backend _) = (\<lambda>_. 0)"
| "be_tid _ = tcp_tid"

interpretation be_framing: framing "header_length b" "checksum_length b"
  "be_build_response_basis b" "be_prepare_response_tid b" "be_send_msg_pre b" "be_basis b"
  "be_final b" "be_trailer b" "be_header b" "be_hdr_ok b" "be_tid b" for b
proof (cases b)
  case (RTU_backend d)
  then show "framing (header_length b) (checksum_length b) (be_build_response_basis b)
    (be_prepare_response_tid b) (be_send_msg_pre b) (be_basis b) (be_final b) (be_trailer b)
    (be_header b) (be_hdr_ok b) (be_tid b)"
    using rtu_framing.framing_axioms
    by (simp add: be_build_response_basis_def [abs_def] be_prepare_response_tid_def [abs_def]
        be_send_msg_pre_def [abs_def])
next
  case (TCP_backend d)
  then show "framing (header_length b) (checksum_length b) (be_build_response_basis b)
    (be_prepare_response_tid b) (be_send_msg_pre b) (be_basis b) (be_final b) (be_trailer b)
    (be_header b) (be_hdr_ok b) (be_tid b)"
    using tcp_framing.framing_axioms
    by (simp add: be_build_response_basis_def [abs_def] be_prepare_response_tid_def [abs_def]
        be_send_msg_pre_def [abs_def])
next
  case (TCP_PI_backend d)
  then show "framing (header_length b) (checksum_length b) (be_build_response_basis b)
    (be_prepare_response_tid b) (be_send_msg_pre b) (be_basis b) (be_final b) (be_trailer b)
    (be_header b) (be_hdr_ok b) (be_tid b)"
    using tcp_framing.framing_axioms
    by (simp add: be_build_response_basis_def [abs_def] be_prepare_response_tid_def [abs_def]
        be_send_msg_pre_def [abs_def])
qed

text \<open>
  Requests through the table. The backend of the state keeps its kind when the transaction
  counter moves, so the framing functions of the old backend serve the new state too.
\<close>

definition be_can_request :: "'w mst \<Rightarrow> bool" where
  "be_can_request st =
     (case be st of RTU_backend _ \<Rightarrow> ctx_slave (st_ctx st) \<noteq> -1 | _ \<Rightarrow> True)"

definition be_advance :: "'w mst \<Rightarrow> 'w mst" where
  "be_advance st = (case be st of RTU_backend _ \<Rightarrow> st | _ \<Rightarrow> tcp_advance st)"

definition be_origin :: "'w mst \<Rightarrow> sft" where
  "be_origin st = (case be st of RTU_backend _ \<Rightarrow> rtu_origin st | _ \<Rightarrow> tcp_origin st)"

fun same_kind :: "backend \<Rightarrow> backend \<Rightarrow> bool" where
  "same_kind (RTU_backend _) (RTU_backend _) = True"
| "same_kind (RTU_backend _) _ = False"
| "same_kind _ (RTU_backend _) = False"
| "same_kind _ _ = True"

interpretation be_requests: request_framing "header_length b" "checksum_length b"
  "be_build_response_basis b" "be_prepare_response_tid b" "be_send_msg_pre b" "be_basis b"
  "be_final b" "be_trailer b" "be_header b" "be_hdr_ok b" "be_tid b"
  be_build_request_basis "\<lambda>st. same_kind b (be st) \<and> be_can_request st" be_advance be_origin for b
proof
  fix st :: "'w mst" and t :: "u8 list" and f a n :: int
  assume *: "same_kind b (be st) \<and> be_can_request st" "header_length b + 5 \<le> int (length t)"
  show "be_build_request_basis f a n t st = Some (header_length b + 5,
      filled (be_basis b (be_origin st) t @ [word_of_int f, hi8 a, lo8 a, hi8 n, lo8 n]) t, be_advance st)"
    using * rtu_request_run [of st t f a n] tcp_request_run [of st _ t f a n]
    by (cases b; cases "be st")
      (simp_all add: be_build_request_basis_def be_can_request_def be_advance_def be_origin_def)
next
  fix sft n show "be_hdr_ok b (be_header b sft n)"
    by (cases b) (simp_all add: tcp_requests.header_ok)
next
  fix st :: "'w mst" and n
  assume "same_kind b (be st) \<and> be_can_request st"
  then show "uint (last (be_header b (be_origin st) n)) = sft_slave (be_origin st)"
    by (cases b; cases "be st")
      (simp_all add: be_origin_def be_can_request_def tcp_requests.header_slave rtu_requests.header_slave)
next
  fix st :: "'w mst" and n
  assume "same_kind b (be st) \<and> be_can_request st"
  then show "be_tid b (be_header b (be_origin st) n) = sft_t_id (be_origin st)"
    by (cases b; cases "be st")
      (simp_all add: be_origin_def be_can_request_def tcp_requests.header_tid rtu_origin_def)
qed

subsection \<open>Constructors\<close>

definition modbus_init_common :: "modbus \<Rightarrow> modbus" where
  "modbus_init_common ctx =
     ctx\<lparr>ctx_slave := -1, ctx_s := -1, ctx_debug := 0,
         ctx_error_recovery := MODBUS_ERROR_RECOVERY_NONE, ctx_quirks := MODBUS_QUIRK_NONE,
         ctx_response_timeout := \<lparr>tv_sec = 0, tv_usec = 500000\<rparr>,
         ctx_byte_timeout := \<lparr>tv_sec = 0, tv_usec = 500000\<rparr>,
         ctx_indication_timeout := \<lparr>tv_sec = 0, tv_usec = 0\<rparr>\<rparr>"

text \<open>
  What \<open>malloc\<close> returns is an argument: whether each allocation succeeds and what the new
  memory holds. A constructor returns the context (or no context) and the new \<open>errno\<close>.
\<close>

definition modbus_new_tcp ::
    "modbus option \<Rightarrow> char list option \<Rightarrow> string option \<Rightarrow> int \<Rightarrow> int \<Rightarrow> (modbus option \<times> int) option" where
  "modbus_new_tcp mem_ctx mem_ip ip port err =
     (case mem_ctx of None \<Rightarrow> Some (None, ENOMEM)
      | Some raw \<Rightarrow>
          let ctx = (modbus_init_common raw)\<lparr>ctx_slave := MODBUS_TCP_SLAVE\<rparr> in
          case mem_ip of None \<Rightarrow> Some (None, ENOMEM)
          | Some cells \<Rightarrow>
              (case ip of
                 None \<Rightarrow> do {
                   cells \<leftarrow> wr cells 0 (CHR ''0'');
                   Some (Some (ctx\<lparr>ctx_backend := TCP_backend
                     \<lparr>tcp_t_id = 0, tcp_port = port, tcp_ip = c_string cells\<rparr>\<rparr>), err) }
               | Some ip \<Rightarrow> do {
                   (ret_size, cells) \<leftarrow> strlcpy cells (ip @ [NUL]) 16;
                   if ret_size = 0 then Some (None, EINVAL)
                   else if ret_size \<ge> 16 then Some (None, EINVAL)
                   else Some (Some (ctx\<lparr>ctx_backend := TCP_backend
                     \<lparr>tcp_t_id = 0, tcp_port = port, tcp_ip = c_string cells\<rparr>\<rparr>), err) }))"

definition modbus_new_tcp_pi ::
    "modbus option \<Rightarrow> bool \<Rightarrow> bool \<Rightarrow> bool \<Rightarrow> string option \<Rightarrow> string option \<Rightarrow> int \<Rightarrow> modbus option \<times> int" where
  "modbus_new_tcp_pi mem_ctx mem_data mem_node mem_service node service err =
     (case mem_ctx of None \<Rightarrow> (None, ENOMEM)
      | Some raw \<Rightarrow>
          let ctx = (modbus_init_common raw)\<lparr>ctx_slave := MODBUS_TCP_SLAVE\<rparr>;
              node' = (case node of Some n \<Rightarrow> n | None \<Rightarrow> '''');
              service' = (case service of Some s \<Rightarrow> (if s = [] then ''502'' else s) | None \<Rightarrow> ''502'') in
          if \<not> mem_data then (None, ENOMEM)
          else if \<not> mem_node then (None, ENOMEM)
          else if \<not> mem_service then (None, ENOMEM)
          else (Some (ctx\<lparr>ctx_backend := TCP_PI_backend
                  \<lparr>pi_t_id = 0, pi_node = node', pi_service = service'\<rparr>\<rparr>), err))"

text \<open>
  The time of one byte is computed in \<open>int\<close>, from left to right; an overflow is a fault.
\<close>

definition fits_int :: "int \<Rightarrow> bool" where
  "fits_int x \<longleftrightarrow> -2147483648 \<le> x \<and> x \<le> 2147483647"

definition rtu_onebyte_micros :: "int \<Rightarrow> char \<Rightarrow> int \<Rightarrow> int \<Rightarrow> int option" where
  "rtu_onebyte_micros baud parity data_bit stop_bit =
     (let parity_bit = (if parity = CHR ''N'' then 0 else 1);
          bits = 1 + data_bit + parity_bit + stop_bit in
      if fits_int (1 + data_bit) \<and> fits_int (1 + data_bit + parity_bit) \<and> fits_int bits \<and>
         fits_int (1000000 * bits)
      then Some ((1000000 * bits) sdiv baud) else None)"

definition modbus_new_rtu ::
    "modbus option \<Rightarrow> termios option \<Rightarrow> bool \<Rightarrow> string option \<Rightarrow> int \<Rightarrow> char \<Rightarrow> int \<Rightarrow> int \<Rightarrow> int
     \<Rightarrow> (modbus option \<times> int) option" where
  "modbus_new_rtu mem_ctx mem_data mem_device device baud parity data_bit stop_bit err =
     (case device of None \<Rightarrow> Some (None, EINVAL)
      | Some dev \<Rightarrow>
        if dev = [] then Some (None, EINVAL)
        else if baud = 0 then Some (None, EINVAL)
        else case mem_ctx of None \<Rightarrow> Some (None, ENOMEM)
        | Some raw \<Rightarrow>
          (let ctx = modbus_init_common raw in
           case mem_data of None \<Rightarrow> Some (None, ENOMEM)
           | Some tios \<Rightarrow>
             if \<not> mem_device then Some (None, ENOMEM)
             else if \<not> (parity = CHR ''N'' \<or> parity = CHR ''E'' \<or> parity = CHR ''O'') then Some (None, EINVAL)
             else do {
               onebyte_time \<leftarrow> rtu_onebyte_micros baud parity data_bit stop_bit;
               Some (Some (ctx\<lparr>ctx_backend := RTU_backend
                 \<lparr>rtu_device = dev, rtu_baud = baud, rtu_data_bit = word_of_int data_bit,
                  rtu_stop_bit = word_of_int stop_bit, rtu_parity = parity, rtu_old_tios = tios,
                  rtu_serial_mode = MODBUS_RTU_RS232, rtu_rts = MODBUS_RTU_RTS_NONE,
                  rtu_rts_delay = onebyte_time, rtu_onebyte_time = onebyte_time,
                  rtu_set_rts = Modbus_rtu_ioctl_rts, rtu_confirmation_to_ignore = False\<rparr>\<rparr>), err) }))"

subsection \<open>Settings\<close>

abbreviation set_ctx :: "modbus \<Rightarrow> 'w mst \<Rightarrow> 'w mst" where
  "set_ctx c st \<equiv> st\<lparr>st_ctx := c\<rparr>"

definition modbus_set_slave :: "ctx_ptr \<Rightarrow> int \<Rightarrow> 'w mst \<Rightarrow> int \<times> 'w mst" where
  "modbus_set_slave p slave st =
     (if p = NULL_ctx then (-1, set_errno EINVAL st) else be_set_slave slave st)"

definition modbus_get_slave :: "ctx_ptr \<Rightarrow> 'w mst \<Rightarrow> int \<times> 'w mst" where
  "modbus_get_slave p st =
     (if p = NULL_ctx then (-1, set_errno EINVAL st) else (ctx_slave (st_ctx st), st))"

definition modbus_set_error_recovery :: "ctx_ptr \<Rightarrow> int \<Rightarrow> 'w mst \<Rightarrow> int \<times> 'w mst" where
  "modbus_set_error_recovery p error_recovery st =
     (if p = NULL_ctx then (-1, set_errno EINVAL st)
      else (0, set_ctx ((st_ctx st)\<lparr>ctx_error_recovery := uint (word_of_int error_recovery :: u8)\<rparr>) st))"

definition modbus_set_socket :: "ctx_ptr \<Rightarrow> int \<Rightarrow> 'w mst \<Rightarrow> int \<times> 'w mst" where
  "modbus_set_socket p s st =
     (if p = NULL_ctx then (-1, set_errno EINVAL st) else (0, set_ctx_s s st))"

definition modbus_get_socket :: "ctx_ptr \<Rightarrow> 'w mst \<Rightarrow> int \<times> 'w mst" where
  "modbus_get_socket p st =
     (if p = NULL_ctx then (-1, set_errno EINVAL st) else (ctx_s (st_ctx st), st))"

text \<open>A getter stores the two numbers through its pointer arguments when it succeeds.\<close>

definition modbus_get_response_timeout ::
    "ctx_ptr \<Rightarrow> 'w mst \<Rightarrow> int \<times> (u32 \<times> u32) option \<times> 'w mst" where
  "modbus_get_response_timeout p st =
     (if p = NULL_ctx then (-1, None, set_errno EINVAL st)
      else let tv = ctx_response_timeout (st_ctx st) in
        (0, Some (word_of_int (tv_sec tv), word_of_int (tv_usec tv)), st))"

definition modbus_set_response_timeout :: "ctx_ptr \<Rightarrow> u32 \<Rightarrow> u32 \<Rightarrow> 'w mst \<Rightarrow> int \<times> 'w mst" where
  "modbus_set_response_timeout p to_sec to_usec st =
     (if p = NULL_ctx \<or> (to_sec = 0 \<and> to_usec = 0) \<or> to_usec > 999999
      then (-1, set_errno EINVAL st)
      else (0, set_ctx ((st_ctx st)\<lparr>ctx_response_timeout :=
             \<lparr>tv_sec = uint to_sec, tv_usec = uint to_usec\<rparr>\<rparr>) st))"

definition modbus_get_byte_timeout ::
    "ctx_ptr \<Rightarrow> 'w mst \<Rightarrow> int \<times> (u32 \<times> u32) option \<times> 'w mst" where
  "modbus_get_byte_timeout p st =
     (if p = NULL_ctx then (-1, None, set_errno EINVAL st)
      else let tv = ctx_byte_timeout (st_ctx st) in
        (0, Some (word_of_int (tv_sec tv), word_of_int (tv_usec tv)), st))"

definition modbus_set_byte_timeout :: "ctx_ptr \<Rightarrow> u32 \<Rightarrow> u32 \<Rightarrow> 'w mst \<Rightarrow> int \<times> 'w mst" where
  "modbus_set_byte_timeout p to_sec to_usec st =
     (if p = NULL_ctx \<or> to_usec > 999999 then (-1, set_errno EINVAL st)
      else (0, set_ctx ((st_ctx st)\<lparr>ctx_byte_timeout :=
             \<lparr>tv_sec = uint to_sec, tv_usec = uint to_usec\<rparr>\<rparr>) st))"

definition modbus_get_indication_timeout ::
    "ctx_ptr \<Rightarrow> 'w mst \<Rightarrow> int \<times> (u32 \<times> u32) option \<times> 'w mst" where
  "modbus_get_indication_timeout p st =
     (if p = NULL_ctx then (-1, None, set_errno EINVAL st)
      else let tv = ctx_indication_timeout (st_ctx st) in
        (0, Some (word_of_int (tv_sec tv), word_of_int (tv_usec tv)), st))"

definition modbus_set_indication_timeout :: "ctx_ptr \<Rightarrow> u32 \<Rightarrow> u32 \<Rightarrow> 'w mst \<Rightarrow> int \<times> 'w mst" where
  "modbus_set_indication_timeout p to_sec to_usec st =
     (if p = NULL_ctx \<or> to_usec > 999999 then (-1, set_errno EINVAL st)
      else (0, set_ctx ((st_ctx st)\<lparr>ctx_indication_timeout :=
             \<lparr>tv_sec = uint to_sec, tv_usec = uint to_usec\<rparr>\<rparr>) st))"

definition modbus_get_header_length :: "ctx_ptr \<Rightarrow> 'w mst \<Rightarrow> int \<times> 'w mst" where
  "modbus_get_header_length p st =
     (if p = NULL_ctx then (-1, set_errno EINVAL st) else (header_length (be st), st))"

definition modbus_enable_quirks :: "ctx_ptr \<Rightarrow> u32 \<Rightarrow> 'w mst \<Rightarrow> int \<times> 'w mst" where
  "modbus_enable_quirks p quirks_mask st =
     (if p = NULL_ctx then (-1, set_errno EINVAL st)
      else (0, set_ctx ((st_ctx st)\<lparr>ctx_quirks :=
             sint (word_of_int (ctx_quirks (st_ctx st)) OR quirks_mask)\<rparr>) st))"

definition modbus_disable_quirks :: "ctx_ptr \<Rightarrow> u32 \<Rightarrow> 'w mst \<Rightarrow> int \<times> 'w mst" where
  "modbus_disable_quirks p quirks_mask st =
     (if p = NULL_ctx then (-1, set_errno EINVAL st)
      else (0, set_ctx ((st_ctx st)\<lparr>ctx_quirks :=
             sint (word_of_int (ctx_quirks (st_ctx st)) AND NOT quirks_mask)\<rparr>) st))"

definition modbus_connect :: "'w os \<Rightarrow> ctx_ptr \<Rightarrow> 'w mst \<Rightarrow> int \<times> 'w mst" where
  "modbus_connect os p st =
     (if p = NULL_ctx then (-1, set_errno EINVAL st) else be_connect os st)"

definition modbus_close :: "'w os \<Rightarrow> ctx_ptr \<Rightarrow> 'w mst \<Rightarrow> 'w mst" where
  "modbus_close os p st = (if p = NULL_ctx then st else be_close os st)"

definition modbus_set_debug :: "ctx_ptr \<Rightarrow> int \<Rightarrow> 'w mst \<Rightarrow> int \<times> 'w mst" where
  "modbus_set_debug p flag st =
     (if p = NULL_ctx then (-1, set_errno EINVAL st)
      else (0, set_ctx ((st_ctx st)\<lparr>ctx_debug := flag\<rparr>) st))"

definition modbus_flush :: "'w os \<Rightarrow> ctx_ptr \<Rightarrow> 'w mst \<Rightarrow> (int \<times> 'w mst) option" where
  "modbus_flush os p st =
     (if p = NULL_ctx then Some (-1, set_errno EINVAL st) else be_flush os st)"

text \<open>\<open>while (nanosleep(&request, &remaining) == -1 && errno == EINTR) request = remaining;\<close>\<close>

partial_function (option) nanosleep_loop :: "'w os \<Rightarrow> int \<times> int \<Rightarrow> 'w mst \<Rightarrow> 'w mst option" where
  "nanosleep_loop os request st =
     (case os_nanosleep os request (st_world st) of
        (None, w) \<Rightarrow> Some (st\<lparr>st_world := w\<rparr>)
      | (Some (e, remaining), w) \<Rightarrow>
          (let st = st\<lparr>st_errno := e, st_world := w\<rparr> in
           if e = EINTR then nanosleep_loop os remaining st else Some st))"

declare nanosleep_loop.simps [code]

definition sleep_response_timeout :: "'w os \<Rightarrow> 'w mst \<Rightarrow> 'w mst option" where
  "sleep_response_timeout os st =
     (let tv = ctx_response_timeout (st_ctx st) in
      nanosleep_loop os (tv_sec tv, tv_usec tv * 1000) st)"

subsection \<open>Invariant of the settings\<close>

text \<open>
  The response timeout is positive, every timeout is a valid \<open>struct timeval\<close>, and the slave is
  unset, in the range of the protocol, or one the quirk or the TCP default allows.
\<close>

definition timeval_ok :: "timeval \<Rightarrow> bool" where
  "timeval_ok tv \<longleftrightarrow> 0 \<le> tv_sec tv \<and> 0 \<le> tv_usec tv \<and> tv_usec tv \<le> 999999"

definition ctx_ok :: "modbus \<Rightarrow> bool" where
  "ctx_ok c \<longleftrightarrow>
     timeval_ok (ctx_response_timeout c) \<and>
     0 < tv_sec (ctx_response_timeout c) + tv_usec (ctx_response_timeout c) \<and>
     timeval_ok (ctx_byte_timeout c) \<and> timeval_ok (ctx_indication_timeout c) \<and>
     -1 \<le> ctx_slave c \<and> ctx_slave c \<le> 255"

lemma ctx_ok_init: "ctx_ok (modbus_init_common raw)"
  by (simp add: ctx_ok_def timeval_ok_def modbus_init_common_def)

lemma ctx_ok_backend [simp]: "ctx_ok (c\<lparr>ctx_backend := b\<rparr>) = ctx_ok c"
  by (simp add: ctx_ok_def)

lemma ctx_ok_other [simp]:
  "ctx_ok (c\<lparr>ctx_s := s\<rparr>) = ctx_ok c" "ctx_ok (c\<lparr>ctx_debug := d\<rparr>) = ctx_ok c"
  "ctx_ok (c\<lparr>ctx_quirks := q\<rparr>) = ctx_ok c" "ctx_ok (c\<lparr>ctx_error_recovery := e\<rparr>) = ctx_ok c"
  by (simp_all add: ctx_ok_def)

lemma ctx_ok_slave: "ctx_ok c \<Longrightarrow> -1 \<le> s \<Longrightarrow> s \<le> 255 \<Longrightarrow> ctx_ok (c\<lparr>ctx_slave := s\<rparr>)"
  by (simp add: ctx_ok_def)

lemma timeval_ok_u32:
  "u \<le> 999999 \<Longrightarrow> timeval_ok \<lparr>tv_sec = uint (t :: u32), tv_usec = uint (u :: u32)\<rparr>"
  by (simp add: timeval_ok_def word_le_def)

lemma set_slave_ok: "ctx_ok (st_ctx st) \<Longrightarrow> ctx_ok (st_ctx (snd (modbus_set_slave p slave st)))"
  by (auto simp: modbus_set_slave_def be_set_slave_def rtu_set_slave_def tcp_set_slave_def Let_def
      ctx_ok_slave split: backend.splits)

lemma set_response_timeout_ok:
  assumes "ctx_ok (st_ctx st)"
  shows "ctx_ok (st_ctx (snd (modbus_set_response_timeout p s u st)))"
proof -
  have "0 < uint s + uint u" if "\<not> (s = 0 \<and> u = 0)"
  proof -
    have "uint s \<noteq> 0 \<or> uint u \<noteq> 0" using that by (simp add: uint_0_iff)
    moreover have "0 \<le> uint s" "0 \<le> uint u" by simp_all
    ultimately show ?thesis by linarith
  qed
  then show ?thesis
    using assms timeval_ok_u32 [of u s]
    by (auto simp: modbus_set_response_timeout_def ctx_ok_def not_less)
qed

lemma set_byte_timeout_ok:
  "ctx_ok (st_ctx st) \<Longrightarrow> ctx_ok (st_ctx (snd (modbus_set_byte_timeout p s u st)))"
  using timeval_ok_u32 [of u s] by (auto simp: modbus_set_byte_timeout_def ctx_ok_def not_less)

lemma set_indication_timeout_ok:
  "ctx_ok (st_ctx st) \<Longrightarrow> ctx_ok (st_ctx (snd (modbus_set_indication_timeout p s u st)))"
  using timeval_ok_u32 [of u s] by (auto simp: modbus_set_indication_timeout_def ctx_ok_def not_less)

text \<open>The settings calls of the API, as a datatype, and a sequence of them.\<close>

datatype setting =
    Set_slave int | Set_error_recovery int | Set_socket int | Set_debug int
  | Set_response_timeout u32 u32 | Set_byte_timeout u32 u32 | Set_indication_timeout u32 u32
  | Enable_quirks u32 | Disable_quirks u32

fun apply_setting :: "ctx_ptr \<Rightarrow> setting \<Rightarrow> 'w mst \<Rightarrow> 'w mst" where
  "apply_setting p (Set_slave n) st = snd (modbus_set_slave p n st)"
| "apply_setting p (Set_error_recovery n) st = snd (modbus_set_error_recovery p n st)"
| "apply_setting p (Set_socket n) st = snd (modbus_set_socket p n st)"
| "apply_setting p (Set_debug n) st = snd (modbus_set_debug p n st)"
| "apply_setting p (Set_response_timeout s u) st = snd (modbus_set_response_timeout p s u st)"
| "apply_setting p (Set_byte_timeout s u) st = snd (modbus_set_byte_timeout p s u st)"
| "apply_setting p (Set_indication_timeout s u) st = snd (modbus_set_indication_timeout p s u st)"
| "apply_setting p (Enable_quirks q) st = snd (modbus_enable_quirks p q st)"
| "apply_setting p (Disable_quirks q) st = snd (modbus_disable_quirks p q st)"

lemma apply_setting_ok: "ctx_ok (st_ctx st) \<Longrightarrow> ctx_ok (st_ctx (apply_setting p x st))"
  by (cases x)
    (simp_all add: set_slave_ok set_response_timeout_ok set_byte_timeout_ok
      set_indication_timeout_ok modbus_set_error_recovery_def modbus_set_socket_def
      modbus_set_debug_def modbus_enable_quirks_def modbus_disable_quirks_def)

lemma new_tcp_ok: "modbus_new_tcp mc mi ip port err = Some (Some c, e) \<Longrightarrow> ctx_ok c"
  by (auto simp: modbus_new_tcp_def Let_def ctx_ok_init ctx_ok_slave
      split: option.splits bind_splits if_splits)

lemma new_rtu_ok: "modbus_new_rtu mc md mv dev baud par db sb err = Some (Some c, e) \<Longrightarrow> ctx_ok c"
  by (auto simp: modbus_new_rtu_def Let_def ctx_ok_init split: option.splits if_splits bind_splits)

lemma new_tcp_pi_ok: "modbus_new_tcp_pi mc md mn ms node service err = (Some c, e) \<Longrightarrow> ctx_ok c"
  by (auto simp: modbus_new_tcp_pi_def Let_def ctx_ok_init ctx_ok_slave split: option.splits if_splits)

text \<open>C26: A context made by any of the three constructors, after any sequence of settings calls
  (accepted or refused), has a positive response timeout, three valid timeouts, and a slave
  number between -1 and 255.\<close>

theorem settings_keep_context_valid:
  assumes "modbus_new_tcp mc mi ip port err = Some (Some (st_ctx st), e)
    \<or> modbus_new_rtu mc md mv dev baud par db sb err = Some (Some (st_ctx st), e)
    \<or> modbus_new_tcp_pi mc mdat mn ms node service err = (Some (st_ctx st), e)"
  shows "ctx_ok (st_ctx (fold (apply_setting p) xs st))"
proof -
  have "ctx_ok (st_ctx st)" using assms by (auto dest: new_tcp_ok new_rtu_ok new_tcp_pi_ok)
  then show ?thesis by (induction xs arbitrary: st) (simp_all add: apply_setting_ok)
qed

theorem settings_keep_context_valid_witness:
  "\<exists>c. modbus_new_tcp (Some tcp_ctx) (Some ''xxxxxxxxxxxxxxxx'') None 502 0 = Some (Some c, 0) \<and>
    ctx_ok (st_ctx (fold (apply_setting The_ctx)
      [Set_slave 300, Set_response_timeout 0 0, Set_byte_timeout 1 2000000]
      ((on_wire tcp_ctx [])\<lparr>st_ctx := c\<rparr>)))"
proof -
  obtain c where c: "modbus_new_tcp (Some tcp_ctx) (Some ''xxxxxxxxxxxxxxxx'') None 502 0 = Some (Some c, 0)"
    by (simp add: modbus_new_tcp_def Let_def buf_simps)
  have "modbus_new_tcp (Some tcp_ctx) (Some ''xxxxxxxxxxxxxxxx'') None 502 0 =
      Some (Some (st_ctx ((on_wire tcp_ctx [])\<lparr>st_ctx := c\<rparr>)), 0)"
    by (simp add: c)
  from settings_keep_context_valid [OF disjI1 [OF this]] show ?thesis
    by (intro exI [of _ c] conjI c)
qed

end
