(* ===== verification/Modbus_Core.thy ===== *)
theory Modbus_Core
  imports Modbus_Context Wire
begin

text \<open>
  \<open>libmodbus/src/modbus.c\<close>, the part shared by client and server: expected lengths, sending a
  frame, receiving a frame step by step, and checking a confirmation against its request.
  Printing in debug mode is left out; the Windows branches are not modelled.
\<close>

subsection \<open>Lengths\<close>

abbreviation (input) MSG_LENGTH_UNDEFINED :: int where "MSG_LENGTH_UNDEFINED \<equiv> -1"

definition compute_response_length_from_request :: "backend \<Rightarrow> u8 list \<Rightarrow> int option" where
  "compute_response_length_from_request b req = do {
     let offset = header_length b;
     f \<leftarrow> rd req offset;
     let function = uint f;
     if function = MODBUS_FC_READ_COILS \<or> function = MODBUS_FC_READ_DISCRETE_INPUTS then do {
       hi \<leftarrow> rd req (offset + 3); lo \<leftarrow> rd req (offset + 4);
       let nb = be16_or hi lo;
       let length = 2 + (nb div 8) + (if nb mod 8 \<noteq> 0 then 1 else 0);
       Some (offset + length + checksum_length b) }
     else if function = MODBUS_FC_WRITE_AND_READ_REGISTERS \<or>
             function = MODBUS_FC_READ_HOLDING_REGISTERS \<or>
             function = MODBUS_FC_READ_INPUT_REGISTERS then do {
       hi \<leftarrow> rd req (offset + 3); lo \<leftarrow> rd req (offset + 4);
       let length = 2 + 2 * be16_or hi lo;
       Some (offset + length + checksum_length b) }
     else if function = MODBUS_FC_READ_EXCEPTION_STATUS then
       Some (offset + 3 + checksum_length b)
     else if function = MODBUS_FC_REPORT_SLAVE_ID then Some MSG_LENGTH_UNDEFINED
     else if function = MODBUS_FC_MASK_WRITE_REGISTER then
       Some (offset + 7 + checksum_length b)
     else Some (offset + 5 + checksum_length b) }"

definition compute_meta_length_after_function :: "int \<Rightarrow> msg_type \<Rightarrow> int" where
  "compute_meta_length_after_function function msg_type =
     (if msg_type = MSG_INDICATION then
        (if function \<le> MODBUS_FC_WRITE_SINGLE_REGISTER then 4
         else if function = MODBUS_FC_WRITE_MULTIPLE_COILS \<or>
                 function = MODBUS_FC_WRITE_MULTIPLE_REGISTERS then 5
         else if function = MODBUS_FC_MASK_WRITE_REGISTER then 6
         else if function = MODBUS_FC_WRITE_AND_READ_REGISTERS then 9
         else 0)
      else
        (if function = MODBUS_FC_WRITE_SINGLE_COIL \<or>
            function = MODBUS_FC_WRITE_SINGLE_REGISTER \<or>
            function = MODBUS_FC_WRITE_MULTIPLE_COILS \<or>
            function = MODBUS_FC_WRITE_MULTIPLE_REGISTERS then 4
         else if function = MODBUS_FC_MASK_WRITE_REGISTER then 6
         else 1))"

definition compute_data_length_after_meta :: "backend \<Rightarrow> u8 list \<Rightarrow> msg_type \<Rightarrow> int option" where
  "compute_data_length_after_meta b msg msg_type = do {
     f \<leftarrow> rd msg (header_length b);
     let function = uint f;
     length \<leftarrow>
       (if msg_type = MSG_INDICATION then
          (if function = MODBUS_FC_WRITE_MULTIPLE_COILS \<or>
              function = MODBUS_FC_WRITE_MULTIPLE_REGISTERS then
             map_option uint (rd msg (header_length b + 5))
           else if function = MODBUS_FC_WRITE_AND_READ_REGISTERS then
             map_option uint (rd msg (header_length b + 9))
           else Some 0)
        else
          (if function \<le> MODBUS_FC_READ_INPUT_REGISTERS \<or>
              function = MODBUS_FC_REPORT_SLAVE_ID \<or>
              function = MODBUS_FC_WRITE_AND_READ_REGISTERS then
             map_option uint (rd msg (header_length b + 1))
           else Some 0));
     Some (length + checksum_length b) }"

subsection \<open>Sending\<close>

abbreviation link_recovery :: "'w mst \<Rightarrow> bool" where
  "link_recovery st \<equiv> ctx_error_recovery (st_ctx st) AND MODBUS_ERROR_RECOVERY_LINK \<noteq> 0"

abbreviation protocol_recovery :: "'w mst \<Rightarrow> bool" where
  "protocol_recovery st \<equiv> ctx_error_recovery (st_ctx st) AND MODBUS_ERROR_RECOVERY_PROTOCOL \<noteq> 0"

definition sleep_and_flush :: "'w os \<Rightarrow> 'w mst \<Rightarrow> 'w mst option" where
  "sleep_and_flush os st = do {
     st \<leftarrow> sleep_response_timeout os st;
     (rc, st) \<leftarrow> modbus_flush os The_ctx st;
     Some st }"

text \<open>The recovery after a failed send, with \<open>errno\<close> saved and restored.\<close>

definition send_recovery :: "'w os \<Rightarrow> 'w mst \<Rightarrow> 'w mst option" where
  "send_recovery os st = do {
     let saved_errno = st_errno st;
     st \<leftarrow> (if st_errno st = EBADF \<or> st_errno st = ECONNRESET \<or> st_errno st = EPIPE then do {
              let st = modbus_close os The_ctx st;
              st \<leftarrow> sleep_response_timeout os st;
              Some (snd (modbus_connect os The_ctx st)) }
            else sleep_and_flush os st);
     Some (set_errno saved_errno st) }"

partial_function (option) send_loop ::
    "'w os \<Rightarrow> u8 list \<Rightarrow> int \<Rightarrow> 'w mst \<Rightarrow> (int \<times> 'w mst) option" where
  "send_loop os msg msg_length st = do {
     (rc, st) \<leftarrow> be_send os msg msg_length st;
     if rc = -1 \<and> link_recovery st then do {
       st \<leftarrow> send_recovery os st;
       send_loop os msg msg_length st }
     else Some (rc, st) }"

declare send_loop.simps [code]

definition send_msg :: "'w os \<Rightarrow> u8 list \<Rightarrow> int \<Rightarrow> 'w mst \<Rightarrow> (int \<times> u8 list \<times> 'w mst) option" where
  "send_msg os msg msg_length st = do {
     (msg_length, msg) \<leftarrow> be_send_msg_pre (be st) msg msg_length;
     (rc, st) \<leftarrow> send_loop os msg msg_length st;
     if rc > 0 \<and> rc \<noteq> msg_length then Some (-1, msg, set_errno EMBBADDATA st)
     else Some (rc, msg, st) }"

definition modbus_send_raw_request ::
    "'w os \<Rightarrow> ctx_ptr \<Rightarrow> u8 list \<Rightarrow> int \<Rightarrow> 'w mst \<Rightarrow> (int \<times> 'w mst) option" where
  "modbus_send_raw_request os p raw_req raw_req_length st =
     (if p = NULL_ctx then Some (-1, set_errno EINVAL st)
      else if raw_req_length < 2 \<or> raw_req_length > MODBUS_MAX_PDU_LENGTH + 1 then
        Some (-1, set_errno EINVAL st)
      else do {
        slave \<leftarrow> rd raw_req 0;
        function \<leftarrow> rd raw_req 1;
        let sft = \<lparr>sft_slave = uint slave, sft_function = uint function, sft_t_id = 0\<rparr>;
        (req_length, req) \<leftarrow> be_build_response_basis (be st) sft (uninit os MAX_MESSAGE_LENGTH);
        (req_length, req) \<leftarrow>
          (if raw_req_length > 2 then do {
             data \<leftarrow> rd_block raw_req 2 (raw_req_length - 2);
             req \<leftarrow> wr_block req req_length data;
             Some (req_length + raw_req_length - 2, req) }
           else Some (req_length, req));
        (rc, req, st) \<leftarrow> send_msg os req req_length st;
        Some (rc, st) })"

subsection \<open>The pauses and flushes end\<close>

text \<open>
  Documented behaviour of the system: every interruption of \<open>nanosleep\<close> uses up a pending signal
  and every full buffer that a non-blocking \<open>recv\<close> returns uses up pending bytes, \<open>mu\<close> bounding
  what is pending.
\<close>

definition settles :: "('w \<Rightarrow> nat) \<Rightarrow> 'w os \<Rightarrow> bool" where
  "settles mu os \<longleftrightarrow>
     (\<forall>req w. case os_nanosleep os req w of
        (Some (e, _), w') \<Rightarrow> e = EINTR \<longrightarrow> mu w' < mu w | (None, _) \<Rightarrow> True) \<and>
     (\<forall>s n w. case os_recv_dontwait os s n w of
        (Inr bs, w') \<Rightarrow> int (length bs) \<le> n \<and> (int (length bs) = n \<longrightarrow> mu w' < mu w) | (Inl _, _) \<Rightarrow> True)"

lemma wire_settles: "settles (\<lambda>w. length (w_in w)) wire_os"
  by (auto simp: settles_def wire_os_def wire_recv_dontwait_def wire_recv_def split: if_splits)

lemma settles_nanosleep:
  assumes "settles mu os" "os_nanosleep os req w = (Some (EINTR, left), w')"
  shows "mu w' < mu w"
proof -
  have "case os_nanosleep os req w of
      (Some (e, _), w') \<Rightarrow> e = EINTR \<longrightarrow> mu w' < mu w | (None, _) \<Rightarrow> True"
    using assms(1) [unfolded settles_def, THEN conjunct1] by (elim allE)
  then show ?thesis by (simp add: assms(2))
qed

lemma settles_recv:
  assumes "settles mu os" "os_recv_dontwait os s n w = (Inr bs, w')"
  shows "int (length bs) \<le> n" "int (length bs) = n \<Longrightarrow> mu w' < mu w"
proof -
  have "case os_recv_dontwait os s n w of
      (Inr bs, w') \<Rightarrow> int (length bs) \<le> n \<and> (int (length bs) = n \<longrightarrow> mu w' < mu w) | (Inl _, _) \<Rightarrow> True"
    using assms(1) [unfolded settles_def, THEN conjunct2] by (elim allE)
  then show "int (length bs) \<le> n" "int (length bs) = n \<Longrightarrow> mu w' < mu w"
    by (simp_all add: assms(2))
qed

lemma nanosleep_loop_returns:
  assumes "settles mu os"
  shows "\<exists>st'. nanosleep_loop os req st = Some st' \<and> st_ctx st' = st_ctx st"
proof (induction "mu (st_world st)" arbitrary: st req rule: less_induct)
  case less
  obtain r w' where r: "os_nanosleep os req (st_world st) = (r, w')" by (cases "os_nanosleep os req (st_world st)")
  show ?case
  proof (cases r)
    case None
    then show ?thesis using r by (simp add: nanosleep_loop.simps)
  next
    case (Some p)
    obtain e sec ns where p: "p = (e, sec, ns)" by (cases p)
    show ?thesis
    proof (cases "e = EINTR")
      case True
      then have "mu w' < mu (st_world st)"
        using settles_nanosleep [OF assms] r Some p by blast
      then show ?thesis
        using less [of "st\<lparr>st_errno := e, st_world := w'\<rparr>" "(sec, ns)"] r Some p True
        by (simp add: nanosleep_loop.simps [of os req st])
    next
      case False
      then show ?thesis using r Some p by (simp add: nanosleep_loop.simps)
    qed
  qed
qed

lemma tcp_flush_loop_returns:
  assumes "settles mu os"
  shows "\<exists>rc st'. tcp_flush_loop os n st = Some (rc, st') \<and> st_ctx st' = st_ctx st"
proof (induction "mu (st_world st)" arbitrary: st n rule: less_induct)
  case less
  obtain r w' where r: "os_recv_dontwait os (ctx_s (st_ctx st)) 260 (st_world st) = (r, w')"
    by (cases "os_recv_dontwait os (ctx_s (st_ctx st)) 260 (st_world st)")
  show ?case
  proof (cases r)
    case (Inl e)
    then show ?thesis using r by (simp add: tcp_flush_loop.simps ret_bytes_def)
  next
    case (Inr bs)
    have len: "length bs \<le> 260" "length bs = 260 \<Longrightarrow> mu w' < mu (st_world st)"
      using settles_recv [OF assms, of _ 260] r Inr by auto
    have wr: "wr_block (uninit os 260) 0 bs = Some (filled bs (uninit os 260))"
      using len(1) wr_block_filled [of 0 "[]" bs "uninit os 260"] by simp
    show ?thesis
    proof (cases "length bs = 260")
      case True
      then show ?thesis
        using less [of "st\<lparr>st_world := w'\<rparr>" "n + 260"] r Inr wr len(2)
        by (simp add: tcp_flush_loop.simps [of os n st] ret_bytes_def)
    next
      case False
      then show ?thesis using r Inr wr by (simp add: tcp_flush_loop.simps ret_bytes_def)
    qed
  qed
qed

lemma sleep_and_flush_returns:
  assumes "settles mu os"
  obtains st' where "sleep_and_flush os st = Some st'" "st_ctx st' = st_ctx st"
proof -
  obtain st1 where st1: "sleep_response_timeout os st = Some st1" "st_ctx st1 = st_ctx st"
    unfolding sleep_response_timeout_def Let_def using nanosleep_loop_returns [OF assms] by blast
  obtain rc st2 where "modbus_flush os The_ctx st1 = Some (rc, st2)" "st_ctx st2 = st_ctx st1"
  proof (cases "be st1")
    case (RTU_backend d)
    then show ?thesis
      using that by (cases "rtu_flush os st1")
        (auto simp: modbus_flush_def be_flush_def rtu_flush_def ret_unit_def
          split: prod.splits sum.splits)
  qed (use that tcp_flush_loop_returns [OF assms, of 0 st1] in
      \<open>auto simp: modbus_flush_def be_flush_def tcp_flush_def\<close>)
  then show ?thesis using that st1 by (simp add: sleep_and_flush_def)
qed

subsection \<open>A frame on its way out\<close>

text \<open>What \<open>send_msg\<close> does with a finished frame.\<close>

definition deliver :: "'w os \<Rightarrow> u8 list \<Rightarrow> 'w mst \<Rightarrow> (int \<times> 'w mst) option" where
  "deliver os fr st = do {
     (rc, st) \<leftarrow> send_loop os fr (int (length fr)) st;
     Some (if rc > 0 \<and> rc \<noteq> int (length fr) then (-1, set_errno EMBBADDATA st) else (rc, st)) }"

lemma be_send_cong:
  "rd_block m 0 n = rd_block m' 0 n \<Longrightarrow> be_send os m n st = be_send os m' n st"
  by (simp add: be_send_def tcp_send_def rtu_send_def split: backend.splits)

lemma send_loop_cong_Some:
  "send_loop os m n st = Some r \<Longrightarrow>
   rd_block m 0 n = rd_block m' 0 n \<longrightarrow> send_loop os m' n st = Some r"
proof (induction rule: send_loop.raw_induct [rotated, consumes 1, case_names step])
  case (step f os m n st r)
  show ?case
  proof
    assume eq: "rd_block m 0 n = rd_block m' 0 n"
    have IH: "\<And>st. f os m n st = Some r \<Longrightarrow> send_loop os m' n st = Some r"
      using step(1) eq by blast
    obtain rc st1 where s1: "be_send os m n st = Some (rc, st1)"
      using step(2) by (auto split: bind_splits)
    have s2: "be_send os m' n st = Some (rc, st1)"
      using s1 be_send_cong [OF eq] by metis
    show "send_loop os m' n st = Some r"
    proof (cases "rc = -1 \<and> link_recovery st1")
      case True
      then obtain st2 where "send_recovery os st1 = Some st2" "f os m n st2 = Some r"
        using step(2) s1 by (auto split: bind_splits)
      then show ?thesis using IH True s2 by (simp add: send_loop.simps [of os m' n st])
    next
      case False
      then have "r = (rc, st1)" using step(2) s1 by auto
      then show ?thesis using False s2 by (auto simp: send_loop.simps [of os m' n st])
    qed
  qed
qed

lemma send_loop_cong:
  assumes "rd_block m 0 n = rd_block m' 0 n"
  shows "send_loop os m n st = send_loop os m' n st"
  using send_loop_cong_Some [of os m n st _ m'] send_loop_cong_Some [of os m' n st _ m] assms
  by (cases "send_loop os m n st"; cases "send_loop os m' n st") auto

lemma send_msg_deliver:
  assumes "be_send_msg_pre (be st) buf n = Some (int (length fr), filled fr t)"
  shows "send_msg os buf n st =
    map_option (\<lambda>(rc, st). (rc, filled fr t, st)) (deliver os fr st)"
proof -
  have "send_loop os (filled fr t) (int (length fr)) st = send_loop os fr (int (length fr)) st"
    by (rule send_loop_cong) (simp add: rd_block_filled rd_block_all)
  then show ?thesis
    by (auto simp: send_msg_def assms deliver_def split: bind_splits)
qed

subsection \<open>Receiving\<close>

datatype step = STEP_FUNCTION | STEP_META | STEP_DATA

text \<open>
  What to read next once the current step is complete: \<open>Some (Some (n, step))\<close> to go on,
  \<open>Some None\<close> when the message would not fit.
\<close>

definition advance_to_data ::
    "backend \<Rightarrow> msg_type \<Rightarrow> u8 list \<Rightarrow> int \<Rightarrow> (int \<times> step) option option" where
  "advance_to_data b msg_type msg msg_length = do {
     length_to_read \<leftarrow> compute_data_length_after_meta b msg msg_type;
     if msg_length + length_to_read > max_adu_length b then Some None
     else Some (Some (length_to_read, STEP_DATA)) }"

definition receive_advance ::
    "backend \<Rightarrow> msg_type \<Rightarrow> u8 list \<Rightarrow> int \<Rightarrow> step \<Rightarrow> (int \<times> step) option option" where
  "receive_advance b msg_type msg msg_length step =
     (case step of
        STEP_FUNCTION \<Rightarrow> do {
          f \<leftarrow> rd msg (header_length b);
          let length_to_read = compute_meta_length_after_function (uint f) msg_type;
          if length_to_read \<noteq> 0 then Some (Some (length_to_read, STEP_META))
          else advance_to_data b msg_type msg msg_length }
      | STEP_META \<Rightarrow> advance_to_data b msg_type msg msg_length
      | STEP_DATA \<Rightarrow> Some (Some (0, STEP_DATA)))"

text \<open>The two error paths, with link recovery.\<close>

definition receive_select_failed :: "'w os \<Rightarrow> 'w mst \<Rightarrow> 'w mst option" where
  "receive_select_failed os st =
     (if link_recovery st then do {
        let saved_errno = st_errno st;
        st \<leftarrow> (if st_errno st = ETIMEDOUT then sleep_and_flush os st
               else if st_errno st = EBADF then
                 Some (snd (modbus_connect os The_ctx (modbus_close os The_ctx st)))
               else Some st);
        Some (set_errno saved_errno st) }
      else Some st)"

definition receive_recv_failed :: "'w os \<Rightarrow> 'w mst \<Rightarrow> 'w mst" where
  "receive_recv_failed os st =
     (if link_recovery st \<and> backend_type_of (be st) = MODBUS_BACKEND_TYPE_TCP \<and>
         (st_errno st = ECONNRESET \<or> st_errno st = ECONNREFUSED \<or> st_errno st = EBADF) then
        let saved_errno = st_errno st in
        set_errno saved_errno (snd (modbus_connect os The_ctx (modbus_close os The_ctx st)))
      else st)"

text \<open>
  The loop. \<open>length_to_read\<close> is unsigned; the flag of the result says whether a whole message
  was read.
\<close>

partial_function (option) receive_loop ::
    "'w os \<Rightarrow> msg_type \<Rightarrow> int \<Rightarrow> u8 list \<Rightarrow> int \<Rightarrow> step \<Rightarrow> timeval option \<Rightarrow> 'w mst
     \<Rightarrow> (bool \<times> u8 list \<times> int \<times> 'w mst) option" where
  "receive_loop os msg_type length_to_read msg msg_length step p_tv st =
     (if length_to_read = 0 then Some (True, msg, msg_length, st)
      else do {
        (rc, p_tv, st) \<leftarrow> be_select os p_tv st;
        if rc = -1 then do {
          st \<leftarrow> receive_select_failed os st;
          Some (False, msg, msg_length, st) }
        else do {
          (rc, msg, st) \<leftarrow> be_recv os msg msg_length length_to_read st;
          let (rc, st) = (if rc = 0 then (-1, set_errno ECONNRESET st) else (rc, st));
          if rc = -1 then Some (False, msg, msg_length, receive_recv_failed os st)
          else do {
            let msg_length = msg_length + rc;
            let length_to_read = (length_to_read - rc) mod 2 ^ 32;
            next \<leftarrow> (if length_to_read = 0 then receive_advance (be st) msg_type msg msg_length step
                     else Some (Some (length_to_read, step)));
            case next of
              None \<Rightarrow> Some (False, msg, msg_length, set_errno EMBBADDATA st)
            | Some (length_to_read, step) \<Rightarrow>
                let bt = ctx_byte_timeout (st_ctx st);
                    p_tv = (if length_to_read > 0 \<and> (tv_sec bt > 0 \<or> tv_usec bt > 0)
                            then Some bt else p_tv) in
                receive_loop os msg_type length_to_read msg msg_length step p_tv st } } })"

declare receive_loop.simps [code]

definition initial_timeout :: "msg_type \<Rightarrow> modbus \<Rightarrow> timeval option" where
  "initial_timeout msg_type c =
     (if msg_type = MSG_INDICATION then
        (if tv_sec (ctx_indication_timeout c) = 0 \<and> tv_usec (ctx_indication_timeout c) = 0
         then None else Some (ctx_indication_timeout c))
      else Some (ctx_response_timeout c))"

definition modbus_receive_msg ::
    "'w os \<Rightarrow> u8 list \<Rightarrow> msg_type \<Rightarrow> 'w mst \<Rightarrow> (int \<times> u8 list \<times> 'w mst) option" where
  "modbus_receive_msg os msg msg_type st =
     (if \<not> be_is_connected st then Some (-1, msg, st)
      else do {
        let length_to_read = header_length (be st) + 1;
        (complete, msg, msg_length, st) \<leftarrow>
          receive_loop os msg_type length_to_read msg 0 STEP_FUNCTION
            (initial_timeout msg_type (st_ctx st)) st;
        if complete then do {
          (rc, st) \<leftarrow> be_check_integrity os msg msg_length st;
          Some (rc, msg, st) }
        else Some (-1, msg, st) })"

definition tcp_receive :: "'w os \<Rightarrow> u8 list \<Rightarrow> 'w mst \<Rightarrow> (int \<times> u8 list \<times> 'w mst) option" where
  "tcp_receive os req st = modbus_receive_msg os req MSG_INDICATION st"

definition set_confirmation_to_ignore :: "bool \<Rightarrow> 'w mst \<Rightarrow> 'w mst" where
  "set_confirmation_to_ignore v st =
     (case be st of RTU_backend d \<Rightarrow> set_rtu (d\<lparr>rtu_confirmation_to_ignore := v\<rparr>) st | _ \<Rightarrow> st)"

definition rtu_receive ::
    "'w os \<Rightarrow> modbus_rtu \<Rightarrow> u8 list \<Rightarrow> 'w mst \<Rightarrow> (int \<times> u8 list \<times> 'w mst) option" where
  "rtu_receive os ctx_rtu req st =
     (if rtu_confirmation_to_ignore ctx_rtu then do {
        (_, req, st) \<leftarrow> modbus_receive_msg os req MSG_CONFIRMATION st;
        Some (0, req, set_confirmation_to_ignore False st) }
      else do {
        (rc, req, st) \<leftarrow> modbus_receive_msg os req MSG_INDICATION st;
        Some (rc, req, if rc = 0 then set_confirmation_to_ignore True st else st) })"

definition modbus_receive ::
    "'w os \<Rightarrow> ctx_ptr \<Rightarrow> u8 list \<Rightarrow> 'w mst \<Rightarrow> (int \<times> u8 list \<times> 'w mst) option" where
  "modbus_receive os p req st =
     (if p = NULL_ctx then Some (-1, req, set_errno EINVAL st)
      else case be st of RTU_backend d \<Rightarrow> rtu_receive os d req st | _ \<Rightarrow> tcp_receive os req st)"

definition modbus_receive_confirmation ::
    "'w os \<Rightarrow> ctx_ptr \<Rightarrow> u8 list \<Rightarrow> 'w mst \<Rightarrow> (int \<times> u8 list \<times> 'w mst) option" where
  "modbus_receive_confirmation os p rsp st =
     (if p = NULL_ctx then Some (-1, rsp, set_errno EINVAL st)
      else modbus_receive_msg os rsp MSG_CONFIRMATION st)"

end
