(* ===== verification/Modbus_Data.thy ===== *)
theory Modbus_Data
  imports Modbus_Types
begin

text \<open>
  \<open>libmodbus/src/modbus-data.c\<close>: bits unpacked from bytes and packed into a byte, and 32-bit
  floats stored in two registers. A \<open>float\<close> is the 32-bit pattern that \<open>memcpy\<close> copies from it.
\<close>

subsection \<open>Bits\<close>

text \<open>\<open>(value & (1 << i)) ? 1 : 0\<close>\<close>

definition bit_flag :: "u8 \<Rightarrow> nat \<Rightarrow> u8" where
  "bit_flag v i = (if v AND push_bit i 1 \<noteq> 0 then 1 else 0)"

definition modbus_set_bits_from_byte :: "u8 list \<Rightarrow> int \<Rightarrow> u8 \<Rightarrow> u8 list option" where
  "modbus_set_bits_from_byte dest idx v =
     for_loop 8 0 (\<lambda>i dest. wr dest (idx + i) (bit_flag v (nat i))) dest"

definition modbus_set_bits_from_bytes ::
    "u8 list \<Rightarrow> int \<Rightarrow> int \<Rightarrow> u8 list \<Rightarrow> u8 list option" where
  "modbus_set_bits_from_bytes dest idx nb_bits tab_byte =
     map_option fst
       (for_loop (nat nb_bits) idx
         (\<lambda>i (dest, shift). do {
            b \<leftarrow> rd tab_byte ((i - idx) div 8);
            dest' \<leftarrow> wr dest i (bit_flag b shift);
            Some (dest', (shift + 1) mod 8)
          }) (dest, 0))"

text \<open>The \<open>assert\<close> aborts the process (here \<open>None\<close>) unless NDEBUG is defined.\<close>

definition modbus_get_byte_from_bits :: "bool \<Rightarrow> u8 list \<Rightarrow> int \<Rightarrow> int \<Rightarrow> u8 option" where
  "modbus_get_byte_from_bits ndebug src idx nb_bits =
     (if nb_bits > 8 \<and> \<not> ndebug then None
      else let n = (if nb_bits > 8 then 8 else nb_bits) in
        for_loop (nat n) 0
          (\<lambda>i v. do { b \<leftarrow> rd src (idx + i); Some (v OR push_bit (nat i) b) }) 0)"

lemma bit_flag_bit: "bit_flag v i = of_bool (bit v i)"
  by (simp add: bit_flag_def push_bit_eq_mult and_exp_eq_0_iff_not_bit)

lemma bit_flag_is_bit [simp]: "is_bit (bit_flag v i)"
  by (simp add: bit_flag_def is_bit_def)

text \<open>The reference: bit \<open>k\<close> of a byte string, least significant bit of each byte first.\<close>

definition nth_bit :: "u8 list \<Rightarrow> nat \<Rightarrow> u8" where
  "nth_bit bs k = of_bool (bit (bs ! (k div 8)) (k mod 8))"

lemma nth_bit_is_bit [simp]: "is_bit (nth_bit bs k)"
  by (simp add: nth_bit_def is_bit_def)

lemma list_all_bits: "list_all is_bit (map (nth_bit bs) ks)"
  by (simp add: list_all_iff)

text \<open>What unpacking leaves in the destination: the first \<open>idx\<close> cells, the bits, the rest.\<close>

lemma set_bits_from_bytes_run:
  assumes "nat nb \<le> 8 * length tab" "idx + nat nb \<le> length dest"
  shows "modbus_set_bits_from_bytes dest (int idx) nb tab =
    Some (take idx dest @ map (nth_bit tab) [0..<nat nb] @ drop (idx + nat nb) dest)"
proof -
  let ?P = "\<lambda>k (d, sh). sh = k mod 8 \<and> d = take idx dest @ map (nth_bit tab) [0..<k] @ drop (idx + k) dest"
  let ?f = "\<lambda>i (dest, shift). do {
            b \<leftarrow> rd tab ((i - int idx) div 8);
            dest' \<leftarrow> wr dest i (bit_flag b shift);
            Some (dest', (shift + 1) mod 8)
          }"
  have "\<exists>s'. for_loop (nat nb) (int idx) ?f (dest, 0) = Some s' \<and> ?P (nat nb) s'"
  proof (rule for_loop_inv)
    show "?P 0 (dest, 0)" by simp
    fix k s
    assume k: "k < nat nb" and P: "?P k s"
    obtain d sh where s: "s = (d, sh)" by (cases s)
    from k assms have kb: "k div 8 < length tab" by linarith
    have len: "length d = length dest" and d: "d = take idx dest @ map (nth_bit tab) [0..<k] @ drop (idx + k) dest"
      using P s k assms by auto
    have rdk: "rd tab (int k div 8) = Some (tab ! (k div 8))"
      using kb rd_nat [of tab "k div 8"] by (simp add: zdiv_int)
    have dr: "drop (idx + k) dest = dest ! (idx + k) # drop (Suc (idx + k)) dest"
      using k assms by (intro Cons_nth_drop_Suc [symmetric]) simp
    have "wr d (int idx + int k) (bit_flag (tab ! (k div 8)) sh)
      = Some (take idx dest @ map (nth_bit tab) [0..<Suc k] @ drop (idx + Suc k) dest)"
      unfolding d dr
      using wr_append_at [of "int idx + int k" "take idx dest @ map (nth_bit tab) [0..<k]"] k assms P s
      by (simp add: bit_flag_bit nth_bit_def)
    then show "\<exists>s'. ?f (int idx + int k) s = Some s' \<and> ?P (Suc k) s'"
      using rdk P s by (simp add: mod_Suc)
  qed
  then show ?thesis by (auto simp: modbus_set_bits_from_bytes_def)
qed

lemma set_bits_from_bytes_is_bit:
  assumes "nat nb \<le> 8 * length tab" "idx + nat nb \<le> length dest" "list_all is_bit dest"
    and "modbus_set_bits_from_bytes dest (int idx) nb tab = Some d"
  shows "list_all is_bit d \<and> length d = length dest"
  using assms by (auto simp: set_bits_from_bytes_run list_all_bits)

text \<open>Unpacking a byte into eight cells and packing them again gives the byte back.\<close>

lemma set_bits_from_byte_run:
  assumes "idx + 8 \<le> length dest"
  shows "modbus_set_bits_from_byte dest (int idx) v =
    Some (take idx dest @ map (\<lambda>k. of_bool (bit v k)) [0..<8] @ drop (idx + 8) dest)"
proof -
  let ?P = "\<lambda>k d. d = take idx dest @ map (\<lambda>k. of_bool (bit v k)) [0..<k] @ drop (idx + k) dest"
  have "\<exists>s'. for_loop 8 0 (\<lambda>i dest. wr dest (int idx + i) (bit_flag v (nat i))) dest = Some s' \<and> ?P 8 s'"
  proof (rule for_loop_inv)
    show "?P 0 dest" by simp
    fix k d
    assume k: "k < 8" and P: "?P k d"
    have dr: "drop (idx + k) dest = dest ! (idx + k) # drop (Suc (idx + k)) dest"
      using k assms by (intro Cons_nth_drop_Suc [symmetric]) simp
    show "\<exists>s'. wr d (int idx + (0 + int k)) (bit_flag v (nat (0 + int k))) = Some s' \<and> ?P (Suc k) s'"
      unfolding P dr
      using wr_append_at [of "int idx + int k" "take idx dest @ map (\<lambda>k. of_bool (bit v k)) [0..<k]"] k assms
      by (simp add: bit_flag_bit)
  qed
  then show ?thesis by (simp add: modbus_set_bits_from_byte_def)
qed

lemma get_byte_from_bits_run:
  assumes "idx + n \<le> length src" "n \<le> 8"
  shows "modbus_get_byte_from_bits ndebug src (int idx) (int n) =
    Some (foldl (OR) 0 (map (\<lambda>k. push_bit k (src ! (idx + k))) [0..<n]))"
proof -
  let ?P = "\<lambda>k v. v = foldl (OR) 0 (map (\<lambda>k. push_bit k (src ! (idx + k))) [0..<k])"
  have "\<exists>v. for_loop n 0 (\<lambda>i v. do { b \<leftarrow> rd src (int idx + i); Some (v OR push_bit (nat i) b) }) 0
       = Some v \<and> ?P n v"
  proof (rule for_loop_inv)
    show "?P 0 0" by simp
    fix k v
    assume "k < n" "?P k v"
    then show "\<exists>v'. do { b \<leftarrow> rd src (int idx + (0 + int k)); Some (v OR push_bit (nat (0 + int k)) b) } = Some v' \<and> ?P (Suc k) v'"
      using assms rd_nat [of src "idx + k"] by simp
  qed
  then show ?thesis using assms by (auto simp: modbus_get_byte_from_bits_def)
qed

subsection \<open>Floats in two registers\<close>

text \<open>
  The getters take the four bytes of two \<open>uint16_t\<close> values by shifting; the setters store four
  bytes through an \<open>uint8_t *\<close> into the memory of two \<open>uint16_t\<close>, so what the registers then
  hold depends on the byte order of the host (\<open>le\<close>: little-endian).
\<close>

definition u32_of_bytes :: "u8 \<Rightarrow> u8 \<Rightarrow> u8 \<Rightarrow> u8 \<Rightarrow> u32" where
  "u32_of_bytes a b c d =
     push_bit 24 (ucast a) OR push_bit 16 (ucast b) OR push_bit 8 (ucast c) OR ucast d"

definition modbus_get_float_abcd :: "u16 list \<Rightarrow> u32 option" where
  "modbus_get_float_abcd src = do {
     s0 \<leftarrow> rd src 0; s1 \<leftarrow> rd src 1;
     let a = hi8 (uint s0); b = lo8 (uint s0); c = hi8 (uint s1); d = lo8 (uint s1) in
     Some (u32_of_bytes a b c d) }"

definition modbus_get_float_dcba :: "u16 list \<Rightarrow> u32 option" where
  "modbus_get_float_dcba src = do {
     s0 \<leftarrow> rd src 0; s1 \<leftarrow> rd src 1;
     let a = hi8 (uint s0); b = lo8 (uint s0); c = hi8 (uint s1); d = lo8 (uint s1) in
     Some (u32_of_bytes d c b a) }"

definition modbus_get_float_badc :: "u16 list \<Rightarrow> u32 option" where
  "modbus_get_float_badc src = do {
     s0 \<leftarrow> rd src 0; s1 \<leftarrow> rd src 1;
     let a = hi8 (uint s0); b = lo8 (uint s0); c = hi8 (uint s1); d = lo8 (uint s1) in
     Some (u32_of_bytes b a d c) }"

definition modbus_get_float_cdab :: "u16 list \<Rightarrow> u32 option" where
  "modbus_get_float_cdab src = do {
     s0 \<leftarrow> rd src 0; s1 \<leftarrow> rd src 1;
     let a = hi8 (uint s0); b = lo8 (uint s0); c = hi8 (uint s1); d = lo8 (uint s1) in
     Some (u32_of_bytes c d a b) }"

definition modbus_get_float :: "u16 list \<Rightarrow> u32 option" where
  "modbus_get_float src = do {
     s0 \<leftarrow> rd src 0; s1 \<leftarrow> rd src 1;
     Some (push_bit 16 (ucast s1) + ucast s0) }"

text \<open>\<open>(i >> n) & 0xFF\<close>, and the value of an \<open>uint16_t\<close> whose bytes in memory are \<open>b0 b1\<close>.\<close>

definition byte_of_u32 :: "u32 \<Rightarrow> nat \<Rightarrow> u8" where
  "byte_of_u32 i n = ucast (drop_bit n i AND 255)"

definition u16_in_memory :: "bool \<Rightarrow> u8 \<Rightarrow> u8 \<Rightarrow> u16" where
  "u16_in_memory le b0 b1 = word_of_int (if le then be16 b1 b0 else be16 b0 b1)"

definition store_out :: "bool \<Rightarrow> u16 list \<Rightarrow> u8 \<Rightarrow> u8 \<Rightarrow> u8 \<Rightarrow> u8 \<Rightarrow> u16 list option" where
  "store_out le dest o0 o1 o2 o3 = do {
     dest \<leftarrow> wr dest 0 (u16_in_memory le o0 o1);
     wr dest 1 (u16_in_memory le o2 o3) }"

definition modbus_set_float_abcd :: "bool \<Rightarrow> u32 \<Rightarrow> u16 list \<Rightarrow> u16 list option" where
  "modbus_set_float_abcd le i dest =
     (let a = byte_of_u32 i 24; b = byte_of_u32 i 16; c = byte_of_u32 i 8; d = byte_of_u32 i 0 in
      store_out le dest a b c d)"

definition modbus_set_float_dcba :: "bool \<Rightarrow> u32 \<Rightarrow> u16 list \<Rightarrow> u16 list option" where
  "modbus_set_float_dcba le i dest =
     (let a = byte_of_u32 i 24; b = byte_of_u32 i 16; c = byte_of_u32 i 8; d = byte_of_u32 i 0 in
      store_out le dest d c b a)"

definition modbus_set_float_badc :: "bool \<Rightarrow> u32 \<Rightarrow> u16 list \<Rightarrow> u16 list option" where
  "modbus_set_float_badc le i dest =
     (let a = byte_of_u32 i 24; b = byte_of_u32 i 16; c = byte_of_u32 i 8; d = byte_of_u32 i 0 in
      store_out le dest b a d c)"

definition modbus_set_float_cdab :: "bool \<Rightarrow> u32 \<Rightarrow> u16 list \<Rightarrow> u16 list option" where
  "modbus_set_float_cdab le i dest =
     (let a = byte_of_u32 i 24; b = byte_of_u32 i 16; c = byte_of_u32 i 8; d = byte_of_u32 i 0 in
      store_out le dest c d a b)"

definition modbus_set_float :: "u32 \<Rightarrow> u16 list \<Rightarrow> u16 list option" where
  "modbus_set_float i dest = do {
     dest \<leftarrow> wr dest 0 (ucast i);
     wr dest 1 (ucast (drop_bit 16 i)) }"

lemma bit_byte_of_u32: "bit (byte_of_u32 i k) m \<longleftrightarrow> m < 8 \<and> bit i (k + m)"
proof -
  have "drop_bit k i AND 255 = take_bit 8 (drop_bit k i)"
    by (simp add: take_bit_eq_mask mask_eq_exp_minus_1)
  then show ?thesis by (auto simp: byte_of_u32_def bit_simps)
qed

lemma bit_u32_of_bytes:
  "n < 32 \<Longrightarrow> bit (u32_of_bytes a b c d) n \<longleftrightarrow>
     (if n < 8 then bit d n else if n < 16 then bit c (n - 8)
      else if n < 24 then bit b (n - 16) else bit a (n - 24))"
  unfolding u32_of_bytes_def
  by (simp add: bit_simps, cases "n < 8"; cases "n < 16"; cases "n < 24"; simp)
    (auto dest: bit_imp_le_length)

lemma u32_of_byte_of_u32:
  "u32_of_bytes (byte_of_u32 i 24) (byte_of_u32 i 16) (byte_of_u32 i 8) (byte_of_u32 i 0) = i"
  by (rule bit_word_eqI) (auto simp: bit_u32_of_bytes bit_byte_of_u32)

lemma get_float_stored:
  assumes "store_out le dest o0 o1 o2 o3 = Some d"
  shows "rd d 0 = Some (u16_in_memory le o0 o1)" "rd d 1 = Some (u16_in_memory le o2 o3)"
  using assms by (auto simp: store_out_def buf_simps split: if_splits bind_splits)

lemma store_out_ok: "2 \<le> length dest \<Longrightarrow> \<exists>d. store_out le dest o0 o1 o2 o3 = Some d"
  by (auto simp: store_out_def buf_simps)

text \<open>
  The deprecated pair is a round trip on any host. The four others are a round trip on a
  big-endian host only: on a little-endian one each getter returns the value the matching
  setter stored with the two bytes of either register exchanged.
\<close>

definition swap_register_bytes :: "u32 \<Rightarrow> u32" where
  "swap_register_bytes i =
     u32_of_bytes (byte_of_u32 i 16) (byte_of_u32 i 24) (byte_of_u32 i 0) (byte_of_u32 i 8)"

lemma hi8_u16_in_memory [simp]: "hi8 (uint (u16_in_memory le b0 b1)) = (if le then b1 else b0)"
  by (simp add: u16_in_memory_def wire_simps)

lemma lo8_u16_in_memory [simp]: "lo8 (uint (u16_in_memory le b0 b1)) = (if le then b0 else b1)"
  by (simp add: u16_in_memory_def wire_simps)

lemmas set_float_defs = modbus_set_float_abcd_def modbus_set_float_dcba_def
  modbus_set_float_badc_def modbus_set_float_cdab_def Let_def

lemmas get_float_defs = modbus_get_float_abcd_def modbus_get_float_dcba_def
  modbus_get_float_badc_def modbus_get_float_cdab_def Let_def

text \<open>C29: After \<open>modbus_set_float_abcd\<close> (and its three variants) into two registers, the getter
  of the same format returns the same 32-bit value on a big-endian host; on a little-endian
  host it returns that value with the bytes inside each of the two registers exchanged.\<close>

theorem set_get_float_formats:
  assumes "2 \<le> length dest"
  shows "(modbus_set_float_abcd le f dest \<bind> modbus_get_float_abcd) =
           Some (if le then swap_register_bytes f else f)
       \<and> (modbus_set_float_dcba le f dest \<bind> modbus_get_float_dcba) =
           Some (if le then swap_register_bytes f else f)
       \<and> (modbus_set_float_badc le f dest \<bind> modbus_get_float_badc) =
           Some (if le then swap_register_bytes f else f)
       \<and> (modbus_set_float_cdab le f dest \<bind> modbus_get_float_cdab) =
           Some (if le then swap_register_bytes f else f)"
proof -
  have "\<And>o0 o1 o2 o3 g. (\<And>d. store_out le dest o0 o1 o2 o3 = Some d \<Longrightarrow> g d = r) \<Longrightarrow>
      (store_out le dest o0 o1 o2 o3 \<bind> g) = r" for r :: "u32 option"
    using store_out_ok [OF assms, of le] by (metis bind.bind_lunit)
  note step = this
  show ?thesis
    unfolding set_float_defs
    by (intro conjI step)
      (simp_all add: get_float_defs get_float_stored swap_register_bytes_def u32_of_byte_of_u32)
qed

theorem set_get_float_formats_witness:
  "(modbus_set_float_abcd True 0x11223344 [0, 0] \<bind> modbus_get_float_abcd) = Some 0x22114433"
proof -
  have "swap_register_bytes 0x11223344 = 0x22114433"
    by (simp add: swap_register_bytes_def byte_of_u32_def u32_of_bytes_def)
  then show ?thesis using set_get_float_formats [of "[0, 0]" True "0x11223344"] by simp
qed

end
