(* ===== verification/Modbus_Server.thy ===== *)
theory Modbus_Server
  imports Modbus_Core Modbus_Data
begin

text \<open>
  The server of \<open>libmodbus/src/modbus.c\<close>: \<open>response_io_status\<close>, \<open>response_exception\<close>,
  \<open>modbus_reply\<close> (one definition per case of its switch), \<open>modbus_reply_exception\<close>, and the
  allocation of the mapping. A case returns the response built so far with its length, the
  mapping it leaves and the state.
\<close>

type_synonym 'w reply = "(int \<times> u8 list \<times> mapping \<times> 'w mst) option"

subsection \<open>Building responses\<close>

definition io_status_step ::
    "u8 list \<Rightarrow> int \<Rightarrow> u8 list \<times> int \<times> nat \<times> int \<Rightarrow> (u8 list \<times> int \<times> nat \<times> int) option" where
  "io_status_step tab_io_status i = (\<lambda>(rsp, offset, shift, one_byte). do {
     v \<leftarrow> rd tab_io_status i;
     let one_byte = one_byte OR push_bit shift (uint v);
     if shift = 7 then do {
       rsp \<leftarrow> wr rsp offset (word_of_int one_byte);
       Some (rsp, offset + 1, 0, 0) }
     else Some (rsp, offset, shift + 1, one_byte) })"

definition response_io_status ::
    "u8 list \<Rightarrow> int \<Rightarrow> int \<Rightarrow> u8 list \<Rightarrow> int \<Rightarrow> (int \<times> u8 list) option" where
  "response_io_status tab_io_status address nb rsp offset = do {
     (rsp, offset, shift, one_byte) \<leftarrow>
       for_loop (nat nb) address (io_status_step tab_io_status) (rsp, offset, 0, 0);
     if shift \<noteq> 0 then do {
       rsp \<leftarrow> wr rsp offset (word_of_int one_byte);
       Some (offset + 1, rsp) }
     else Some (offset, rsp) }"

definition response_exception ::
    "'w os \<Rightarrow> sft \<Rightarrow> int \<Rightarrow> u8 list \<Rightarrow> bool \<Rightarrow> mapping \<Rightarrow> 'w mst \<Rightarrow> 'w reply" where
  "response_exception os sft exception_code rsp to_flush mb_mapping st = do {
     st \<leftarrow> (if to_flush then sleep_and_flush os st else Some st);
     let sft = sft\<lparr>sft_function := sft_function sft + 128\<rparr>;
     (rsp_length, rsp) \<leftarrow> be_build_response_basis (be st) sft rsp;
     rsp \<leftarrow> wr rsp rsp_length (word_of_int exception_code);
     Some (rsp_length + 1, rsp, mb_mapping, st) }"

text \<open>\<open>(req[i] << 8) + req[i + 1]\<close>\<close>

definition rd16 :: "u8 list \<Rightarrow> int \<Rightarrow> int option" where
  "rd16 req i = do { hi \<leftarrow> rd req i; lo \<leftarrow> rd req (i + 1); Some (be16 hi lo) }"

text \<open>\<open>memcpy(rsp, req, req_length); rsp_length = req_length;\<close>\<close>

definition echo_request :: "u8 list \<Rightarrow> int \<Rightarrow> u8 list \<Rightarrow> (int \<times> u8 list) option" where
  "echo_request req req_length rsp = do {
     bs \<leftarrow> rd_block req 0 req_length;
     rsp \<leftarrow> wr_block rsp 0 bs;
     Some (req_length, rsp) }"

text \<open>Copying registers from the table into the response, and from the request to the table.\<close>

definition response_registers ::
    "u16 list \<Rightarrow> int \<Rightarrow> int \<Rightarrow> u8 list \<Rightarrow> int \<Rightarrow> (int \<times> u8 list) option" where
  "response_registers tab_registers mapping_address nb rsp rsp_length =
     for_loop (nat nb) mapping_address
       (\<lambda>i (rsp_length, rsp). do {
          v \<leftarrow> rd tab_registers i;
          rsp \<leftarrow> wr rsp rsp_length (hi8 (uint v));
          rsp \<leftarrow> wr rsp (rsp_length + 1) (lo8 (uint v));
          Some (rsp_length + 2, rsp) })
       (rsp_length, rsp)"

definition store_registers ::
    "u8 list \<Rightarrow> int \<Rightarrow> int \<Rightarrow> int \<Rightarrow> int \<Rightarrow> u16 list \<Rightarrow> u16 list option" where
  "store_registers req offset mapping_address nb j tab_registers =
     map_option fst
       (for_loop (nat nb) mapping_address
         (\<lambda>i (tab, j). do {
            v \<leftarrow> rd16 req (offset + j);
            tab \<leftarrow> wr tab i (word_of_int v);
            Some (tab, j + 2) })
         (tab_registers, j))"

subsection \<open>The cases of \<open>modbus_reply\<close>\<close>

definition reply_read_bits ::
    "'w os \<Rightarrow> u8 list \<Rightarrow> sft \<Rightarrow> int \<Rightarrow> u8 list \<Rightarrow> mapping \<Rightarrow> 'w mst \<Rightarrow> 'w reply" where
  "reply_read_bits os req sft address rsp mb_mapping st = do {
     let offset = header_length (be st);
     let is_input = (sft_function sft = MODBUS_FC_READ_DISCRETE_INPUTS);
     let start_bits = (if is_input then mb_start_input_bits mb_mapping else mb_start_bits mb_mapping);
     let nb_bits = (if is_input then mb_nb_input_bits mb_mapping else mb_nb_bits mb_mapping);
     let tab_bits = (if is_input then mb_tab_input_bits mb_mapping else mb_tab_bits mb_mapping);
     nb \<leftarrow> rd16 req (offset + 3);
     let mapping_address = address - start_bits;
     if nb < 1 \<or> MODBUS_MAX_READ_BITS < nb then
       response_exception os sft MODBUS_EXCEPTION_ILLEGAL_DATA_VALUE rsp True mb_mapping st
     else if mapping_address < 0 \<or> mapping_address + nb > nb_bits then
       response_exception os sft MODBUS_EXCEPTION_ILLEGAL_DATA_ADDRESS rsp False mb_mapping st
     else do {
       (rsp_length, rsp) \<leftarrow> be_build_response_basis (be st) sft rsp;
       rsp \<leftarrow> wr rsp rsp_length (word_of_int ((nb div 8) + (if nb mod 8 \<noteq> 0 then 1 else 0)));
       (rsp_length, rsp) \<leftarrow> response_io_status tab_bits mapping_address nb rsp (rsp_length + 1);
       Some (rsp_length, rsp, mb_mapping, st) } }"

definition reply_read_registers ::
    "'w os \<Rightarrow> u8 list \<Rightarrow> sft \<Rightarrow> int \<Rightarrow> u8 list \<Rightarrow> mapping \<Rightarrow> 'w mst \<Rightarrow> 'w reply" where
  "reply_read_registers os req sft address rsp mb_mapping st = do {
     let offset = header_length (be st);
     let is_input = (sft_function sft = MODBUS_FC_READ_INPUT_REGISTERS);
     let start_registers =
       (if is_input then mb_start_input_registers mb_mapping else mb_start_registers mb_mapping);
     let nb_registers =
       (if is_input then mb_nb_input_registers mb_mapping else mb_nb_registers mb_mapping);
     let tab_registers =
       (if is_input then mb_tab_input_registers mb_mapping else mb_tab_registers mb_mapping);
     nb \<leftarrow> rd16 req (offset + 3);
     let mapping_address = address - start_registers;
     if nb < 1 \<or> MODBUS_MAX_READ_REGISTERS < nb then
       response_exception os sft MODBUS_EXCEPTION_ILLEGAL_DATA_VALUE rsp True mb_mapping st
     else if mapping_address < 0 \<or> mapping_address + nb > nb_registers then
       response_exception os sft MODBUS_EXCEPTION_ILLEGAL_DATA_ADDRESS rsp False mb_mapping st
     else do {
       (rsp_length, rsp) \<leftarrow> be_build_response_basis (be st) sft rsp;
       rsp \<leftarrow> wr rsp rsp_length (word_of_int (push_bit 1 nb));
       (rsp_length, rsp) \<leftarrow>
         response_registers tab_registers mapping_address nb rsp (rsp_length + 1);
       Some (rsp_length, rsp, mb_mapping, st) } }"

definition reply_write_single_coil ::
    "'w os \<Rightarrow> u8 list \<Rightarrow> int \<Rightarrow> sft \<Rightarrow> int \<Rightarrow> u8 list \<Rightarrow> mapping \<Rightarrow> 'w mst \<Rightarrow> 'w reply" where
  "reply_write_single_coil os req req_length sft address rsp mb_mapping st = do {
     let offset = header_length (be st);
     let mapping_address = address - mb_start_bits mb_mapping;
     if mapping_address < 0 \<or> mapping_address \<ge> mb_nb_bits mb_mapping then
       response_exception os sft MODBUS_EXCEPTION_ILLEGAL_DATA_ADDRESS rsp False mb_mapping st
     else do {
       data \<leftarrow> rd16 req (offset + 3);
       if data = 65280 \<or> data = 0 then do {
         tab \<leftarrow> wr (mb_tab_bits mb_mapping) mapping_address (if data \<noteq> 0 then 1 else 0);
         (rsp_length, rsp) \<leftarrow> echo_request req req_length rsp;
         Some (rsp_length, rsp, mb_mapping\<lparr>mb_tab_bits := tab\<rparr>, st) }
       else response_exception os sft MODBUS_EXCEPTION_ILLEGAL_DATA_VALUE rsp False mb_mapping st } }"

definition reply_write_single_register ::
    "'w os \<Rightarrow> u8 list \<Rightarrow> int \<Rightarrow> sft \<Rightarrow> int \<Rightarrow> u8 list \<Rightarrow> mapping \<Rightarrow> 'w mst \<Rightarrow> 'w reply" where
  "reply_write_single_register os req req_length sft address rsp mb_mapping st = do {
     let offset = header_length (be st);
     let mapping_address = address - mb_start_registers mb_mapping;
     if mapping_address < 0 \<or> mapping_address \<ge> mb_nb_registers mb_mapping then
       response_exception os sft MODBUS_EXCEPTION_ILLEGAL_DATA_ADDRESS rsp False mb_mapping st
     else do {
       data \<leftarrow> rd16 req (offset + 3);
       tab \<leftarrow> wr (mb_tab_registers mb_mapping) mapping_address (word_of_int data);
       (rsp_length, rsp) \<leftarrow> echo_request req req_length rsp;
       Some (rsp_length, rsp, mb_mapping\<lparr>mb_tab_registers := tab\<rparr>, st) } }"

text \<open>The end of both multiple writes: the basis and the 4 bytes of address and quantity.\<close>

definition confirm_write ::
    "backend \<Rightarrow> u8 list \<Rightarrow> sft \<Rightarrow> u8 list \<Rightarrow> (int \<times> u8 list) option" where
  "confirm_write b req sft rsp = do {
     (rsp_length, rsp) \<leftarrow> be_build_response_basis b sft rsp;
     bs \<leftarrow> rd_block req rsp_length 4;
     rsp \<leftarrow> wr_block rsp rsp_length bs;
     Some (rsp_length + 4, rsp) }"

definition reply_write_multiple_coils ::
    "'w os \<Rightarrow> u8 list \<Rightarrow> sft \<Rightarrow> int \<Rightarrow> u8 list \<Rightarrow> mapping \<Rightarrow> 'w mst \<Rightarrow> 'w reply" where
  "reply_write_multiple_coils os req sft address rsp mb_mapping st = do {
     let offset = header_length (be st);
     nb \<leftarrow> rd16 req (offset + 3);
     nb_bits \<leftarrow> map_option uint (rd req (offset + 5));
     let mapping_address = address - mb_start_bits mb_mapping;
     if nb < 1 \<or> MODBUS_MAX_WRITE_BITS < nb \<or> nb_bits * 8 < nb then
       response_exception os sft MODBUS_EXCEPTION_ILLEGAL_DATA_VALUE rsp True mb_mapping st
     else if mapping_address < 0 \<or> mapping_address + nb > mb_nb_bits mb_mapping then
       response_exception os sft MODBUS_EXCEPTION_ILLEGAL_DATA_ADDRESS rsp False mb_mapping st
     else do {
       tab \<leftarrow> modbus_set_bits_from_bytes (mb_tab_bits mb_mapping) mapping_address nb
               (drop (nat (offset + 6)) req);
       (rsp_length, rsp) \<leftarrow> confirm_write (be st) req sft rsp;
       Some (rsp_length, rsp, mb_mapping\<lparr>mb_tab_bits := tab\<rparr>, st) } }"

definition reply_write_multiple_registers ::
    "'w os \<Rightarrow> u8 list \<Rightarrow> sft \<Rightarrow> int \<Rightarrow> u8 list \<Rightarrow> mapping \<Rightarrow> 'w mst \<Rightarrow> 'w reply" where
  "reply_write_multiple_registers os req sft address rsp mb_mapping st = do {
     let offset = header_length (be st);
     nb \<leftarrow> rd16 req (offset + 3);
     nb_bytes \<leftarrow> map_option uint (rd req (offset + 5));
     let mapping_address = address - mb_start_registers mb_mapping;
     if nb < 1 \<or> MODBUS_MAX_WRITE_REGISTERS < nb \<or> nb_bytes \<noteq> nb * 2 then
       response_exception os sft MODBUS_EXCEPTION_ILLEGAL_DATA_VALUE rsp True mb_mapping st
     else if mapping_address < 0 \<or> mapping_address + nb > mb_nb_registers mb_mapping then
       response_exception os sft MODBUS_EXCEPTION_ILLEGAL_DATA_ADDRESS rsp False mb_mapping st
     else do {
       tab \<leftarrow> store_registers req offset mapping_address nb 6 (mb_tab_registers mb_mapping);
       (rsp_length, rsp) \<leftarrow> confirm_write (be st) req sft rsp;
       Some (rsp_length, rsp, mb_mapping\<lparr>mb_tab_registers := tab\<rparr>, st) } }"

text \<open>\<open>LIBMODBUS_VERSION_STRING\<close> of \<open>modbus-version.h\<close>, and \<open>_REPORT_SLAVE_ID\<close>.\<close>

definition LIBMODBUS_VERSION_STRING :: string where
  "LIBMODBUS_VERSION_STRING = ''3.1.10''"

abbreviation (input) REPORT_SLAVE_ID :: u8 where "REPORT_SLAVE_ID \<equiv> 180"

definition ascii :: "string \<Rightarrow> u8 list" where
  "ascii s = map of_char s"

definition reply_report_slave_id ::
    "sft \<Rightarrow> u8 list \<Rightarrow> mapping \<Rightarrow> 'w mst \<Rightarrow> 'w reply" where
  "reply_report_slave_id sft rsp mb_mapping st = do {
     (rsp_length, rsp) \<leftarrow> be_build_response_basis (be st) sft rsp;
     let byte_count_pos = rsp_length;
     let rsp_length = rsp_length + 1;
     rsp \<leftarrow> wr rsp rsp_length REPORT_SLAVE_ID;
     let rsp_length = rsp_length + 1;
     rsp \<leftarrow> wr rsp rsp_length 255;
     let rsp_length = rsp_length + 1;
     let str_len = 3 + int (length LIBMODBUS_VERSION_STRING);
     rsp \<leftarrow> wr_block rsp rsp_length (ascii (''LMB'' @ LIBMODBUS_VERSION_STRING));
     let rsp_length = rsp_length + str_len;
     rsp \<leftarrow> wr rsp byte_count_pos (word_of_int (rsp_length - byte_count_pos - 1));
     Some (rsp_length, rsp, mb_mapping, st) }"

definition reply_mask_write_register ::
    "'w os \<Rightarrow> u8 list \<Rightarrow> int \<Rightarrow> sft \<Rightarrow> int \<Rightarrow> u8 list \<Rightarrow> mapping \<Rightarrow> 'w mst \<Rightarrow> 'w reply" where
  "reply_mask_write_register os req req_length sft address rsp mb_mapping st = do {
     let offset = header_length (be st);
     let mapping_address = address - mb_start_registers mb_mapping;
     if mapping_address < 0 \<or> mapping_address \<ge> mb_nb_registers mb_mapping then
       response_exception os sft MODBUS_EXCEPTION_ILLEGAL_DATA_ADDRESS rsp False mb_mapping st
     else do {
       data \<leftarrow> rd (mb_tab_registers mb_mapping) mapping_address;
       and_mask \<leftarrow> map_option (word_of_int :: int \<Rightarrow> u16) (rd16 req (offset + 3));
       or_mask \<leftarrow> map_option (word_of_int :: int \<Rightarrow> u16) (rd16 req (offset + 5));
       let data = (data AND and_mask) OR (or_mask AND NOT and_mask);
       tab \<leftarrow> wr (mb_tab_registers mb_mapping) mapping_address data;
       (rsp_length, rsp) \<leftarrow> echo_request req req_length rsp;
       Some (rsp_length, rsp, mb_mapping\<lparr>mb_tab_registers := tab\<rparr>, st) } }"

definition reply_write_and_read_registers ::
    "'w os \<Rightarrow> u8 list \<Rightarrow> sft \<Rightarrow> int \<Rightarrow> u8 list \<Rightarrow> mapping \<Rightarrow> 'w mst \<Rightarrow> 'w reply" where
  "reply_write_and_read_registers os req sft address rsp mb_mapping st = do {
     let offset = header_length (be st);
     nb \<leftarrow> rd16 req (offset + 3);
     address_write \<leftarrow> rd16 req (offset + 5);
     nb_write \<leftarrow> rd16 req (offset + 7);
     nb_write_bytes \<leftarrow> map_option uint (rd req (offset + 9));
     let mapping_address = address - mb_start_registers mb_mapping;
     let mapping_address_write = address_write - mb_start_registers mb_mapping;
     if nb_write < 1 \<or> MODBUS_MAX_WR_WRITE_REGISTERS < nb_write \<or> nb < 1 \<or>
        MODBUS_MAX_WR_READ_REGISTERS < nb \<or> nb_write_bytes \<noteq> nb_write * 2 then
       response_exception os sft MODBUS_EXCEPTION_ILLEGAL_DATA_VALUE rsp True mb_mapping st
     else if mapping_address < 0 \<or> mapping_address + nb > mb_nb_registers mb_mapping \<or>
             mapping_address_write < 0 \<or>
             mapping_address_write + nb_write > mb_nb_registers mb_mapping then
       response_exception os sft MODBUS_EXCEPTION_ILLEGAL_DATA_ADDRESS rsp False mb_mapping st
     else do {
       (rsp_length, rsp) \<leftarrow> be_build_response_basis (be st) sft rsp;
       rsp \<leftarrow> wr rsp rsp_length (word_of_int (push_bit 1 nb));
       tab \<leftarrow> store_registers req offset mapping_address_write nb_write 10
               (mb_tab_registers mb_mapping);
       (rsp_length, rsp) \<leftarrow> response_registers tab mapping_address nb rsp (rsp_length + 1);
       Some (rsp_length, rsp, mb_mapping\<lparr>mb_tab_registers := tab\<rparr>, st) } }"

subsection \<open>\<open>modbus_reply\<close>\<close>

text \<open>The switch; \<open>Some None\<close> for the one case that returns from the function.\<close>

definition reply_dispatch ::
    "'w os \<Rightarrow> u8 list \<Rightarrow> int \<Rightarrow> sft \<Rightarrow> int \<Rightarrow> u8 list \<Rightarrow> mapping \<Rightarrow> 'w mst
     \<Rightarrow> (int \<times> u8 list \<times> mapping \<times> 'w mst) option option" where
  "reply_dispatch os req req_length sft address rsp mb_mapping st =
     (let function = sft_function sft in
      if function = MODBUS_FC_READ_COILS \<or> function = MODBUS_FC_READ_DISCRETE_INPUTS then
        map_option Some (reply_read_bits os req sft address rsp mb_mapping st)
      else if function = MODBUS_FC_READ_HOLDING_REGISTERS \<or>
              function = MODBUS_FC_READ_INPUT_REGISTERS then
        map_option Some (reply_read_registers os req sft address rsp mb_mapping st)
      else if function = MODBUS_FC_WRITE_SINGLE_COIL then
        map_option Some (reply_write_single_coil os req req_length sft address rsp mb_mapping st)
      else if function = MODBUS_FC_WRITE_SINGLE_REGISTER then
        map_option Some (reply_write_single_register os req req_length sft address rsp mb_mapping st)
      else if function = MODBUS_FC_WRITE_MULTIPLE_COILS then
        map_option Some (reply_write_multiple_coils os req sft address rsp mb_mapping st)
      else if function = MODBUS_FC_WRITE_MULTIPLE_REGISTERS then
        map_option Some (reply_write_multiple_registers os req sft address rsp mb_mapping st)
      else if function = MODBUS_FC_REPORT_SLAVE_ID then
        map_option Some (reply_report_slave_id sft rsp mb_mapping st)
      else if function = MODBUS_FC_READ_EXCEPTION_STATUS then Some None
      else if function = MODBUS_FC_MASK_WRITE_REGISTER then
        map_option Some (reply_mask_write_register os req req_length sft address rsp mb_mapping st)
      else if function = MODBUS_FC_WRITE_AND_READ_REGISTERS then
        map_option Some (reply_write_and_read_registers os req sft address rsp mb_mapping st)
      else map_option Some
        (response_exception os sft MODBUS_EXCEPTION_ILLEGAL_FUNCTION rsp True mb_mapping st))"

definition silent_broadcast :: "int \<Rightarrow> 'w mst \<Rightarrow> bool" where
  "silent_broadcast slave st \<longleftrightarrow>
     backend_type_of (be st) = MODBUS_BACKEND_TYPE_RTU \<and> slave = MODBUS_BROADCAST_ADDRESS \<and>
     ctx_quirks (st_ctx st) AND MODBUS_QUIRK_REPLY_TO_BROADCAST = 0"

definition modbus_reply ::
    "'w os \<Rightarrow> ctx_ptr \<Rightarrow> u8 list \<Rightarrow> int \<Rightarrow> mapping \<Rightarrow> 'w mst \<Rightarrow> (int \<times> mapping \<times> 'w mst) option" where
  "modbus_reply os p req req_length mb_mapping st =
     (if p = NULL_ctx then Some (-1, mb_mapping, set_errno EINVAL st)
      else do {
        let offset = header_length (be st);
        slave \<leftarrow> map_option uint (rd req (offset - 1));
        function \<leftarrow> map_option uint (rd req offset);
        address \<leftarrow> rd16 req (offset + 1);
        (t_id, req_length) \<leftarrow> be_prepare_response_tid (be st) req req_length;
        let sft = \<lparr>sft_slave = slave, sft_function = function, sft_t_id = t_id\<rparr>;
        r \<leftarrow> reply_dispatch os req req_length sft address (uninit os MAX_MESSAGE_LENGTH) mb_mapping st;
        case r of
          None \<Rightarrow> Some (-1, mb_mapping, set_errno ENOPROTOOPT st)
        | Some (rsp_length, rsp, mb_mapping, st) \<Rightarrow>
            if silent_broadcast slave st then Some (0, mb_mapping, st)
            else do {
              (rc, rsp, st) \<leftarrow> send_msg os rsp rsp_length st;
              Some (rc, mb_mapping, st) } })"

definition modbus_reply_exception ::
    "'w os \<Rightarrow> ctx_ptr \<Rightarrow> u8 list \<Rightarrow> u32 \<Rightarrow> 'w mst \<Rightarrow> (int \<times> 'w mst) option" where
  "modbus_reply_exception os p req exception_code st =
     (if p = NULL_ctx then Some (-1, set_errno EINVAL st)
      else do {
        let offset = header_length (be st);
        slave \<leftarrow> map_option uint (rd req (offset - 1));
        function \<leftarrow> map_option uint (rd req offset);
        (t_id, dummy_length) \<leftarrow> be_prepare_response_tid (be st) req 99;
        let sft = \<lparr>sft_slave = slave, sft_function = function + 128, sft_t_id = t_id\<rparr>;
        (rsp_length, rsp) \<leftarrow> be_build_response_basis (be st) sft (uninit os MAX_MESSAGE_LENGTH);
        if uint exception_code < MODBUS_EXCEPTION_MAX then do {
          rsp \<leftarrow> wr rsp rsp_length (ucast exception_code);
          (rc, rsp, st) \<leftarrow> send_msg os rsp (rsp_length + 1) st;
          Some (rc, st) }
        else Some (-1, set_errno EINVAL st) })"

subsection \<open>Allocation of the mapping\<close>

text \<open>
  Whether each \<open>malloc\<close> succeeds is an argument; on failure \<open>malloc\<close> sets \<open>errno\<close> to ENOMEM. A
  table of size 0 is not allocated.
\<close>

definition modbus_mapping_new_start_address ::
    "bool \<Rightarrow> bool \<Rightarrow> bool \<Rightarrow> bool \<Rightarrow> bool \<Rightarrow>
     u32 \<Rightarrow> u32 \<Rightarrow> u32 \<Rightarrow> u32 \<Rightarrow> u32 \<Rightarrow> u32 \<Rightarrow> u32 \<Rightarrow> u32 \<Rightarrow> int \<Rightarrow> mapping option \<times> int" where
  "modbus_mapping_new_start_address mem mem_bits mem_input_bits mem_registers mem_input_registers
     start_bits nb_bits start_input_bits nb_input_bits start_registers nb_registers
     start_input_registers nb_input_registers err =
     (if \<not> mem then (None, ENOMEM)
      else if nb_bits \<noteq> 0 \<and> \<not> mem_bits then (None, ENOMEM)
      else if nb_input_bits \<noteq> 0 \<and> \<not> mem_input_bits then (None, ENOMEM)
      else if nb_registers \<noteq> 0 \<and> \<not> mem_registers then (None, ENOMEM)
      else if nb_input_registers \<noteq> 0 \<and> \<not> mem_input_registers then (None, ENOMEM)
      else (Some
        \<lparr>mb_nb_bits = sint nb_bits, mb_start_bits = sint start_bits,
         mb_nb_input_bits = sint nb_input_bits, mb_start_input_bits = sint start_input_bits,
         mb_nb_input_registers = sint nb_input_registers,
         mb_start_input_registers = sint start_input_registers,
         mb_nb_registers = sint nb_registers, mb_start_registers = sint start_registers,
         mb_tab_bits = replicate (unat nb_bits) 0,
         mb_tab_input_bits = replicate (unat nb_input_bits) 0,
         mb_tab_input_registers = replicate (unat nb_input_registers) 0,
         mb_tab_registers = replicate (unat nb_registers) 0\<rparr>, err))"

definition modbus_mapping_new ::
    "bool \<Rightarrow> bool \<Rightarrow> bool \<Rightarrow> bool \<Rightarrow> bool \<Rightarrow> int \<Rightarrow> int \<Rightarrow> int \<Rightarrow> int \<Rightarrow> int \<Rightarrow> mapping option \<times> int" where
  "modbus_mapping_new mem mem_bits mem_input_bits mem_registers mem_input_registers
     nb_bits nb_input_bits nb_registers nb_input_registers err =
     modbus_mapping_new_start_address mem mem_bits mem_input_bits mem_registers mem_input_registers
       0 (word_of_int nb_bits) 0 (word_of_int nb_input_bits) 0 (word_of_int nb_registers)
       0 (word_of_int nb_input_registers) err"

end
