(* ===== verification/Modbus_Protocol.thy ===== *)
theory Modbus_Protocol
  imports Modbus_Data
begin

text \<open>
  The Modbus application protocol as the development's specification: the requests and
  responses, their bytes (the PDU), and what a server does to its four data tables. The server
  is proved to implement \<open>serve\<close>, the client to send \<open>encode_request\<close> and to
  understand \<open>encode_response\<close>. Nothing here models code.
\<close>

subsection \<open>Bits and registers as bytes\<close>

text \<open>Eight bits a byte, the first in the least significant place, the last byte padded with 0.\<close>

definition byte_of_bits :: "bool list \<Rightarrow> u8" where
  "byte_of_bits bs = word_of_int (horner_sum of_bool 2 bs)"

definition nb_bytes :: "nat \<Rightarrow> nat" where
  "nb_bytes n = n div 8 + (if n mod 8 \<noteq> 0 then 1 else 0)"

definition chunk :: "bool list \<Rightarrow> nat \<Rightarrow> bool list" where
  "chunk bs j = take 8 (drop (8 * j) bs)"

definition pack_bits :: "bool list \<Rightarrow> u8 list" where
  "pack_bits bs = map (\<lambda>j. byte_of_bits (chunk bs j)) [0..<nb_bytes (length bs)]"

definition unpack_bits :: "u8 list \<Rightarrow> nat \<Rightarrow> bool list" where
  "unpack_bits bytes n = map (\<lambda>k. nth_bit bytes k \<noteq> 0) [0..<n]"

definition encode_regs :: "u16 list \<Rightarrow> u8 list" where
  "encode_regs vs = concat (map (\<lambda>v. [hi8 (uint v), lo8 (uint v)]) vs)"

definition reg_at :: "u8 list \<Rightarrow> nat \<Rightarrow> u16" where
  "reg_at bytes k = word_of_int (be16 (bytes ! (2 * k)) (bytes ! (2 * k + 1)))"

definition decode_regs :: "u8 list \<Rightarrow> nat \<Rightarrow> u16 list" where
  "decode_regs bytes n = map (reg_at bytes) [0..<n]"

lemma nb_bytes_le: "n \<le> 8 * nb_bytes n"
  unfolding nb_bytes_def by presburger

lemma nb_bytes_bound: "n \<le> 8 * m \<Longrightarrow> nb_bytes n \<le> m"
  unfolding nb_bytes_def by presburger

lemma nb_bytes_int: "int n div 8 + (if int n mod 8 \<noteq> 0 then 1 else 0) = int (nb_bytes n)"
proof -
  have "int n div 8 = int (n div 8)" "int n mod 8 = int (n mod 8)" by (simp_all add: zdiv_int zmod_int)
  then show ?thesis by (simp only: nb_bytes_def) simp
qed

lemma length_pack_bits [simp]: "length (pack_bits bs) = nb_bytes (length bs)"
  by (simp add: pack_bits_def)

lemma length_unpack_bits [simp]: "length (unpack_bits bytes n) = n"
  by (simp add: unpack_bits_def)

lemma length_encode_regs [simp]: "length (encode_regs vs) = 2 * length vs"
  by (induction vs) (simp_all add: encode_regs_def)

lemma length_decode_regs [simp]: "length (decode_regs bytes n) = n"
  by (simp add: decode_regs_def)

lemma encode_regs_Nil [simp]: "encode_regs [] = []"
  by (simp add: encode_regs_def)

lemma encode_regs_snoc: "encode_regs (vs @ [v]) = encode_regs vs @ [hi8 (uint v), lo8 (uint v)]"
  by (simp add: encode_regs_def)

lemma encode_regs_nth:
  "k < length vs \<Longrightarrow> encode_regs vs ! (2 * k) = hi8 (uint (vs ! k)) \<and>
     encode_regs vs ! (2 * k + 1) = lo8 (uint (vs ! k))"
proof (induction vs arbitrary: k)
  case (Cons v vs)
  have "encode_regs (v # vs) = hi8 (uint v) # lo8 (uint v) # encode_regs vs"
    by (simp add: encode_regs_def)
  with Cons show ?case by (cases k) simp_all
qed simp

lemma decode_encode_regs:
  assumes "n = length vs"
  shows "decode_regs (encode_regs vs @ rest) n = vs"
proof (rule nth_equalityI)
  fix k
  assume "k < length (decode_regs (encode_regs vs @ rest) n)"
  then have k: "k < length vs" using assms by simp
  then have "(encode_regs vs @ rest) ! (2 * k) = hi8 (uint (vs ! k))"
    and "(encode_regs vs @ rest) ! (2 * k + 1) = lo8 (uint (vs ! k))"
    using encode_regs_nth [OF k] by (simp_all add: nth_append)
  then show "decode_regs (encode_regs vs @ rest) n ! k = vs ! k"
    using k assms by (simp add: decode_regs_def reg_at_def wire_simps)
qed (simp add: assms)

lemma length_chunk: "length (chunk bs j) = min 8 (length bs - 8 * j)"
  by (simp add: chunk_def)

lemma bit_byte_of_bits:
  "length bs \<le> 8 \<Longrightarrow> bit (byte_of_bits bs) m \<longleftrightarrow> m < length bs \<and> bs ! m"
  by (auto simp: byte_of_bits_def bit_word_of_int_iff bit_horner_sum_bit_iff)

lemma nth_bit_pack_bits:
  assumes "k < length bs"
  shows "nth_bit (pack_bits bs @ rest) k = of_bool (bs ! k)"
proof -
  have q: "k div 8 < nb_bytes (length bs)" using assms nb_bytes_le [of "length bs"] by linarith
  have "k mod 8 < length bs - 8 * (k div 8)" using assms by presburger
  then have "k mod 8 < length (chunk bs (k div 8))" "chunk bs (k div 8) ! (k mod 8) = bs ! k"
    by (simp_all add: length_chunk chunk_def)
  then show ?thesis
    using q by (simp add: nth_bit_def nth_append) (simp add: pack_bits_def bit_byte_of_bits length_chunk)
qed

lemma unpack_pack_bits:
  "n = length bs \<Longrightarrow> unpack_bits (pack_bits bs @ rest) n = bs"
  by (rule nth_equalityI) (simp_all add: unpack_bits_def nth_bit_pack_bits)

subsection \<open>Requests and responses\<close>

datatype request =
    Read_coils int nat
  | Read_discrete_inputs int nat
  | Read_holding_registers int nat
  | Read_input_registers int nat
  | Write_coil int bool
  | Write_register int u16
  | Write_coils int "bool list"
  | Write_registers int "u16 list"
  | Mask_write_register int u16 u16
  | Write_and_read_registers int "u16 list" int nat

datatype response =
    Bits "bool list"
  | Registers "u16 list"
  | Written
  | Exception nat

text \<open>Two bytes, most significant first.\<close>

definition field :: "int \<Rightarrow> u8 list" where
  "field x = [hi8 x, lo8 x]"

lemma length_field [simp]: "length (field x) = 2"
  by (simp add: field_def)

fun encode_request :: "request \<Rightarrow> u8 list" where
  "encode_request (Read_coils a n) = 1 # field a @ field (int n)"
| "encode_request (Read_discrete_inputs a n) = 2 # field a @ field (int n)"
| "encode_request (Read_holding_registers a n) = 3 # field a @ field (int n)"
| "encode_request (Read_input_registers a n) = 4 # field a @ field (int n)"
| "encode_request (Write_coil a v) = 5 # field a @ field (if v then 65280 else 0)"
| "encode_request (Write_register a v) = 6 # field a @ field (uint v)"
| "encode_request (Write_coils a bs) =
     15 # field a @ field (int (length bs)) @ of_nat (nb_bytes (length bs)) # pack_bits bs"
| "encode_request (Write_registers a vs) =
     16 # field a @ field (int (length vs)) @ of_nat (2 * length vs) # encode_regs vs"
| "encode_request (Mask_write_register a m_and m_or) =
     22 # field a @ field (uint m_and) @ field (uint m_or)"
| "encode_request (Write_and_read_registers wa vs ra n) =
     23 # field ra @ field (int n) @ field wa @ field (int (length vs)) @
     of_nat (2 * length vs) # encode_regs vs"

fun request_function :: "request \<Rightarrow> u8" where
  "request_function r = hd (encode_request r)"

text \<open>
  A response has the function code of its request, with bit 7 added in an exception; the
  response to a successful write repeats the start of the request.
\<close>

fun confirmation_pdu :: "request \<Rightarrow> u8 list" where
  "confirmation_pdu (Mask_write_register a x y) = encode_request (Mask_write_register a x y)"
| "confirmation_pdu r = take 5 (encode_request r)"

fun response_pdu :: "u8 \<Rightarrow> u8 list \<Rightarrow> response \<Rightarrow> u8 list" where
  "response_pdu f confirm (Bits bs) = f # of_nat (nb_bytes (length bs)) # pack_bits bs"
| "response_pdu f confirm (Registers vs) = f # of_nat (2 * length vs) # encode_regs vs"
| "response_pdu f confirm Written = confirm"
| "response_pdu f confirm (Exception e) = [f + 128, of_nat e]"

definition encode_response :: "request \<Rightarrow> response \<Rightarrow> u8 list" where
  "encode_response r = response_pdu (request_function r) (confirmation_pdu r)"

text \<open>Arguments that the fields of the PDU can carry.\<close>

fun request_fits :: "request \<Rightarrow> bool" where
  "request_fits (Read_coils a n) = (0 \<le> a \<and> a < 65536 \<and> n < 65536)"
| "request_fits (Read_discrete_inputs a n) = (0 \<le> a \<and> a < 65536 \<and> n < 65536)"
| "request_fits (Read_holding_registers a n) = (0 \<le> a \<and> a < 65536 \<and> n < 65536)"
| "request_fits (Read_input_registers a n) = (0 \<le> a \<and> a < 65536 \<and> n < 65536)"
| "request_fits (Write_coil a v) = (0 \<le> a \<and> a < 65536)"
| "request_fits (Write_register a v) = (0 \<le> a \<and> a < 65536)"
| "request_fits (Write_coils a bs) = (0 \<le> a \<and> a < 65536 \<and> length bs \<le> 1968)"
| "request_fits (Write_registers a vs) = (0 \<le> a \<and> a < 65536 \<and> length vs \<le> 123)"
| "request_fits (Mask_write_register a x y) = (0 \<le> a \<and> a < 65536)"
| "request_fits (Write_and_read_registers wa vs ra n) =
     (0 \<le> wa \<and> wa < 65536 \<and> 0 \<le> ra \<and> ra < 65536 \<and> n < 65536 \<and> length vs \<le> 121)"

lemma length_encode_request: "request_fits r \<Longrightarrow> length (encode_request r) \<le> 253"
  by (cases r) (auto simp: nb_bytes_def)

subsection \<open>What a server does\<close>

text \<open>The four tables: partial functions from protocol addresses to values.\<close>

record store =
  coils :: "int \<Rightarrow> bool option"
  discrete_inputs :: "int \<Rightarrow> bool option"
  holding_registers :: "int \<Rightarrow> u16 option"
  input_registers :: "int \<Rightarrow> u16 option"

definition read_range :: "(int \<Rightarrow> 'v option) \<Rightarrow> int \<Rightarrow> nat \<Rightarrow> 'v list option" where
  "read_range t a n = those (map t [a..a + int n - 1])"

definition write_range :: "(int \<Rightarrow> 'v option) \<Rightarrow> int \<Rightarrow> 'v list \<Rightarrow> (int \<Rightarrow> 'v option)" where
  "write_range t a vs =
     (\<lambda>i. if a \<le> i \<and> i < a + int (length vs) then Some (vs ! nat (i - a)) else t i)"

definition serve_read ::
    "('v list \<Rightarrow> response) \<Rightarrow> nat \<Rightarrow> (int \<Rightarrow> 'v option) \<Rightarrow> int \<Rightarrow> nat \<Rightarrow> response" where
  "serve_read mk max_nb t a n =
     (if n < 1 \<or> max_nb < n then Exception 3
      else case read_range t a n of None \<Rightarrow> Exception 2 | Some vs \<Rightarrow> mk vs)"

definition serve_write :: "(int \<Rightarrow> 'v option) \<Rightarrow> int \<Rightarrow> 'v list \<Rightarrow> (int \<Rightarrow> 'v option) \<times> response" where
  "serve_write t a vs =
     (if vs = [] then (t, Exception 3)
      else case read_range t a (length vs) of
        None \<Rightarrow> (t, Exception 2) | Some _ \<Rightarrow> (write_range t a vs, Written))"

fun serve :: "store \<Rightarrow> request \<Rightarrow> store \<times> response" where
  "serve s (Read_coils a n) = (s, serve_read Bits 2000 (coils s) a n)"
| "serve s (Read_discrete_inputs a n) = (s, serve_read Bits 2000 (discrete_inputs s) a n)"
| "serve s (Read_holding_registers a n) = (s, serve_read Registers 125 (holding_registers s) a n)"
| "serve s (Read_input_registers a n) = (s, serve_read Registers 125 (input_registers s) a n)"
| "serve s (Write_coil a v) =
     (let (t, r) = serve_write (coils s) a [v] in (s\<lparr>coils := t\<rparr>, r))"
| "serve s (Write_register a v) =
     (let (t, r) = serve_write (holding_registers s) a [v] in (s\<lparr>holding_registers := t\<rparr>, r))"
| "serve s (Write_coils a bs) =
     (let (t, r) = serve_write (coils s) a bs in (s\<lparr>coils := t\<rparr>, r))"
| "serve s (Write_registers a vs) =
     (let (t, r) = serve_write (holding_registers s) a vs in (s\<lparr>holding_registers := t\<rparr>, r))"
| "serve s (Mask_write_register a m_and m_or) =
     (case holding_registers s a of
        None \<Rightarrow> (s, Exception 2)
      | Some v \<Rightarrow> (s\<lparr>holding_registers :=
          (holding_registers s)(a \<mapsto> (v AND m_and) OR (m_or AND NOT m_and))\<rparr>, Written))"
| "serve s (Write_and_read_registers wa vs ra n) =
     (if vs = [] \<or> n < 1 \<or> 125 < n then (s, Exception 3)
      else case (read_range (holding_registers s) ra n,
                 read_range (holding_registers s) wa (length vs)) of
        (Some _, Some _) \<Rightarrow>
          (let t = write_range (holding_registers s) wa vs in
           (s\<lparr>holding_registers := t\<rparr>,
            case read_range t ra n of Some ws \<Rightarrow> Registers ws | None \<Rightarrow> Exception 2))
      | _ \<Rightarrow> (s, Exception 2))"

end
