(* ===== verification/Modbus_Reply.thy ===== *)
theory Modbus_Reply
  imports Modbus_Server Modbus_Protocol
begin

text \<open>
  The server implements the protocol: what \<open>modbus_reply\<close> sends and what it leaves in the
  mapping is what \<open>serve\<close> of \<open>Modbus_Protocol\<close> says of the abstract tables, for
  every backend, through the framing contract.
\<close>

subsection \<open>The loops of the responses\<close>

definition bits_of :: "u8 list \<Rightarrow> bool list" where
  "bits_of tab = map (\<lambda>v. v \<noteq> 0) tab"

definition window :: "'a list \<Rightarrow> nat \<Rightarrow> nat \<Rightarrow> 'a list" where
  "window xs a n = take n (drop a xs)"

lemma length_window [simp]: "a + n \<le> length xs \<Longrightarrow> length (window xs a n) = n"
  by (simp add: window_def)

lemma horner_snoc:
  "horner_sum of_bool 2 xs OR push_bit (length xs) (of_bool b) =
     (horner_sum of_bool 2 (xs @ [b]) :: int)"
  by (rule bit_eqI)
    (auto simp: bit_horner_sum_bit_iff bit_or_iff bit_push_bit_iff nth_append of_bool_def bit_1_iff
      split: if_splits)

text \<open>The variables of \<open>response_io_status\<close> after \<open>k\<close> rounds.\<close>

definition io_state :: "u8 list \<Rightarrow> u8 list \<Rightarrow> bool list \<Rightarrow> nat \<Rightarrow> u8 list \<times> int \<times> nat \<times> int" where
  "io_state pre t bs k =
     (filled (pre @ map (\<lambda>j. byte_of_bits (chunk bs j)) [0..<k div 8]) t,
      int (length pre + k div 8), k mod 8, horner_sum of_bool 2 (take (k mod 8) (drop (8 * (k div 8)) bs)))"

lemma io_status_step_run:
  assumes k: "k < length bs" and room: "length pre + nb_bytes (length bs) \<le> length t"
    and rdk: "rd tab i = Some v" and v: "uint v = of_bool (bs ! k)"
  shows "io_status_step tab i (io_state pre t bs k) = Some (io_state pre t bs (Suc k))"
proof -
  define q where "q = k div 8"
  define r where "r = k mod 8"
  have kq: "k = 8 * q + r" "r < 8" by (simp_all add: q_def r_def)
  have next_digit: "take (Suc r) (drop (8 * q) bs) = take r (drop (8 * q) bs) @ [bs ! k]"
    using k kq by (simp add: take_Suc_conv_app_nth)
  have "length (take r (drop (8 * q) bs)) = r" using k kq by simp
  then have acc: "horner_sum of_bool 2 (take r (drop (8 * q) bs)) OR push_bit r (uint v) =
      horner_sum of_bool 2 (take (Suc r) (drop (8 * q) bs))"
    using horner_snoc [of "take r (drop (8 * q) bs)" "bs ! k"] by (simp add: v next_digit)
  show ?thesis
  proof (cases "r = 7")
    case True
    have "8 * q < 8 * nb_bytes (length bs)" using k kq nb_bytes_le [of "length bs"] by linarith
    then have "length pre + q < length t" using room by simp
    moreover have "Suc k div 8 = Suc q" "Suc k mod 8 = 0" using kq True by simp_all
    ultimately show ?thesis
      using True acc
      by (simp add: io_status_step_def io_state_def rdk flip: q_def r_def)
        (simp add: wr_filled chunk_def byte_of_bits_def)
  next
    case False
    then have "Suc k div 8 = q" "Suc k mod 8 = Suc r" using kq by simp_all
    then show ?thesis
      using False acc by (simp add: io_status_step_def io_state_def rdk flip: q_def r_def)
  qed
qed

lemma response_io_status_run:
  assumes len: "a + n \<le> length tab" and bits: "list_all is_bit tab"
    and room: "length pre + nb_bytes n \<le> length t" and off: "offset = int (length pre)"
  shows "response_io_status tab (int a) (int n) (filled pre t) offset =
    Some (offset + int (nb_bytes n), filled (pre @ pack_bits (bits_of (window tab a n))) t)"
proof -
  define bs where "bs = bits_of (window tab a n)"
  have lbs: "length bs = n" using len by (simp add: bs_def bits_of_def)
  have "for_loop n (int a) (io_status_step tab) (io_state pre t bs 0) = Some (io_state pre t bs n)"
  proof (rule for_loop_states, rule io_status_step_run)
    fix k
    assume k: "k < n"
    show "rd tab (int a + int k) = Some (tab ! (a + k))"
      using k len rd_nat [of tab "a + k"] by simp
    have "is_bit (tab ! (a + k))" using bits len k by (simp add: list_all_length)
    moreover have "bs ! k \<longleftrightarrow> tab ! (a + k) \<noteq> 0"
      using len k by (simp add: bs_def bits_of_def window_def)
    ultimately show "uint (tab ! (a + k)) = of_bool (bs ! k)" by (auto simp: is_bit_def)
  qed (simp_all add: lbs room)
  then have run: "for_loop n (int a) (io_status_step tab) (filled pre t, offset, 0, 0) =
      Some (io_state pre t bs n)"
    by (simp add: io_state_def off)
  show ?thesis
  proof (cases "n mod 8 = 0")
    case True
    then have "nb_bytes n = n div 8" by (simp add: nb_bytes_def)
    then show ?thesis
      unfolding response_io_status_def nat_int run
      by (simp add: io_state_def off True pack_bits_def bs_def [symmetric] lbs)
  next
    case False
    then have nb: "nb_bytes n = Suc (n div 8)" by (simp add: nb_bytes_def)
    have "length (drop (8 * (n div 8)) bs) = n mod 8" by (simp add: lbs minus_mult_div_eq_mod)
    then have "take (n mod 8) (drop (8 * (n div 8)) bs) = chunk bs (n div 8)" by (simp add: chunk_def)
    then show ?thesis
      unfolding response_io_status_def nat_int run using False room
      by (simp add: io_state_def off nb pack_bits_def bs_def [symmetric] lbs wr_filled byte_of_bits_def)
  qed
qed

lemma response_registers_run:
  assumes "a + n \<le> length tab" "length pre + 2 * n \<le> length t" "off = int (length pre)"
  shows "response_registers tab (int a) (int n) (filled pre t) off =
    Some (off + 2 * int n, filled (pre @ encode_regs (window tab a n)) t)"
proof -
  let ?P = "\<lambda>k (off', rsp). off' = off + 2 * int k \<and> rsp = filled (pre @ encode_regs (window tab a k)) t"
  let ?f = "\<lambda>i (rsp_length, rsp). do {
          v \<leftarrow> rd tab i;
          rsp \<leftarrow> wr rsp rsp_length (hi8 (uint v));
          rsp \<leftarrow> wr rsp (rsp_length + 1) (lo8 (uint v));
          Some (rsp_length + 2, rsp) }"
  have "\<exists>s. for_loop n (int a) ?f (off, filled pre t) = Some s \<and> ?P n s"
  proof (rule for_loop_inv)
    show "?P 0 (off, filled pre t)" by (simp add: window_def)
    fix k s
    assume k: "k < n" and P: "?P k s"
    have rdk: "rd tab (int a + int k) = Some (tab ! (a + k))"
      using k assms(1) rd_nat [of tab "a + k"] by simp
    have "window tab a (Suc k) = window tab a k @ [tab ! (a + k)]"
      using k assms(1) by (simp add: window_def take_Suc_conv_app_nth)
    moreover have "length (window tab a k) = k" using k assms(1) by simp
    ultimately show "\<exists>s'. ?f (int a + int k) s = Some s' \<and> ?P (Suc k) s'"
      using P k assms(2,3) rdk by (auto simp: wr_filled encode_regs_snoc split: prod.splits)
  qed
  then show ?thesis by (auto simp: response_registers_def)
qed

lemma store_registers_run:
  assumes "a + n \<le> length tab" "int (length hdr) = offset" "int (length mid) = j"
    and "2 * n \<le> length data"
  shows "store_registers (hdr @ mid @ data) offset (int a) (int n) j tab =
    Some (take a tab @ decode_regs data n @ drop (a + n) tab)"
proof -
  let ?P = "\<lambda>k (tab', j'). j' = j + 2 * int k \<and>
    tab' = take a tab @ decode_regs data k @ drop (a + k) tab"
  let ?f = "\<lambda>i (tab, j). do {
            v \<leftarrow> rd16 (hdr @ mid @ data) (offset + j);
            tab \<leftarrow> wr tab i (word_of_int v);
            Some (tab, j + 2) }"
  have "\<exists>s. for_loop n (int a) ?f (tab, j) = Some s \<and> ?P n s"
  proof (rule for_loop_inv)
    show "?P 0 (tab, j)" by (simp add: decode_regs_def)
    fix k s
    assume k: "k < n" and P: "?P k s"
    have rds: "rd (hdr @ mid @ data) (offset + (j + 2 * int k)) = Some (data ! (2 * k))"
      "rd (hdr @ mid @ data) (offset + (j + 2 * int k) + 1) = Some (data ! (2 * k + 1))"
      using assms(2,3,4) k rd_nat [of data "2 * k"] rd_nat [of data "2 * k + 1"]
      by (simp_all add: rd_append2 algebra_simps)
    have dr: "drop (a + k) tab = tab ! (a + k) # drop (Suc (a + k)) tab"
      using k assms(1) by (intro Cons_nth_drop_Suc [symmetric]) simp
    have "wr (take a tab @ decode_regs data k @ drop (a + k) tab) (int a + int k) (reg_at data k) =
        Some (take a tab @ decode_regs data (Suc k) @ drop (a + Suc k) tab)"
      unfolding dr using wr_append_at [of "int a + int k" "take a tab @ decode_regs data k"] k assms(1)
      by (simp add: decode_regs_def)
    then show "\<exists>s'. ?f (int a + int k) s = Some s' \<and> ?P (Suc k) s'"
      using P rds by (auto simp: rd16_def reg_at_def split: prod.splits)
  qed
  then show ?thesis by (auto simp: store_registers_def)
qed

subsection \<open>The mapping as abstract tables\<close>

definition table :: "('c \<Rightarrow> 'v) \<Rightarrow> int \<Rightarrow> 'c list \<Rightarrow> int \<Rightarrow> 'v option" where
  "table val start tab a =
     (if start \<le> a \<and> a < start + int (length tab) then Some (val (tab ! nat (a - start))) else None)"

definition abs_mapping :: "mapping \<Rightarrow> store" where
  "abs_mapping m =
     \<lparr>coils = table (\<lambda>v. v \<noteq> 0) (mb_start_bits m) (mb_tab_bits m),
      discrete_inputs = table (\<lambda>v. v \<noteq> 0) (mb_start_input_bits m) (mb_tab_input_bits m),
      holding_registers = table id (mb_start_registers m) (mb_tab_registers m),
      input_registers = table id (mb_start_input_registers m) (mb_tab_input_registers m)\<rparr>"

lemma those_map:
  "those (map g xs) = (if list_all (\<lambda>x. g x \<noteq> None) xs then Some (map (the \<circ> g) xs) else None)"
  by (induction xs) (auto split: option.splits)

lemma read_range_table:
  assumes "1 \<le> n"
  shows "read_range (table val start tab) a n =
    (if a - start < 0 \<or> a - start + int n > int (length tab) then None
     else Some (map val (window tab (nat (a - start)) n)))"
proof (cases "a - start < 0 \<or> a - start + int n > int (length tab)")
  case True
  then have "table val start tab a = None \<or> table val start tab (a + int n - 1) = None"
    by (auto simp: table_def)
  moreover have "a \<in> set [a..a + int n - 1]" "a + int n - 1 \<in> set [a..a + int n - 1]"
    using assms by simp_all
  ultimately have "\<not> list_all (\<lambda>x. table val start tab x \<noteq> None) [a..a + int n - 1]"
    unfolding list_all_iff by blast
  then show ?thesis using True by (simp only: read_range_def those_map if_True if_False)
next
  case False
  then have ok: "list_all (\<lambda>x. table val start tab x \<noteq> None) [a..a + int n - 1]"
    by (auto simp: list_all_iff table_def)
  have inside: "nat (a - start) + n \<le> length tab" using False by linarith
  have "map (the \<circ> table val start tab) [a..a + int n - 1] = map val (window tab (nat (a - start)) n)"
  proof (rule nth_equalityI)
    fix i
    assume "i < length (map (the \<circ> table val start tab) [a..a + int n - 1])"
    then have i: "i < n" by simp
    have "table val start tab (a + int i) = Some (val (tab ! (nat (a - start) + i)))"
    proof -
      have "nat (a + int i - start) = nat (a - start) + i" using False by linarith
      then show ?thesis using i False by (simp add: table_def)
    qed
    then show "map (the \<circ> table val start tab) [a..a + int n - 1] ! i =
        map val (window tab (nat (a - start)) n) ! i"
    proof -
      have "map val (window tab (nat (a - start)) n) ! i = val (tab ! (nat (a - start) + i))"
        using i inside by (simp add: window_def)
      then show ?thesis
        using i \<open>table val start tab (a + int i) = _\<close> by simp
    qed
  qed (simp add: inside)
  then show ?thesis using False ok by (simp only: read_range_def those_map if_True if_False)
qed

lemma table_update:
  assumes "0 \<le> a - start" "a - start + int (length ws) \<le> int (length tab)"
  shows "table val start (take (nat (a - start)) tab @ ws @ drop (nat (a - start) + length ws) tab) =
    write_range (table val start tab) a (map val ws)"
proof
  fix i
  define k where "k = nat (a - start)"
  have a: "a = start + int k" using assms by (simp add: k_def)
  have len: "k + length ws \<le> length tab" using assms by (simp add: a)
  consider "i < a" | "a \<le> i" "i < a + int (length ws)" | "a + int (length ws) \<le> i" by linarith
  then show "table val start (take (nat (a - start)) tab @ ws @ drop (nat (a - start) + length ws) tab) i =
    write_range (table val start tab) a (map val ws) i"
    unfolding k_def [symmetric]
  proof cases
    case 1
    then show "table val start (take k tab @ ws @ drop (k + length ws) tab) i =
      write_range (table val start tab) a (map val ws) i"
      using len by (auto simp: table_def write_range_def nth_append a)
  next
    case 2
    then obtain j where "i = start + int k + int j" "j < length ws"
      by (metis a add_less_cancel_left int_ops(1) nonneg_int_cases of_nat_less_iff zle_iff_zadd)
    then show "table val start (take k tab @ ws @ drop (k + length ws) tab) i =
      write_range (table val start tab) a (map val ws) i"
      using len by (auto simp: table_def write_range_def nth_append a nat_add_distrib)
  next
    case 3
    then obtain j where "i = start + int k + int (length ws) + int j"
      by (metis a zle_iff_zadd)
    then show "table val start (take k tab @ ws @ drop (k + length ws) tab) i =
      write_range (table val start tab) a (map val ws) i"
      using len by (auto simp: table_def write_range_def nth_append a nat_add_distrib add.assoc)
  qed
qed

lemma table_update_one:
  assumes "0 \<le> a - start" "a - start < int (length tab)"
  shows "table val start (tab[nat (a - start) := w]) = write_range (table val start tab) a [val w]"
  using table_update [of a start "[w]" tab val] assms
  by (simp add: upd_conv_take_nth_drop)

subsection \<open>Responses\<close>

text \<open>The response that answers a request with the header \<open>hdr\<close>: same slave, same transaction.\<close>

definition reply_sft :: "backend \<Rightarrow> u8 list \<Rightarrow> sft" where
  "reply_sft b hdr = \<lparr>sft_slave = uint (last hdr), sft_function = 0, sft_t_id = be_tid b hdr\<rparr>"

definition response_frame :: "backend \<Rightarrow> u8 list \<Rightarrow> u8 list \<Rightarrow> u8 list" where
  "response_frame b hdr pdu =
     (let h = be_header b (reply_sft b hdr) (length pdu) in h @ pdu @ be_trailer b (h @ pdu))"

lemma response_frame_eq: "response_frame b hdr pdu = be_framing.frame b (reply_sft b hdr) pdu"
  by (simp add: response_frame_def be_framing.frame_def Let_def)

text \<open>A buffer that \<open>send_msg_pre\<close> will turn into that frame.\<close>

definition sendable :: "backend \<Rightarrow> u8 list \<Rightarrow> u8 list \<Rightarrow> int \<Rightarrow> u8 list \<Rightarrow> bool" where
  "sendable b hdr pdu n rsp \<longleftrightarrow>
     (\<exists>t. be_send_msg_pre b rsp n =
        Some (int (length (response_frame b hdr pdu)), filled (response_frame b hdr pdu) t))"

lemma sendable_basis:
  assumes "length pdu \<le> 253" "length t = 260"
    and "sft_slave sft = uint (last hdr)" "sft_t_id sft = be_tid b hdr"
  shows "sendable b hdr pdu (header_length b + int (length pdu)) (filled (be_basis b sft t @ pdu) t)"
proof -
  have "sft = (reply_sft b hdr)\<lparr>sft_function := sft_function sft\<rparr>"
    using assms(3,4) by (cases sft) (simp add: reply_sft_def)
  then have "be_framing.frame b sft pdu = response_frame b hdr pdu"
    by (metis be_framing.frame_function response_frame_eq)
  then show ?thesis
    using be_framing.pre_basis [OF assms(1) be_framing.room_260 [OF assms(1,2)], of b sft]
    by (auto simp: sendable_def)
qed

lemma sendable_echo:
  assumes "be_hdr_ok b hdr" "int (length hdr) = header_length b" "length pdu \<le> 253" "length t = 260"
  shows "sendable b hdr pdu (header_length b + int (length pdu)) (filled (hdr @ pdu) t)"
  using be_framing.pre_echo [OF assms, of "reply_sft b hdr" 0]
  by (auto simp: sendable_def response_frame_eq reply_sft_def)

text \<open>The state between request and answer differs by a flush at most.\<close>

definition settled :: "'w os \<Rightarrow> 'w mst \<Rightarrow> 'w mst \<Rightarrow> bool" where
  "settled os st st' \<longleftrightarrow> st_ctx st' = st_ctx st \<and> (st' = st \<or> sleep_and_flush os st = Some st')"

lemma settled_refl [simp]: "settled os st st"
  by (simp add: settled_def)

lemma settled_ctx: "settled os st st' \<Longrightarrow> st_ctx st' = st_ctx st"
  by (simp add: settled_def)

text \<open>A case of \<open>modbus_reply\<close> answers with a PDU and leaves a mapping.\<close>

definition answers ::
    "'w os \<Rightarrow> backend \<Rightarrow> u8 list \<Rightarrow> 'w mst \<Rightarrow> u8 list \<Rightarrow> mapping \<Rightarrow> 'w reply \<Rightarrow> bool" where
  "answers os b hdr st pdu m x \<longleftrightarrow>
     (\<exists>n rsp st'. x = Some (n, rsp, m, st') \<and> settled os st st' \<and> sendable b hdr pdu n rsp)"

lemma answersI:
  "x = Some (n, rsp, m, st') \<Longrightarrow> settled os st st' \<Longrightarrow> sendable b hdr pdu n rsp \<Longrightarrow>
   answers os b hdr st pdu m x"
  by (auto simp: answers_def)

text \<open>
  What every case may assume: its arguments come from \<open>modbus_reply\<close>. Only the three cases
  that copy the request back look at more of its header than the slave and the transaction.
\<close>

definition replying ::
    "('w \<Rightarrow> nat) \<Rightarrow> 'w os \<Rightarrow> 'w mst \<Rightarrow> u8 list \<Rightarrow> u8 \<Rightarrow> sft \<Rightarrow> u8 list \<Rightarrow> mapping \<Rightarrow> bool" where
  "replying mu os st hdr f sft t m \<longleftrightarrow>
     settles mu os \<and> int (length hdr) = header_length (be st) \<and> (f \<in> {5, 6, 22} \<longrightarrow> be_hdr_ok (be st) hdr) \<and>
     length t = 260 \<and> mapping_ok m \<and>
     sft_slave sft = uint (last hdr) \<and> sft_function sft = uint f \<and> sft_t_id sft = be_tid (be st) hdr"

lemma replyingD:
  assumes "replying mu os st hdr f sft t m"
  shows "int (length hdr) = header_length (be st)" "length t = 260" "mapping_ok m"
    "header_length (be st) < int (length t)" "header_length (be st) \<le> 7"
    "sft_function sft = uint f"
  using assms be_framing.sizes [of "be st"] by (auto simp: replying_def)

lemma replying_build:
  assumes "replying mu os st hdr f sft t m"
  shows "be_build_response_basis (be st) sft t = Some (header_length (be st) + 1,
    filled (be_basis (be st) sft t @ [f]) t)"
  using be_framing.build [of "be st" t sft] replyingD(4,6) [OF assms] by simp

lemma replying_basis_length: "int (length (be_basis b sft t)) = header_length b"
  by (rule be_framing.length_basis)

lemma replying_sendable:
  assumes "replying mu os st hdr f sft t m" "length pdu \<le> 253"
    "n = header_length (be st) + int (length pdu)"
  shows "sendable (be st) hdr pdu n (filled (be_basis (be st) sft t @ pdu) t)"
  using assms sendable_basis [of pdu t sft hdr "be st"] by (simp add: replying_def)

lemma exception_answers:
  assumes "replying mu os st hdr f sft t m" "e < 256"
  shows "answers os (be st) hdr st (response_pdu f confirm (Exception e)) m
    (response_exception os sft (int e) t to_flush m st)"
proof -
  let ?sft = "sft\<lparr>sft_function := sft_function sft + 128\<rparr>"
  have "sft_function ?sft = uint f + 128" using replyingD(6) [OF assms(1)] by simp
  then have build: "be_build_response_basis (be st) ?sft t =
      Some (header_length (be st) + 1, filled (be_basis (be st) ?sft t @ [f + 128]) t)"
    using be_framing.build [of "be st" t ?sft] replyingD(4) [OF assms(1)]
    by (simp add: wi_hom_add [symmetric] word_of_int_uint)
  obtain st' where st': "(if to_flush then sleep_and_flush os st else Some st) = Some st'"
      "st_ctx st' = st_ctx st"
    using assms sleep_and_flush_returns [of mu os st] by (cases to_flush) (auto simp: replying_def)
  show ?thesis
  proof (rule answersI)
    show "response_exception os sft (int e) t to_flush m st =
      Some (header_length (be st) + 2,
        filled (be_basis (be st) ?sft t @ response_pdu f confirm (Exception e)) t, m, st')"
      using build replying_basis_length [of "be st" ?sft t] replyingD [OF assms(1)]
      by (simp add: response_exception_def st' wr_filled)
    show "sendable (be st) hdr (response_pdu f confirm (Exception e)) (header_length (be st) + 2)
      (filled (be_basis (be st) ?sft t @ response_pdu f confirm (Exception e)) t)"
      using assms(1) sendable_basis [of "response_pdu f confirm (Exception e)" t ?sft hdr "be st"]
      by (simp add: replying_def)
    show "settled os st st'" using st' by (auto simp: settled_def split: if_splits)
  qed
qed

text \<open>Reading the fields of a request.\<close>

lemmas request_fields = rd16_def rd_behind rd_behind_0 rd_Cons field_def

lemma rd16_field: "0 \<le> x \<Longrightarrow> x < 65536 \<Longrightarrow> be16 (hi8 x) (lo8 x) = x"
  by (rule be16_hi8_lo8)

text \<open>Both range checks of the read cases, and the three answers.\<close>

lemma read_answers:
  assumes s: "replying mu os st hdr f sft t m" and mx: "max_nb \<le> 2000"
    and run: "0 \<le> a - start \<Longrightarrow> a - start + int n \<le> int (length tab) \<Longrightarrow> 1 \<le> n \<Longrightarrow> n \<le> max_nb \<Longrightarrow>
      answers os (be st) hdr st
        (response_pdu f confirm (mk (map val (window tab (nat (a - start)) n)))) m x"
  shows "answers os (be st) hdr st
    (response_pdu f confirm (serve_read mk max_nb (table val start tab) a n)) m
    (if n < 1 \<or> max_nb < n then response_exception os sft 3 t True m st
     else if a - start < 0 \<or> a - start + int n > int (length tab)
     then response_exception os sft 2 t False m st else x)"
  using exception_answers [OF s, of 2 confirm] exception_answers [OF s, of 3 confirm] run
  by (auto simp: serve_read_def read_range_table not_less)

lemma read_bits_answers:
  assumes s: "replying mu os st hdr f sft t m" and n: "n < 65536" and fn: "uint f = 1 \<or> uint f = 2"
    and tb: "tab = (if uint f = 2 then mb_tab_input_bits m else mb_tab_bits m)"
    and start: "start = (if uint f = 2 then mb_start_input_bits m else mb_start_bits m)"
  shows "answers os (be st) hdr st
    (response_pdu f confirm (serve_read Bits 2000 (table (\<lambda>v. v \<noteq> 0) start tab) a n)) m
    (reply_read_bits os (hdr @ c # x # y # field (int n) @ rest) sft a t m st)"
proof -
  note d = replyingD [OF s]
  let ?basis = "be_basis (be st) sft t"
  let ?rest = "response_io_status tab (a - start) (int n)
    (filled (?basis @ [f, of_nat (nb_bytes n)]) t) (2 + header_length (be st)) \<bind>
    (\<lambda>(rsp_length, rsp). Some (rsp_length, rsp, m, st))"
  have nb: "rd16 (hdr @ c # x # y # field (int n) @ rest) (header_length (be st) + 3) = Some (int n)"
    using n by (simp add: request_fields d rd16_field add.assoc)
  have tab: "(if uint f = 2 then mb_nb_input_bits m else mb_nb_bits m) = int (length tab)"
      "list_all is_bit tab"
    using d(3) by (simp_all add: tb mapping_ok_def)
  have eq: "reply_read_bits os (hdr @ c # x # y # field (int n) @ rest) sft a t m st =
    (if n < 1 \<or> 2000 < n then response_exception os sft 3 t True m st
     else if a - start < 0 \<or> a - start + int n > int (length tab)
     then response_exception os sft 2 t False m st else ?rest)"
    using replying_build [OF s] replying_basis_length [of "be st" sft t] d
    by (simp only: reply_read_bits_def Let_def nb_bytes_int nb d(6) tab tb [symmetric] start [symmetric])
      (simp add: wr_filled nb_bytes_int nb)
  show ?thesis
    unfolding eq
  proof (rule read_answers [OF s])
    assume in_range: "0 \<le> a - start" "a - start + int n \<le> int (length tab)" "n \<le> 2000"
    define k where "k = nat (a - start)"
    have k: "a - start = int k" "k + n \<le> length tab" using in_range by (simp_all add: k_def)
    have nbb: "nb_bytes n \<le> 250" using in_range(3) nb_bytes_bound [of n 250] by simp
    have "?rest = Some (2 + header_length (be st) + int (nb_bytes n),
        filled (?basis @ f # of_nat (nb_bytes n) # pack_bits (bits_of (window tab k n))) t, m, st)"
      using response_io_status_run [of k n tab "?basis @ [f, of_nat (nb_bytes n)]" t
          "2 + header_length (be st)"]
        k tab(2) nbb d replying_basis_length [of "be st" sft t] by simp
    then show "answers os (be st) hdr st
        (response_pdu f confirm (Bits (map (\<lambda>v. v \<noteq> 0) (window tab (nat (a - start)) n)))) m ?rest"
      by (rule answersI) (use k nbb in \<open>simp_all add: bits_of_def replying_sendable [OF s]\<close>)
  qed simp
qed

lemma read_registers_answers:
  assumes s: "replying mu os st hdr f sft t m" and n: "n < 65536" and fn: "uint f = 3 \<or> uint f = 4"
    and tb: "tab = (if uint f = 4 then mb_tab_input_registers m else mb_tab_registers m)"
    and start: "start = (if uint f = 4 then mb_start_input_registers m else mb_start_registers m)"
  shows "answers os (be st) hdr st
    (response_pdu f confirm (serve_read Registers 125 (table id start tab) a n)) m
    (reply_read_registers os (hdr @ c # x # y # field (int n) @ rest) sft a t m st)"
proof -
  note d = replyingD [OF s]
  let ?basis = "be_basis (be st) sft t"
  let ?rest = "response_registers tab (a - start) (int n)
    (filled (?basis @ [f, of_nat (2 * n)]) t) (2 + header_length (be st)) \<bind>
    (\<lambda>(rsp_length, rsp). Some (rsp_length, rsp, m, st))"
  have nb: "rd16 (hdr @ c # x # y # field (int n) @ rest) (header_length (be st) + 3) = Some (int n)"
    using n by (simp add: request_fields d rd16_field add.assoc)
  have tab: "(if uint f = 4 then mb_nb_input_registers m else mb_nb_registers m) = int (length tab)"
    using d(3) by (simp_all add: tb mapping_ok_def)
  have eq: "reply_read_registers os (hdr @ c # x # y # field (int n) @ rest) sft a t m st =
    (if n < 1 \<or> 125 < n then response_exception os sft 3 t True m st
     else if a - start < 0 \<or> a - start + int n > int (length tab)
     then response_exception os sft 2 t False m st else ?rest)"
    using replying_build [OF s] replying_basis_length [of "be st" sft t] d
    by (simp only: reply_read_registers_def Let_def nb d(6) tab tb [symmetric] start [symmetric])
      (simp add: wr_filled nb push_bit_eq_mult mult.commute)
  show ?thesis
    unfolding eq
  proof (rule read_answers [OF s])
    assume in_range: "0 \<le> a - start" "a - start + int n \<le> int (length tab)" "n \<le> 125"
    define k where "k = nat (a - start)"
    have k: "a - start = int k" "k + n \<le> length tab" using in_range by (simp_all add: k_def)
    have "?rest = Some (2 + header_length (be st) + 2 * int n,
        filled (?basis @ f # of_nat (2 * n) # encode_regs (window tab k n)) t, m, st)"
      using response_registers_run [of k n tab "?basis @ [f, of_nat (2 * n)]" t
          "2 + header_length (be st)"]
        k in_range(3) d replying_basis_length [of "be st" sft t] by simp
    then show "answers os (be st) hdr st
        (response_pdu f confirm (Registers (map id (window tab (nat (a - start)) n)))) m ?rest"
      by (rule answersI) (use k in_range(3) in \<open>simp_all add: replying_sendable [OF s]\<close>)
  qed simp
qed

subsection \<open>Writing the tables\<close>

lemma coils_abs [simp]:
  "coils (abs_mapping m) = table (\<lambda>v. v \<noteq> 0) (mb_start_bits m) (mb_tab_bits m)"
  "holding_registers (abs_mapping m) = table id (mb_start_registers m) (mb_tab_registers m)"
  "discrete_inputs (abs_mapping m) = table (\<lambda>v. v \<noteq> 0) (mb_start_input_bits m) (mb_tab_input_bits m)"
  "input_registers (abs_mapping m) = table id (mb_start_input_registers m) (mb_tab_input_registers m)"
  by (simp_all add: abs_mapping_def)

lemma abs_mapping_set_bits:
  "abs_mapping (m\<lparr>mb_tab_bits := tab\<rparr>) =
     (abs_mapping m)\<lparr>coils := table (\<lambda>v. v \<noteq> 0) (mb_start_bits m) tab\<rparr>"
  by (simp add: abs_mapping_def)

lemma abs_mapping_set_registers:
  "abs_mapping (m\<lparr>mb_tab_registers := tab\<rparr>) =
     (abs_mapping m)\<lparr>holding_registers := table id (mb_start_registers m) tab\<rparr>"
  by (simp add: abs_mapping_def)

lemma mapping_ok_set_bits:
  "mapping_ok m \<Longrightarrow> length tab = length (mb_tab_bits m) \<Longrightarrow> list_all is_bit tab \<Longrightarrow>
   mapping_ok (m\<lparr>mb_tab_bits := tab\<rparr>)"
  by (simp add: mapping_ok_def)

lemma mapping_ok_set_registers:
  "mapping_ok m \<Longrightarrow> length tab = length (mb_tab_registers m) \<Longrightarrow>
   mapping_ok (m\<lparr>mb_tab_registers := tab\<rparr>)"
  by (simp add: mapping_ok_def)

text \<open>A case implements a request: it answers with the PDU and leaves the tables of \<open>serve\<close>.\<close>

definition serves ::
    "'w os \<Rightarrow> 'w mst \<Rightarrow> u8 list \<Rightarrow> mapping \<Rightarrow> request \<Rightarrow> 'w reply \<Rightarrow> bool" where
  "serves os st hdr m r x \<longleftrightarrow>
     (\<exists>m'. answers os (be st) hdr st (encode_response r (snd (serve (abs_mapping m) r))) m' x \<and>
        mapping_ok m' \<and> abs_mapping m' = fst (serve (abs_mapping m) r))"

lemma servesI:
  "answers os (be st) hdr st pdu m' x \<Longrightarrow> mapping_ok m' \<Longrightarrow> abs_mapping m' = fst (serve (abs_mapping m) r) \<Longrightarrow>
   pdu = encode_response r (snd (serve (abs_mapping m) r)) \<Longrightarrow> serves os st hdr m r x"
  by (auto simp: serves_def)

lemma serves_exception:
  assumes "replying mu os st hdr (request_function r) sft t m" "e < 256"
    and "serve (abs_mapping m) r = (abs_mapping m, Exception e)"
  shows "serves os st hdr m r (response_exception os sft (int e) t to_flush m st)"
  using exception_answers [OF assms(1,2)] assms(3) replyingD(3) [OF assms(1)]
  by (intro servesI) (simp_all add: encode_response_def)

lemma echo_run:
  assumes "int (length hdr) = h" "n = h + int (length pdu)" "n \<le> int (length t)"
  shows "echo_request (hdr @ pdu @ rest) n t = Some (n, filled (hdr @ pdu) t)"
proof -
  have "rd_block (hdr @ pdu @ rest) 0 n = Some (hdr @ pdu)"
    using assms(1,2) by (auto simp: rd_block_def nat_add_distrib)
  then show ?thesis
    using wr_block_filled [of 0 "[]" "hdr @ pdu" t] assms by (simp add: echo_request_def)
qed

lemma serves_echo:
  assumes s: "replying mu os st hdr f sft t m" and f: "f \<in> {5, 6, 22}" and len: "length pdu \<le> 253"
    and "serve (abs_mapping m) r = (abs_mapping m', Written)" "mapping_ok m'" "pdu = confirmation_pdu r"
    and "n = header_length (be st) + int (length pdu)"
    and "x = Some (n, filled (hdr @ pdu) t, m', st)"
  shows "serves os st hdr m r x"
proof (rule servesI)
  show "answers os (be st) hdr st pdu m' x"
    using sendable_echo [of "be st" hdr pdu t] s f len assms(7,8)
    by (intro answersI) (auto simp: replying_def)
qed (use assms in \<open>simp_all add: encode_response_def\<close>)

lemma single_range:
  "read_range (table val start tab) a 1 = None \<longleftrightarrow> a - start < 0 \<or> a - start \<ge> int (length tab)"
  by (auto simp: read_range_table)

lemma serve_write_one:
  "serve_write (table val start tab) a [v] =
     (if a - start < 0 \<or> a - start \<ge> int (length tab) then (table val start tab, Exception 2)
      else (write_range (table val start tab) a [v], Written))"
  by (auto simp: serve_write_def single_range [simplified] split: option.splits)
    (auto simp: read_range_table)

lemma write_coil_serves:
  assumes s: "replying mu os st hdr 5 sft t m" and a: "0 \<le> a" "a < 65536"
  shows "serves os st hdr m (Write_coil a v) (reply_write_single_coil os
    (hdr @ encode_request (Write_coil a v) @ rest) (header_length (be st) + 5) sft a t m st)"
proof -
  note d = replyingD [OF s]
  let ?tab = "mb_tab_bits m" let ?data = "if v then 65280 else (0::int)"
  let ?req = "hdr @ encode_request (Write_coil a v) @ rest"
  have nb: "rd16 ?req (header_length (be st) + 3) = Some ?data"
    using d by (simp add: request_fields be16_hi8_lo8 add.assoc)
  have tab: "mb_nb_bits m = int (length ?tab)" "list_all is_bit ?tab"
    using d(3) by (simp_all add: mapping_ok_def)
  have echo: "echo_request ?req (header_length (be st) + 5) t =
      Some (header_length (be st) + 5, filled (hdr @ encode_request (Write_coil a v)) t)"
    using d by (intro echo_run) simp_all
  show ?thesis
  proof (cases "a - mb_start_bits m < 0 \<or> a - mb_start_bits m \<ge> mb_nb_bits m")
    case True
    then show ?thesis
      using serves_exception [of mu os st hdr "Write_coil a v" sft t m 2 False] s tab
      by (auto simp: reply_write_single_coil_def serve_write_one Let_def)
  next
    case False
    define tab' where "tab' = ?tab[nat (a - mb_start_bits m) := of_bool v]"
    have w: "wr ?tab (a - mb_start_bits m) (of_bool v) = Some tab'"
      using False tab(1) by (simp add: wr_def tab'_def)
    show ?thesis
    proof (rule serves_echo [OF s, where m' = "m\<lparr>mb_tab_bits := tab'\<rparr>"])
      show "reply_write_single_coil os ?req (header_length (be st) + 5) sft a t m st =
        Some (header_length (be st) + 5, filled (hdr @ encode_request (Write_coil a v)) t,
          m\<lparr>mb_tab_bits := tab'\<rparr>, st)"
        using False nb w echo by (cases v) (simp_all add: reply_write_single_coil_def Let_def)
      show "mapping_ok (m\<lparr>mb_tab_bits := tab'\<rparr>)"
        using d(3) tab(2) by (simp add: mapping_ok_set_bits tab'_def list_all_update is_bit_def)
      show "serve (abs_mapping m) (Write_coil a v) = (abs_mapping (m\<lparr>mb_tab_bits := tab'\<rparr>), Written)"
        using False tab(1) table_update_one [of a "mb_start_bits m" ?tab "\<lambda>v. v \<noteq> 0" "of_bool v"]
        by (simp add: serve_write_one abs_mapping_set_bits tab'_def)
    qed simp_all
  qed
qed

lemma write_register_serves:
  assumes s: "replying mu os st hdr 6 sft t m" and a: "0 \<le> a" "a < 65536"
  shows "serves os st hdr m (Write_register a v) (reply_write_single_register os
    (hdr @ encode_request (Write_register a v) @ rest) (header_length (be st) + 5) sft a t m st)"
proof -
  note d = replyingD [OF s]
  let ?tab = "mb_tab_registers m"
  let ?req = "hdr @ encode_request (Write_register a v) @ rest"
  have nb: "rd16 ?req (header_length (be st) + 3) = Some (uint v)"
    using d by (simp add: request_fields be16_hi8_lo8_u16 add.assoc)
  have tab: "mb_nb_registers m = int (length ?tab)"
    using d(3) by (simp_all add: mapping_ok_def)
  have echo: "echo_request ?req (header_length (be st) + 5) t =
      Some (header_length (be st) + 5, filled (hdr @ encode_request (Write_register a v)) t)"
    using d by (intro echo_run) simp_all
  show ?thesis
  proof (cases "a - mb_start_registers m < 0 \<or> a - mb_start_registers m \<ge> mb_nb_registers m")
    case True
    then show ?thesis
      using serves_exception [of mu os st hdr "Write_register a v" sft t m 2 False] s tab
      by (auto simp: reply_write_single_register_def serve_write_one Let_def)
  next
    case False
    define tab' where "tab' = ?tab[nat (a - mb_start_registers m) := v]"
    have w: "wr ?tab (a - mb_start_registers m) v = Some tab'"
      using False tab(1) by (simp add: wr_def tab'_def)
    show ?thesis
    proof (rule serves_echo [OF s, where m' = "m\<lparr>mb_tab_registers := tab'\<rparr>"])
      show "reply_write_single_register os ?req (header_length (be st) + 5) sft a t m st =
        Some (header_length (be st) + 5, filled (hdr @ encode_request (Write_register a v)) t,
          m\<lparr>mb_tab_registers := tab'\<rparr>, st)"
        using False nb w echo by (simp add: reply_write_single_register_def Let_def)
      show "mapping_ok (m\<lparr>mb_tab_registers := tab'\<rparr>)"
        using d(3) by (simp add: mapping_ok_set_registers tab'_def)
      show "serve (abs_mapping m) (Write_register a v) =
          (abs_mapping (m\<lparr>mb_tab_registers := tab'\<rparr>), Written)"
        using False tab(1) table_update_one [of a "mb_start_registers m" ?tab id v]
        by (simp add: serve_write_one abs_mapping_set_registers tab'_def)
    qed simp_all
  qed
qed

lemma mask_write_serves:
  assumes s: "replying mu os st hdr 22 sft t m" and a: "0 \<le> a" "a < 65536"
  shows "serves os st hdr m (Mask_write_register a x y) (reply_mask_write_register os
    (hdr @ encode_request (Mask_write_register a x y) @ rest) (header_length (be st) + 7) sft a t m st)"
proof -
  note d = replyingD [OF s]
  let ?tab = "mb_tab_registers m" let ?i = "a - mb_start_registers m"
  let ?req = "hdr @ encode_request (Mask_write_register a x y) @ rest"
  have nb: "rd16 ?req (header_length (be st) + 3) = Some (uint x)"
      "rd16 ?req (header_length (be st) + 5) = Some (uint y)"
    using d by (simp_all add: request_fields be16_hi8_lo8_u16 add.assoc)
  have tab: "mb_nb_registers m = int (length ?tab)"
    using d(3) by (simp_all add: mapping_ok_def)
  have echo: "echo_request ?req (header_length (be st) + 7) t =
      Some (header_length (be st) + 7, filled (hdr @ encode_request (Mask_write_register a x y)) t)"
    using d by (intro echo_run) simp_all
  show ?thesis
  proof (cases "?i < 0 \<or> ?i \<ge> mb_nb_registers m")
    case True
    then have "table id (mb_start_registers m) ?tab a = None" using tab by (auto simp: table_def)
    then show ?thesis
      using serves_exception [of mu os st hdr "Mask_write_register a x y" sft t m 2 False] s tab True
      by (auto simp: reply_mask_write_register_def Let_def)
  next
    case False
    define old where "old = ?tab ! nat ?i"
    define tab' where "tab' = ?tab[nat ?i := (old AND x) OR (y AND NOT x)]"
    have w: "rd ?tab ?i = Some old" "wr ?tab ?i ((old AND x) OR (y AND NOT x)) = Some tab'"
      using False tab(1) by (simp_all add: wr_def rd_def tab'_def old_def)
    have t_old: "table id (mb_start_registers m) ?tab a = Some old"
      using False tab by (simp add: table_def old_def)
    have upd: "write_range f a [z] = f(a \<mapsto> z)" for f :: "int \<Rightarrow> u16 option" and z
      by (auto simp: write_range_def fun_eq_iff)
    show ?thesis
    proof (rule serves_echo [OF s, where m' = "m\<lparr>mb_tab_registers := tab'\<rparr>"])
      show "reply_mask_write_register os ?req (header_length (be st) + 7) sft a t m st =
        Some (header_length (be st) + 7, filled (hdr @ encode_request (Mask_write_register a x y)) t,
          m\<lparr>mb_tab_registers := tab'\<rparr>, st)"
        using False nb w echo by (simp add: reply_mask_write_register_def Let_def)
      show "mapping_ok (m\<lparr>mb_tab_registers := tab'\<rparr>)"
        using d(3) by (simp add: mapping_ok_set_registers tab'_def)
      show "serve (abs_mapping m) (Mask_write_register a x y) =
          (abs_mapping (m\<lparr>mb_tab_registers := tab'\<rparr>), Written)"
        using False tab(1) t_old
          table_update_one [of a "mb_start_registers m" ?tab id "(old AND x) OR (y AND NOT x)"]
        by (simp add: abs_mapping_set_registers tab'_def upd)
    qed simp_all
  qed
qed

lemma uint_of_nat_u8: "n < 256 \<Longrightarrow> uint (of_nat n :: u8) = int n"
  by (simp add: unsigned_of_nat take_bit_nat_eq_self)

lemma confirm_write_run:
  assumes s: "replying mu os st hdr f sft t m"
    and "n = header_length (be st) + 5"
  shows "confirm_write (be st) (hdr @ c # p # q # field k @ rest) sft t =
    Some (n, filled (be_basis (be st) sft t @ f # p # q # field k) t)"
proof -
  note d = replyingD [OF s]
  let ?basis = "be_basis (be st) sft t"
  have rd: "rd_block (hdr @ c # p # q # field k @ rest) (header_length (be st) + 1) 4 = Some (p # q # field k)"
    using d by (simp add: rd_block_behind) (simp add: rd_block_def field_def)
  have wr: "wr_block (filled (?basis @ [f]) t) (header_length (be st) + 1) (p # q # field k) =
      Some (filled (?basis @ f # p # q # field k) t)"
    using wr_block_filled [of "header_length (be st) + 1" "?basis @ [f]" "p # q # field k" t]
      d replying_basis_length [of "be st" sft t] by simp
  show ?thesis
    by (simp add: confirm_write_def replying_build [OF s] rd wr assms(2))
qed

lemma serve_write_range:
  assumes "vs \<noteq> []"
  shows "serve_write (table val start tab) a vs =
    (if a - start < 0 \<or> a - start + int (length vs) > int (length tab)
     then (table val start tab, Exception 2)
     else (write_range (table val start tab) a vs, Written))"
proof -
  have "1 \<le> length vs" using assms by (simp add: Suc_le_eq)
  then show ?thesis using assms by (auto simp: serve_write_def read_range_table)
qed

text \<open>The response to a multiple write repeats the five bytes of the request.\<close>

lemma serves_confirm:
  assumes s: "replying mu os st hdr f sft t m" and len: "length pdu \<le> 253"
    and "serve (abs_mapping m) r = (abs_mapping m', Written)" "mapping_ok m'" "pdu = confirmation_pdu r"
    and "n = header_length (be st) + int (length pdu)"
    and "x = Some (n, filled (be_basis (be st) sft t @ pdu) t, m', st)"
  shows "serves os st hdr m r x"
proof (rule servesI)
  show "answers os (be st) hdr st pdu m' x"
    using replying_sendable [OF s len] assms(6,7) by (intro answersI [OF _ settled_refl]) simp_all
qed (use assms in \<open>simp_all add: encode_response_def\<close>)

lemma write_coils_serves:
  assumes s: "replying mu os st hdr 15 sft t m" and a: "0 \<le> a" "a < 65536"
    and len: "length bs \<le> 1968"
  shows "serves os st hdr m (Write_coils a bs) (reply_write_multiple_coils os
    (hdr @ encode_request (Write_coils a bs) @ rest) sft a t m st)"
proof -
  note d = replyingD [OF s]
  let ?tab = "mb_tab_bits m" let ?n = "length bs" let ?r = "Write_coils a bs"
  let ?req = "hdr @ encode_request ?r @ rest"
  let ?i = "a - mb_start_bits m"
  have nbb: "nb_bytes ?n \<le> 246" using len nb_bytes_bound [of ?n 246] by simp
  have nb: "rd16 ?req (header_length (be st) + 3) = Some (int ?n)"
    using d len by (simp add: request_fields be16_hi8_lo8 add.assoc)
  have bytes: "rd ?req (header_length (be st) + 5) = Some (of_nat (nb_bytes ?n))"
    using d by (simp add: request_fields add.assoc)
  have ub: "uint (of_nat (nb_bytes ?n) :: u8) = int (nb_bytes ?n)"
    using nbb by (intro uint_of_nat_u8) simp
  have tab: "mb_nb_bits m = int (length ?tab)" "list_all is_bit ?tab"
    using d(3) by (simp_all add: mapping_ok_def)
  have data: "drop (nat (header_length (be st) + 6)) ?req = pack_bits bs @ rest"
  proof -
    have "nat (header_length (be st) + 6) = length hdr + 6" using d(1) by linarith
    then show ?thesis by (simp add: field_def)
  qed
  have enough: "int ?n \<le> int (nb_bytes ?n) * 8" using nb_bytes_le [of ?n] by linarith
  show ?thesis
  proof (cases "bs = []")
    case True
    then show ?thesis
      using serves_exception [of mu os st hdr ?r sft t m 3 True] s nb bytes
      by (simp add: reply_write_multiple_coils_def serve_write_def Let_def)
  next
    case nonempty: False
    show ?thesis
    proof (cases "?i < 0 \<or> ?i + int ?n > mb_nb_bits m")
      case True
      then show ?thesis
        using serves_exception [of mu os st hdr ?r sft t m 2 False] s nb bytes ub enough tab nonempty len
        by (auto simp: reply_write_multiple_coils_def serve_write_range Let_def)
    next
      case False
      define k where "k = nat ?i"
      define ws where "ws = map (nth_bit (pack_bits bs @ rest)) [0..<?n]"
      define tab' where "tab' = take k ?tab @ ws @ drop (k + ?n) ?tab"
      have i: "?i = int k" using False by (simp add: k_def)
      then have k: "?i = int k" "k + ?n \<le> length ?tab" using False tab(1) by linarith+
      have set: "modbus_set_bits_from_bytes ?tab ?i (int ?n) (pack_bits bs @ rest) = Some tab'"
        using set_bits_from_bytes_run [of "int ?n" "pack_bits bs @ rest" k ?tab] k nb_bytes_le [of ?n]
        by (simp add: tab'_def ws_def)
      have vals: "map (\<lambda>v. v \<noteq> 0) ws = bs"
        by (rule nth_equalityI) (simp_all add: ws_def nth_bit_pack_bits)
      show ?thesis
      proof (rule serves_confirm [OF s, where m' = "m\<lparr>mb_tab_bits := tab'\<rparr>"])
        show "reply_write_multiple_coils os ?req sft a t m st = Some (header_length (be st) + 5,
            filled (be_basis (be st) sft t @ confirmation_pdu ?r) t, m\<lparr>mb_tab_bits := tab'\<rparr>, st)"
          using False nonempty nb bytes ub enough len data set
            confirm_write_run [OF s, of "header_length (be st) + 5" 15 "hi8 a" "lo8 a" "int ?n"
              "of_nat (nb_bytes ?n) # pack_bits bs @ rest"]
          by (simp add: reply_write_multiple_coils_def Let_def) (simp add: field_def)
        show "mapping_ok (m\<lparr>mb_tab_bits := tab'\<rparr>)"
          using d(3) tab(2) k(2)
          by (simp add: mapping_ok_set_bits tab'_def ws_def list_all_bits)
        show "serve (abs_mapping m) ?r = (abs_mapping (m\<lparr>mb_tab_bits := tab'\<rparr>), Written)"
          using False tab(1) nonempty k
            table_update [of a "mb_start_bits m" ws ?tab "\<lambda>v. v \<noteq> 0"] vals
          by (simp add: serve_write_range abs_mapping_set_bits tab'_def ws_def)
      qed (simp_all add: field_def)
    qed
  qed
qed

lemma write_registers_serves:
  assumes s: "replying mu os st hdr 16 sft t m" and a: "0 \<le> a" "a < 65536"
    and len: "length vs \<le> 123"
  shows "serves os st hdr m (Write_registers a vs) (reply_write_multiple_registers os
    (hdr @ encode_request (Write_registers a vs) @ rest) sft a t m st)"
proof -
  note d = replyingD [OF s]
  let ?tab = "mb_tab_registers m" let ?n = "length vs" let ?r = "Write_registers a vs"
  let ?req = "hdr @ encode_request ?r @ rest"
  let ?i = "a - mb_start_registers m"
  have nb: "rd16 ?req (header_length (be st) + 3) = Some (int ?n)"
    using d len by (simp add: request_fields be16_hi8_lo8 add.assoc)
  have bytes: "rd ?req (header_length (be st) + 5) = Some (of_nat (2 * ?n))"
    using d by (simp add: request_fields add.assoc)
  have ub: "uint (of_nat (2 * ?n) :: u8) = int ?n * 2"
    using len uint_of_nat_u8 [of "2 * ?n"] by (simp only: of_nat_mult mult.commute)
  have tab: "mb_nb_registers m = int (length ?tab)"
    using d(3) by (simp_all add: mapping_ok_def)
  show ?thesis
  proof (cases "vs = []")
    case True
    then show ?thesis
      using serves_exception [of mu os st hdr ?r sft t m 3 True] s nb bytes
      by (simp add: reply_write_multiple_registers_def serve_write_def Let_def)
  next
    case nonempty: False
    show ?thesis
    proof (cases "?i < 0 \<or> ?i + int ?n > mb_nb_registers m")
      case True
      then show ?thesis
        using serves_exception [of mu os st hdr ?r sft t m 2 False] s nb bytes ub tab nonempty len
        by (auto simp: reply_write_multiple_registers_def serve_write_range Let_def)
    next
      case False
      define k where "k = nat ?i"
      define tab' where "tab' = take k ?tab @ vs @ drop (k + ?n) ?tab"
      have i: "?i = int k" using False by (simp add: k_def)
      then have k: "?i = int k" "k + ?n \<le> length ?tab" using False tab(1) by linarith+
      have set: "store_registers ?req (header_length (be st)) ?i (int ?n) 6 ?tab = Some tab'"
        using store_registers_run [of k ?n ?tab hdr "header_length (be st)"
            "[16] @ field a @ field (int ?n) @ [of_nat (2 * ?n)]" 6 "encode_regs vs @ rest"] k d(1)
        by (simp add: tab'_def decode_encode_regs)
      show ?thesis
      proof (rule serves_confirm [OF s, where m' = "m\<lparr>mb_tab_registers := tab'\<rparr>"])
        show "reply_write_multiple_registers os ?req sft a t m st = Some (header_length (be st) + 5,
            filled (be_basis (be st) sft t @ confirmation_pdu ?r) t, m\<lparr>mb_tab_registers := tab'\<rparr>, st)"
          using False nonempty nb bytes ub len set
            confirm_write_run [OF s, of "header_length (be st) + 5" 16 "hi8 a" "lo8 a" "int ?n"
              "of_nat (2 * ?n) # encode_regs vs @ rest"]
          by (simp add: reply_write_multiple_registers_def Let_def) (simp add: field_def)
        show "mapping_ok (m\<lparr>mb_tab_registers := tab'\<rparr>)"
          using d(3) k(2) by (simp add: mapping_ok_set_registers tab'_def)
        show "serve (abs_mapping m) ?r = (abs_mapping (m\<lparr>mb_tab_registers := tab'\<rparr>), Written)"
          using False tab(1) nonempty k table_update [of a "mb_start_registers m" vs ?tab id]
          by (simp add: serve_write_range abs_mapping_set_registers tab'_def)
      qed (simp_all add: field_def)
    qed
  qed
qed

lemma write_and_read_serves:
  assumes s: "replying mu os st hdr 23 sft t m" and wa: "0 \<le> wa" "wa < 65536"
    and ra: "0 \<le> ra" "ra < 65536" and n: "n < 65536" and len: "length vs \<le> 121"
  shows "serves os st hdr m (Write_and_read_registers wa vs ra n) (reply_write_and_read_registers os
    (hdr @ encode_request (Write_and_read_registers wa vs ra n) @ rest) sft ra t m st)"
proof -
  note d = replyingD [OF s]
  let ?tab = "mb_tab_registers m" let ?w = "length vs" let ?r = "Write_and_read_registers wa vs ra n"
  let ?req = "hdr @ encode_request ?r @ rest"
  let ?start = "mb_start_registers m" let ?basis = "be_basis (be st) sft t"
  have fields: "rd16 ?req (header_length (be st) + 3) = Some (int n)"
      "rd16 ?req (header_length (be st) + 5) = Some wa"
      "rd16 ?req (header_length (be st) + 7) = Some (int ?w)"
      "rd ?req (header_length (be st) + 9) = Some (of_nat (2 * ?w))"
    using d n wa len by (simp_all add: request_fields be16_hi8_lo8 add.assoc)
  have ub: "uint (of_nat (2 * ?w) :: u8) = int ?w * 2"
    using len uint_of_nat_u8 [of "2 * ?w"] by (simp only: of_nat_mult mult.commute)
  have tab: "mb_nb_registers m = int (length ?tab)"
    using d(3) by (simp_all add: mapping_ok_def)
  consider "vs = [] \<or> n < 1 \<or> 125 < n"
    | "vs \<noteq> []" "1 \<le> n" "n \<le> 125" "ra - ?start < 0 \<or> ra - ?start + int n > int (length ?tab) \<or>
        wa - ?start < 0 \<or> wa - ?start + int ?w > int (length ?tab)"
    | "vs \<noteq> []" "1 \<le> n" "n \<le> 125" "0 \<le> ra - ?start" "ra - ?start + int n \<le> int (length ?tab)"
        "0 \<le> wa - ?start" "wa - ?start + int ?w \<le> int (length ?tab)"
    by linarith
  then show ?thesis
  proof cases
    case 1
    then show ?thesis
      using serves_exception [of mu os st hdr ?r sft t m 3 True] s fields ub len
      by (auto simp: reply_write_and_read_registers_def Let_def not_less)
  next
    case 2
    then have "1 \<le> ?w" by (simp add: Suc_le_eq)
    then show ?thesis
      using serves_exception [of mu os st hdr ?r sft t m 2 False] s fields ub len tab 2
      by (auto simp: reply_write_and_read_registers_def Let_def read_range_table)
  next
    case 3
    define k where "k = nat (ra - ?start)"
    define j where "j = nat (wa - ?start)"
    define tab' where "tab' = take j ?tab @ vs @ drop (j + ?w) ?tab"
    have i: "ra - ?start = int k" "wa - ?start = int j" using 3 by (simp_all add: k_def j_def)
    then have ranges: "k + n \<le> length ?tab" "j + ?w \<le> length ?tab" using 3 by linarith+
    have ltab: "length tab' = length ?tab" using ranges by (simp add: tab'_def)
    have w1: "1 \<le> ?w" using 3 by (simp add: Suc_le_eq)
    have store: "store_registers ?req (header_length (be st)) (wa - ?start) (int ?w) 10 ?tab = Some tab'"
      using store_registers_run [of j ?w ?tab hdr "header_length (be st)"
          "[23] @ field ra @ field (int n) @ field wa @ field (int ?w) @ [of_nat (2 * ?w)]" 10
          "encode_regs vs @ rest"] ranges d(1) i
      by (simp add: tab'_def decode_encode_regs)
    have regs: "response_registers tab' (ra - ?start) (int n)
        (filled (?basis @ [23, of_nat (2 * n)]) t) (2 + header_length (be st)) =
      Some (2 + header_length (be st) + 2 * int n,
        filled (?basis @ 23 # of_nat (2 * n) # encode_regs (window tab' k n)) t)"
      using response_registers_run [of k n tab' "?basis @ [23, of_nat (2 * n)]" t
          "2 + header_length (be st)"] i ranges ltab 3(3) d replying_basis_length [of "be st" sft t]
      by simp
    have upd: "table id ?start tab' = write_range (table id ?start ?tab) wa vs"
      using table_update [of wa ?start vs ?tab id] 3 i(2) by (simp add: tab'_def)
    have read': "read_range (write_range (table id ?start ?tab) wa vs) ra n = Some (window tab' k n)"
      unfolding upd [symmetric] using read_range_table [of n id ?start tab' ra] 3 ltab i(1) by simp
    have ok: "read_range (table id ?start ?tab) ra n \<noteq> None"
        "read_range (table id ?start ?tab) wa ?w \<noteq> None"
      using 3 w1 by (simp_all add: read_range_table)
    show ?thesis
    proof (rule servesI [where m' = "m\<lparr>mb_tab_registers := tab'\<rparr>"])
      show "answers os (be st) hdr st (23 # of_nat (2 * n) # encode_regs (window tab' k n))
          (m\<lparr>mb_tab_registers := tab'\<rparr>) (reply_write_and_read_registers os ?req sft ra t m st)"
      proof (rule answersI)
        show "reply_write_and_read_registers os ?req sft ra t m st =
          Some (2 + header_length (be st) + 2 * int n,
            filled (?basis @ 23 # of_nat (2 * n) # encode_regs (window tab' k n)) t,
            m\<lparr>mb_tab_registers := tab'\<rparr>, st)"
          using 3 w1 fields ub len tab store regs replying_build [OF s]
            replying_basis_length [of "be st" sft t] d
          by (simp add: reply_write_and_read_registers_def Let_def wr_filled push_bit_eq_mult
              mult.commute del: encode_request.simps)
      qed (use 3 ranges ltab in \<open>simp_all add: replying_sendable [OF s]\<close>)
      show "mapping_ok (m\<lparr>mb_tab_registers := tab'\<rparr>)"
        using d(3) ltab by (simp add: mapping_ok_set_registers)
      have srv: "serve (abs_mapping m) ?r =
          (abs_mapping (m\<lparr>mb_tab_registers := tab'\<rparr>), Registers (window tab' k n))"
        using 3 ok read' by (auto simp: abs_mapping_set_registers upd Let_def)
      then show "abs_mapping (m\<lparr>mb_tab_registers := tab'\<rparr>) = fst (serve (abs_mapping m) ?r)"
        by simp
      show "23 # of_nat (2 * n) # encode_regs (window tab' k n) =
          encode_response ?r (snd (serve (abs_mapping m) ?r))"
        unfolding srv using ranges ltab by (simp add: encode_response_def)
    qed
  qed
qed

subsection \<open>\<open>modbus_reply\<close> implements the protocol\<close>

fun request_address :: "request \<Rightarrow> int" where
  "request_address (Read_coils a n) = a"
| "request_address (Read_discrete_inputs a n) = a"
| "request_address (Read_holding_registers a n) = a"
| "request_address (Read_input_registers a n) = a"
| "request_address (Write_coil a v) = a"
| "request_address (Write_register a v) = a"
| "request_address (Write_coils a bs) = a"
| "request_address (Write_registers a vs) = a"
| "request_address (Mask_write_register a x y) = a"
| "request_address (Write_and_read_registers wa vs ra n) = ra"

lemma encode_request_start:
  "\<exists>tl. encode_request r = request_function r # field (request_address r) @ tl"
  by (cases r) simp_all

lemma request_address_range: "request_fits r \<Longrightarrow> 0 \<le> request_address r \<and> request_address r < 65536"
  by (cases r) simp_all

lemma serves_read:
  assumes "replying mu os st hdr (request_function r) sft t m"
    and "answers os (be st) hdr st (response_pdu (request_function r) (confirmation_pdu r) resp) m x"
    and "serve (abs_mapping m) r = (abs_mapping m, resp)"
  shows "serves os st hdr m r x"
  using assms replyingD(3) [OF assms(1)] by (intro servesI) (simp_all add: encode_response_def)

lemma read_bits_serves:
  assumes "r = Read_coils a n \<or> r = Read_discrete_inputs a n" "request_fits r"
    and "replying mu os st hdr (request_function r) sft t m"
  shows "serves os st hdr m r (reply_read_bits os (hdr @ encode_request r @ rest) sft a t m st)"
  using assms(1,2) serves_read [OF assms(3)] assms(3)
    read_bits_answers [of mu os st hdr 1 sft t m n "mb_tab_bits m" "mb_start_bits m"
      "confirmation_pdu r" a 1 "hi8 a" "lo8 a" rest]
    read_bits_answers [of mu os st hdr 2 sft t m n "mb_tab_input_bits m" "mb_start_input_bits m"
      "confirmation_pdu r" a 2 "hi8 a" "lo8 a" rest]
  by (auto simp: field_def)

lemma read_registers_serves:
  assumes "r = Read_holding_registers a n \<or> r = Read_input_registers a n" "request_fits r"
    and "replying mu os st hdr (request_function r) sft t m"
  shows "serves os st hdr m r (reply_read_registers os (hdr @ encode_request r @ rest) sft a t m st)"
  using assms(1,2) serves_read [OF assms(3)] assms(3)
    read_registers_answers [of mu os st hdr 3 sft t m n "mb_tab_registers m" "mb_start_registers m"
      "confirmation_pdu r" a 3 "hi8 a" "lo8 a" rest]
    read_registers_answers [of mu os st hdr 4 sft t m n "mb_tab_input_registers m"
      "mb_start_input_registers m" "confirmation_pdu r" a 4 "hi8 a" "lo8 a" rest]
  by (auto simp: field_def)

text \<open>The case that \<open>reply_dispatch\<close> selects for a request.\<close>

fun reply_case ::
    "'w os \<Rightarrow> u8 list \<Rightarrow> int \<Rightarrow> sft \<Rightarrow> u8 list \<Rightarrow> mapping \<Rightarrow> 'w mst \<Rightarrow> request \<Rightarrow> 'w reply" where
  "reply_case os req n sft t m st (Read_coils a k) = reply_read_bits os req sft a t m st"
| "reply_case os req n sft t m st (Read_discrete_inputs a k) = reply_read_bits os req sft a t m st"
| "reply_case os req n sft t m st (Read_holding_registers a k) = reply_read_registers os req sft a t m st"
| "reply_case os req n sft t m st (Read_input_registers a k) = reply_read_registers os req sft a t m st"
| "reply_case os req n sft t m st (Write_coil a v) = reply_write_single_coil os req n sft a t m st"
| "reply_case os req n sft t m st (Write_register a v) = reply_write_single_register os req n sft a t m st"
| "reply_case os req n sft t m st (Write_coils a bs) = reply_write_multiple_coils os req sft a t m st"
| "reply_case os req n sft t m st (Write_registers a vs) = reply_write_multiple_registers os req sft a t m st"
| "reply_case os req n sft t m st (Mask_write_register a x y) =
     reply_mask_write_register os req n sft a t m st"
| "reply_case os req n sft t m st (Write_and_read_registers wa vs ra k) =
     reply_write_and_read_registers os req sft ra t m st"

lemma dispatch_case:
  "sft_function sft = uint (request_function r) \<Longrightarrow>
   reply_dispatch os req n sft (request_address r) t m st =
     map_option Some (reply_case os req n sft t m st r)"
  by (cases r) (simp_all add: reply_dispatch_def)

lemma case_serves:
  assumes s: "replying mu os st hdr (request_function r) sft t m" and fits: "request_fits r"
  shows "serves os st hdr m r (reply_case os (hdr @ encode_request r @ rest)
    (header_length (be st) + int (length (encode_request r))) sft t m st r)"
proof (cases r)
  case (Write_coil a v)
  then show ?thesis using s fits write_coil_serves [of mu os st hdr sft t m a v rest] by simp
next
  case (Write_register a v)
  then show ?thesis using s fits write_register_serves [of mu os st hdr sft t m a v rest] by simp
next
  case (Write_coils a bs)
  then show ?thesis using s fits write_coils_serves [of mu os st hdr sft t m a bs rest] by simp
next
  case (Write_registers a vs)
  then show ?thesis using s fits write_registers_serves [of mu os st hdr sft t m a vs rest] by simp
next
  case (Mask_write_register a x y)
  then show ?thesis using s fits mask_write_serves [of mu os st hdr sft t m a x y rest] by simp
next
  case (Write_and_read_registers wa vs ra n)
  then show ?thesis
    using s fits write_and_read_serves [of mu os st hdr sft t m wa ra n vs rest] by simp
qed (use s fits read_bits_serves [OF _ fits s] read_registers_serves [OF _ fits s] in simp_all)

lemma deliver_sendable:
  assumes "sendable (be st) hdr pdu n rsp"
  shows "(send_msg os rsp n st \<bind> (\<lambda>(rc, rsp, st). Some (rc, m, st))) =
    map_option (\<lambda>(rc, st). (rc, m, st)) (deliver os (response_frame (be st) hdr pdu) st)"
proof -
  obtain t where "be_send_msg_pre (be st) rsp n =
      Some (int (length (response_frame (be st) hdr pdu)), filled (response_frame (be st) hdr pdu) t)"
    using assms by (auto simp: sendable_def)
  from send_msg_deliver [OF this] show ?thesis
    by (cases "deliver os (response_frame (be st) hdr pdu) st") auto
qed

lemma modbus_reply_serves:
  assumes "settles mu os" and "mapping_ok m" and "request_fits r"
    and "int (length hdr) = header_length (be st)" and "be_hdr_ok (be st) hdr"
  shows "\<exists>m' st'. mapping_ok m' \<and> abs_mapping m' = fst (serve (abs_mapping m) r) \<and>
    settled os st st' \<and>
    modbus_reply os The_ctx (hdr @ encode_request r @ rest)
      (header_length (be st) + int (length (encode_request r)) + checksum_length (be st)) m st =
    (if silent_broadcast (uint (last hdr)) st then Some (0, m', st')
     else map_option (\<lambda>(rc, st''). (rc, m', st''))
       (deliver os (response_frame (be st) hdr
          (encode_response r (snd (serve (abs_mapping m) r)))) st'))"
proof -
  let ?b = "be st" let ?req = "hdr @ encode_request r @ rest"
  define sft where "sft = \<lparr>sft_slave = uint (last hdr), sft_function = uint (request_function r),
    sft_t_id = be_tid ?b hdr\<rparr>"
  have s: "replying mu os st hdr (request_function r) sft (uninit os 260) m"
    using assms by (simp add: replying_def sft_def)
  obtain n rsp m' st' where run: "reply_case os ?req (header_length ?b + int (length (encode_request r)))
        sft (uninit os 260) m st r = Some (n, rsp, m', st')"
    and st': "settled os st st'"
    and rdy: "sendable ?b hdr (encode_response r (snd (serve (abs_mapping m) r))) n rsp"
    and m': "mapping_ok m'" "abs_mapping m' = fst (serve (abs_mapping m) r)"
    using case_serves [OF s assms(3), of rest] by (auto simp: serves_def answers_def)
  have "hdr \<noteq> []" using assms(4) be_framing.sizes(1) [of ?b] by auto
  then have hdr: "rd ?req (header_length ?b - 1) = Some (last hdr)"
    by (simp add: assms(4) [symmetric] rd_def last_conv_nth nth_append nat_diff_distrib Suc_le_eq)
  obtain tl where enc: "encode_request r = request_function r # field (request_address r) @ tl"
    using encode_request_start by blast
  have f: "rd ?req (header_length ?b) = Some (request_function r)"
    using assms(4) by (simp add: rd_behind_0 enc rd_Cons del: request_function.simps)
  have a: "rd16 ?req (header_length ?b + 1) = Some (request_address r)"
    using assms(4) request_address_range [OF assms(3)]
    by (simp add: enc request_fields be16_hi8_lo8 add.assoc del: request_function.simps)
  have tid: "be_prepare_response_tid ?b ?req
      (header_length ?b + int (length (encode_request r)) + checksum_length ?b) =
      Some (be_tid ?b hdr, header_length ?b + int (length (encode_request r)))"
    using be_framing.prepare [OF assms(4)] by simp
  have "modbus_reply os The_ctx ?req
      (header_length ?b + int (length (encode_request r)) + checksum_length ?b) m st =
    (if silent_broadcast (uint (last hdr)) st' then Some (0, m', st')
     else send_msg os rsp n st' \<bind> (\<lambda>(rc, rsp, st). Some (rc, m', st)))"
    using dispatch_case [of sft r os ?req] run
    by (simp add: modbus_reply_def hdr f a tid sft_def [symmetric] del: request_function.simps)
      (simp add: sft_def)
  also have "silent_broadcast (uint (last hdr)) st' = silent_broadcast (uint (last hdr)) st"
    by (simp add: silent_broadcast_def settled_ctx [OF st'])
  finally show ?thesis
    using deliver_sendable [of st' hdr _ n rsp os m'] rdy m' st' settled_ctx [OF st'] by fastforce
qed

text \<open>C1: For every request whose arguments fit in its PDU and for every backend, \<open>modbus_reply\<close>
  answers with the frame of the response the protocol specification gives, and the mapping it
  leaves is well formed and represents the tables the specification leaves; a broadcast on a
  serial line is carried out without an answer. Before the answer the server does nothing but
  flush its input, if the request has an illegal value. Nothing behind the request in the buffer, and
  no uninitialised byte of the response buffer, has an influence. (The flush after an illegal
  value returns because signals and pending input run out.)\<close>

theorem modbus_reply_implements_protocol:
  assumes "settles mu os" and "mapping_ok m" and "request_fits r"
    and "int (length hdr) = header_length (be st)" and "be_hdr_ok (be st) hdr"
  shows "\<exists>m' st'. mapping_ok m' \<and> abs_mapping m' = fst (serve (abs_mapping m) r) \<and>
    settled os st st' \<and>
    modbus_reply os The_ctx (hdr @ encode_request r @ rest)
      (header_length (be st) + int (length (encode_request r)) + checksum_length (be st)) m st =
    (if silent_broadcast (uint (last hdr)) st then Some (0, m', st')
     else map_option (\<lambda>(rc, st''). (rc, m', st''))
       (deliver os (response_frame (be st) hdr
          (encode_response r (snd (serve (abs_mapping m) r)))) st'))"
  by (rule modbus_reply_serves [OF assms])

theorem modbus_reply_implements_protocol_witness:
  "\<exists>m' st'. mapping_ok m' \<and> holding_registers (abs_mapping m') 2 = Some 777 \<and>
    st_ctx st' = tcp_ctx \<and>
    modbus_reply wire_os The_ctx [0, 1, 0, 0, 0, 6, 255, 6, 0, 2, 3, 9] 12
      small_mapping (on_wire tcp_ctx []) =
    map_option (\<lambda>(rc, st''). (rc, m', st''))
      (deliver wire_os [0, 1, 0, 0, 0, 6, 255, 6, 0, 2, 3, 9] st')"
proof -
  let ?r = "Write_register 2 777" let ?st = "on_wire tcp_ctx []"
  let ?hdr = "[0 :: u8, 1, 0, 0, 0, 6, 255]"
  have req: "encode_request ?r = [6, 0, 2, 3, 9]"
    by (simp add: field_def hi8_def lo8_def)
  have srv: "serve (abs_mapping small_mapping) ?r =
      ((abs_mapping small_mapping)\<lparr>holding_registers :=
        write_range (holding_registers (abs_mapping small_mapping)) 2 [777]\<rparr>, Written)"
    by (simp add: serve_write_one small_mapping_def abs_mapping_def)
  have frame: "response_frame (be ?st) ?hdr [6, 0, 2, 3, 9] = ?hdr @ [6, 0, 2, 3, 9]"
    by (simp add: response_frame_def reply_sft_def tcp_header_def tcp_tid_def wire_simps)
      (simp add: hi8_def lo8_def)
  have silent: "\<not> silent_broadcast (uint (last ?hdr)) ?st"
    by (simp add: silent_broadcast_def)
  have hyps: "request_fits ?r" "int (length ?hdr) = header_length (be ?st)" "be_hdr_ok (be ?st) ?hdr"
    by (simp_all add: tcp_hdr_ok_def)
  obtain m' st' where *: "mapping_ok m'" "abs_mapping m' = fst (serve (abs_mapping small_mapping) ?r)"
    "settled wire_os ?st st'"
    "modbus_reply wire_os The_ctx (?hdr @ encode_request ?r @ [])
      (header_length (be ?st) + int (length (encode_request ?r)) + checksum_length (be ?st))
      small_mapping ?st =
    (if silent_broadcast (uint (last ?hdr)) ?st then Some (0, m', st')
     else map_option (\<lambda>(rc, st''). (rc, m', st''))
       (deliver wire_os (response_frame (be ?st) ?hdr
          (encode_response ?r (snd (serve (abs_mapping small_mapping) ?r)))) st'))"
    using modbus_reply_implements_protocol [OF wire_settles small_mapping_ok, of ?r ?hdr ?st "[]"] hyps
    by blast
  have "holding_registers (abs_mapping m') 2 = Some 777"
    unfolding *(2) srv by (simp add: write_range_def)
  moreover have "encode_response ?r (snd (serve (abs_mapping small_mapping) ?r)) = [6, 0, 2, 3, 9]"
    unfolding srv by (simp add: encode_response_def req [simplified])
  ultimately show ?thesis
    using *(1,4) settled_ctx [OF *(3)] silent frame unfolding req by (intro exI [of _ m'] exI [of _ st']) simp
qed

end
