(* ===== verification/Modbus_Confirmation.thy ===== *)
theory Modbus_Confirmation
  imports Modbus_Core
begin

text \<open>
  \<open>check_confirmation\<close> of \<open>libmodbus/src/modbus.c\<close>: is a received response a valid answer to
  the request that was sent? The result is the number of values the response announces, or -1.
\<close>

definition recover_protocol :: "'w os \<Rightarrow> 'w mst \<Rightarrow> 'w mst option" where
  "recover_protocol os st = (if protocol_recovery st then sleep_and_flush os st else Some st)"

text \<open>The failure exit that follows a refused response.\<close>

definition refuse_data :: "'w os \<Rightarrow> 'w mst \<Rightarrow> (int \<times> 'w mst) option" where
  "refuse_data os st = do {
     st \<leftarrow> recover_protocol os st;
     Some (-1, set_errno EMBBADDATA st) }"

text \<open>An exception response (function code with bit 7 set).\<close>

definition check_exception ::
    "backend \<Rightarrow> u8 list \<Rightarrow> u8 list \<Rightarrow> int \<Rightarrow> 'w mst \<Rightarrow> (int \<times> 'w mst) option" where
  "check_exception b req rsp rsp_length st = do {
     let offset = header_length b;
     q \<leftarrow> (if rsp_length = offset + 2 + checksum_length b then do {
             q \<leftarrow> rd req offset; r \<leftarrow> rd rsp offset; Some (uint q = uint r - 128) }
           else Some False);
     if q then do {
       e \<leftarrow> rd rsp (offset + 1);
       let exception_code = uint e;
       if exception_code < MODBUS_EXCEPTION_MAX then
         Some (-1, set_errno (MODBUS_ENOBASE + exception_code) st)
       else Some (-1, set_errno EMBBADEXC st) }
     else Some (-1, set_errno EMBBADEXC st) }"

text \<open>
  \<open>req_nb_value\<close>, \<open>rsp_nb_value\<close>, \<open>resp_addr_ok\<close> and \<open>resp_data_ok\<close>, one branch per
  function code.
\<close>

definition differ :: "u8 list \<Rightarrow> u8 list \<Rightarrow> int \<Rightarrow> bool option" where
  "differ req rsp i = do { q \<leftarrow> rd req i; r \<leftarrow> rd rsp i; Some (q \<noteq> r) }"

definition confirmation_values ::
    "int \<Rightarrow> int \<Rightarrow> u8 list \<Rightarrow> u8 list \<Rightarrow> (int \<times> int \<times> bool \<times> bool) option" where
  "confirmation_values offset function req rsp =
     (if function = MODBUS_FC_READ_COILS \<or> function = MODBUS_FC_READ_DISCRETE_INPUTS then do {
        hi \<leftarrow> rd req (offset + 3); lo \<leftarrow> rd req (offset + 4);
        let req_nb_value = be16 hi lo;
        let req_nb_value = (req_nb_value div 8) + (if req_nb_value mod 8 \<noteq> 0 then 1 else 0);
        r \<leftarrow> rd rsp (offset + 1);
        Some (req_nb_value, uint r, True, True) }
      else if function = MODBUS_FC_WRITE_AND_READ_REGISTERS \<or>
              function = MODBUS_FC_READ_HOLDING_REGISTERS \<or>
              function = MODBUS_FC_READ_INPUT_REGISTERS then do {
        hi \<leftarrow> rd req (offset + 3); lo \<leftarrow> rd req (offset + 4);
        r \<leftarrow> rd rsp (offset + 1);
        Some (be16 hi lo, uint r div 2, True, True) }
      else if function = MODBUS_FC_WRITE_MULTIPLE_COILS \<or>
              function = MODBUS_FC_WRITE_MULTIPLE_REGISTERS then do {
        d1 \<leftarrow> differ req rsp (offset + 1);
        bad_addr \<leftarrow> (if d1 then Some True else differ req rsp (offset + 2));
        hi \<leftarrow> rd req (offset + 3); lo \<leftarrow> rd req (offset + 4);
        rhi \<leftarrow> rd rsp (offset + 3); rlo \<leftarrow> rd rsp (offset + 4);
        Some (be16 hi lo, be16_or rhi rlo, \<not> bad_addr, True) }
      else if function = MODBUS_FC_REPORT_SLAVE_ID then do {
        r \<leftarrow> rd rsp (offset + 1);
        Some (uint r, uint r, True, True) }
      else if function = MODBUS_FC_WRITE_SINGLE_COIL \<or>
              function = MODBUS_FC_WRITE_SINGLE_REGISTER then do {
        d1 \<leftarrow> differ req rsp (offset + 1);
        bad_addr \<leftarrow> (if d1 then Some True else differ req rsp (offset + 2));
        d3 \<leftarrow> differ req rsp (offset + 3);
        bad_data \<leftarrow> (if d3 then Some True else differ req rsp (offset + 4));
        Some (1, 1, \<not> bad_addr, \<not> bad_data) }
      else Some (1, 1, True, True))"

definition check_confirmation ::
    "'w os \<Rightarrow> u8 list \<Rightarrow> u8 list \<Rightarrow> int \<Rightarrow> 'w mst \<Rightarrow> (int \<times> 'w mst) option" where
  "check_confirmation os req rsp rsp_length st = do {
     let b = be st;
     let offset = header_length b;
     f \<leftarrow> rd rsp offset;
     let function = uint f;
     (rc, st) \<leftarrow> be_pre_check_confirmation req rsp rsp_length st;
     if rc = -1 then do {
       st \<leftarrow> recover_protocol os st;
       Some (-1, st) }
     else do {
       rsp_length_computed \<leftarrow> compute_response_length_from_request b req;
       if function \<ge> 128 then check_exception b req rsp rsp_length st
       else if (rsp_length = rsp_length_computed \<or> rsp_length_computed = MSG_LENGTH_UNDEFINED) \<and>
               function < 128 then do {
         q \<leftarrow> rd req offset;
         if function \<noteq> uint q then refuse_data os st
         else do {
           (req_nb_value, rsp_nb_value, resp_addr_ok, resp_data_ok) \<leftarrow>
             confirmation_values offset function req rsp;
           if req_nb_value = rsp_nb_value \<and> resp_addr_ok \<and> resp_data_ok
           then Some (rsp_nb_value, st)
           else refuse_data os st } }
       else refuse_data os st } }"

end
