(* ===== verification/Modbus_Client.thy ===== *)
theory Modbus_Client
  imports Modbus_Confirmation
begin

text \<open>
  The client of \<open>libmodbus/src/modbus.c\<close>: the functions that send a request and decode the
  confirmation. A function with a \<open>dest\<close> array takes its contents and returns the new ones. A
  count that the caller may choose negative uses C's truncating division.
\<close>

text \<open>
  \<open>rc = _modbus_receive_msg(ctx, rsp, MSG_CONFIRMATION); if (rc == -1) return -1;
  rc = check_confirmation(ctx, req, rsp, rc);\<close>
\<close>

definition await_confirmation ::
    "'w os \<Rightarrow> u8 list \<Rightarrow> 'w mst \<Rightarrow> (int \<times> u8 list \<times> 'w mst) option" where
  "await_confirmation os req st = do {
     (rc, rsp, st) \<leftarrow> modbus_receive_msg os (uninit os MAX_MESSAGE_LENGTH) MSG_CONFIRMATION st;
     if rc = -1 then Some (-1, rsp, st)
     else do {
       (rc, st) \<leftarrow> check_confirmation os req rsp rc st;
       Some (rc, rsp, st) } }"

subsection \<open>Reading\<close>

text \<open>\<open>for (bit = 0x01; (bit & 0xff) && (pos < nb);)\<close>: \<open>m\<close> is the variable
  \<open>bit\<close> and \<open>k\<close> how often it can still be shifted.\<close>

primrec unpack_byte :: "nat \<Rightarrow> int \<Rightarrow> int \<Rightarrow> int \<Rightarrow> int \<Rightarrow> u8 list \<Rightarrow> (u8 list \<times> int) option" where
  "unpack_byte 0 temp m pos nb dest = Some (dest, pos)"
| "unpack_byte (Suc k) temp m pos nb dest =
     (if pos < nb then do {
        dest \<leftarrow> wr dest pos (if temp AND m \<noteq> 0 then 1 else 0);
        unpack_byte k temp (push_bit 1 m) (pos + 1) nb dest }
      else Some (dest, pos))"

definition read_io_status ::
    "'w os \<Rightarrow> int \<Rightarrow> int \<Rightarrow> int \<Rightarrow> u8 list \<Rightarrow> 'w mst \<Rightarrow> (int \<times> u8 list \<times> 'w mst) option" where
  "read_io_status os function addr nb dest st = do {
     (req_length, req, st) \<leftarrow> be_build_request_basis function addr nb (uninit os MIN_REQ_LENGTH) st;
     (rc, req, st) \<leftarrow> send_msg os req req_length st;
     if rc > 0 then do {
       (rc, rsp, st) \<leftarrow> await_confirmation os req st;
       if rc = -1 then Some (-1, dest, st)
       else do {
         let offset = header_length (be st) + 2;
         (dest, pos) \<leftarrow> for_loop (nat rc) offset
           (\<lambda>i (dest, pos). do { temp \<leftarrow> rd rsp i; unpack_byte 8 (uint temp) 1 pos nb dest }) (dest, 0);
         Some (rc, dest, st) } }
     else Some (rc, dest, st) }"

definition modbus_read_bits ::
    "'w os \<Rightarrow> ctx_ptr \<Rightarrow> int \<Rightarrow> int \<Rightarrow> u8 list \<Rightarrow> 'w mst \<Rightarrow> (int \<times> u8 list \<times> 'w mst) option" where
  "modbus_read_bits os p addr nb dest st =
     (if p = NULL_ctx then Some (-1, dest, set_errno EINVAL st)
      else if nb > MODBUS_MAX_READ_BITS then Some (-1, dest, set_errno EMBMDATA st)
      else do {
        (rc, dest, st) \<leftarrow> read_io_status os MODBUS_FC_READ_COILS addr nb dest st;
        if rc = -1 then Some (-1, dest, st) else Some (nb, dest, st) })"

definition modbus_read_input_bits ::
    "'w os \<Rightarrow> ctx_ptr \<Rightarrow> int \<Rightarrow> int \<Rightarrow> u8 list \<Rightarrow> 'w mst \<Rightarrow> (int \<times> u8 list \<times> 'w mst) option" where
  "modbus_read_input_bits os p addr nb dest st =
     (if p = NULL_ctx then Some (-1, dest, set_errno EINVAL st)
      else if nb > MODBUS_MAX_READ_BITS then Some (-1, dest, set_errno EMBMDATA st)
      else do {
        (rc, dest, st) \<leftarrow> read_io_status os MODBUS_FC_READ_DISCRETE_INPUTS addr nb dest st;
        if rc = -1 then Some (-1, dest, st) else Some (nb, dest, st) })"

text \<open>\<open>dest[i] = (rsp[offset + 2 + (i << 1)] << 8) | rsp[offset + 3 + (i << 1)]\<close>\<close>

definition load_registers :: "u8 list \<Rightarrow> int \<Rightarrow> int \<Rightarrow> u16 list \<Rightarrow> u16 list option" where
  "load_registers rsp offset rc dest =
     for_loop (nat rc) 0
       (\<lambda>i dest. do {
          hi \<leftarrow> rd rsp (offset + 2 + push_bit 1 i);
          lo \<leftarrow> rd rsp (offset + 3 + push_bit 1 i);
          wr dest i (word_of_int (be16_or hi lo)) }) dest"

definition read_registers ::
    "'w os \<Rightarrow> int \<Rightarrow> int \<Rightarrow> int \<Rightarrow> u16 list \<Rightarrow> 'w mst \<Rightarrow> (int \<times> u16 list \<times> 'w mst) option" where
  "read_registers os function addr nb dest st =
     (if nb > MODBUS_MAX_READ_REGISTERS then Some (-1, dest, set_errno EMBMDATA st)
      else do {
        (req_length, req, st) \<leftarrow>
          be_build_request_basis function addr nb (uninit os MIN_REQ_LENGTH) st;
        (rc, req, st) \<leftarrow> send_msg os req req_length st;
        if rc > 0 then do {
          (rc, rsp, st) \<leftarrow> await_confirmation os req st;
          if rc = -1 then Some (-1, dest, st)
          else do {
            dest \<leftarrow> load_registers rsp (header_length (be st)) rc dest;
            Some (rc, dest, st) } }
        else Some (rc, dest, st) })"

definition modbus_read_registers ::
    "'w os \<Rightarrow> ctx_ptr \<Rightarrow> int \<Rightarrow> int \<Rightarrow> u16 list \<Rightarrow> 'w mst \<Rightarrow> (int \<times> u16 list \<times> 'w mst) option" where
  "modbus_read_registers os p addr nb dest st =
     (if p = NULL_ctx then Some (-1, dest, set_errno EINVAL st)
      else if nb > MODBUS_MAX_READ_REGISTERS then Some (-1, dest, set_errno EMBMDATA st)
      else read_registers os MODBUS_FC_READ_HOLDING_REGISTERS addr nb dest st)"

definition modbus_read_input_registers ::
    "'w os \<Rightarrow> ctx_ptr \<Rightarrow> int \<Rightarrow> int \<Rightarrow> u16 list \<Rightarrow> 'w mst \<Rightarrow> (int \<times> u16 list \<times> 'w mst) option" where
  "modbus_read_input_registers os p addr nb dest st =
     (if p = NULL_ctx then Some (-1, dest, set_errno EINVAL st)
      else if nb > MODBUS_MAX_READ_REGISTERS then Some (-1, dest, set_errno EMBMDATA st)
      else read_registers os MODBUS_FC_READ_INPUT_REGISTERS addr nb dest st)"

subsection \<open>Writing\<close>

text \<open>\<open>rc = send_msg(ctx, req, req_length); if (rc > 0) { ... rc = check_confirmation(...); }\<close>\<close>

definition send_and_confirm ::
    "'w os \<Rightarrow> u8 list \<Rightarrow> int \<Rightarrow> 'w mst \<Rightarrow> (int \<times> 'w mst) option" where
  "send_and_confirm os req req_length st = do {
     (rc, req, st) \<leftarrow> send_msg os req req_length st;
     if rc > 0 then do {
       (rc, rsp, st) \<leftarrow> await_confirmation os req st;
       Some (rc, st) }
     else Some (rc, st) }"

definition write_single ::
    "'w os \<Rightarrow> ctx_ptr \<Rightarrow> int \<Rightarrow> int \<Rightarrow> u16 \<Rightarrow> 'w mst \<Rightarrow> (int \<times> 'w mst) option" where
  "write_single os p function addr v st =
     (if p = NULL_ctx then Some (-1, set_errno EINVAL st)
      else do {
        (req_length, req, st) \<leftarrow>
          be_build_request_basis function addr (uint v) (uninit os MIN_REQ_LENGTH) st;
        send_and_confirm os req req_length st })"

definition modbus_write_bit ::
    "'w os \<Rightarrow> ctx_ptr \<Rightarrow> int \<Rightarrow> int \<Rightarrow> 'w mst \<Rightarrow> (int \<times> 'w mst) option" where
  "modbus_write_bit os p addr status st =
     (if p = NULL_ctx then Some (-1, set_errno EINVAL st)
      else write_single os p MODBUS_FC_WRITE_SINGLE_COIL addr (if status \<noteq> 0 then 65280 else 0) st)"

definition modbus_write_register ::
    "'w os \<Rightarrow> ctx_ptr \<Rightarrow> int \<Rightarrow> u16 \<Rightarrow> 'w mst \<Rightarrow> (int \<times> 'w mst) option" where
  "modbus_write_register os p addr v st =
     (if p = NULL_ctx then Some (-1, set_errno EINVAL st)
      else write_single os p MODBUS_FC_WRITE_SINGLE_REGISTER addr v st)"

text \<open>
  The inner loop of \<open>modbus_write_bits\<close>: \<open>bit_check\<close> is incremented by its test, whether it
  succeeds or not, but not tested once \<open>bit\<close> has left the byte.
\<close>

primrec pack_byte ::
    "nat \<Rightarrow> int \<Rightarrow> int \<Rightarrow> u8 list \<Rightarrow> int \<Rightarrow> int \<Rightarrow> int \<Rightarrow> u8 list \<Rightarrow> (u8 list \<times> int \<times> int) option" where
  "pack_byte 0 m nb src req_length bit_check pos req = Some (req, bit_check, pos)"
| "pack_byte (Suc k) m nb src req_length bit_check pos req =
     (if bit_check < nb then do {
        s \<leftarrow> rd src pos;
        r \<leftarrow> rd req req_length;
        req \<leftarrow> wr req req_length
          (if s \<noteq> 0 then r OR word_of_int m else r AND word_of_int (NOT m));
        pack_byte k (push_bit 1 m) nb src req_length (bit_check + 1) (pos + 1) req }
      else Some (req, bit_check + 1, pos))"

definition pack_bytes ::
    "int \<Rightarrow> int \<Rightarrow> u8 list \<Rightarrow> u8 list \<Rightarrow> int \<Rightarrow> (u8 list \<times> int) option" where
  "pack_bytes byte_count nb src req req_length = do {
     (req, req_length, bit_check, pos) \<leftarrow> for_loop (nat byte_count) 0
       (\<lambda>i (req, req_length, bit_check, pos). do {
          req \<leftarrow> wr req req_length 0;
          (req, bit_check, pos) \<leftarrow> pack_byte 8 1 nb src req_length bit_check pos req;
          Some (req, req_length + 1, bit_check, pos) })
       (req, req_length, 0, 0);
     Some (req, req_length) }"

definition modbus_write_bits ::
    "'w os \<Rightarrow> ctx_ptr \<Rightarrow> int \<Rightarrow> int \<Rightarrow> u8 list \<Rightarrow> 'w mst \<Rightarrow> (int \<times> 'w mst) option" where
  "modbus_write_bits os p addr nb src st =
     (if p = NULL_ctx then Some (-1, set_errno EINVAL st)
      else if nb > MODBUS_MAX_WRITE_BITS then Some (-1, set_errno EMBMDATA st)
      else do {
        (req_length, req, st) \<leftarrow> be_build_request_basis MODBUS_FC_WRITE_MULTIPLE_COILS addr nb
          (uninit os MAX_MESSAGE_LENGTH) st;
        let byte_count = (nb sdiv 8) + (if nb smod 8 \<noteq> 0 then 1 else 0);
        req \<leftarrow> wr req req_length (word_of_int byte_count);
        (req, req_length) \<leftarrow> pack_bytes byte_count nb src req (req_length + 1);
        send_and_confirm os req req_length st })"

text \<open>\<open>for (i = 0; i < nb; i++) { req[req_length++] = src[i] >> 8; req[req_length++] = src[i] & 0xFF; }\<close>\<close>

definition put_registers ::
    "int \<Rightarrow> u16 list \<Rightarrow> u8 list \<Rightarrow> int \<Rightarrow> (int \<times> u8 list) option" where
  "put_registers nb src req req_length =
     for_loop (nat nb) 0
       (\<lambda>i (req_length, req). do {
          v \<leftarrow> rd src i;
          req \<leftarrow> wr req req_length (hi8 (uint v));
          req \<leftarrow> wr req (req_length + 1) (lo8 (uint v));
          Some (req_length + 2, req) })
       (req_length, req)"

definition modbus_write_registers ::
    "'w os \<Rightarrow> ctx_ptr \<Rightarrow> int \<Rightarrow> int \<Rightarrow> u16 list \<Rightarrow> 'w mst \<Rightarrow> (int \<times> 'w mst) option" where
  "modbus_write_registers os p addr nb src st =
     (if p = NULL_ctx then Some (-1, set_errno EINVAL st)
      else if nb > MODBUS_MAX_WRITE_REGISTERS then Some (-1, set_errno EMBMDATA st)
      else do {
        (req_length, req, st) \<leftarrow> be_build_request_basis MODBUS_FC_WRITE_MULTIPLE_REGISTERS addr nb
          (uninit os MAX_MESSAGE_LENGTH) st;
        let byte_count = nb * 2;
        req \<leftarrow> wr req req_length (word_of_int byte_count);
        (req_length, req) \<leftarrow> put_registers nb src req (req_length + 1);
        send_and_confirm os req req_length st })"

text \<open>This function does not test \<open>ctx\<close>: a null pointer is dereferenced.\<close>

definition modbus_mask_write_register ::
    "'w os \<Rightarrow> ctx_ptr \<Rightarrow> int \<Rightarrow> u16 \<Rightarrow> u16 \<Rightarrow> 'w mst \<Rightarrow> (int \<times> 'w mst) option" where
  "modbus_mask_write_register os p addr and_mask or_mask st =
     (if p = NULL_ctx then None
      else do {
        (req_length, req, st) \<leftarrow> be_build_request_basis MODBUS_FC_MASK_WRITE_REGISTER addr 0
          (uninit os (MIN_REQ_LENGTH + 2)) st;
        let req_length = req_length - 2;
        req \<leftarrow> wr req req_length (hi8 (uint and_mask));
        req \<leftarrow> wr req (req_length + 1) (lo8 (uint and_mask));
        req \<leftarrow> wr req (req_length + 2) (hi8 (uint or_mask));
        req \<leftarrow> wr req (req_length + 3) (lo8 (uint or_mask));
        send_and_confirm os req (req_length + 4) st })"

definition modbus_write_and_read_registers ::
    "'w os \<Rightarrow> ctx_ptr \<Rightarrow> int \<Rightarrow> int \<Rightarrow> u16 list \<Rightarrow> int \<Rightarrow> int \<Rightarrow> u16 list \<Rightarrow> 'w mst
     \<Rightarrow> (int \<times> u16 list \<times> 'w mst) option" where
  "modbus_write_and_read_registers os p write_addr write_nb src read_addr read_nb dest st =
     (if p = NULL_ctx then Some (-1, dest, set_errno EINVAL st)
      else if write_nb > MODBUS_MAX_WR_WRITE_REGISTERS then Some (-1, dest, set_errno EMBMDATA st)
      else if read_nb > MODBUS_MAX_WR_READ_REGISTERS then Some (-1, dest, set_errno EMBMDATA st)
      else do {
        (req_length, req, st) \<leftarrow> be_build_request_basis MODBUS_FC_WRITE_AND_READ_REGISTERS
          read_addr read_nb (uninit os MAX_MESSAGE_LENGTH) st;
        req \<leftarrow> wr req req_length (hi8 write_addr);
        req \<leftarrow> wr req (req_length + 1) (lo8 write_addr);
        req \<leftarrow> wr req (req_length + 2) (hi8 write_nb);
        req \<leftarrow> wr req (req_length + 3) (lo8 write_nb);
        let byte_count = write_nb * 2;
        req \<leftarrow> wr req (req_length + 4) (word_of_int byte_count);
        (req_length, req) \<leftarrow> put_registers write_nb src req (req_length + 5);
        (rc, req, st) \<leftarrow> send_msg os req req_length st;
        if rc > 0 then do {
          (rc, rsp, st) \<leftarrow> await_confirmation os req st;
          if rc = -1 then Some (-1, dest, st)
          else do {
            dest \<leftarrow> load_registers rsp (header_length (be st)) rc dest;
            Some (rc, dest, st) } }
        else Some (rc, dest, st) })"

definition modbus_report_slave_id ::
    "'w os \<Rightarrow> ctx_ptr \<Rightarrow> int \<Rightarrow> u8 list \<Rightarrow> 'w mst \<Rightarrow> (int \<times> u8 list \<times> 'w mst) option" where
  "modbus_report_slave_id os p max_dest dest st =
     (if p = NULL_ctx \<or> max_dest \<le> 0 then Some (-1, dest, set_errno EINVAL st)
      else do {
        (req_length, req, st) \<leftarrow>
          be_build_request_basis MODBUS_FC_REPORT_SLAVE_ID 0 0 (uninit os MIN_REQ_LENGTH) st;
        let req_length = req_length - 4;
        (rc, req, st) \<leftarrow> send_msg os req req_length st;
        if rc > 0 then do {
          (rc, rsp, st) \<leftarrow> await_confirmation os req st;
          if rc = -1 then Some (-1, dest, st)
          else do {
            let offset = header_length (be st) + 2;
            dest \<leftarrow> for_loop (nat (min rc max_dest)) 0
              (\<lambda>i dest. do { v \<leftarrow> rd rsp (offset + i); wr dest i v }) dest;
            Some (rc, dest, st) } }
        else Some (rc, dest, st) })"

end
