(* ===== verification/Mbu_Common.thy ===== *)
theory Mbu_Common
  imports Modbus_Context
begin

text \<open>
  \<open>mbu-common.c\<close>: parsing of the numbers and ranges of the command lines, conversion of a
  timeout, and the pause between frames. A C string is the list of its characters before the
  NUL; a function that returns -1 yields \<open>None\<close>.
\<close>

subsection \<open>\<open>strtol\<close>\<close>

text \<open>
  The C library's function for a 64-bit \<open>long\<close> in the "C" locale: white space, a sign, the \<open>0x\<close>
  of base 16, then digits. The result is the value, whether it was clamped (ERANGE), and the
  rest of the string; no digits at all leave the whole string.
\<close>

definition is_space :: "char \<Rightarrow> bool" where
  "is_space c \<longleftrightarrow> c = CHR '' '' \<or> (9 \<le> (of_char c :: nat) \<and> (of_char c :: nat) \<le> 13)"

definition digit_value :: "char \<Rightarrow> int option" where
  "digit_value c =
     (let n = (of_char c :: int) in
      if 48 \<le> n \<and> n \<le> 57 then Some (n - 48)
      else if 97 \<le> n \<and> n \<le> 122 then Some (n - 87)
      else if 65 \<le> n \<and> n \<le> 90 then Some (n - 55)
      else None)"

definition is_digit :: "int \<Rightarrow> char \<Rightarrow> bool" where
  "is_digit base c = (case digit_value c of None \<Rightarrow> False | Some d \<Rightarrow> d < base)"

fun digits_value :: "int \<Rightarrow> int \<Rightarrow> string \<Rightarrow> int" where
  "digits_value base acc [] = acc"
| "digits_value base acc (c # cs) =
     (case digit_value c of None \<Rightarrow> acc | Some d \<Rightarrow> digits_value base (acc * base + d) cs)"

definition at :: "string \<Rightarrow> nat \<Rightarrow> char" where
  "at text i = (if i < length text then text ! i else NUL)"

definition skip_sign :: "string \<Rightarrow> bool \<times> string" where
  "skip_sign s =
     (if at s 0 = CHR ''-'' then (True, tl s)
      else if at s 0 = CHR ''+'' then (False, tl s) else (False, s))"

definition skip_hex_prefix :: "int \<Rightarrow> string \<Rightarrow> string" where
  "skip_hex_prefix base s =
     (if base = 16 \<and> at s 0 = CHR ''0'' \<and> (at s 1 = CHR ''x'' \<or> at s 1 = CHR ''X'') \<and>
         is_digit 16 (at s 2) then drop 2 s else s)"

abbreviation (input) LONG_MAX :: int where "LONG_MAX \<equiv> 9223372036854775807"
abbreviation (input) LONG_MIN :: int where "LONG_MIN \<equiv> -9223372036854775808"
abbreviation (input) INT_MAX :: int where "INT_MAX \<equiv> 2147483647"
abbreviation (input) INT_MIN :: int where "INT_MIN \<equiv> -2147483648"

definition strtol :: "string \<Rightarrow> int \<Rightarrow> int \<times> bool \<times> string" where
  "strtol text base =
     (let (neg, s) = skip_sign (dropWhile is_space text);
          s = skip_hex_prefix base s;
          ds = takeWhile (is_digit base) s in
      if ds = [] then (0, False, text)
      else
        let n = digits_value base 0 ds;
            v = (if neg then - n else n);
            rest = dropWhile (is_digit base) s in
        if v > LONG_MAX then (LONG_MAX, True, rest)
        else if v < LONG_MIN then (LONG_MIN, True, rest)
        else (v, False, rest))"

subsection \<open>\<open>mbu-common.c\<close>\<close>

definition parse_number :: "string option \<Rightarrow> (string \<times> int) option" where
  "parse_number text =
     (case text of
        None \<Rightarrow> None
      | Some t \<Rightarrow>
          if at t 0 = NUL then None
          else
            let base =
              (if (at t 0 = CHR ''0'' \<and> (at t 1 = CHR ''x'' \<or> at t 1 = CHR ''X'')) \<or>
                  ((at t 0 = CHR ''+'' \<or> at t 0 = CHR ''-'') \<and> at t 1 = CHR ''0'' \<and>
                   (at t 2 = CHR ''x'' \<or> at t 2 = CHR ''X'')) then 16 else 10);
                (parsed, erange, rest) = strtol t base in
            if erange \<or> rest = t then None else Some (rest, parsed))"

text \<open>\<open>value_ptr\<close> says that the result pointer is not null.\<close>

definition mbu_parse_int :: "string option \<Rightarrow> int \<Rightarrow> int \<Rightarrow> bool \<Rightarrow> int option" where
  "mbu_parse_int text minimum maximum value_ptr =
     (if \<not> value_ptr \<or> minimum > maximum then None
      else case parse_number text of
        None \<Rightarrow> None
      | Some (rest, parsed) \<Rightarrow>
          if rest \<noteq> [] \<or> parsed < minimum \<or> parsed > maximum \<or> parsed < INT_MIN \<or> parsed > INT_MAX
          then None else Some parsed)"

abbreviation (input) MBU_MAX_SLAVE_ADDRESS :: int where "MBU_MAX_SLAVE_ADDRESS \<equiv> 247"
abbreviation (input) MBU_MAX_DATA_ADDRESS :: int where "MBU_MAX_DATA_ADDRESS \<equiv> 65535"

definition mbu_parse_address_range :: "string option \<Rightarrow> bool \<Rightarrow> bool \<Rightarrow> (int \<times> int) option" where
  "mbu_parse_address_range text start_ptr end_ptr =
     (if \<not> start_ptr \<or> \<not> end_ptr then None
      else case parse_number text of
        None \<Rightarrow> None
      | Some (separator, first) \<Rightarrow>
          if first < 0 \<or> first > MBU_MAX_SLAVE_ADDRESS then None
          else if separator = [] then Some (first, first)
          else if hd separator \<noteq> CHR ''.'' then None
          else case parse_number (Some (tl separator)) of
            None \<Rightarrow> None
          | Some (range_end, final) \<Rightarrow>
              if range_end \<noteq> [] \<or> final < 0 \<or> final > MBU_MAX_SLAVE_ADDRESS \<or> first \<ge> final
              then None else Some (first, final))"

definition mbu_timeout_from_ms :: "int \<Rightarrow> bool \<Rightarrow> bool \<Rightarrow> (u32 \<times> u32) option" where
  "mbu_timeout_from_ms milliseconds seconds_ptr microseconds_ptr =
     (if milliseconds \<le> 0 \<or> \<not> seconds_ptr \<or> \<not> microseconds_ptr then None
      else Some (word_of_int (milliseconds sdiv 1000),
                 word_of_int (milliseconds smod 1000) * 1000))"

definition mbu_sleep_ms :: "'w os \<Rightarrow> u32 \<Rightarrow> 'w mst \<Rightarrow> 'w mst option" where
  "mbu_sleep_ms os milliseconds st =
     nanosleep_loop os
       (uint (milliseconds div 1000), uint (milliseconds mod 1000) * 1000000) st"

end
