(* ===== verification/Modbusc.thy ===== *)
theory Modbusc
  imports Modbus_Client Mbu_Common
begin

text \<open>
  \<open>modbusc.c\<close>, the command-line client. What \<open>argtable3\<close> made of the command line is a record;
  what the program prints is left out. A context is created in memory that \<open>malloc\<close> supplies.
\<close>

subsection \<open>Helpers\<close>

definition to_lower :: "char \<Rightarrow> nat" where
  "to_lower c = (let n = (of_char c :: nat) in if 65 \<le> n \<and> n \<le> 90 then n + 32 else n)"

definition to_upper :: "char \<Rightarrow> char" where
  "to_upper c = (let n = (of_char c :: nat) in if 97 \<le> n \<and> n \<le> 122 then char_of (n - 32) else c)"

fun equals_ignore_case :: "string \<Rightarrow> string \<Rightarrow> bool" where
  "equals_ignore_case (l # left) (r # right) =
     (if to_lower l \<noteq> to_lower r then False else equals_ignore_case left right)"
| "equals_ignore_case left right = (left = [] \<and> right = [])"

definition validate_register_range :: "int \<Rightarrow> int \<Rightarrow> bool" where
  "validate_register_range address count \<longleftrightarrow>
     address \<ge> 0 \<and> address \<le> MBU_MAX_DATA_ADDRESS \<and> count > 0 \<and>
     count - 1 \<le> MBU_MAX_DATA_ADDRESS - address"

datatype data_type = DATA_SCALAR | DATA_BITS | DATA_REGISTERS

text \<open>The union, with one field per member.\<close>

record request_data =
  rq_scalar :: int
  rq_bits :: "u8 list"
  rq_registers :: "u16 list"

definition configure_context ::
    "ctx_ptr \<Rightarrow> int \<Rightarrow> u32 \<Rightarrow> u32 \<Rightarrow> 'w mst \<Rightarrow> int \<times> 'w mst" where
  "configure_context p debug timeout_seconds timeout_microseconds st =
     (if p = NULL_ctx then (-1, st)
      else
        let (rc, st) = modbus_set_debug p debug st in
        if rc = -1 then (-1, st)
        else
          let (rc, st) = modbus_set_response_timeout p timeout_seconds timeout_microseconds st in
          if rc = -1 then (-1, st) else (0, st))"

subsection \<open>Requests\<close>

text \<open>The switch of \<open>process_requests\<close>: the result, the data (which the reads fill in), the state.\<close>

definition perform_request ::
    "'w os \<Rightarrow> int \<Rightarrow> int \<Rightarrow> int \<Rightarrow> request_data \<Rightarrow> 'w mst \<Rightarrow> (int \<times> request_data \<times> 'w mst) option" where
  "perform_request os function register_address count data st =
     (if function = MODBUS_FC_READ_COILS then do {
        (r, bits, st) \<leftarrow> modbus_read_bits os The_ctx register_address count (rq_bits data) st;
        Some (r, data\<lparr>rq_bits := bits\<rparr>, st) }
      else if function = MODBUS_FC_READ_DISCRETE_INPUTS then do {
        (r, bits, st) \<leftarrow> modbus_read_input_bits os The_ctx register_address count (rq_bits data) st;
        Some (r, data\<lparr>rq_bits := bits\<rparr>, st) }
      else if function = MODBUS_FC_READ_HOLDING_REGISTERS then do {
        (r, regs, st) \<leftarrow> modbus_read_registers os The_ctx register_address count (rq_registers data) st;
        Some (r, data\<lparr>rq_registers := regs\<rparr>, st) }
      else if function = MODBUS_FC_READ_INPUT_REGISTERS then do {
        (r, regs, st) \<leftarrow>
          modbus_read_input_registers os The_ctx register_address count (rq_registers data) st;
        Some (r, data\<lparr>rq_registers := regs\<rparr>, st) }
      else if function = MODBUS_FC_WRITE_SINGLE_COIL then do {
        (r, st) \<leftarrow> modbus_write_bit os The_ctx register_address (rq_scalar data) st;
        Some (r, data, st) }
      else if function = MODBUS_FC_WRITE_SINGLE_REGISTER then do {
        (r, st) \<leftarrow> modbus_write_register os The_ctx register_address (word_of_int (rq_scalar data)) st;
        Some (r, data, st) }
      else if function = MODBUS_FC_WRITE_MULTIPLE_COILS then do {
        (r, st) \<leftarrow> modbus_write_bits os The_ctx register_address count (rq_bits data) st;
        Some (r, data, st) }
      else if function = MODBUS_FC_WRITE_MULTIPLE_REGISTERS then do {
        (r, st) \<leftarrow> modbus_write_registers os The_ctx register_address count (rq_registers data) st;
        Some (r, data, st) }
      else Some (-1, data, st))"

text \<open>
  \<open>continue\<close> skips the pause. Printing a result reads \<open>count\<close> elements of the array that
  \<open>data_type\<close> selects.
\<close>

definition print_result :: "bool \<Rightarrow> data_type \<Rightarrow> int \<Rightarrow> request_data \<Rightarrow> unit option" where
  "print_result write_function data_type count data =
     (if write_function \<or>
         (if data_type = DATA_BITS then count \<le> int (length (rq_bits data))
          else count \<le> int (length (rq_registers data)))
      then Some () else None)"

definition is_write_function :: "int \<Rightarrow> bool" where
  "is_write_function function \<longleftrightarrow>
     function = MODBUS_FC_WRITE_SINGLE_COIL \<or> function = MODBUS_FC_WRITE_SINGLE_REGISTER \<or>
     function = MODBUS_FC_WRITE_MULTIPLE_COILS \<or> function = MODBUS_FC_WRITE_MULTIPLE_REGISTERS"

definition process_address ::
    "'w os \<Rightarrow> int \<Rightarrow> int \<Rightarrow> int \<Rightarrow> int \<Rightarrow> data_type \<Rightarrow> u32 \<Rightarrow> int
     \<Rightarrow> int \<times> request_data \<times> 'w mst \<Rightarrow> (int \<times> request_data \<times> 'w mst) option" where
  "process_address os address_end function register_address count data_type interframe_delay
     address = (\<lambda>(successes, data, st).
       let (rc, st) = modbus_set_slave The_ctx address st in
       if rc = -1 then Some (successes, data, st)
       else do {
         (result, data, st) \<leftarrow> perform_request os function register_address count data st;
         successes \<leftarrow>
           (if result = count then do {
              _ \<leftarrow> print_result (is_write_function function) data_type count data;
              Some (successes + 1) }
            else Some successes);
         st \<leftarrow> (if address \<noteq> address_end then mbu_sleep_ms os interframe_delay st else Some st);
         Some (successes, data, st) })"

definition process_requests ::
    "'w os \<Rightarrow> int \<Rightarrow> int \<Rightarrow> int \<Rightarrow> int \<Rightarrow> int \<Rightarrow> data_type \<Rightarrow> request_data \<Rightarrow> u32 \<Rightarrow> 'w mst
     \<Rightarrow> (int \<times> request_data \<times> 'w mst) option" where
  "process_requests os address_start address_end function register_address count data_type data
     interframe_delay st = do {
     (successes, data, st) \<leftarrow> for_loop (nat (address_end - address_start + 1)) address_start
       (process_address os address_end function register_address count data_type interframe_delay)
       (0, data, st);
     Some (if successes > 0 then 0 else -1, data, st) }"

definition connect_and_process ::
    "'w os \<Rightarrow> ctx_ptr \<Rightarrow> int \<Rightarrow> int \<Rightarrow> int \<Rightarrow> int \<Rightarrow> int \<Rightarrow> data_type \<Rightarrow> request_data \<Rightarrow> u32 \<Rightarrow> int
     \<Rightarrow> u32 \<Rightarrow> u32 \<Rightarrow> 'w mst \<Rightarrow> (int \<times> request_data \<times> 'w mst) option" where
  "connect_and_process os p address_start address_end function register_address count data_type
     data interframe_delay verbose timeout_seconds timeout_microseconds st =
     (let (rc, st) = configure_context p (if verbose > 1 then 1 else 0) timeout_seconds
            timeout_microseconds st in
      if rc = -1 then Some (-1, data, st)
      else
        let (rc, st) = modbus_connect os p st in
        if rc = -1 then Some (-1, data, st)
        else do {
          (result, data, st) \<leftarrow> process_requests os address_start address_end function
            register_address count data_type data interframe_delay st;
          let st = modbus_close os p st;
          Some (result, data, st) })"

subsection \<open>\<open>main\<close>\<close>

text \<open>The options after a successful \<open>arg_parse\<close>, with the defaults filled in.\<close>

record client_options =
  co_is_rtu :: bool
  co_address :: string
  co_reg :: int
  co_base_one :: bool
  co_function :: int
  co_write :: "int list"
  co_count :: int
  co_timeout :: int
  co_interframe_delay :: int
  co_verbose :: int
  co_port :: int
  co_host :: string
  co_device :: string
  co_baud :: "int list"
  co_parity :: "string list"
  co_data_bits :: string
  co_stop_bits :: string

text \<open>The switch on the function: the kind of data, whether it writes, how many values.\<close>

definition plan_request :: "client_options \<Rightarrow> (data_type \<times> bool \<times> int) option" where
  "plan_request opts =
     (let f = co_function opts; count = co_count opts; nw = int (length (co_write opts)) in
      if f = MODBUS_FC_READ_COILS \<or> f = MODBUS_FC_READ_DISCRETE_INPUTS then
        (if count < 1 \<or> count > MODBUS_MAX_READ_BITS then None else Some (DATA_BITS, False, count))
      else if f = MODBUS_FC_READ_HOLDING_REGISTERS \<or> f = MODBUS_FC_READ_INPUT_REGISTERS then
        (if count < 1 \<or> count > MODBUS_MAX_READ_REGISTERS then None
         else Some (DATA_REGISTERS, False, count))
      else if f = MODBUS_FC_WRITE_SINGLE_COIL \<or> f = MODBUS_FC_WRITE_SINGLE_REGISTER then
        (if nw \<noteq> 1 then None else Some (DATA_SCALAR, True, 1))
      else if f = MODBUS_FC_WRITE_MULTIPLE_COILS then
        (if nw < 1 \<or> nw > MODBUS_MAX_WRITE_BITS then None else Some (DATA_BITS, True, nw))
      else if f = MODBUS_FC_WRITE_MULTIPLE_REGISTERS then
        (if nw < 1 \<or> nw > MODBUS_MAX_WRITE_REGISTERS then None else Some (DATA_REGISTERS, True, nw))
      else None)"

record client_plan =
  cp_address_start :: int
  cp_address_end :: int
  cp_register :: int
  cp_type :: data_type
  cp_is_write :: bool
  cp_count :: int
  cp_seconds :: u32
  cp_microseconds :: u32

definition check_options :: "client_options \<Rightarrow> client_plan option" where
  "check_options opts = do {
     (address_start, address_end) \<leftarrow> mbu_parse_address_range (Some (co_address opts)) True True;
     let register_address = (if co_base_one opts then co_reg opts - 1 else co_reg opts);
     (data_type, is_write, request_count) \<leftarrow> plan_request opts;
     if \<not> is_write \<and> co_write opts \<noteq> [] then None
     else if \<not> validate_register_range register_address request_count then None
     else if co_timeout opts \<le> 0 then None
     else do {
       (seconds, microseconds) \<leftarrow> mbu_timeout_from_ms (co_timeout opts) True True;
       if co_interframe_delay opts < 0 then None
       else if \<not> co_is_rtu opts \<and> (co_port opts < 1 \<or> co_port opts > 65535) then None
       else if co_is_rtu opts \<and> \<not> list_all (\<lambda>b. b > 0) (co_baud opts) then None
       else Some \<lparr>cp_address_start = address_start, cp_address_end = address_end,
         cp_register = register_address, cp_type = data_type, cp_is_write = is_write,
         cp_count = request_count, cp_seconds = seconds, cp_microseconds = microseconds\<rparr> } }"

text \<open>The buffers from \<open>calloc\<close> and the values to write.\<close>

definition write_value_ok :: "int \<Rightarrow> data_type \<Rightarrow> int \<Rightarrow> bool" where
  "write_value_ok function data_type v =
     (case data_type of
        DATA_BITS \<Rightarrow> v = 0 \<or> v = 1
      | DATA_REGISTERS \<Rightarrow> 0 \<le> v \<and> v \<le> 65535
      | DATA_SCALAR \<Rightarrow>
          \<not> (function = MODBUS_FC_WRITE_SINGLE_COIL \<and> v \<noteq> 0 \<and> v \<noteq> 1) \<and>
          \<not> (function = MODBUS_FC_WRITE_SINGLE_REGISTER \<and> (v < 0 \<or> v > 65535)))"

definition prepare_data :: "bool \<Rightarrow> client_options \<Rightarrow> client_plan \<Rightarrow> request_data option" where
  "prepare_data mem opts plan =
     (let n = nat (cp_count plan);
          data = \<lparr>rq_scalar = 0,
            rq_bits = (if cp_type plan = DATA_BITS then replicate n 0 else []),
            rq_registers = (if cp_type plan = DATA_REGISTERS then replicate n 0 else [])\<rparr> in
      if cp_type plan \<noteq> DATA_SCALAR \<and> \<not> mem then None
      else if \<not> cp_is_write plan then Some data
      else if \<not> list_all (write_value_ok (co_function opts) (cp_type plan)) (take n (co_write opts)) then None
      else Some (case cp_type plan of
          DATA_BITS \<Rightarrow> data\<lparr>rq_bits := map word_of_int (take n (co_write opts))\<rparr>
        | DATA_REGISTERS \<Rightarrow> data\<lparr>rq_registers := map word_of_int (take n (co_write opts))\<rparr>
        | DATA_SCALAR \<Rightarrow> data\<lparr>rq_scalar := last (take n (co_write opts))\<rparr>))"

text \<open>
  One round: create the context in the memory \<open>malloc\<close> gave (\<open>st\<close> holds what that memory
  contained), connect and process. The result says whether it succeeded.
\<close>

definition run_plan ::
    "'w os \<Rightarrow> modbus option \<Rightarrow> int \<Rightarrow> client_options \<Rightarrow> client_plan \<Rightarrow> request_data \<Rightarrow> modbus \<Rightarrow> 'w
     \<Rightarrow> (int \<times> request_data \<times> int \<times> 'w) option" where
  "run_plan os ctx err opts plan data raw w = do {
     let p = (case ctx of None \<Rightarrow> NULL_ctx | Some _ \<Rightarrow> The_ctx);
     let c = (case ctx of None \<Rightarrow> raw | Some c \<Rightarrow> c);
     (rc, data, st) \<leftarrow> connect_and_process os p (cp_address_start plan) (cp_address_end plan)
       (co_function opts) (cp_register plan) (cp_count plan) (cp_type plan) data
       (word_of_int (co_interframe_delay opts)) (co_verbose opts) (cp_seconds plan)
       (cp_microseconds plan) \<lparr>st_ctx = c, st_errno = err, st_world = w\<rparr>;
     Some (rc, data, st_errno st, st_world st) }"

text \<open>The settings to try, in the order of the two nested loops.\<close>

fun run_serial ::
    "'w os \<Rightarrow> (int \<times> string) list \<Rightarrow> (nat \<Rightarrow> modbus option \<times> termios option \<times> bool)
     \<Rightarrow> client_options \<Rightarrow> client_plan \<Rightarrow> int \<Rightarrow> modbus \<Rightarrow> request_data \<times> int \<times> 'w
     \<Rightarrow> (int \<times> request_data \<times> int \<times> 'w) option" where
  "run_serial os [] mem opts plan successes raw (data, err, w) = Some (successes, data, err, w)"
| "run_serial os ((baud, parity) # settings) mem opts plan successes raw (data, err, w) = do {
     let (mem_ctx, mem_data, mem_device) = mem (length settings);
     (ctx, err) \<leftarrow> modbus_new_rtu mem_ctx mem_data mem_device (Some (co_device opts)) baud
       (to_upper (at parity 0)) (of_char (at (co_data_bits opts) 0) - 48)
       (of_char (at (co_stop_bits opts) 0) - 48) err;
     (rc, data, err, w) \<leftarrow> run_plan os ctx err opts plan data raw w;
     run_serial os settings mem opts plan (if rc = 0 then successes + 1 else successes) raw
       (data, err, w) }"

abbreviation (input) EXIT_SUCCESS :: int where "EXIT_SUCCESS \<equiv> 0"
abbreviation (input) EXIT_FAILURE :: int where "EXIT_FAILURE \<equiv> 1"

text \<open>\<open>register_address--\<close> overflows \<open>int\<close> for the smallest one.\<close>

definition register_overflow :: "client_options \<Rightarrow> bool" where
  "register_overflow opts \<longleftrightarrow> mbu_parse_address_range (Some (co_address opts)) True True \<noteq> None \<and>
     co_base_one opts \<and> co_reg opts = INT_MIN"

definition client_main ::
    "'w os \<Rightarrow> bool \<Rightarrow> (nat \<Rightarrow> modbus option \<times> termios option \<times> bool) \<Rightarrow> modbus option \<Rightarrow> string option
     \<Rightarrow> client_options \<Rightarrow> int \<Rightarrow> modbus \<Rightarrow> 'w \<Rightarrow> (int \<times> 'w) option" where
  "client_main os mem_data mem_rtu mem_ctx mem_ip opts err raw w =
     (if register_overflow opts then None
      else case check_options opts of
        None \<Rightarrow> Some (EXIT_FAILURE, w)
      | Some plan \<Rightarrow>
        (case prepare_data mem_data opts plan of
           None \<Rightarrow> Some (EXIT_FAILURE, w)
         | Some data \<Rightarrow>
           if co_is_rtu opts then do {
             let parity = (if co_parity opts = [] then [''E''] else co_parity opts);
             (successes, data, err, w) \<leftarrow> run_serial os (List.product (co_baud opts) parity) mem_rtu
               opts plan 0 raw (data, err, w);
             Some (if successes > 0 then EXIT_SUCCESS else EXIT_FAILURE, w) }
           else do {
             (ctx, err) \<leftarrow> modbus_new_tcp mem_ctx mem_ip (Some (co_host opts)) (co_port opts) err;
             (rc, data, err, w) \<leftarrow> run_plan os ctx err opts plan data raw w;
             Some (if rc = 0 then EXIT_SUCCESS else EXIT_FAILURE, w) }))"

text \<open>The options as they are before \<open>arg_parse\<close>: the defaults \<open>main\<close> stores in the entries.\<close>

definition client_defaults :: "bool \<Rightarrow> client_options" where
  "client_defaults is_rtu = \<lparr>co_is_rtu = is_rtu, co_address = [], co_reg = 0, co_base_one = False,
     co_function = 0, co_write = [], co_count = 1, co_timeout = 1000, co_interframe_delay = 200,
     co_verbose = 0, co_port = 502, co_host = ''127.0.0.1'', co_device = [], co_baud = [],
     co_parity = [], co_data_bits = ''8'', co_stop_bits = ''1''\<rparr>"

end
