(* ===== verification/Modbuss.thy ===== *)
theory Modbuss
  imports Modbus_Reply Modbusc
begin

text \<open>
  \<open>modbuss.c\<close>, the server program: the serial loop, the TCP loop over the descriptors that
  \<open>select\<close> reports, and \<open>main\<close>. A loop that serves until a signal arrives may run for ever:
  it is a partial function, and one round of it is a function of its own.
\<close>

subsection \<open>Serial server\<close>

text \<open>The query buffer, the mapping and the library's state; the flag says whether to go on.\<close>

type_synonym 'w rtu_state = "u8 list \<times> mapping \<times> 'w mst"

definition stop_requested :: "'w os \<Rightarrow> 'w mst \<Rightarrow> bool \<times> 'w mst" where
  "stop_requested os st =
     (let (b, w) = os_stop_requested os (st_world st) in (b, st\<lparr>st_world := w\<rparr>))"

definition rtu_server_step :: "'w os \<Rightarrow> 'w rtu_state \<Rightarrow> (bool \<times> 'w rtu_state) option" where
  "rtu_server_step os = (\<lambda>(query, mapping, st). do {
     (request_length, query, st) \<leftarrow> modbus_receive os The_ctx query st;
     if request_length > 0 then do {
       (rc, mapping, st) \<leftarrow> modbus_reply os The_ctx query request_length mapping st;
       Some (rc \<noteq> -1, query, mapping, st) }
     else if request_length = -1 then
       Some (False, query, mapping, st)
     else Some (True, query, mapping, st) })"

partial_function (option) rtu_server_loop :: "'w os \<Rightarrow> 'w rtu_state \<Rightarrow> 'w rtu_state option" where
  "rtu_server_loop os s =
     (case s of (query, mapping, st) \<Rightarrow>
       (let (stop, st) = stop_requested os st in
        if stop then Some (query, mapping, st)
        else do {
          (go_on, s) \<leftarrow> rtu_server_step os (query, mapping, st);
          if go_on then rtu_server_loop os s else Some s }))"

declare rtu_server_loop.simps [code]

text \<open>\<open>rtu_server_outer\<close> returns the status of \<open>run_rtu_server\<close>.\<close>

partial_function (option) rtu_server_outer :: "'w os \<Rightarrow> 'w rtu_state \<Rightarrow> (int \<times> 'w rtu_state) option" where
  "rtu_server_outer os s =
     (case s of (query, mapping, st) \<Rightarrow>
       (let (stop, st) = stop_requested os st in
        if stop then Some (0, query, mapping, st)
        else
          let (rc, st) = modbus_connect os The_ctx st in
          if rc = -1 then
            (let (stop, st) = stop_requested os st in
             if stop \<and> st_errno st = EINTR then Some (0, query, mapping, st)
             else Some (-1, query, mapping, st))
          else do {
            (query, mapping, st) \<leftarrow> rtu_server_loop os (query, mapping, st);
            rtu_server_outer os (query, mapping, modbus_close os The_ctx st) }))"

declare rtu_server_outer.simps [code]

abbreviation (input) MODBUS_RTU_MAX_ADU_LENGTH :: nat where "MODBUS_RTU_MAX_ADU_LENGTH \<equiv> 256"

definition run_rtu_server :: "'w os \<Rightarrow> mapping \<Rightarrow> 'w mst \<Rightarrow> (int \<times> mapping \<times> 'w mst) option" where
  "run_rtu_server os mapping st = do {
     (status, query, mapping, st) \<leftarrow>
       rtu_server_outer os (uninit os MODBUS_RTU_MAX_ADU_LENGTH, mapping, st);
     Some (status, mapping, st) }"

subsection \<open>TCP server\<close>

abbreviation (input) MAX_CONNECTIONS :: int where "MAX_CONNECTIONS \<equiv> 10"
abbreviation (input) FD_SETSIZE :: int where "FD_SETSIZE \<equiv> 1024"

text \<open>The local variables of \<open>run_tcp_server\<close>; an \<open>fd_set\<close> is a set of descriptors.\<close>

record 'w server =
  sv_connections :: "int set"
  sv_listener :: int
  sv_highest :: int
  sv_query :: "u8 list"
  sv_mapping :: mapping
  sv_st :: "'w mst"

definition accept_client :: "'w os \<Rightarrow> 'w server \<Rightarrow> 'w server" where
  "accept_client os sv =
     (let (client, st) = ret_count (os_accept os (sv_listener sv) (st_world (sv_st sv))) (sv_st sv) in
      if client = -1 then sv\<lparr>sv_st := st\<rparr>
      else if client \<ge> FD_SETSIZE then sv\<lparr>sv_st := close_fd os client st\<rparr>
      else sv\<lparr>sv_connections := insert client (sv_connections sv),
              sv_highest := (if client > sv_highest sv then client else sv_highest sv),
              sv_st := st\<rparr>)"

text \<open>\<open>while (highest_socket > listener && !FD_ISSET(highest_socket, &connections)) highest_socket--;\<close>\<close>

function lower_highest :: "int \<Rightarrow> int set \<Rightarrow> int \<Rightarrow> int" where
  "lower_highest listener connections highest =
     (if highest > listener \<and> highest \<notin> connections
      then lower_highest listener connections (highest - 1) else highest)"
  by pat_completeness auto
termination by (relation "measure (\<lambda>(l, c, h). nat (h - l))") auto

definition drop_client :: "'w os \<Rightarrow> int \<Rightarrow> 'w server \<Rightarrow> 'w server" where
  "drop_client os socket_fd sv =
     (let connections = sv_connections sv - {socket_fd} in
      sv\<lparr>sv_st := close_fd os socket_fd (sv_st sv), sv_connections := connections,
         sv_highest := lower_highest (sv_listener sv) connections (sv_highest sv)\<rparr>)"

definition serve_client :: "'w os \<Rightarrow> int \<Rightarrow> 'w server \<Rightarrow> 'w server option" where
  "serve_client os socket_fd sv = do {
     let (rc, st) = modbus_set_socket The_ctx socket_fd (sv_st sv);
     (request_length, query, st) \<leftarrow>
       (if rc = -1 then Some (-1, sv_query sv, st) else modbus_receive os The_ctx (sv_query sv) st);
     (request_length, mapping, st) \<leftarrow>
       (if request_length > 0 then do {
          (rc, mapping, st) \<leftarrow> modbus_reply os The_ctx query request_length (sv_mapping sv) st;
          Some (if rc = -1 then -1 else request_length, mapping, st) }
        else Some (request_length, sv_mapping sv, st));
     let sv = sv\<lparr>sv_query := query, sv_mapping := mapping, sv_st := st\<rparr>;
     Some (if request_length = -1 then drop_client os socket_fd sv else sv) }"

definition handle_socket :: "'w os \<Rightarrow> int \<Rightarrow> 'w server \<Rightarrow> 'w server option" where
  "handle_socket os socket_fd sv =
     (if socket_fd = sv_listener sv then Some (accept_client os sv)
      else serve_client os socket_fd sv)"

text \<open>The scan of the ready set; \<open>highest_socket\<close> may change on the way.\<close>

partial_function (option) scan_ready ::
    "'w os \<Rightarrow> int set \<Rightarrow> int \<Rightarrow> int \<Rightarrow> 'w server \<Rightarrow> 'w server option" where
  "scan_ready os ready selected socket_fd sv =
     (if socket_fd \<le> sv_highest sv \<and> selected > 0 then
        (if socket_fd \<notin> ready then scan_ready os ready selected (socket_fd + 1) sv
         else do {
           sv \<leftarrow> handle_socket os socket_fd sv;
           scan_ready os ready (selected - 1) (socket_fd + 1) sv })
      else Some sv)"

declare scan_ready.simps [code]

partial_function (option) tcp_server_loop :: "'w os \<Rightarrow> 'w server \<Rightarrow> (int \<times> 'w server) option" where
  "tcp_server_loop os sv =
     (let (stop, st) = stop_requested os (sv_st sv); sv = sv\<lparr>sv_st := st\<rparr> in
      if stop then Some (0, sv)
      else
        (case os_select_set os (sv_connections sv) (st_world (sv_st sv)) of
           (Inl e, w) \<Rightarrow>
             (let st = (sv_st sv)\<lparr>st_errno := e, st_world := w\<rparr>;
                  (stop, st) = (if e = EINTR then stop_requested os st else (False, st)) in
              Some (if stop then 0 else -1, sv\<lparr>sv_st := st\<rparr>))
         | (Inr ready, w) \<Rightarrow> do {
             sv \<leftarrow> scan_ready os ready (int (card ready)) 0 (sv\<lparr>sv_st := (sv_st sv)\<lparr>st_world := w\<rparr>\<rparr>);
             tcp_server_loop os sv }))"

declare tcp_server_loop.simps [code]

definition close_all :: "'w os \<Rightarrow> 'w server \<Rightarrow> 'w mst option" where
  "close_all os sv =
     for_loop (nat (sv_highest sv + 1)) 0
       (\<lambda>fd st. Some (if fd \<in> sv_connections sv then close_fd os fd st else st)) (sv_st sv)"

text \<open>\<open>FD_SET\<close> of a listener that does not fit the set is a fault: the code tests only the clients.\<close>

definition run_tcp_server :: "'w os \<Rightarrow> mapping \<Rightarrow> 'w mst \<Rightarrow> (int \<times> mapping \<times> 'w mst) option" where
  "run_tcp_server os mapping st = do {
     (listener, st) \<leftarrow> modbus_tcp_listen os The_ctx MAX_CONNECTIONS st;
     if listener = -1 then Some (-1, mapping, st)
     else if listener \<ge> FD_SETSIZE then None
     else do {
       (status, sv) \<leftarrow> tcp_server_loop os
         \<lparr>sv_connections = {listener}, sv_listener = listener, sv_highest = listener,
          sv_query = uninit os 260, sv_mapping = mapping, sv_st = st\<rparr>;
       st \<leftarrow> close_all os sv;
       Some (status, sv_mapping sv, st) } }"

subsection \<open>\<open>main\<close>\<close>

record server_options =
  so_is_rtu :: bool
  so_address :: int
  so_coils :: int
  so_discrete_inputs :: int
  so_holding_registers :: int
  so_input_registers :: int
  so_verbose :: int
  so_port :: int
  so_bind_address :: string
  so_device :: string
  so_baud :: int
  so_parity :: string
  so_data_bits :: string
  so_stop_bits :: string

abbreviation (input) MAX_MAPPING_SIZE :: int where "MAX_MAPPING_SIZE \<equiv> 65536"

definition server_options_ok :: "server_options \<Rightarrow> bool" where
  "server_options_ok opts \<longleftrightarrow>
     \<not> (so_address opts < 1 \<or> so_address opts > MBU_MAX_SLAVE_ADDRESS) \<and>
     \<not> (so_coils opts < 1 \<or> so_coils opts > MAX_MAPPING_SIZE \<or>
        so_discrete_inputs opts < 1 \<or> so_discrete_inputs opts > MAX_MAPPING_SIZE \<or>
        so_holding_registers opts < 1 \<or> so_holding_registers opts > MAX_MAPPING_SIZE \<or>
        so_input_registers opts < 1 \<or> so_input_registers opts > MAX_MAPPING_SIZE) \<and>
     \<not> (\<not> so_is_rtu opts \<and> (so_port opts < 1 \<or> so_port opts > 65535)) \<and>
     \<not> (so_is_rtu opts \<and> so_baud opts \<le> 0)"

text \<open>What \<open>malloc\<close> returns to the constructors of the context and the mapping.\<close>

record server_memory =
  sm_ctx :: "modbus option"
  sm_ip :: "string option"
  sm_rtu :: "termios option"
  sm_device :: bool
  sm_mapping :: "bool \<times> bool \<times> bool \<times> bool \<times> bool"

definition server_context ::
    "server_memory \<Rightarrow> server_options \<Rightarrow> int \<Rightarrow> (modbus option \<times> int) option" where
  "server_context mem opts err =
     (if so_is_rtu opts then
        modbus_new_rtu (sm_ctx mem) (sm_rtu mem) (sm_device mem) (Some (so_device opts))
          (so_baud opts) (to_upper (at (so_parity opts) 0)) (of_char (at (so_data_bits opts) 0) - 48)
          (of_char (at (so_stop_bits opts) 0) - 48) err
      else modbus_new_tcp (sm_ctx mem) (sm_ip mem) (Some (so_bind_address opts)) (so_port opts) err)"

definition server_mapping :: "server_memory \<Rightarrow> server_options \<Rightarrow> int \<Rightarrow> mapping option \<times> int" where
  "server_mapping mem opts err =
     (case sm_mapping mem of (m0, m1, m2, m3, m4) \<Rightarrow>
        modbus_mapping_new m0 m1 m2 m3 m4 (so_coils opts) (so_discrete_inputs opts)
          (so_holding_registers opts) (so_input_registers opts) err)"

definition server_main ::
    "'w os \<Rightarrow> server_memory \<Rightarrow> server_options \<Rightarrow> int \<Rightarrow> 'w \<Rightarrow> (int \<times> 'w) option" where
  "server_main os mem opts err w =
     (if \<not> server_options_ok opts then Some (EXIT_FAILURE, w)
      else do {
        (ctx, err) \<leftarrow> server_context mem opts err;
        case ctx of
          None \<Rightarrow> Some (EXIT_FAILURE, w)
        | Some c \<Rightarrow>
            (let st = \<lparr>st_ctx = c, st_errno = err, st_world = w\<rparr>;
                 (rc, st) = modbus_set_debug The_ctx (so_verbose opts) st in
             if rc = -1 then Some (EXIT_FAILURE, st_world st)
             else
               let (rc, st) = modbus_set_slave The_ctx (so_address opts) st in
               if rc = -1 then Some (EXIT_FAILURE, st_world st)
               else
                 (case server_mapping mem opts (st_errno st) of
                    (None, err) \<Rightarrow> Some (EXIT_FAILURE, st_world st)
                  | (Some mapping, err) \<Rightarrow>
                      (let (ok, w) = os_signal os (st_world st);
                           st = st\<lparr>st_errno := err, st_world := w\<rparr> in
                       if \<not> ok then Some (EXIT_FAILURE, w)
                       else do {
                         (status, mapping, st) \<leftarrow>
                           (if so_is_rtu opts then run_rtu_server os mapping st
                            else run_tcp_server os mapping st);
                         Some (if status = 0 then EXIT_SUCCESS else EXIT_FAILURE, st_world st) }))) })"

text \<open>The options as they are before \<open>arg_parse\<close>.\<close>

definition server_defaults :: "bool \<Rightarrow> server_options" where
  "server_defaults is_rtu = \<lparr>so_is_rtu = is_rtu, so_address = 1, so_coils = 100,
     so_discrete_inputs = 100, so_holding_registers = 100, so_input_registers = 100,
     so_verbose = 0, so_port = 502, so_bind_address = ''127.0.0.1'', so_device = [], so_baud = 0,
     so_parity = ''E'', so_data_bits = ''8'', so_stop_bits = ''1''\<rparr>"

end
