(* ===== verification/Modbus_Receive.thy ===== *)
theory Modbus_Receive
  imports Modbus_Core Modbus_Protocol
begin

text \<open>
  A message arrives: whatever pieces the system hands out, \<open>_modbus_receive_msg\<close> collects
  exactly one frame, and no byte that follows it.
\<close>

subsection \<open>A connection that delivers\<close>

text \<open>
  What the theorems on complete exchanges assume of the system, for one descriptor: the bytes
  that will arrive in time, the pending signals, the state of the peer (a device's tables, say), and
  the worlds in which the connection stands.
\<close>

record ('w, 'd) link =
  l_pending :: "'w \<Rightarrow> u8 list"
  l_signals :: "'w \<Rightarrow> nat"
  l_device :: "'w \<Rightarrow> 'd"
  l_up :: "'w \<Rightarrow> bool"

definition undisturbed :: "('w, 'd) link \<Rightarrow> 'w \<Rightarrow> 'w \<Rightarrow> bool" where
  "undisturbed L w w' \<longleftrightarrow>
     l_up L w' \<and> l_pending L w' = l_pending L w \<and> l_device L w' = l_device L w"

text \<open>
  \<open>select\<close> reports arrived bytes, or is interrupted by one of the pending signals; \<open>recv\<close> and
  \<open>read\<close> then return some of these bytes, in order, and never more than asked for.
\<close>

definition select_reports :: "('w, 'd) link \<Rightarrow> 'w \<Rightarrow> (int + nat) \<times> timeval option \<times> 'w \<Rightarrow> bool" where
  "select_reports L w = (\<lambda>(r, tv, w'). undisturbed L w w' \<and>
     (case r of Inl e \<Rightarrow> e = EINTR \<and> l_signals L w' < l_signals L w | Inr n \<Rightarrow> n \<noteq> 0))"

definition bytes_taken :: "('w, 'd) link \<Rightarrow> 'w \<Rightarrow> int \<Rightarrow> (int + u8 list) \<times> 'w \<Rightarrow> bool" where
  "bytes_taken L w n = (\<lambda>(r, w').
     case r of Inl e \<Rightarrow> False
     | Inr bs \<Rightarrow> bs \<noteq> [] \<and> int (length bs) \<le> n \<and> l_pending L w = bs @ l_pending L w' \<and>
         l_up L w' \<and> l_device L w' = l_device L w)"

definition delivers :: "('w, 'd) link \<Rightarrow> 'w os \<Rightarrow> int \<Rightarrow> bool" where
  "delivers L os s \<longleftrightarrow>
     (\<forall>w tv. l_up L w \<and> l_pending L w \<noteq> [] \<longrightarrow> select_reports L w (os_select os s tv w)) \<and>
     (\<forall>w n. l_up L w \<and> l_pending L w \<noteq> [] \<and> 0 < n \<longrightarrow>
        bytes_taken L w n (os_recv os s n w) \<and> bytes_taken L w n (os_read os s n w))"

lemma deliversD:
  assumes "delivers L os s" "l_up L w" "l_pending L w \<noteq> []"
  shows "select_reports L w (os_select os s tv w)"
    and "0 < n \<Longrightarrow> bytes_taken L w n (os_recv os s n w)"
    and "0 < n \<Longrightarrow> bytes_taken L w n (os_read os s n w)"
  using assms by (auto simp: delivers_def)

subsection \<open>One call of \<open>select\<close> and \<open>recv\<close>\<close>

text \<open>A state in which the connection stands, with the given bytes to come.\<close>

definition awaiting :: "('w, 'd) link \<Rightarrow> modbus \<Rightarrow> 'd \<Rightarrow> u8 list \<Rightarrow> 'w mst \<Rightarrow> bool" where
  "awaiting L c d bs st \<longleftrightarrow>
     st_ctx st = c \<and> l_up L (st_world st) \<and> l_device L (st_world st) = d \<and> l_pending L (st_world st) = bs"

lemma awaiting_errno [simp]: "awaiting L c d bs (set_errno e st) = awaiting L c d bs st"
  by (simp add: awaiting_def)

lemma rtu_select_eq: "rtu_select = tcp_select"
proof (rule ext)+
  fix os :: "'a os" and tv st
  have le: "rtu_select os tv st = Some r" if "tcp_select os tv st = Some r" for tv st r
    using that
  proof (induction rule: tcp_select.raw_induct [rotated, consumes 1, case_names step])
    case (step f os tv st r)
    then show ?case
      by (simp add: rtu_select.simps [of os tv st] Let_def split: prod.splits sum.splits if_splits)
  qed
  have ge: "tcp_select os tv st = Some r" if "rtu_select os tv st = Some r" for tv st r
    using that
  proof (induction rule: rtu_select.raw_induct [rotated, consumes 1, case_names step])
    case (step f os tv st r)
    then show ?case
      by (simp add: tcp_select.simps [of os tv st] Let_def split: prod.splits sum.splits if_splits)
  qed
  show "rtu_select os tv st = tcp_select os tv st"
    using le [of tv st] ge [of tv st] by (cases "rtu_select os tv st"; cases "tcp_select os tv st") auto
qed

lemma be_select_eq: "be_select os tv st = tcp_select os tv st"
  by (simp add: be_select_def rtu_select_eq split: backend.splits)

lemma select_returns:
  assumes "delivers L os (ctx_s c)" "awaiting L c d bs st" "bs \<noteq> []"
  shows "\<exists>rc tv' st'. be_select os tv st = Some (rc, tv', st') \<and> rc \<noteq> -1 \<and> awaiting L c d bs st'"
  using assms(2) unfolding be_select_eq
proof (induction "l_signals L (st_world st)" arbitrary: st tv rule: less_induct)
  case less
  obtain r tv' w' where sel: "os_select os (ctx_s c) tv (st_world st) = (r, tv', w')"
    by (cases "os_select os (ctx_s c) tv (st_world st)")
  have rep: "select_reports L (st_world st) (r, tv', w')"
    using deliversD(1) [OF assms(1), of "st_world st" tv] less.prems assms(3) sel
    by (simp add: awaiting_def)
  show ?case
  proof (cases r)
    case (Inl e)
    then have "e = EINTR" "l_signals L w' < l_signals L (st_world st)"
      "awaiting L c d bs (st\<lparr>st_errno := e, st_world := w'\<rparr>)"
      using rep less.prems by (auto simp: select_reports_def undisturbed_def awaiting_def)
    then show ?thesis
      using less.hyps [of "st\<lparr>st_errno := e, st_world := w'\<rparr>" tv'] less.prems sel Inl
      by (simp add: tcp_select.simps [of os tv st] awaiting_def)
  next
    case (Inr n)
    then show ?thesis
      using rep less.prems sel
      by (simp add: tcp_select.simps [of os tv st] select_reports_def undisturbed_def awaiting_def)
  qed
qed

text \<open>What a successful \<open>recv\<close> adds to the buffer.\<close>

lemma recv_returns:
  assumes "delivers L os (ctx_s c)" "awaiting L c d bs st" "bs \<noteq> []" "0 < n"
    and "length pre + n \<le> length t"
  shows "\<exists>got later st'. got \<noteq> [] \<and> length got \<le> n \<and> bs = got @ later \<and> awaiting L c d later st' \<and>
    be_recv os (filled pre t) (int (length pre)) (int n) st =
      Some (int (length got), filled (pre @ got) t, st')"
proof -
  have ret: "\<exists>got later st'. got \<noteq> [] \<and> length got \<le> n \<and> bs = got @ later \<and> awaiting L c d later st' \<and>
      ret_bytes x (filled pre t) (int (length pre)) st = Some (int (length got), filled (pre @ got) t, st')"
    if x: "bytes_taken L (st_world st) (int n) x" for x
  proof -
    obtain got w' where "x = (Inr got, w')" "got \<noteq> []" "length got \<le> n"
      "bs = got @ l_pending L w'" "l_up L w'" "l_device L w' = d"
      using x assms(2) by (cases x; cases "fst x") (auto simp: bytes_taken_def awaiting_def)
    then show ?thesis
      using assms(2,5) wr_block_filled [of "int (length pre)" pre got t]
      by (intro exI [of _ got] exI [of _ "l_pending L w'"] exI [of _ "st\<lparr>st_world := w'\<rparr>"])
        (simp add: ret_bytes_def awaiting_def)
  qed
  have c: "st_ctx st = c" "l_up L (st_world st)" "l_pending L (st_world st) \<noteq> []"
    using assms(2,3) by (simp_all add: awaiting_def)
  show ?thesis
    using ret [OF deliversD(2) [OF assms(1) c(2,3)]] ret [OF deliversD(3) [OF assms(1) c(2,3)]] assms(4)
    by (simp add: be_recv_def tcp_recv_def rtu_recv_def c(1) split: backend.splits)
qed

subsection \<open>The phases of a message\<close>

text \<open>What the loop does when a phase is complete.\<close>

definition receive_continue ::
    "'w os \<Rightarrow> msg_type \<Rightarrow> u8 list \<Rightarrow> int \<Rightarrow> timeval option \<Rightarrow> 'w mst \<Rightarrow> (int \<times> step) option
     \<Rightarrow> (bool \<times> u8 list \<times> int \<times> 'w mst) option" where
  "receive_continue os msg_type msg msg_length p_tv st next =
     (case next of
       None \<Rightarrow> Some (False, msg, msg_length, set_errno EMBBADDATA st)
     | Some (length_to_read, step) \<Rightarrow>
         receive_loop os msg_type length_to_read msg msg_length step
           (if length_to_read > 0 \<and> (tv_sec (ctx_byte_timeout (st_ctx st)) > 0 \<or>
                tv_usec (ctx_byte_timeout (st_ctx st)) > 0)
            then Some (ctx_byte_timeout (st_ctx st)) else p_tv) st)"

definition receive_next ::
    "'w os \<Rightarrow> msg_type \<Rightarrow> u8 list \<Rightarrow> int \<Rightarrow> step \<Rightarrow> timeval option \<Rightarrow> 'w mst
     \<Rightarrow> (bool \<times> u8 list \<times> int \<times> 'w mst) option" where
  "receive_next os msg_type msg msg_length step p_tv st =
     receive_advance (be st) msg_type msg msg_length step \<bind>
     receive_continue os msg_type msg msg_length p_tv st"

lemma receive_phase:
  assumes "delivers L os (ctx_s c)" "awaiting L c d (bs @ later) st" "bs \<noteq> []"
    and "length pre + length bs \<le> length t" "length t < 2 ^ 32"
  shows "\<exists>tv' st'. awaiting L c d later st' \<and>
    receive_loop os ty (int (length bs)) (filled pre t) (int (length pre)) step tv st =
    receive_next os ty (filled (pre @ bs) t) (int (length pre + length bs)) step tv' st'"
  using assms(2-4)
proof (induction "length bs" arbitrary: bs pre tv st rule: less_induct)
  case less
  obtain rc tv1 st1 where sel: "be_select os tv st = Some (rc, tv1, st1)" "rc \<noteq> -1"
    and st1: "awaiting L c d (bs @ later) st1"
    using select_returns [OF assms(1) less.prems(1), of tv] less.prems(2) by auto
  obtain got later' st2 where rcv: "be_recv os (filled pre t) (int (length pre)) (int (length bs)) st1 =
      Some (int (length got), filled (pre @ got) t, st2)"
    and got: "got \<noteq> []" "length got \<le> length bs" "bs @ later = got @ later'"
    and st2: "awaiting L c d later' st2"
    using recv_returns [OF assms(1) st1, of "length bs" pre t] less.prems(2,3) by auto
  obtain bs' where bs: "bs = got @ bs'" "later' = bs' @ later"
    using got(2,3) by (auto simp: append_eq_append_conv2)
  define tv2 where "tv2 n = (if (n :: int) > 0 \<and> (tv_sec (ctx_byte_timeout (st_ctx st2)) > 0 \<or>
      tv_usec (ctx_byte_timeout (st_ctx st2)) > 0) then Some (ctx_byte_timeout (st_ctx st2)) else tv1)" for n
  have left: "(int (length bs) - int (length got)) mod 2 ^ 32 = int (length bs')"
    using bs(1) less.prems(3) assms(5) by simp
  show ?case
  proof (cases "bs' = []")
    case True
    have "receive_loop os ty (int (length bs)) (filled pre t) (int (length pre)) step tv st =
        receive_next os ty (filled (pre @ bs) t) (int (length pre + length bs)) step tv1 st2"
      using less.prems(2) sel rcv got(1) left True
      by (subst receive_loop.simps) (simp add: receive_next_def receive_continue_def [abs_def] bs(1) Let_def)
    then show ?thesis using st2 bs(2) True by auto
  next
    case False
    have "receive_loop os ty (int (length bs)) (filled pre t) (int (length pre)) step tv st =
        receive_loop os ty (int (length bs')) (filled (pre @ got) t) (int (length (pre @ got))) step
          (tv2 (int (length bs'))) st2"
      using less.prems(2) sel rcv got(1) left False
      by (subst receive_loop.simps) (simp add: Let_def tv2_def)
    then show ?thesis
      using less.hyps [of bs' st2 "pre @ got" "tv2 (int (length bs'))"] less.prems(3) st2 bs got(1) False
      by (simp add: add.assoc)
  qed
qed

text \<open>The last phase: the rest of the message, which may be empty.\<close>

lemma receive_data:
  assumes "delivers L os (ctx_s c)" "awaiting L c d (bs @ later) st"
    and "compute_data_length_after_meta (ctx_backend c) (filled pre t) ty = Some (int (length bs))"
    and "int (length pre + length bs) \<le> max_adu_length (ctx_backend c)"
    and "length pre + length bs \<le> length t" "length t < 2 ^ 32"
  shows "\<exists>st'. awaiting L c d later st' \<and>
    (advance_to_data (ctx_backend c) ty (filled pre t) (int (length pre)) \<bind>
     receive_continue os ty (filled pre t) (int (length pre)) tv st) =
    Some (True, filled (pre @ bs) t, int (length pre + length bs), st')"
proof -
  have adv: "advance_to_data (ctx_backend c) ty (filled pre t) (int (length pre)) =
      Some (Some (int (length bs), STEP_DATA))"
    using assms(3,4) by (simp add: advance_to_data_def)
  show ?thesis
  proof (cases "bs = []")
    case True
    then show ?thesis
      using assms(2) adv by (auto simp: receive_continue_def receive_loop.simps)
  next
    case False
    define tv' where "tv' = (if int (length bs) > 0 \<and> (tv_sec (ctx_byte_timeout (st_ctx st)) > 0 \<or>
      tv_usec (ctx_byte_timeout (st_ctx st)) > 0) then Some (ctx_byte_timeout (st_ctx st)) else tv)"
    obtain tv2 st' where "awaiting L c d later st'"
      "receive_loop os ty (int (length bs)) (filled pre t) (int (length pre)) STEP_DATA tv' st =
       receive_next os ty (filled (pre @ bs) t) (int (length pre + length bs)) STEP_DATA tv2 st'"
      using receive_phase [OF assms(1,2) False assms(5,6), of ty STEP_DATA tv'] by auto
    moreover have "receive_next os ty (filled (pre @ bs) t) (int (length pre + length bs)) STEP_DATA tv2 st' =
        Some (True, filled (pre @ bs) t, int (length pre + length bs), st')"
      by (simp add: receive_next_def receive_advance_def receive_continue_def receive_loop.simps)
    ultimately show ?thesis
      using adv by (auto simp: receive_continue_def tv'_def)
  qed
qed

text \<open>
  A PDU has the size its function code and its byte count announce: what both ends rely on to
  find the end of a message.
\<close>

definition announced :: "msg_type \<Rightarrow> backend \<Rightarrow> u8 list \<Rightarrow> u8 list \<Rightarrow> bool" where
  "announced ty b hdr pdu \<longleftrightarrow>
     (\<exists>f meta data. pdu = f # meta @ data \<and>
        compute_meta_length_after_function (uint f) ty = int (length meta) \<and>
        (\<forall>rest. compute_data_length_after_meta b (hdr @ f # meta @ rest) ty =
           Some (int (length data) + checksum_length b)))"

lemma receive_frame:
  assumes "delivers L os (ctx_s c)" "awaiting L c d (hdr @ pdu @ trailer @ later) st" "0 \<le> ctx_s c"
    and "int (length hdr) = header_length (ctx_backend c)"
    and "int (length trailer) = checksum_length (ctx_backend c)"
    and "announced ty (ctx_backend c) hdr pdu"
    and "int (length (hdr @ pdu @ trailer)) \<le> max_adu_length (ctx_backend c)"
    and "max_adu_length (ctx_backend c) \<le> int (length t)" "length t < 2 ^ 32"
  shows "\<exists>st'. awaiting L c d later st' \<and>
    modbus_receive_msg os t ty st = do {
      (rc, st'') \<leftarrow> be_check_integrity os (filled (hdr @ pdu @ trailer) t)
        (int (length (hdr @ pdu @ trailer))) st';
      Some (rc, filled (hdr @ pdu @ trailer) t, st'') }"
proof -
  let ?b = "ctx_backend c"
  obtain f meta data where pdu: "pdu = f # meta @ data"
    and meta: "compute_meta_length_after_function (uint f) ty = int (length meta)"
    and data: "\<And>rest. compute_data_length_after_meta ?b (hdr @ f # meta @ rest) ty =
           Some (int (length data) + checksum_length ?b)"
    using assms(6) by (auto simp: announced_def)
  have len: "length hdr + 1 + length meta + length data + length trailer \<le> length t"
    using assms(7,8) by (simp add: pdu)
  have st: "st_ctx st = c" using assms(2) by (simp add: awaiting_def)
  have conn: "be_is_connected st"
    using assms(3) st by (simp add: be_is_connected_def tcp_is_connected_def rtu_is_connected_def
        split: backend.splits)
  have h: "header_length ?b + 1 = int (length (hdr @ [f]))" using assms(4) by simp
  obtain tv1 st1 where st1: "awaiting L c d ((meta @ data @ trailer) @ later) st1"
    and run1: "receive_loop os ty (header_length ?b + 1) t 0 STEP_FUNCTION (initial_timeout ty c) st =
      receive_next os ty (filled (hdr @ [f]) t) (int (length (hdr @ [f]))) STEP_FUNCTION tv1 st1"
    using receive_phase [OF assms(1), of d "hdr @ [f]" "(meta @ data @ trailer) @ later" st "[]" t ty
        STEP_FUNCTION "initial_timeout ty c"] assms(2,9) len by (auto simp: pdu h)
  have be1: "be st1 = ?b" using st1 by (simp add: awaiting_def)
  have rdf: "rd (filled (hdr @ [f]) t) (header_length ?b) = Some f"
    using assms(4) by (simp add: filled_def rd_behind_0 rd_Cons)
  have fin: "\<exists>st'. awaiting L c d later st' \<and>
      (advance_to_data ?b ty (filled (hdr @ f # meta) t) (int (length (hdr @ f # meta))) \<bind>
       receive_continue os ty (filled (hdr @ f # meta) t) (int (length (hdr @ f # meta))) tv st) =
      Some (True, filled (hdr @ pdu @ trailer) t, int (length (hdr @ pdu @ trailer)), st')"
    if "awaiting L c d ((data @ trailer) @ later) st" for tv st
    using receive_data [OF assms(1) that, of "hdr @ f # meta" t ty tv] assms(5,7,9) len
      data [of "drop (length (hdr @ f # meta)) t"]
    by (simp add: pdu filled_def add.assoc)
  have "\<exists>st'. awaiting L c d later st' \<and>
    receive_next os ty (filled (hdr @ [f]) t) (int (length (hdr @ [f]))) STEP_FUNCTION tv1 st1 =
    Some (True, filled (hdr @ pdu @ trailer) t, int (length (hdr @ pdu @ trailer)), st')"
  proof (cases "meta = []")
    case True
    then show ?thesis
      using fin [of st1 tv1] st1 rdf meta
      by (simp add: receive_next_def be1 receive_advance_def Let_def)
  next
    case False
    obtain tv2 st2 where st2: "awaiting L c d ((data @ trailer) @ later) st2"
      and run2: "receive_continue os ty (filled (hdr @ [f]) t) (int (length (hdr @ [f]))) tv1 st1
          (Some (int (length meta), STEP_META)) =
        receive_next os ty (filled ((hdr @ [f]) @ meta) t) (int (length (hdr @ [f]) + length meta))
          STEP_META tv2 st2"
      using receive_phase [OF assms(1), of d meta "(data @ trailer) @ later" st1 "hdr @ [f]" t ty STEP_META]
        st1 False assms(9) len by (fastforce simp: receive_continue_def)
    have be2: "be st2 = ?b" using st2 by (simp add: awaiting_def)
    have "receive_next os ty (filled (hdr @ [f]) t) (int (length (hdr @ [f]))) STEP_FUNCTION tv1 st1 =
        advance_to_data ?b ty (filled (hdr @ f # meta) t) (int (length (hdr @ f # meta))) \<bind>
        receive_continue os ty (filled (hdr @ f # meta) t) (int (length (hdr @ f # meta))) tv2 st2"
      using run2 rdf meta False
      by (simp add: receive_next_def [of os ty "filled (hdr @ [f]) t"] be1 receive_advance_def Let_def)
        (simp add: receive_next_def be2 receive_advance_def)
    then show ?thesis using fin [OF st2, of tv2] by simp
  qed
  then show ?thesis
    using run1 conn by (auto simp: modbus_receive_msg_def st)
qed

subsection \<open>Requests and responses announce their size\<close>

lemma uint_of_nat_byte: "n < 256 \<Longrightarrow> uint (of_nat n :: u8) = int n"
  by (simp add: unsigned_of_nat take_bit_nat_eq_self flip: uint_nat)

lemma announcedI:
  assumes "pdu = f # meta @ data"
    and "compute_meta_length_after_function (uint f) ty = int (length meta)"
    and "\<And>rest. compute_data_length_after_meta b (hdr @ f # meta @ rest) ty =
      Some (int (length data) + checksum_length b)"
  shows "announced ty b hdr pdu"
  using assms by (auto simp: announced_def)

lemmas message_lengths =
  compute_meta_length_after_function_def compute_data_length_after_meta_def rd_behind rd_behind_0 rd_Cons

text \<open>The three messages with a byte count.\<close>

lemma announced_multiple:
  assumes "int (length hdr) = header_length b" "f = 15 \<or> f = 16" "length data < 256"
  shows "announced MSG_INDICATION b hdr (f # [p, q, r, s] @ of_nat (length data) # data)"
  by (rule announcedI [where f = f and meta = "[p, q, r, s, of_nat (length data)]" and data = data])
    (use assms in \<open>auto simp: message_lengths uint_of_nat_byte\<close>)

lemma announced_write_and_read:
  assumes "int (length hdr) = header_length b" "length data < 256"
  shows "announced MSG_INDICATION b hdr (23 # [p, q, r, s, p', q', r', s'] @ of_nat (length data) # data)"
  by (rule announcedI [where f = 23 and data = data and
        meta = "[p, q, r, s, p', q', r', s', of_nat (length data)]"])
    (use assms in \<open>auto simp: message_lengths uint_of_nat_byte\<close>)

lemma announced_values:
  assumes "int (length hdr) = header_length b" "uint f \<le> 4 \<or> uint f = 23" "length data < 256"
  shows "announced MSG_CONFIRMATION b hdr (f # of_nat (length data) # data)"
  by (rule announcedI [where f = f and meta = "[of_nat (length data)]" and data = data])
    (use assms in \<open>auto simp: message_lengths uint_of_nat_byte\<close>)

text \<open>Those without one.\<close>

lemma announced_fixed:
  assumes "int (length hdr) = header_length b"
    and "compute_meta_length_after_function (uint f) ty = int (length meta)"
    and "if ty = MSG_INDICATION then uint f \<notin> {15, 16, 23} else 4 < uint f \<and> uint f \<notin> {17, 23}"
  shows "announced ty b hdr (f # meta)"
  by (rule announcedI [where f = f and meta = meta and data = "[]"])
    (use assms in \<open>auto simp: message_lengths split: if_splits\<close>)

lemma announced_request:
  assumes "request_fits r" "int (length hdr) = header_length b"
  shows "announced MSG_INDICATION b hdr (encode_request r)"
proof (cases r)
  case (Write_coils a bs)
  have "nb_bytes (length bs) \<le> 246" using assms(1) Write_coils nb_bytes_bound [of "length bs" 246] by simp
  then show ?thesis
    using announced_multiple [OF assms(2), of 15 "pack_bits bs" "hi8 a" "lo8 a"] Write_coils
    by (simp add: field_def)
next
  case (Write_registers a vs)
  then show ?thesis
    using announced_multiple [OF assms(2), of 16 "encode_regs vs" "hi8 a" "lo8 a"] assms(1)
    by (simp add: field_def)
next
  case (Write_and_read_registers wa vs ra n)
  then show ?thesis
    using announced_write_and_read [OF assms(2), of "encode_regs vs" "hi8 ra" "lo8 ra"] assms(1)
    by (simp add: field_def)
qed (use assms in \<open>auto intro!: announced_fixed simp: compute_meta_length_after_function_def field_def\<close>)

text \<open>A response that fits its request.\<close>

fun response_fits :: "request \<Rightarrow> response \<Rightarrow> bool" where
  "response_fits r (Exception e) = (e < 12)"
| "response_fits (Read_coils a n) (Bits bs) = (length bs = n \<and> 1 \<le> n \<and> n \<le> 2000)"
| "response_fits (Read_discrete_inputs a n) (Bits bs) = (length bs = n \<and> 1 \<le> n \<and> n \<le> 2000)"
| "response_fits (Read_holding_registers a n) (Registers vs) = (length vs = n \<and> 1 \<le> n \<and> n \<le> 125)"
| "response_fits (Read_input_registers a n) (Registers vs) = (length vs = n \<and> 1 \<le> n \<and> n \<le> 125)"
| "response_fits (Write_and_read_registers wa ws ra n) (Registers vs) =
     (length vs = n \<and> 1 \<le> n \<and> n \<le> 125)"
| "response_fits (Write_coil a v) Written = True"
| "response_fits (Write_register a v) Written = True"
| "response_fits (Write_coils a bs) Written = True"
| "response_fits (Write_registers a vs) Written = True"
| "response_fits (Mask_write_register a x y) Written = True"
| "response_fits r resp = False"

lemma those_length: "those xs = Some ys \<Longrightarrow> length ys = length xs"
  by (induction xs arbitrary: ys) (auto split: option.splits)

lemma read_range_length: "read_range t a n = Some vs \<Longrightarrow> length vs = n"
  by (auto simp: read_range_def dest: those_length)

lemma serve_fits: "response_fits r (snd (serve d r))"
  by (cases r)
    (auto simp: serve_read_def serve_write_def Let_def dest: read_range_length
      split: option.splits if_splits prod.splits)

lemma nb_bytes_250: "n \<le> 2000 \<Longrightarrow> nb_bytes n \<le> 250"
  by (rule nb_bytes_bound) simp

lemma length_encode_response:
  assumes "response_fits r resp"
  shows "length (encode_response r resp) \<le> 253"
proof (cases "\<exists>bs. resp = Bits bs")
  case True
  then obtain bs where "resp = Bits bs" "length bs \<le> 2000" using assms by (cases r) auto
  then show ?thesis using nb_bytes_250 [of "length bs"] by (simp add: encode_response_def)
next
  case False
  then show ?thesis using assms by (cases r; cases resp) (auto simp: encode_response_def)
qed

lemma announced_response:
  assumes "response_fits r resp" "int (length hdr) = header_length b"
  shows "announced MSG_CONFIRMATION b hdr (encode_response r resp)"
proof (cases resp)
  case (Bits bs)
  then have "length bs \<le> 2000" "uint (request_function r) \<le> 4" using assms(1) by (cases r; simp)+
  then show ?thesis
    using announced_values [OF assms(2), of "request_function r" "pack_bits bs"]
      nb_bytes_250 [of "length bs"] Bits by (simp add: encode_response_def del: request_function.simps)
next
  case (Registers vs)
  then have "length vs \<le> 125" "uint (request_function r) \<le> 4 \<or> uint (request_function r) = 23"
    using assms(1) by (cases r; simp)+
  then show ?thesis
    using announced_values [OF assms(2), of "request_function r" "encode_regs vs"] Registers
    by (simp add: encode_response_def del: request_function.simps)
next
  case Written
  then show ?thesis
    using assms by (cases r)
      (auto intro!: announced_fixed simp: encode_response_def compute_meta_length_after_function_def field_def)
next
  case (Exception e)
  then show ?thesis
    using assms by (cases r)
      (auto intro!: announced_fixed simp: encode_response_def compute_meta_length_after_function_def)
qed

subsection \<open>Receiving a frame\<close>

text \<open>The frame that carries a PDU behind a given header.\<close>

definition frame_of :: "backend \<Rightarrow> u8 list \<Rightarrow> u8 list \<Rightarrow> u8 list" where
  "frame_of b hdr pdu = hdr @ pdu @ be_trailer b (hdr @ pdu)"

lemma length_frame_of:
  "int (length hdr) = header_length b \<Longrightarrow>
   int (length (frame_of b hdr pdu)) = header_length b + int (length pdu) + checksum_length b"
  using be_framing.length_trailer [of b "hdr @ pdu"] by (simp add: frame_of_def)

lemma frame_of_fits:
  assumes "int (length hdr) = header_length b" "length pdu \<le> 253"
  shows "int (length (frame_of b hdr pdu)) \<le> max_adu_length b"
  using length_frame_of [OF assms(1), of pdu] assms(2) by (cases b) simp_all

text \<open>Is a message with this header meant for the context? A TCP connection has one device.\<close>

definition for_us :: "modbus \<Rightarrow> u8 list \<Rightarrow> bool" where
  "for_us c hdr \<longleftrightarrow>
     (case ctx_backend c of
        RTU_backend _ \<Rightarrow> uint (hd hdr) = ctx_slave c \<or> uint (hd hdr) = MODBUS_BROADCAST_ADDRESS
      | _ \<Rightarrow> True)"

lemma frame_integrity:
  assumes "int (length hdr) = header_length (be st)" "length pdu \<le> 253" "pdu \<noteq> []"
  shows "be_check_integrity os (filled (frame_of (be st) hdr pdu) t)
      (int (length (frame_of (be st) hdr pdu))) st =
    Some (if for_us (st_ctx st) hdr then int (length (frame_of (be st) hdr pdu)) else 0, st)"
proof (cases "be st")
  case (RTU_backend rtu)
  let ?body = "hdr @ pdu"
  have hdr: "hdr \<noteq> []" "length hdr = 1" using assms(1) RTU_backend by auto
  have shape: "filled (frame_of (be st) hdr pdu) t =
      ?body @ lo8 (uint (crc_spec ?body)) # hi8 (uint (crc_spec ?body)) #
        drop (length (frame_of (be st) hdr pdu)) t"
      "int (length (frame_of (be st) hdr pdu)) = int (length ?body) + 2"
    by (simp_all add: frame_of_def rtu_trailer_def filled_def RTU_backend)
  have m0: "rd (filled (frame_of (be st) hdr pdu) t) 0 = Some (hd hdr)"
    using hdr by (simp add: shape(1) rd_def nth_append hd_conv_nth)
  show ?thesis
  proof (cases "for_us (st_ctx st) hdr")
    case True
    then have "uint (hd ?body) = ctx_slave (st_ctx st) \<or> uint (hd ?body) = 0"
      using hdr by (simp add: for_us_def RTU_backend)
    then show ?thesis
      using rtu_check_integrity_run [of ?body st os] hdr assms(2) True unfolding shape
      by (simp add: be_check_integrity_def RTU_backend wire_simps)
  next
    case False
    then show ?thesis
      using m0 by (simp add: be_check_integrity_def RTU_backend rtu_check_integrity_def for_us_def)
  qed
qed (simp_all add: be_check_integrity_def tcp_check_integrity_def for_us_def)

text \<open>A whole frame, whoever it is addressed to.\<close>

lemma receive_msg_frame:
  assumes "delivers L os (ctx_s c)" "0 \<le> ctx_s c"
    and "awaiting L c d (frame_of (ctx_backend c) hdr pdu @ later) st"
    and "int (length hdr) = header_length (ctx_backend c)" "length pdu \<le> 253"
    and "announced ty (ctx_backend c) hdr pdu"
    and "max_adu_length (ctx_backend c) \<le> int (length buf)" "length buf < 2 ^ 32"
  shows "\<exists>st'. awaiting L c d later st' \<and>
    modbus_receive_msg os buf ty st =
      Some (if for_us c hdr then int (length (frame_of (ctx_backend c) hdr pdu)) else 0,
        filled (frame_of (ctx_backend c) hdr pdu) buf, st')"
proof -
  let ?b = "ctx_backend c"
  have pdu: "pdu \<noteq> []" using assms(6) by (auto simp: announced_def)
  have tr: "int (length (be_trailer ?b (hdr @ pdu))) = checksum_length ?b"
    by (rule be_framing.length_trailer)
  obtain st' where st': "awaiting L c d later st'"
    and run: "modbus_receive_msg os buf ty st = do {
      (rc, st'') \<leftarrow> be_check_integrity os (filled (frame_of ?b hdr pdu) buf)
        (int (length (frame_of ?b hdr pdu))) st';
      Some (rc, filled (frame_of ?b hdr pdu) buf, st'') }"
    using receive_frame [OF assms(1) _ assms(2,4) tr assms(6) _ assms(7,8), of d later st]
      assms(3) frame_of_fits [OF assms(4,5)] by (auto simp: frame_of_def)
  have "st_ctx st' = c" using st' by (simp add: awaiting_def)
  then show ?thesis
    using frame_integrity [of hdr st' pdu os buf] st' run assms(4,5) pdu by auto
qed

definition expects_request :: "modbus \<Rightarrow> bool" where
  "expects_request c \<longleftrightarrow>
     (case ctx_backend c of RTU_backend d \<Rightarrow> \<not> rtu_confirmation_to_ignore d | _ \<Rightarrow> True)"

lemma frame_of_positive:
  "int (length hdr) = header_length b \<Longrightarrow> 0 < int (length (frame_of b hdr pdu))"
  using length_frame_of [of hdr b pdu] by (cases b) simp_all

lemma receive_request_run:
  assumes "delivers L os (ctx_s c)" "0 \<le> ctx_s c" "expects_request c" "for_us c hdr"
    and "int (length hdr) = header_length (ctx_backend c)" "request_fits r"
    and "frame = frame_of (ctx_backend c) hdr (encode_request r)"
    and "awaiting L c d (frame @ later) st"
    and "max_adu_length (ctx_backend c) \<le> int (length buf)" "length buf < 2 ^ 32"
  shows "\<exists>st'. modbus_receive os The_ctx buf st = Some (int (length frame), filled frame buf, st') \<and>
    awaiting L c d later st'"
proof -
  obtain st' where st': "awaiting L c d later st'"
    and run: "modbus_receive_msg os buf MSG_INDICATION st = Some (int (length frame), filled frame buf, st')"
    using receive_msg_frame [OF assms(1,2) _ assms(5) length_encode_request [OF assms(6)]
        announced_request [OF assms(6,5)] assms(9,10), of d later st] assms(4,7,8) by auto
  have c: "st_ctx st = c" "int (length frame) \<noteq> 0"
    using assms(8) frame_of_positive [OF assms(5)] by (auto simp: awaiting_def assms(7))
  show ?thesis
    using st' run c assms(3)
    by (cases "ctx_backend c")
      (auto simp: modbus_receive_def tcp_receive_def rtu_receive_def expects_request_def)
qed

text \<open>C2: On a connection that delivers the bytes of a request, in any pieces and with any number
  of interrupted waits, followed by anything, \<open>modbus_receive\<close> takes exactly the bytes of the
  request off the connection, puts them at the start of the caller's buffer without touching
  the rest of it, and returns their number.\<close>

theorem modbus_receive_one_request:
  assumes "delivers L os (ctx_s c)" "0 \<le> ctx_s c" "expects_request c" "for_us c hdr"
    and "int (length hdr) = header_length (ctx_backend c)" "request_fits r"
    and "frame = frame_of (ctx_backend c) hdr (encode_request r)"
    and "awaiting L c d (frame @ later) st"
    and "max_adu_length (ctx_backend c) \<le> int (length buf)" "length buf < 2 ^ 32"
  shows "\<exists>st'. modbus_receive os The_ctx buf st = Some (int (length frame), filled frame buf, st') \<and>
    awaiting L c d later st'"
  by (rule receive_request_run [OF assms])

lemma set_ignore_ctx:
  "be st = RTU_backend d \<Longrightarrow> st_ctx (set_confirmation_to_ignore v st) =
     (st_ctx st)\<lparr>ctx_backend := RTU_backend (d\<lparr>rtu_confirmation_to_ignore := v\<rparr>)\<rparr>"
  by (simp add: set_confirmation_to_ignore_def set_rtu_def)

text \<open>C19: On a serial bus, a request for another slave and the answer that slave gives make two
  calls of \<open>modbus_receive\<close> return 0: both frames are taken off the line, nothing that follows
  them is, and the context is as before.\<close>

theorem rtu_receive_ignores_other_slave:
  assumes "delivers L os (ctx_s c)" "0 \<le> ctx_s c"
    and "ctx_backend c = RTU_backend rtu" "\<not> rtu_confirmation_to_ignore rtu"
    and "uint slave \<noteq> ctx_slave c" "slave \<noteq> 0" "request_fits r" "response_fits r resp"
    and "awaiting L c d (frame_of (RTU_backend rtu) [slave] (encode_request r) @
      frame_of (RTU_backend rtu) [slave] (encode_response r resp) @ later) st"
    and "256 \<le> length buf" "length buf < 2 ^ 32"
  shows "\<exists>buf' buf'' st' st''. modbus_receive os The_ctx buf st = Some (0, buf', st') \<and>
    modbus_receive os The_ctx buf' st' = Some (0, buf'', st'') \<and> awaiting L c d later st''"
proof -
  let ?b = "RTU_backend rtu"
  let ?q = "frame_of ?b [slave] (encode_request r)" and ?a = "frame_of ?b [slave] (encode_response r resp)"
  define c' where "c' = c\<lparr>ctx_backend := RTU_backend (rtu\<lparr>rtu_confirmation_to_ignore := True\<rparr>)\<rparr>"
  have same: "frame_of (RTU_backend (rtu\<lparr>rtu_confirmation_to_ignore := True\<rparr>)) hdr pdu = frame_of ?b hdr pdu"
    for hdr pdu
    by (simp add: frame_of_def)
  have others: "\<not> for_us c [slave]" "\<not> for_us c' [slave]"
    using assms(3,5,6) by (simp_all add: for_us_def c'_def uint_0_iff)
  obtain st1 where st1: "awaiting L c d (?a @ later) st1"
    and run1: "modbus_receive_msg os buf MSG_INDICATION st = Some (0, filled ?q buf, st1)"
    using receive_msg_frame [OF assms(1,2) _ _ length_encode_request [OF assms(7)]
        announced_request [OF assms(7)], of d "[slave]" "?a @ later" st buf] assms(3,9-11) others
    by auto
  let ?st2 = "set_confirmation_to_ignore True st1"
  have "st_world ?st2 = st_world st1"
    by (simp add: set_confirmation_to_ignore_def set_rtu_def split: backend.splits)
  then have st2: "awaiting L c' d (?a @ later) ?st2"
    using st1 assms(3) by (simp add: awaiting_def set_ignore_ctx c'_def)
  have "length (filled ?q buf) = length buf"
    using frame_of_fits [of "[slave]" ?b "encode_request r"] length_encode_request [OF assms(7)] assms(10)
    by simp
  then obtain st3 where st3: "awaiting L c' d later st3"
    and run2: "modbus_receive_msg os (filled ?q buf) MSG_CONFIRMATION ?st2 = Some (0, filled ?a (filled ?q buf), st3)"
    using receive_msg_frame [of L os c' d "[slave]" "encode_response r resp" later ?st2 MSG_CONFIRMATION
        "filled ?q buf"] assms(1-3,10,11) others st2 announced_response [OF assms(8), of "[slave]" "ctx_backend c'"]
      length_encode_response [OF assms(8)]
    by (auto simp: c'_def same)
  have first: "modbus_receive os The_ctx buf st = Some (0, filled ?q buf, ?st2)"
    using assms(3,4,9) run1 by (simp add: modbus_receive_def rtu_receive_def awaiting_def)
  have second: "modbus_receive os The_ctx (filled ?q buf) ?st2 =
      Some (0, filled ?a (filled ?q buf), set_confirmation_to_ignore False st3)"
    using st2 run2 by (simp add: modbus_receive_def rtu_receive_def awaiting_def c'_def)
  have "st_world (set_confirmation_to_ignore False st3) = st_world st3"
    by (simp add: set_confirmation_to_ignore_def set_rtu_def split: backend.splits)
  moreover have "st_ctx (set_confirmation_to_ignore False st3) = c"
    using st3 assms(3,4) by (simp add: awaiting_def set_ignore_ctx c'_def)
  ultimately have "awaiting L c d later (set_confirmation_to_ignore False st3)"
    using st3 by (simp add: awaiting_def)
  with first second show ?thesis by blast
qed

subsection \<open>The concrete connection delivers\<close>

definition no_device :: store where
  "no_device = \<lparr>coils = Map.empty, discrete_inputs = Map.empty, holding_registers = Map.empty,
     input_registers = Map.empty\<rparr>"

definition wire_link :: "(wire, store) link" where
  "wire_link = \<lparr>l_pending = w_in, l_signals = \<lambda>w. 0, l_device = \<lambda>w. no_device, l_up = \<lambda>w. True\<rparr>"

lemma wire_delivers: "delivers wire_link wire_os s"
  by (auto simp: delivers_def wire_link_def wire_os_def select_reports_def undisturbed_def
      wire_select_def bytes_taken_def wire_recv_def)

lemma wire_awaiting: "awaiting wire_link c no_device input (on_wire c input)"
  by (simp add: awaiting_def wire_link_def)

theorem modbus_receive_one_request_witness:
  "\<exists>st'. modbus_receive wire_os The_ctx (replicate 260 0)
      (on_wire tcp_ctx [0, 1, 0, 0, 0, 6, 255, 3, 0, 2, 0, 1, 77, 78]) =
      Some (12, [0, 1, 0, 0, 0, 6, 255, 3, 0, 2, 0, 1] @ replicate 248 0, st') \<and>
    w_in (st_world st') = [77, 78]"
proof -
  let ?hdr = "[0 :: u8, 1, 0, 0, 0, 6, 255]" and ?r = "Read_holding_registers 2 1"
  have frame: "frame_of (ctx_backend tcp_ctx) ?hdr (encode_request ?r) = [0, 1, 0, 0, 0, 6, 255, 3, 0, 2, 0, 1]"
    by (simp add: frame_of_def field_def hi8_def lo8_def)
  have "replicate 260 (0 :: u8) = replicate 12 0 @ replicate 248 0"
    by (simp flip: replicate_add)
  then have "drop 12 (replicate 260 (0 :: u8)) = replicate 248 0" by simp
  then have buf: "filled [0, 1, 0, 0, 0, 6, 255, 3, 0, 2, 0, 1] (replicate 260 (0 :: u8)) =
      [0, 1, 0, 0, 0, 6, 255, 3, 0, 2, 0, 1] @ replicate 248 0"
    by (simp add: filled_def)
  show ?thesis
    using modbus_receive_one_request [OF wire_delivers _ _ _ _ _ frame [symmetric], where buf = "replicate 260 0"
        and later = "[77, 78]" and d = no_device
        and st = "on_wire tcp_ctx [0, 1, 0, 0, 0, 6, 255, 3, 0, 2, 0, 1, 77, 78]"]
      wire_awaiting [of tcp_ctx "[0, 1, 0, 0, 0, 6, 255, 3, 0, 2, 0, 1, 77, 78]"]
    by (auto simp: buf expects_request_def for_us_def awaiting_def wire_link_def)
qed

lemma rtu_ctx_backend: "\<exists>rtu. ctx_backend rtu_ctx = RTU_backend rtu \<and> \<not> rtu_confirmation_to_ignore rtu"
  by (simp add: rtu_ctx_def)

lemma rtu_ctx_simps [simp]: "ctx_slave rtu_ctx = 17" "ctx_s rtu_ctx = 3"
  by (simp_all add: rtu_ctx_def)

theorem rtu_receive_ignores_other_slave_witness:
  "\<exists>input buf' buf'' st' st''. modbus_receive wire_os The_ctx (replicate 256 0) (on_wire rtu_ctx input) =
      Some (0, buf', st') \<and> modbus_receive wire_os The_ctx buf' st' = Some (0, buf'', st'') \<and>
    st_ctx st'' = rtu_ctx \<and> w_in (st_world st'') = [5]"
proof -
  obtain rtu where rtu: "ctx_backend rtu_ctx = RTU_backend rtu" "\<not> rtu_confirmation_to_ignore rtu"
    using rtu_ctx_backend by blast
  let ?input = "frame_of (RTU_backend rtu) [9] (encode_request (Write_register 1 2)) @
      frame_of (RTU_backend rtu) [9] (encode_response (Write_register 1 2) Written) @ [5]"
  obtain buf' buf'' st' st'' where
    "modbus_receive wire_os The_ctx (replicate 256 0) (on_wire rtu_ctx ?input) = Some (0, buf', st')"
    "modbus_receive wire_os The_ctx buf' st' = Some (0, buf'', st'')" "awaiting wire_link rtu_ctx no_device [5] st''"
    using rtu_receive_ignores_other_slave [OF wire_delivers _ rtu _ _ _ _ wire_awaiting [of rtu_ctx ?input],
        of "replicate 256 0"] by auto
  then show ?thesis
    by (intro exI [of _ ?input] exI [of _ buf'] exI [of _ buf''] exI [of _ st'] exI [of _ st''])
      (simp add: awaiting_def wire_link_def)
qed

end
