(* ===== verification/Modbus_Reply_Safe.thy ===== *)
theory Modbus_Reply_Safe
  imports Modbus_Reply Modbus_Receive
begin

text \<open>
  \<open>modbus_reply\<close> on a request that is not known to be well formed: every byte of the buffer
  is arbitrary, so is the length within the longest frame. The server stays inside its arrays,
  returns, and leaves a well-formed mapping of the same layout.
\<close>

definition same_layout :: "mapping \<Rightarrow> mapping \<Rightarrow> bool" where
  "same_layout m m' \<longleftrightarrow>
     mb_nb_bits m' = mb_nb_bits m \<and> mb_start_bits m' = mb_start_bits m \<and>
     mb_nb_input_bits m' = mb_nb_input_bits m \<and> mb_start_input_bits m' = mb_start_input_bits m \<and>
     mb_nb_registers m' = mb_nb_registers m \<and> mb_start_registers m' = mb_start_registers m \<and>
     mb_nb_input_registers m' = mb_nb_input_registers m \<and>
     mb_start_input_registers m' = mb_start_input_registers m"

lemma same_layout_refl [simp]: "same_layout m m"
  by (simp add: same_layout_def)

lemma same_layout_trans: "same_layout m m' \<Longrightarrow> same_layout m' m'' \<Longrightarrow> same_layout m m''"
  by (simp add: same_layout_def)

lemma same_layout_tables [simp]:
  "same_layout m (m\<lparr>mb_tab_bits := bs\<rparr>)" "same_layout m (m\<lparr>mb_tab_registers := vs\<rparr>)"
  by (simp_all add: same_layout_def)

text \<open>A case of \<open>modbus_reply\<close> that ends with a response of an admissible length.\<close>

definition replies :: "mapping \<Rightarrow> 'w mst \<Rightarrow> 'w reply \<Rightarrow> bool" where
  "replies m st x \<longleftrightarrow>
     (\<exists>n rsp m' st'. x = Some (n, rsp, m', st') \<and> st_ctx st' = st_ctx st \<and> mapping_ok m' \<and>
        same_layout m m' \<and> header_length (be st) < n \<and> n + checksum_length (be st) \<le> max_adu_length (be st) \<and>
        length rsp = 260)"

lemma repliesI:
  assumes "x = Some (n, rsp, m', st')" "st_ctx st' = st_ctx st" "mapping_ok m'" "same_layout m m'"
    and "header_length (be st) < n" "n + checksum_length (be st) \<le> max_adu_length (be st)" "length rsp = 260"
  shows "replies m st x"
  using assms by (auto simp: replies_def)

text \<open>What a case is called with.\<close>

definition serving ::
    "('w \<Rightarrow> nat) \<Rightarrow> 'w os \<Rightarrow> 'w mst \<Rightarrow> u8 list \<Rightarrow> int \<Rightarrow> u8 list \<Rightarrow> mapping \<Rightarrow> bool" where
  "serving mu os st req n rsp m \<longleftrightarrow>
     settles mu os \<and> mapping_ok m \<and> length rsp = 260 \<and> max_adu_length (be st) \<le> int (length req) \<and>
     header_length (be st) < n \<and> n + checksum_length (be st) \<le> max_adu_length (be st)"

lemma servingD:
  assumes "serving mu os st req n rsp m"
  shows "settles mu os" "mapping_ok m" "length rsp = 260"
    "header_length (be st) + 252 \<le> int (length req)" "1 \<le> header_length (be st)"
    "header_length (be st) + checksum_length (be st) \<le> 7" "0 \<le> checksum_length (be st)"
    "header_length (be st) < n" "n \<le> int (length req)" "n + checksum_length (be st) \<le> 260"
    "n + checksum_length (be st) \<le> max_adu_length (be st)"
    "max_adu_length (be st) = header_length (be st) + checksum_length (be st) + 253"
  using assms by (cases "be st"; simp add: serving_def)+

lemma filled_take [simp]: "k \<le> length t \<Longrightarrow> filled (take k t) t = t"
  by (simp add: filled_def)

lemma rd16_ok:
  assumes "0 \<le> i" "i + 1 < int (length req)"
  obtains v where "rd16 req i = Some v" "0 \<le> v" "v < 65536"
  using that be16_range assms by (simp add: rd16_def rd_Some)

lemma field_ok:
  assumes "serving mu os st req n rsp m" "0 \<le> k" "k < 251"
  obtains v where "rd16 req (header_length (be st) + k) = Some v" "0 \<le> v" "v < 65536"
  using rd16_ok [of "header_length (be st) + k" req] servingD [OF assms(1)] assms(2,3) that by fastforce

lemma byte_ok:
  assumes "serving mu os st req n rsp m" "0 \<le> k" "k < 252"
  obtains v where "rd req (header_length (be st) + k) = Some v"
  using servingD [OF assms(1)] assms(2,3) that by (simp add: rd_Some)

lemma build_ok:
  assumes "serving mu os st req n rsp m"
  obtains rsp' where "be_build_response_basis (be st) sft rsp = Some (header_length (be st) + 1, rsp')"
    "length rsp' = 260"
proof -
  note d = servingD [OF assms]
  have "length (be_basis (be st) sft rsp @ [word_of_int (sft_function sft)]) \<le> length rsp"
    using be_framing.length_basis [of "be st" sft rsp] d by simp
  then show ?thesis
    using that be_framing.build [of "be st" rsp sft] d by simp
qed

lemma exception_replies:
  assumes "serving mu os st req n rsp m"
  shows "replies m st (response_exception os sft e rsp to_flush m st)"
proof -
  note d = servingD [OF assms]
  obtain st' where st': "(if to_flush then sleep_and_flush os st else Some st) = Some st'"
      "st_ctx st' = st_ctx st"
    using sleep_and_flush_returns [OF d(1), of st "\<exists>st'. sleep_and_flush os st = Some st' \<and> st_ctx st' = st_ctx st"]
    by (cases to_flush) auto
  obtain rsp' where "be_build_response_basis (be st) (sft\<lparr>sft_function := sft_function sft + 128\<rparr>) rsp =
      Some (header_length (be st) + 1, rsp')" "length rsp' = 260"
    by (rule build_ok [OF assms])
  then show ?thesis
    using d st' by (auto simp: response_exception_def replies_def wr_def)
qed

lemma io_status_ok:
  assumes "a + n \<le> length tab" "list_all is_bit tab" "k + nb_bytes n \<le> length rsp"
  obtains rsp' where "response_io_status tab (int a) (int n) rsp (int k) = Some (int k + int (nb_bytes n), rsp')"
    "length rsp' = length rsp"
  using that response_io_status_run [OF assms(1,2), of "take k rsp" rsp "int k"] assms
  by (simp add: bits_of_def)

lemma registers_ok:
  assumes "a + n \<le> length tab" "k + 2 * n \<le> length rsp"
  obtains rsp' where "response_registers tab (int a) (int n) rsp (int k) = Some (int k + 2 * int n, rsp')"
    "length rsp' = length rsp"
  using that response_registers_run [OF assms(1), of "take k rsp" rsp "int k"] assms by simp

lemma store_ok:
  assumes "a + n \<le> length tab" "0 \<le> offset" "0 \<le> j" "offset + j + 2 * int n \<le> int (length req)"
  obtains tab' where "store_registers req offset (int a) (int n) j tab = Some tab'" "length tab' = length tab"
proof -
  obtain h k where hk: "offset = int h" "j = int k" using assms(2,3) nonneg_eq_int by metis
  have "take h req @ take k (drop h req) @ drop (h + k) req = req"
    by (metis append_take_drop_id drop_drop add.commute)
  moreover have "int (length (take h req)) = offset" "int (length (take k (drop h req))) = j"
    "2 * n \<le> length (drop (h + k) req)" using assms(4) by (simp_all add: hk)
  ultimately have "store_registers req offset (int a) (int n) j tab =
      Some (take a tab @ decode_regs (drop (h + k) req) n @ drop (a + n) tab)"
    using store_registers_run [OF assms(1), of "take h req" offset "take k (drop h req)" j "drop (h + k) req"]
    by simp
  then show ?thesis using that assms(1) by simp
qed

lemma echo_ok:
  assumes "serving mu os st req n rsp m"
  obtains rsp' where "echo_request req n rsp = Some (n, rsp')" "length rsp' = 260"
proof -
  note d = servingD [OF assms]
  have "echo_request req n rsp = Some (n, take (nat n) req @ drop (nat n) rsp)"
    using d by (simp add: echo_request_def rd_block_def wr_block_def)
  then show ?thesis using that d by simp
qed

lemma confirm_ok:
  assumes "serving mu os st req n rsp m"
  obtains rsp' where "confirm_write (be st) req sft rsp = Some (header_length (be st) + 5, rsp')"
    "length rsp' = 260"
proof -
  obtain r where r: "be_build_response_basis (be st) sft rsp = Some (header_length (be st) + 1, r)" "length r = 260"
    by (rule build_ok [OF assms])
  show ?thesis
    using that r servingD [OF assms] by (simp add: confirm_write_def rd_block_def wr_block_def)
qed

subsection \<open>The cases\<close>

text \<open>The three ways out of a case that has checked a range.\<close>

lemma replies_ranges:
  assumes "serving mu os st req n rsp m" "\<not> bad_value \<Longrightarrow> \<not> bad_address \<Longrightarrow> replies m st x"
  shows "replies m st (if bad_value then response_exception os sft e1 rsp flush1 m st
    else if bad_address then response_exception os sft e2 rsp flush2 m st else x)"
  using exception_replies [OF assms(1)] assms(2) by simp

lemma table_range:
  assumes "\<not> (nb < 1 \<or> b < nb)" "\<not> (i < 0 \<or> i + nb > int len)"
  obtains k a where "nb = int k" "i = int a" "int k \<le> b" "a + k \<le> len"
  using that [of "nat nb" "nat i"] assms by (simp add: nat_le_iff flip: nat_add_distrib)

lemma read_bits_replies:
  assumes s: "serving mu os st req n rsp m"
  shows "replies m st (reply_read_bits os req sft address rsp m st)"
proof -
  note d = servingD [OF s]
  let ?in = "sft_function sft = 2" and ?h = "header_length (be st)"
  define start where "start = (if ?in then mb_start_input_bits m else mb_start_bits m)"
  define tab where "tab = (if ?in then mb_tab_input_bits m else mb_tab_bits m)"
  have tab: "(if ?in then mb_nb_input_bits m else mb_nb_bits m) = int (length tab)" "list_all is_bit tab"
    using d(2) by (simp_all add: tab_def mapping_ok_def)
  obtain nb where nb: "rd16 req (?h + 3) = Some nb"
    by (rule field_ok [OF s, of 3]) auto
  obtain r where r: "be_build_response_basis (be st) sft rsp = Some (?h + 1, r)" "length r = 260"
    by (rule build_ok [OF s])
  define r1 where "r1 = r[nat (?h + 1) := word_of_int ((nb div 8) + (if nb mod 8 \<noteq> 0 then 1 else 0))]"
  have r1: "wr r (?h + 1) (word_of_int ((nb div 8) + (if nb mod 8 \<noteq> 0 then 1 else 0))) = Some r1"
    "length r1 = 260"
    using d r(2) by (simp_all add: wr_def r1_def)
  have eq: "reply_read_bits os req sft address rsp m st =
    (if nb < 1 \<or> 2000 < nb then response_exception os sft 3 rsp True m st
     else if address - start < 0 \<or> address - start + nb > int (length tab)
     then response_exception os sft 2 rsp False m st
     else response_io_status tab (address - start) nb r1 (?h + 1 + 1) \<bind>
       (\<lambda>(rsp_length, rsp). Some (rsp_length, rsp, m, st)))"
    by (simp only: reply_read_bits_def Let_def nb r r1 tab start_def [symmetric] tab_def [symmetric]
        bind.bind_lunit prod.case)
  show ?thesis
    unfolding eq
  proof (rule replies_ranges [OF s])
    assume "\<not> (nb < 1 \<or> 2000 < nb)" "\<not> (address - start < 0 \<or> address - start + nb > int (length tab))"
    then obtain k a where ka: "nb = int k" "address - start = int a" "int k \<le> 2000" "a + k \<le> length tab"
      by (rule table_range) simp_all
    have nbb: "nb_bytes k \<le> 250" using ka(3) nb_bytes_bound [of k 250] by simp
    obtain j where j: "?h + 1 + 1 = int j" "j \<le> 9"
      using that [of "nat (?h + 1 + 1)"] d(5-7) by simp
    obtain r2 where r2: "response_io_status tab (int a) (int k) r1 (int j) = Some (int j + int (nb_bytes k), r2)"
        "length r2 = length r1"
      by (rule io_status_ok [OF ka(4) tab(2), of j r1]) (use nbb r1 j in auto)
    show "replies m st (response_io_status tab (address - start) nb r1 (?h + 1 + 1) \<bind>
       (\<lambda>(rsp_length, rsp). Some (rsp_length, rsp, m, st)))"
      using d nbb j r1(2) r2 by (simp add: replies_def ka(1,2))
  qed
qed

lemma read_registers_replies:
  assumes s: "serving mu os st req n rsp m"
  shows "replies m st (reply_read_registers os req sft address rsp m st)"
proof -
  note d = servingD [OF s]
  let ?in = "sft_function sft = 4" and ?h = "header_length (be st)"
  define start where "start = (if ?in then mb_start_input_registers m else mb_start_registers m)"
  define tab where "tab = (if ?in then mb_tab_input_registers m else mb_tab_registers m)"
  have tab: "(if ?in then mb_nb_input_registers m else mb_nb_registers m) = int (length tab)"
    using d(2) by (simp add: tab_def mapping_ok_def)
  obtain nb where nb: "rd16 req (?h + 3) = Some nb"
    by (rule field_ok [OF s, of 3]) auto
  obtain r where r: "be_build_response_basis (be st) sft rsp = Some (?h + 1, r)" "length r = 260"
    by (rule build_ok [OF s])
  define r1 where "r1 = r[nat (?h + 1) := word_of_int (push_bit 1 nb)]"
  have r1: "wr r (?h + 1) (word_of_int (push_bit 1 nb)) = Some r1" "length r1 = 260"
    using d r(2) by (simp_all add: wr_def r1_def)
  have eq: "reply_read_registers os req sft address rsp m st =
    (if nb < 1 \<or> 125 < nb then response_exception os sft 3 rsp True m st
     else if address - start < 0 \<or> address - start + nb > int (length tab)
     then response_exception os sft 2 rsp False m st
     else response_registers tab (address - start) nb r1 (?h + 1 + 1) \<bind>
       (\<lambda>(rsp_length, rsp). Some (rsp_length, rsp, m, st)))"
    by (simp only: reply_read_registers_def Let_def nb r r1 tab start_def [symmetric] tab_def [symmetric]
        bind.bind_lunit prod.case)
  show ?thesis
    unfolding eq
  proof (rule replies_ranges [OF s])
    assume "\<not> (nb < 1 \<or> 125 < nb)" "\<not> (address - start < 0 \<or> address - start + nb > int (length tab))"
    then obtain k a where ka: "nb = int k" "address - start = int a" "int k \<le> 125" "a + k \<le> length tab"
      by (rule table_range) simp_all
    obtain j where j: "?h + 1 + 1 = int j" "j \<le> 9"
      using that [of "nat (?h + 1 + 1)"] d(5-7) by simp
    obtain r2 where r2: "response_registers tab (int a) (int k) r1 (int j) = Some (int j + 2 * int k, r2)"
        "length r2 = length r1"
      by (rule registers_ok [OF ka(4), of j r1]) (use ka(3) r1 j in auto)
    show "replies m st (response_registers tab (address - start) nb r1 (?h + 1 + 1) \<bind>
       (\<lambda>(rsp_length, rsp). Some (rsp_length, rsp, m, st)))"
      using d ka(3) j r1(2) r2 by (simp add: replies_def ka(1,2))
  qed
qed

text \<open>The cases that change one cell.\<close>

lemma cell_range:
  assumes "\<not> (i < 0 \<or> int (length tab) \<le> i)"
  shows "wr tab i v = Some (tab[nat i := v])" "rd tab i = Some (tab ! nat i)"
  using assms by (simp_all add: wr_Some rd_Some)

lemma replies_range:
  assumes "serving mu os st req n rsp m" "\<not> bad_address \<Longrightarrow> replies m st x"
  shows "replies m st (if bad_address then response_exception os sft e rsp flush m st else x)"
  using exception_replies [OF assms(1)] assms(2) by simp

lemma echo_replies:
  assumes "serving mu os st req n rsp m" "mapping_ok m'" "same_layout m m'"
  shows "replies m st (echo_request req n rsp \<bind> (\<lambda>(rsp_length, rsp). Some (rsp_length, rsp, m', st)))"
proof -
  obtain r where "echo_request req n rsp = Some (n, r)" "length r = 260"
    by (rule echo_ok [OF assms(1)])
  then show ?thesis using servingD [OF assms(1)] assms(2,3) by (simp add: replies_def)
qed

lemma confirm_replies:
  assumes "serving mu os st req n rsp m" "mapping_ok m'" "same_layout m m'"
  shows "replies m st (confirm_write (be st) req sft rsp \<bind> (\<lambda>(rsp_length, rsp). Some (rsp_length, rsp, m', st)))"
proof -
  obtain r where "confirm_write (be st) req sft rsp = Some (header_length (be st) + 5, r)" "length r = 260"
    by (rule confirm_ok [OF assms(1)])
  then show ?thesis using servingD [OF assms(1)] assms(2,3) by (simp add: replies_def)
qed

lemma mapping_ok_bits:
  "mapping_ok m \<Longrightarrow> length bs = length (mb_tab_bits m) \<Longrightarrow> list_all is_bit bs \<Longrightarrow> mapping_ok (m\<lparr>mb_tab_bits := bs\<rparr>)"
  by (simp add: mapping_ok_def)

lemma mapping_ok_registers:
  "mapping_ok m \<Longrightarrow> length vs = length (mb_tab_registers m) \<Longrightarrow> mapping_ok (m\<lparr>mb_tab_registers := vs\<rparr>)"
  by (simp add: mapping_ok_def)

lemma mapping_okD:
  assumes "mapping_ok m"
  shows "mb_nb_bits m = int (length (mb_tab_bits m))" "mb_nb_registers m = int (length (mb_tab_registers m))"
    "list_all is_bit (mb_tab_bits m)"
  using assms by (simp_all add: mapping_ok_def)

lemma write_coil_replies:
  assumes s: "serving mu os st req n rsp m"
  shows "replies m st (reply_write_single_coil os req n sft address rsp m st)"
proof -
  note d = servingD [OF s] and ok = mapping_okD [OF servingD(2) [OF s]]
  obtain v where v: "rd16 req (header_length (be st) + 3) = Some v"
    by (rule field_ok [OF s, of 3]) auto
  have is_bit: "is_bit (if c then 1 else 0)" for c by (simp add: is_bit_def)
  show ?thesis
    unfolding reply_write_single_coil_def Let_def ok(1)
  proof (rule replies_range [OF s])
    assume r: "\<not> (address - mb_start_bits m < 0 \<or> int (length (mb_tab_bits m)) \<le> address - mb_start_bits m)"
    have "mapping_ok (m\<lparr>mb_tab_bits := (mb_tab_bits m)[nat (address - mb_start_bits m) := if v \<noteq> 0 then 1 else 0]\<rparr>)"
      by (rule mapping_ok_bits [OF d(2)]) (simp_all add: list_all_update ok(3) is_bit)
    then show "replies m st (rd16 req (header_length (be st) + 3) \<bind> (\<lambda>data.
        if data = 65280 \<or> data = 0 then
          wr (mb_tab_bits m) (address - mb_start_bits m) (if data \<noteq> 0 then 1 else 0) \<bind> (\<lambda>tab.
          echo_request req n rsp \<bind> (\<lambda>(rsp_length, rsp).
          Some (rsp_length, rsp, m\<lparr>mb_tab_bits := tab\<rparr>, st)))
        else response_exception os sft 3 rsp False m st))"
      by (simp only: v bind.bind_lunit cell_range(1) [OF r])
        (simp add: echo_replies [OF s] exception_replies [OF s])
  qed
qed

lemma write_register_replies:
  assumes s: "serving mu os st req n rsp m"
  shows "replies m st (reply_write_single_register os req n sft address rsp m st)"
proof -
  note d = servingD [OF s] and ok = mapping_okD [OF servingD(2) [OF s]]
  obtain v where v: "rd16 req (header_length (be st) + 3) = Some v"
    by (rule field_ok [OF s, of 3]) auto
  show ?thesis
    unfolding reply_write_single_register_def Let_def ok(2)
    by (rule replies_range [OF s], simp only: v bind.bind_lunit)
      (simp add: cell_range echo_replies [OF s] mapping_ok_registers d(2))
qed

lemma mask_write_replies:
  assumes s: "serving mu os st req n rsp m"
  shows "replies m st (reply_mask_write_register os req n sft address rsp m st)"
proof -
  note d = servingD [OF s] and ok = mapping_okD [OF servingD(2) [OF s]]
  obtain v where v: "rd16 req (header_length (be st) + 3) = Some v"
    by (rule field_ok [OF s, of 3]) auto
  obtain w where w: "rd16 req (header_length (be st) + 5) = Some w"
    by (rule field_ok [OF s, of 5]) auto
  show ?thesis
    unfolding reply_mask_write_register_def Let_def ok(2)
    by (rule replies_range [OF s], simp only: v w bind.bind_lunit option.map)
      (simp add: cell_range echo_replies [OF s] mapping_ok_registers d(2))
qed

text \<open>The cases that change a range.\<close>

lemma write_coils_replies:
  assumes s: "serving mu os st req n rsp m"
  shows "replies m st (reply_write_multiple_coils os req sft address rsp m st)"
proof -
  note d = servingD [OF s] and ok = mapping_okD [OF servingD(2) [OF s]]
  let ?h = "header_length (be st)" and ?i = "address - mb_start_bits m" and ?tab = "mb_tab_bits m"
  obtain nb where nb: "rd16 req (?h + 3) = Some nb" by (rule field_ok [OF s, of 3]) auto
  obtain c where c: "rd req (?h + 5) = Some c" by (rule byte_ok [OF s, of 5]) auto
  show ?thesis
    unfolding reply_write_multiple_coils_def Let_def ok(1) nb c option.map bind.bind_lunit
  proof (rule replies_ranges [OF s])
    assume "\<not> (nb < 1 \<or> 1968 < nb \<or> uint c * 8 < nb)" "\<not> (?i < 0 \<or> int (length ?tab) < ?i + nb)"
    then have "\<not> (nb < 1 \<or> 1968 < nb)" "\<not> (?i < 0 \<or> int (length ?tab) < ?i + nb)" by simp_all
    then obtain k a where ka: "nb = int k" "?i = int a" "int k \<le> 1968" "a + k \<le> length ?tab"
      by (rule table_range)
    define data where "data = drop (nat (?h + 6)) req"
    have "nat (?h + 6) + 246 \<le> length req" using d(4,5) by (simp add: nat_le_iff le_nat_iff flip: of_nat_le_iff [where 'a = int])
    then have room: "nat (int k) \<le> 8 * length data" "a + nat (int k) \<le> length ?tab"
      using ka(3,4) by (simp_all add: data_def)
    note run = set_bits_from_bytes_run [OF room]
    obtain tab where tab: "modbus_set_bits_from_bytes ?tab (int a) (int k) data = Some tab"
      by (rule that [OF run])
    have ok': "list_all is_bit tab" "length tab = length ?tab"
      using set_bits_from_bytes_is_bit [OF room ok(3) tab] by simp_all
    show "replies m st (modbus_set_bits_from_bytes ?tab ?i nb (drop (nat (?h + 6)) req) \<bind> (\<lambda>tab.
        confirm_write (be st) req sft rsp \<bind> (\<lambda>(rsp_length, rsp).
        Some (rsp_length, rsp, m\<lparr>mb_tab_bits := tab\<rparr>, st))))"
      using confirm_replies [OF s mapping_ok_bits [OF d(2) ok'(2,1)]]
      by (simp add: ka(1,2) tab flip: data_def)
  qed
qed

lemma write_registers_replies:
  assumes s: "serving mu os st req n rsp m"
  shows "replies m st (reply_write_multiple_registers os req sft address rsp m st)"
proof -
  note d = servingD [OF s] and ok = mapping_okD [OF servingD(2) [OF s]]
  let ?h = "header_length (be st)" and ?i = "address - mb_start_registers m" and ?tab = "mb_tab_registers m"
  obtain nb where nb: "rd16 req (?h + 3) = Some nb" by (rule field_ok [OF s, of 3]) auto
  obtain c where c: "rd req (?h + 5) = Some c" by (rule byte_ok [OF s, of 5]) auto
  show ?thesis
    unfolding reply_write_multiple_registers_def Let_def ok(2) nb c option.map bind.bind_lunit
  proof (rule replies_ranges [OF s])
    assume "\<not> (nb < 1 \<or> 123 < nb \<or> uint c \<noteq> nb * 2)" "\<not> (?i < 0 \<or> int (length ?tab) < ?i + nb)"
    then have "\<not> (nb < 1 \<or> 123 < nb)" "\<not> (?i < 0 \<or> int (length ?tab) < ?i + nb)" by simp_all
    then obtain k a where ka: "nb = int k" "?i = int a" "int k \<le> 123" "a + k \<le> length ?tab"
      by (rule table_range)
    obtain tab where tab: "store_registers req ?h (int a) (int k) 6 ?tab = Some tab" "length tab = length ?tab"
      by (rule store_ok [OF ka(4), of ?h 6 req]) (use d ka(3) in auto)
    show "replies m st (store_registers req ?h ?i nb 6 ?tab \<bind> (\<lambda>tab.
        confirm_write (be st) req sft rsp \<bind> (\<lambda>(rsp_length, rsp).
        Some (rsp_length, rsp, m\<lparr>mb_tab_registers := tab\<rparr>, st))))"
      using confirm_replies [OF s mapping_ok_registers [OF d(2) tab(2)]] by (simp add: ka(1,2) tab(1))
  qed
qed

lemma write_and_read_replies:
  assumes s: "serving mu os st req n rsp m"
  shows "replies m st (reply_write_and_read_registers os req sft address rsp m st)"
proof -
  note d = servingD [OF s] and ok = mapping_okD [OF servingD(2) [OF s]]
  let ?h = "header_length (be st)" and ?i = "address - mb_start_registers m" and ?tab = "mb_tab_registers m"
  obtain nb where nb: "rd16 req (?h + 3) = Some nb" by (rule field_ok [OF s, of 3]) auto
  obtain wa where wa: "rd16 req (?h + 5) = Some wa" by (rule field_ok [OF s, of 5]) auto
  obtain wn where wn: "rd16 req (?h + 7) = Some wn" by (rule field_ok [OF s, of 7]) auto
  obtain c where c: "rd req (?h + 9) = Some c" by (rule byte_ok [OF s, of 9]) auto
  let ?j = "wa - mb_start_registers m"
  obtain r where r: "be_build_response_basis (be st) sft rsp = Some (?h + 1, r)" "length r = 260"
    by (rule build_ok [OF s])
  define r1 where "r1 = r[nat (?h + 1) := word_of_int (push_bit 1 nb)]"
  have r1: "wr r (?h + 1) (word_of_int (push_bit 1 nb)) = Some r1" "length r1 = 260"
    using d r(2) by (simp_all add: wr_def r1_def)
  show ?thesis
    unfolding reply_write_and_read_registers_def Let_def ok(2) nb wa wn c option.map bind.bind_lunit r
      prod.case r1(1)
  proof (rule replies_ranges [OF s])
    assume v: "\<not> (wn < 1 \<or> 121 < wn \<or> nb < 1 \<or> 125 < nb \<or> uint c \<noteq> wn * 2)"
      and a: "\<not> (?i < 0 \<or> int (length ?tab) < ?i + nb \<or> ?j < 0 \<or> int (length ?tab) < ?j + wn)"
    obtain k a where ka: "nb = int k" "?i = int a" "int k \<le> 125" "a + k \<le> length ?tab"
      by (rule table_range [of nb 125 ?i "length ?tab"]) (use v a in auto)
    obtain l b where lb: "wn = int l" "?j = int b" "int l \<le> 121" "b + l \<le> length ?tab"
      by (rule table_range [of wn 121 ?j "length ?tab"]) (use v a in auto)
    obtain tab where tab: "store_registers req ?h (int b) (int l) 10 ?tab = Some tab" "length tab = length ?tab"
      by (rule store_ok [OF lb(4), of ?h 10 req]) (use d lb(3) in auto)
    obtain j where j: "?h + 1 + 1 = int j" "j \<le> 9"
      using that [of "nat (?h + 1 + 1)"] d(5-7) by simp
    obtain r2 where r2: "response_registers tab (int a) (int k) r1 (int j) = Some (int j + 2 * int k, r2)"
        "length r2 = length r1"
      by (rule registers_ok [of a k tab j r1]) (use ka(3,4) tab(2) r1 j in auto)
    show "replies m st (store_registers req ?h ?j wn 10 ?tab \<bind> (\<lambda>tab.
        response_registers tab ?i nb r1 (?h + 1 + 1) \<bind> (\<lambda>(rsp_length, rsp).
        Some (rsp_length, rsp, m\<lparr>mb_tab_registers := tab\<rparr>, st))))"
      using d ka(3) j r1(2) r2 mapping_ok_registers [OF d(2) tab(2)]
      by (simp add: replies_def ka(1,2) lb(1,2) tab(1))
  qed
qed

lemma report_slave_id_replies:
  assumes s: "serving mu os st req n rsp m"
  shows "replies m st (reply_report_slave_id sft rsp m st)"
proof -
  note d = servingD [OF s]
  let ?h = "header_length (be st)"
  obtain r where r: "be_build_response_basis (be st) sft rsp = Some (?h + 1, r)" "length r = 260"
    by (rule build_ok [OF s])
  have "length (ascii (''LMB'' @ LIBMODBUS_VERSION_STRING)) = 9"
    by (simp add: ascii_def LIBMODBUS_VERSION_STRING_def)
  then show ?thesis
    using d r by (simp add: reply_report_slave_id_def replies_def Let_def wr_def wr_block_def
        LIBMODBUS_VERSION_STRING_def)
qed

subsection \<open>\<open>modbus_reply\<close>\<close>

definition dispatches :: "mapping \<Rightarrow> 'w mst \<Rightarrow> (int \<times> u8 list \<times> mapping \<times> 'w mst) option option \<Rightarrow> bool" where
  "dispatches m st x \<longleftrightarrow> x = Some None \<or> (\<exists>y. x = map_option Some y \<and> replies m st y)"

lemma dispatches_case: "replies m st y \<Longrightarrow> dispatches m st (map_option Some y)"
  by (auto simp: dispatches_def)

lemma dispatches_none: "dispatches m st (Some None)"
  by (simp add: dispatches_def)

lemma dispatch_replies:
  assumes s: "serving mu os st req n rsp m"
  shows "dispatches m st (reply_dispatch os req n sft address rsp m st)"
  unfolding reply_dispatch_def Let_def
  by (simp add: dispatches_case dispatches_none read_bits_replies [OF s] read_registers_replies [OF s]
      write_coil_replies [OF s] write_register_replies [OF s] write_coils_replies [OF s]
      write_registers_replies [OF s] report_slave_id_replies [OF s] mask_write_replies [OF s]
      write_and_read_replies [OF s] exception_replies [OF s])

text \<open>Completing and sending a message of an admissible length.\<close>

lemma pre_ok:
  assumes "length rsp = 260" "header_length b < n" "n + checksum_length b \<le> max_adu_length b"
  obtains msg where "be_send_msg_pre b rsp n = Some (n + checksum_length b, msg)" "length msg = 260"
proof -
  note sz = be_framing.sizes [of b]
  define k where "k = nat (n - header_length b)"
  define hdr where "hdr = take (nat (header_length b)) rsp"
  define pdu where "pdu = take k (drop (nat (header_length b)) rsp)"
  have adu: "max_adu_length b = header_length b + checksum_length b + 253" by (cases b) simp_all
  have len: "int (length hdr) = header_length b" "length pdu = k" "k \<le> 253" "n = header_length b + int k"
    using assms sz adu by (auto simp: hdr_def pdu_def k_def)
  have "nat n = nat (header_length b) + k" using len(4) sz(1) by simp
  then have "hdr @ pdu = take (nat n) rsp" by (simp only: hdr_def pdu_def take_add)
  moreover have "nat n \<le> length rsp" using assms sz adu by simp
  ultimately have "filled (hdr @ pdu) rsp = rsp" by simp
  then have "be_send_msg_pre b rsp n = Some (n + checksum_length b, filled (be_final b hdr (length pdu) @ pdu @
      be_trailer b (be_final b hdr (length pdu) @ pdu)) rsp)"
    using be_framing.pre [OF len(1), of pdu rsp] len assms sz adu by simp
  moreover have "int (length (be_final b hdr (length pdu) @ pdu @ be_trailer b (be_final b hdr (length pdu) @ pdu)))
      \<le> int (length rsp)"
    using be_framing.length_final [OF len(1), of "length pdu"] be_framing.length_trailer len(2-4) assms(1,3) sz adu by simp
  ultimately show ?thesis using that assms(1) by simp
qed

lemma ret_count_ctx [simp]: "st_ctx (snd (ret_count x st)) = st_ctx st"
  by (cases x; cases "fst x") (auto simp: ret_count_def)

lemma set_rts_ctx [simp]: "st_ctx (call_set_rts os f on st) = st_ctx st"
  by (cases f) (simp_all add: rtu_ioctl_rts_def Let_def split: prod.splits)

lemma send_ok:
  assumes "0 \<le> n" "n \<le> int (length msg)"
  obtains rc st' where "be_send os msg n st = Some (rc, st')" "st_ctx st' = st_ctx st"
proof -
  have all: "rd_block msg 0 n = Some (take (nat n) msg)" using assms by (rule rd_block_all)
  have "\<exists>p. be_send os msg n st = Some p \<and> st_ctx (snd p) = st_ctx st"
  proof (cases "be st")
    case (RTU_backend d)
    show ?thesis
    proof (cases "rtu_rts d = MODBUS_RTU_RTS_NONE")
      case False
      then show ?thesis
        by (simp add: be_send_def RTU_backend rtu_send_def all Let_def do_usleep_def case_prod_unfold)
    qed (simp add: be_send_def RTU_backend rtu_send_def all)
  qed (simp_all add: be_send_def tcp_send_def all)
  then show ?thesis using that by auto
qed

lemma send_msg_ok:
  assumes "length rsp = 260" "header_length (be st) < n" "n + checksum_length (be st) \<le> max_adu_length (be st)"
    and "\<not> link_recovery st"
  obtains rc msg st' where "send_msg os rsp n st = Some (rc, msg, st')" "st_ctx st' = st_ctx st"
proof -
  obtain msg where pre: "be_send_msg_pre (be st) rsp n = Some (n + checksum_length (be st), msg)" "length msg = 260"
    by (rule pre_ok [OF assms(1-3)])
  have "0 \<le> n + checksum_length (be st)" "n + checksum_length (be st) \<le> int (length msg)"
    using assms(1-3) pre(2) be_framing.sizes [of "be st"] by (cases "be st"; simp)+
  then obtain rc st1 where snd: "be_send os msg (n + checksum_length (be st)) st = Some (rc, st1)" "st_ctx st1 = st_ctx st"
    by (rule send_ok)
  then have "send_loop os msg (n + checksum_length (be st)) st = Some (rc, st1)"
    using assms(4) by (simp add: send_loop.simps)
  then have "send_msg os rsp n st = Some (if rc > 0 \<and> rc \<noteq> n + checksum_length (be st)
      then (-1, msg, set_errno EMBBADDATA st1) else (rc, msg, st1))"
    using pre(1) by (simp add: send_msg_def)
  then show ?thesis using that snd(2) by (cases "rc > 0 \<and> rc \<noteq> n + checksum_length (be st)") simp_all
qed

lemma reply_returns:
  assumes "settles mu os" "mapping_ok m" "max_adu_length (be st) \<le> int (length req)"
    and "header_length (be st) + checksum_length (be st) < n" "n \<le> max_adu_length (be st)"
    and "\<not> link_recovery st"
  shows "\<exists>rc m' st'. modbus_reply os The_ctx req n m st = Some (rc, m', st') \<and> mapping_ok m' \<and>
    same_layout m m' \<and> st_ctx st' = st_ctx st"
proof -
  let ?h = "header_length (be st)"
  note sz = be_framing.sizes [of "be st"]
  have s: "serving mu os st req (n - checksum_length (be st)) (uninit os 260) m"
    using assms sz by (simp add: serving_def)
  note d = servingD [OF s]
  obtain v where v: "rd req (?h - 1) = Some v" using d(4,5) by (simp add: rd_Some)
  obtain f where f: "rd req ?h = Some f" using d(4,5) by (simp add: rd_Some)
  obtain a where a: "rd16 req (?h + 1) = Some a" by (rule field_ok [OF s, of 1]) auto
  obtain t where t: "be_prepare_response_tid (be st) req n = Some (t, n - checksum_length (be st))"
    using be_framing.prepare [of "take (nat ?h) req" "be st" "drop (nat ?h) req" n] d(4,5) by (simp add: nat_le_iff)
  define sft where "sft = \<lparr>sft_slave = uint v, sft_function = uint f, sft_t_id = t\<rparr>"
  have run: "modbus_reply os The_ctx req n m st =
      reply_dispatch os req (n - checksum_length (be st)) sft a (uninit os 260) m st \<bind> (\<lambda>r.
      case r of None \<Rightarrow> Some (-1, m, set_errno ENOPROTOOPT st)
      | Some (rsp_length, rsp, m', st') \<Rightarrow>
          if silent_broadcast (uint v) st' then Some (0, m', st')
          else send_msg os rsp rsp_length st' \<bind> (\<lambda>(rc, rsp, st). Some (rc, m', st)))"
    by (simp add: modbus_reply_def v f a t sft_def)
  from dispatch_replies [OF s, of sft a] show ?thesis
    unfolding dispatches_def
  proof (elim disjE exE conjE)
    assume "reply_dispatch os req (n - checksum_length (be st)) sft a (uninit os 260) m st = Some None"
    then show ?thesis using run assms(2) by simp
  next
    fix x
    assume x: "reply_dispatch os req (n - checksum_length (be st)) sft a (uninit os 260) m st = map_option Some x"
      and "replies m st x"
    then obtain k rsp m' st1 where r: "x = Some (k, rsp, m', st1)" "st_ctx st1 = st_ctx st" "mapping_ok m'"
        "same_layout m m'" "?h < k" "k + checksum_length (be st) \<le> max_adu_length (be st)" "length rsp = 260"
      by (auto simp: replies_def)
    obtain rc msg st2 where "send_msg os rsp k st1 = Some (rc, msg, st2)" "st_ctx st2 = st_ctx st1"
      by (rule send_msg_ok [of rsp st1 k os]) (use r assms(6) in simp_all)
    then show ?thesis using run x r by simp
  qed
qed

text \<open>C4: \<open>modbus_reply\<close>, without link recovery, called with a buffer of the backend's maximal frame size, whatever bytes it
  holds, and any length from one function byte up to that size: it returns, stays inside the
  buffer, the tables and its response buffer, and leaves a well-formed mapping with the same
  sizes and start addresses.\<close>

theorem modbus_reply_safe:
  assumes "settles mu os" "mapping_ok m" "max_adu_length (be st) \<le> int (length req)"
    and "header_length (be st) + checksum_length (be st) < n" "n \<le> max_adu_length (be st)"
    and "\<not> link_recovery st"
  shows "\<exists>rc m' st'. modbus_reply os The_ctx req n m st = Some (rc, m', st') \<and> mapping_ok m' \<and>
    same_layout m m' \<and> st_ctx st' = st_ctx st"
  by (rule reply_returns [OF assms])

theorem modbus_reply_safe_witness:
  "\<exists>rc m' st'. modbus_reply wire_os The_ctx (0 # 15 # 255 # replicate 253 255) 256 small_mapping (on_wire rtu_ctx []) =
      Some (rc, m', st') \<and> mapping_ok m' \<and> same_layout small_mapping m' \<and> st_ctx st' = rtu_ctx"
  using modbus_reply_safe [OF wire_settles small_mapping_ok, of "on_wire rtu_ctx []"
      "0 # 15 # 255 # replicate 253 255" 256] rtu_ctx_backend
  by (auto simp: rtu_ctx_def)

end
