(* ===== verification/Modbus_Receive_Safe.thy ===== *)
theory Modbus_Receive_Safe
  imports Modbus_Receive
begin

text \<open>
  Receiving is safe whatever arrives: \<open>_modbus_receive_msg\<close> returns and stays inside its buffer,
  and a length it reports is that of a frame with at least a function code.
\<close>

text \<open>
  Documented behaviour of any system: an interrupted \<open>select\<close> has used up a signal, and \<open>recv\<close>
  and \<open>read\<close> store no more than they were asked for. Nothing is said about what arrives, nor
  that anything does.
\<close>

definition bounded_io :: "('w \<Rightarrow> nat) \<Rightarrow> 'w os \<Rightarrow> bool" where
  "bounded_io mu os \<longleftrightarrow> settles mu os \<and>
     (\<forall>s tv w e tv' w'. os_select os s tv w = (Inl e, tv', w') \<longrightarrow> e = EINTR \<longrightarrow> mu w' < mu w) \<and>
     (\<forall>s n w bs w'. 0 \<le> n \<longrightarrow> os_recv os s n w = (Inr bs, w') \<longrightarrow> int (length bs) \<le> n) \<and>
     (\<forall>s n w bs w'. 0 \<le> n \<longrightarrow> os_read os s n w = (Inr bs, w') \<longrightarrow> int (length bs) \<le> n)"

lemma bounded_ioD:
  assumes "bounded_io mu os"
  shows "settles mu os"
    and "os_select os s tv w = (Inl EINTR, tv', w') \<Longrightarrow> mu w' < mu w"
    and "0 \<le> n \<Longrightarrow> os_recv os s n w = (Inr bs, w') \<Longrightarrow> int (length bs) \<le> n"
    and "0 \<le> n \<Longrightarrow> os_read os s n w = (Inr bs, w') \<Longrightarrow> int (length bs) \<le> n"
  using assms unfolding bounded_io_def by blast+

lemma select_safe:
  assumes "bounded_io mu os"
  shows "\<exists>rc tv' st'. be_select os tv st = Some (rc, tv', st') \<and> st_ctx st' = st_ctx st"
  unfolding be_select_eq
proof (induction "mu (st_world st)" arbitrary: st tv rule: less_induct)
  case less
  obtain r tv' w' where sel: "os_select os (ctx_s (st_ctx st)) tv (st_world st) = (r, tv', w')"
    by (cases "os_select os (ctx_s (st_ctx st)) tv (st_world st)")
  show ?case
  proof (cases "r = Inl EINTR")
    case True
    then have "mu w' < mu (st_world st)" using bounded_ioD(2) [OF assms] sel by blast
    then show ?thesis
      using less [of "st\<lparr>st_errno := EINTR, st_world := w'\<rparr>" tv'] sel True
      by (simp add: tcp_select.simps [of os tv st])
  next
    case False
    then show ?thesis
      using sel by (cases r) (auto simp: tcp_select.simps [of os tv st] Let_def)
  qed
qed

lemma recv_safe:
  assumes "bounded_io mu os" "0 \<le> k" "0 \<le> n" "k + n \<le> int (length msg)"
  shows "\<exists>rc msg' st'. be_recv os msg k n st = Some (rc, msg', st') \<and> st_ctx st' = st_ctx st \<and>
    length msg' = length msg \<and> -1 \<le> rc \<and> rc \<le> n"
proof -
  have ret: "\<exists>rc msg' st'. ret_bytes x msg k st = Some (rc, msg', st') \<and> st_ctx st' = st_ctx st \<and>
      length msg' = length msg \<and> -1 \<le> rc \<and> rc \<le> n"
    if "\<And>bs w'. x = (Inr bs, w') \<Longrightarrow> int (length bs) \<le> n" for x
    using that assms by (cases x; cases "fst x") (auto simp: ret_bytes_def wr_block_def)
  show ?thesis
    using ret [OF bounded_ioD(3) [OF assms(1,3)]] ret [OF bounded_ioD(4) [OF assms(1,3)]]
    by (simp add: be_recv_def tcp_recv_def rtu_recv_def split: backend.splits)
qed

lemma select_failed_safe:
  assumes "settles mu os"
  shows "\<exists>st'. receive_select_failed os st = Some st' \<and> (\<not> link_recovery st \<longrightarrow> st_ctx st' = st_ctx st)"
proof -
  obtain st' where "sleep_and_flush os st = Some st'" using sleep_and_flush_returns [OF assms] by blast
  then show ?thesis by (simp add: receive_select_failed_def Let_def)
qed

text \<open>The next phase stays inside the longest frame.\<close>

lemma advance_to_data_safe:
  assumes "max_adu_length b \<le> int (length msg)"
  shows "\<exists>nxt. advance_to_data b ty msg k = Some nxt \<and>
    (\<forall>n s. nxt = Some (n, s) \<longrightarrow> 0 \<le> n \<and> checksum_length b \<le> n \<and> k + n \<le> max_adu_length b \<and> s = STEP_DATA)"
proof -
  have "header_length b + 9 < int (length msg)" "1 \<le> header_length b"
    using assms by (cases b; simp)+
  then have rds: "rd msg (header_length b + j) = Some (msg ! nat (header_length b + j))"
    if "0 \<le> j" "j \<le> 9" for j
    using that by (simp add: rd_Some)
  have "0 \<le> checksum_length b" by (cases b) simp_all
  then show ?thesis
    using rds [of 0] rds [of 1] rds [of 5] rds [of 9] uint_u8_range
    by (auto simp: advance_to_data_def compute_data_length_after_meta_def Let_def)
qed

primrec step_rank :: "step \<Rightarrow> nat" where
  "step_rank STEP_FUNCTION = 2"
| "step_rank STEP_META = 1"
| "step_rank STEP_DATA = 0"

text \<open>
  The variables of the loop between two reads: \<open>k\<close> bytes are there, \<open>n\<close> of the phase are missing.
\<close>

definition phase_ok :: "backend \<Rightarrow> step \<Rightarrow> int \<Rightarrow> int \<Rightarrow> bool" where
  "phase_ok b step k n \<longleftrightarrow> 0 \<le> k \<and> 0 \<le> n \<and> k + n \<le> max_adu_length b \<and>
     (case step of
        STEP_FUNCTION \<Rightarrow> k + n = header_length b + 1 \<and> n \<noteq> 0
      | STEP_META \<Rightarrow> header_length b + 1 \<le> k \<and> n \<noteq> 0
      | STEP_DATA \<Rightarrow> header_length b + 1 \<le> k \<and> header_length b + 1 + checksum_length b \<le> k + n)"

lemma phase_part: "phase_ok b step k n \<Longrightarrow> 0 < got \<Longrightarrow> got < n \<Longrightarrow> phase_ok b step (k + got) (n - got)"
  by (auto simp: phase_ok_def split: step.splits)

lemma phase_done:
  assumes "phase_ok b step k n" "n = 0"
  shows "step = STEP_DATA" "header_length b + 1 + checksum_length b \<le> k" "k \<le> max_adu_length b"
  using assms by (cases step; simp add: phase_ok_def)+

lemma phase_next:
  assumes "max_adu_length b \<le> int (length msg)" "phase_ok b step k n"
  shows "\<exists>nxt. receive_advance b ty msg (k + n) step = Some nxt \<and>
    (\<forall>n' s. nxt = Some (n', s) \<longrightarrow> phase_ok b s (k + n) n' \<and> (n' = 0 \<or> step_rank s < step_rank step))"
proof -
  have h: "1 \<le> header_length b" "header_length b + 10 < max_adu_length b" by (cases b; simp)+
  then have f: "rd msg (header_length b) = Some (msg ! nat (header_length b))"
    using assms(1) by (simp add: rd_Some)
  define f where "f = uint (msg ! nat (header_length b))"
  have meta: "0 \<le> compute_meta_length_after_function f ty" "compute_meta_length_after_function f ty \<le> 9"
    by (simp_all add: compute_meta_length_after_function_def)
  obtain nxt where adv: "advance_to_data b ty msg (k + n) = Some nxt"
      "\<And>n' s. nxt = Some (n', s) \<Longrightarrow> 0 \<le> n' \<and> checksum_length b \<le> n' \<and> k + n + n' \<le> max_adu_length b \<and>
        s = STEP_DATA"
    using advance_to_data_safe [OF assms(1), of ty "k + n"] by blast
  have data: "phase_ok b s (k + n) n'" "s = STEP_DATA" if "nxt = Some (n', s)" "header_length b + 1 \<le> k + n" for n' s
    using adv(2) [OF that(1)] that(2) assms(2) by (simp_all add: phase_ok_def)
  show ?thesis
  proof (cases step)
    case STEP_FUNCTION
    show ?thesis
    proof (cases "compute_meta_length_after_function f ty = 0")
      case True
      then have "receive_advance b ty msg (k + n) step = Some nxt"
        using f adv(1) STEP_FUNCTION by (simp add: receive_advance_def f_def)
      then show ?thesis using data assms(2) STEP_FUNCTION by (auto simp: phase_ok_def)
    next
      case False
      then have "receive_advance b ty msg (k + n) step = Some (Some (compute_meta_length_after_function f ty, STEP_META))"
        using f STEP_FUNCTION by (simp add: receive_advance_def f_def)
      then show ?thesis using False meta assms(2) h STEP_FUNCTION by (auto simp: phase_ok_def)
    qed
  next
    case STEP_META
    then show ?thesis using data adv(1) assms(2) by (auto simp: receive_advance_def phase_ok_def)
  next
    case STEP_DATA
    then show ?thesis using assms(2) by (auto simp: receive_advance_def phase_ok_def)
  qed
qed

lemma receive_loop_round:
  assumes "n \<noteq> 0" "be_select os tv st = Some (rc, tv1, st1)" "rc \<noteq> -1"
    and "be_recv os msg k n st1 = Some (got, msg', st2)" "0 < got" "n' = (n - got) mod 2 ^ 32"
  shows "receive_loop os ty n msg k step tv st =
    (if n' = 0 then receive_advance (be st2) ty msg' (k + got) step else Some (Some (n', step))) \<bind>
    receive_continue os ty msg' (k + got) tv1 st2"
  using assms by (subst receive_loop.simps) (simp add: Let_def receive_continue_def [abs_def])

lemma loop_end: "receive_loop os ty 0 msg k step tv st = Some (True, msg, k, st)"
  by (simp add: receive_loop.simps)

lemma receive_loop_safe:
  assumes "bounded_io mu os"
    and "max_adu_length (be st) \<le> int (length msg)" "length msg < 2 ^ 32" "phase_ok (be st) step k n"
  shows "\<exists>ok msg' k' st'. receive_loop os ty n msg k step tv st = Some (ok, msg', k', st') \<and>
    length msg' = length msg \<and>
    (ok \<longrightarrow> st_ctx st' = st_ctx st \<and> header_length (be st) + 1 + checksum_length (be st) \<le> k' \<and>
       k' \<le> max_adu_length (be st)) \<and>
    (\<not> link_recovery st \<longrightarrow> st_ctx st' = st_ctx st)"
  using assms(2-4)
proof (induction "(step_rank step, nat n)" arbitrary: n msg k step tv st
    rule: wf_induct_rule [OF wf_lex_prod [OF wf_less_than wf_less_than]])
  case 1
  note IH = "1.hyps" and p = "1.prems"
  have ph: "0 \<le> k" "0 \<le> n" "k + n \<le> max_adu_length (be st)" using p(3) by (simp_all add: phase_ok_def)
  show ?case
  proof (cases "n = 0")
    case True
    then show ?thesis using phase_done [OF p(3) True] by (auto simp: loop_end)
  next
    case False
    obtain rc tv1 st1 where s1: "be_select os tv st = Some (rc, tv1, st1)" "st_ctx st1 = st_ctx st"
      using select_safe [OF assms(1)] by blast
    obtain rc2 msg2 st2 where r: "be_recv os msg k n st1 = Some (rc2, msg2, st2)" "st_ctx st2 = st_ctx st1"
        "length msg2 = length msg" "-1 \<le> rc2" "rc2 \<le> n"
      using recv_safe [OF assms(1) ph(1,2), of msg st1] p(1) ph(3) by fastforce
    consider "rc = -1" | "rc \<noteq> -1" "rc2 \<le> 0" | "rc \<noteq> -1" "0 < rc2" by linarith
    then show ?thesis
    proof cases
      case 1
      obtain st' where "receive_select_failed os st1 = Some st'" "\<not> link_recovery st1 \<longrightarrow> st_ctx st' = st_ctx st1"
        using select_failed_safe [OF bounded_ioD(1) [OF assms(1)], of st1] by blast
      then show ?thesis
        using s1 False 1 by (subst receive_loop.simps) auto
    next
      case 2
      then have "rc2 = 0 \<or> rc2 = -1" using r(4) by linarith
      then show ?thesis
        using s1 r False 2 by (subst receive_loop.simps) (auto simp: receive_recv_failed_def)
    next
      case 3
      have left: "(n - rc2) mod 2 ^ 32 = n - rc2"
        using 3 r(5) p(1,2) ph by simp
      define nxt where "nxt = (if n - rc2 = 0 then receive_advance (be st) ty msg2 (k + rc2) step
        else Some (Some (n - rc2, step)))"
      have "\<exists>y. nxt = Some y \<and> (\<forall>n' s. y = Some (n', s) \<longrightarrow> phase_ok (be st) s (k + rc2) n' \<and>
          (n' = 0 \<or> step_rank s < step_rank step \<or> s = step \<and> n' < n))"
      proof (cases "n = rc2")
        case True
        then show ?thesis
          using phase_next [OF _ p(3), of msg2 ty] p(1) r(3) by (auto simp: nxt_def)
      next
        case False
        then show ?thesis using 3(2) r(5) phase_part [OF p(3) 3(2)] by (simp add: nxt_def)
      qed
      then obtain y where y: "nxt = Some y" "\<And>n' s. y = Some (n', s) \<Longrightarrow> phase_ok (be st) s (k + rc2) n' \<and>
          (n' = 0 \<or> step_rank s < step_rank step \<or> s = step \<and> n' < n)"
        by blast
      have step1: "receive_loop os ty n msg k step tv st = receive_continue os ty msg2 (k + rc2) tv1 st2 y"
        using receive_loop_round [OF False s1(1) 3(1) r(1) 3(2) left [symmetric], of ty step] y(1) r(2) s1(2)
        by (cases "n = rc2") (simp_all add: nxt_def)
      show ?thesis
      proof (cases y)
        case None
        then show ?thesis using step1 r(2,3) s1(2) by (auto simp: receive_continue_def)
      next
        case (Some q)
        obtain n' s where q: "q = (n', s)" by (cases q)
        have f: "phase_ok (be st) s (k + rc2) n'"
          "n' = 0 \<or> step_rank s < step_rank step \<or> s = step \<and> n' < n"
          using y(2) Some q by auto
        define tv2 where "tv2 = (if n' > 0 \<and> (tv_sec (ctx_byte_timeout (st_ctx st2)) > 0 \<or>
          tv_usec (ctx_byte_timeout (st_ctx st2)) > 0) then Some (ctx_byte_timeout (st_ctx st2)) else tv1)"
        have step2: "receive_loop os ty n msg k step tv st = receive_loop os ty n' msg2 (k + rc2) s tv2 st2"
          using step1 Some q by (simp add: receive_continue_def tv2_def)
        show ?thesis
        proof (cases "n' = 0")
          case True
          then show ?thesis
            using step2 phase_done [OF f(1) True] r(2,3) s1(2) by (auto simp: loop_end)
        next
          case False
          then have "((step_rank s, nat n'), step_rank step, nat n) \<in> less_than <*lex*> less_than"
            using f by (auto simp: phase_ok_def)
          from IH [OF this, where msg = msg2 and k = "k + rc2" and st = st2 and tv = tv2] show ?thesis
            using f(1) p(1,2) r(2,3) s1(2) step2 by simp
        qed
      qed
    qed
  qed
qed

lemma check_integrity_safe:
  assumes "2 \<le> k" "k \<le> int (length msg)" "length msg < 2 ^ 16"
  shows "\<exists>rc st'. be_check_integrity os msg k st = Some (rc, st') \<and> (rc = -1 \<or> rc = 0 \<or> rc = k) \<and>
    st_ctx st' = st_ctx st"
proof (cases "be st")
  case (RTU_backend rtu)
  have "k - 2 = int (nat (k - 2))" using assms(1) by simp
  then have "crc16 msg (k - 2) = Some (crc_spec (take (nat (k - 2)) msg))"
    using crc16_run [of "nat (k - 2)" msg] assms by simp
  moreover have "\<exists>v. rd msg i = Some v" if "0 \<le> i" "i < k" for i
    using that assms(2) by (simp add: rd_def)
  from this [of 0] this [of "k - 1"] this [of "k - 2"]
  obtain x y z where "rd msg 0 = Some x" "rd msg (k - 1) = Some y" "rd msg (k - 2) = Some z"
    using assms(1) by auto
  ultimately show ?thesis
    using assms by (auto simp: be_check_integrity_def RTU_backend rtu_check_integrity_def Let_def
        rtu_flush_def ret_unit_def split: prod.splits sum.splits)
qed (use assms in \<open>simp_all add: be_check_integrity_def tcp_check_integrity_def\<close>)

lemma receive_msg_returns:
  assumes "bounded_io mu os" "max_adu_length (be st) \<le> int (length buf)" "length buf < 2 ^ 16"
  shows "\<exists>rc buf' st'. modbus_receive_msg os buf ty st = Some (rc, buf', st') \<and> length buf' = length buf \<and>
    (rc = -1 \<or> rc = 0 \<or>
       header_length (be st) + 1 + checksum_length (be st) \<le> rc \<and> rc \<le> max_adu_length (be st)) \<and>
    (\<not> link_recovery st \<longrightarrow> st_ctx st' = st_ctx st)"
proof -
  have h: "1 \<le> header_length (be st)" "header_length (be st) + 1 \<le> max_adu_length (be st)"
      "0 \<le> checksum_length (be st)"
    by (cases "be st"; simp)+
  obtain ok msg' k' st' where run: "receive_loop os ty (header_length (be st) + 1) buf 0 STEP_FUNCTION
      (initial_timeout ty (st_ctx st)) st = Some (ok, msg', k', st')" "length msg' = length buf"
    and ok: "ok \<Longrightarrow> st_ctx st' = st_ctx st \<and> header_length (be st) + 1 + checksum_length (be st) \<le> k' \<and>
      k' \<le> max_adu_length (be st)"
    and ctx: "\<not> link_recovery st \<Longrightarrow> st_ctx st' = st_ctx st"
    using receive_loop_safe [OF assms(1,2), of STEP_FUNCTION 0 "header_length (be st) + 1" ty
        "initial_timeout ty (st_ctx st)"] assms(3) h by (auto simp: phase_ok_def)
  show ?thesis
  proof (cases "be_is_connected st \<and> ok")
    case True
    then have "2 \<le> k'" "k' \<le> int (length msg')" "length msg' < 2 ^ 16"
      using ok h run(2) assms(2,3) by auto
    then obtain rc st'' where chk: "be_check_integrity os msg' k' st' = Some (rc, st'')"
        "rc = -1 \<or> rc = 0 \<or> rc = k'" "st_ctx st'' = st_ctx st'"
      using check_integrity_safe by blast
    then have "modbus_receive_msg os buf ty st = Some (rc, msg', st'')"
      using True run(1) by (simp add: modbus_receive_msg_def)
    then show ?thesis using chk(2,3) ok True run(2) by auto
  next
    case False
    then have "modbus_receive_msg os buf ty st = Some (-1, buf, st) \<or>
        modbus_receive_msg os buf ty st = Some (-1, msg', st')"
      using run(1) by (auto simp: modbus_receive_msg_def)
    then show ?thesis using run(2) ctx by auto
  qed
qed

text \<open>C5: Whatever arrives on a connection (or fails to), \<open>_modbus_receive_msg\<close> called with a
  buffer of the backend's maximal frame size returns, never writes outside the buffer, and
  reports -1, or 0, or a length between the shortest and the longest frame of the backend.\<close>

theorem receive_msg_safe:
  assumes "bounded_io mu os" "max_adu_length (be st) \<le> int (length buf)" "length buf < 2 ^ 16"
  shows "\<exists>rc buf' st'. modbus_receive_msg os buf ty st = Some (rc, buf', st') \<and> length buf' = length buf \<and>
    (rc = -1 \<or> rc = 0 \<or>
       header_length (be st) + 1 + checksum_length (be st) \<le> rc \<and> rc \<le> max_adu_length (be st)) \<and>
    (\<not> link_recovery st \<longrightarrow> st_ctx st' = st_ctx st)"
  by (rule receive_msg_returns [OF assms])

lemma wire_bounded_io: "bounded_io (\<lambda>w. length (w_in w)) wire_os"
  using wire_settles
  by (auto simp: bounded_io_def wire_os_def wire_select_def wire_recv_def)

theorem receive_msg_safe_witness:
  "\<exists>rc buf' st'. modbus_receive_msg wire_os (replicate 260 0) MSG_INDICATION
      (on_wire tcp_ctx [0, 0, 0, 0, 0, 0, 0, 16, 255, 255, 255, 255, 255, 1, 2]) = Some (rc, buf', st') \<and>
    length buf' = 260 \<and> rc \<le> 260"
  using receive_msg_safe [OF wire_bounded_io, of "on_wire tcp_ctx
    [0, 0, 0, 0, 0, 0, 0, 16, 255, 255, 255, 255, 255, 1, 2]" "replicate 260 0" MSG_INDICATION] by auto

end
