(* ===== verification/Modbuss_Tcp.thy ===== *)
theory Modbuss_Tcp
  imports Modbuss Modbus_Reply_Safe Modbus_Receive_Safe
begin

text \<open>
  The TCP loop of \<open>modbuss.c\<close>: its steps as a transition relation on the variables of
  \<open>run_tcp_server\<close>, the invariant of all reachable states, and the termination of one scan of
  the ready descriptors.
\<close>

subsection \<open>Receiving, whatever the backend\<close>

text \<open>\<open>modbus_receive\<close> leaves the context alone, but for the flag of the serial backend.\<close>

definition flag_only :: "modbus \<Rightarrow> modbus \<Rightarrow> bool" where
  "flag_only c c' \<longleftrightarrow> c' = c \<or>
     (\<exists>d v. ctx_backend c = RTU_backend d \<and>
        c' = c\<lparr>ctx_backend := RTU_backend (d\<lparr>rtu_confirmation_to_ignore := v\<rparr>)\<rparr>)"

lemma flag_only_refl [simp]: "flag_only c c"
  by (simp add: flag_only_def)

lemma flag_only_ignore:
  assumes "st_ctx st' = st_ctx st" "be st = RTU_backend d"
  shows "flag_only (st_ctx st) (st_ctx (set_confirmation_to_ignore v st'))"
  using set_ignore_ctx [of st' d v] assms by (auto simp: flag_only_def)

lemma receive_returns:
  assumes "bounded_io mu os" "max_adu_length (be st) \<le> int (length buf)" "length buf < 2 ^ 16"
    and "\<not> link_recovery st"
  obtains rc buf' st' where "modbus_receive os The_ctx buf st = Some (rc, buf', st')"
    "length buf' = length buf" "flag_only (st_ctx st) (st_ctx st')"
    "rc = -1 \<or> rc = 0 \<or>
       header_length (be st) + 1 + checksum_length (be st) \<le> rc \<and> rc \<le> max_adu_length (be st)"
proof (cases "be st")
  case (RTU_backend d)
  show ?thesis
  proof (cases "rtu_confirmation_to_ignore d")
    case True
    obtain rc buf' st' where "modbus_receive_msg os buf MSG_CONFIRMATION st = Some (rc, buf', st')"
        "length buf' = length buf" "st_ctx st' = st_ctx st"
      using receive_msg_returns [OF assms(1-3), of MSG_CONFIRMATION] assms(4) by blast
    then show ?thesis
      using that [of 0 buf' "set_confirmation_to_ignore False st'"] True flag_only_ignore [OF _ RTU_backend, of st' False]
      by (simp add: modbus_receive_def RTU_backend rtu_receive_def)
  next
    case False
    obtain rc buf' st' where "modbus_receive_msg os buf MSG_INDICATION st = Some (rc, buf', st')"
        "length buf' = length buf" "st_ctx st' = st_ctx st"
        "rc = -1 \<or> rc = 0 \<or>
         header_length (be st) + 1 + checksum_length (be st) \<le> rc \<and> rc \<le> max_adu_length (be st)"
      using receive_msg_returns [OF assms(1-3), of MSG_INDICATION] assms(4) by blast
    then show ?thesis
      using that [of rc buf' "if rc = 0 then set_confirmation_to_ignore True st' else st'"] False
        flag_only_ignore [OF _ RTU_backend, of st' True]
      by (cases "rc = 0") (simp_all add: modbus_receive_def RTU_backend rtu_receive_def)
  qed
next
  case (TCP_backend d)
  then have "modbus_receive os The_ctx buf st = modbus_receive_msg os buf MSG_INDICATION st"
    by (simp add: modbus_receive_def tcp_receive_def)
  then show ?thesis
    using that receive_msg_returns [OF assms(1-3), of MSG_INDICATION] assms(4) by fastforce
next
  case (TCP_PI_backend d)
  then have "modbus_receive os The_ctx buf st = modbus_receive_msg os buf MSG_INDICATION st"
    by (simp add: modbus_receive_def tcp_receive_def)
  then show ?thesis
    using that receive_msg_returns [OF assms(1-3), of MSG_INDICATION] assms(4) by fastforce
qed

subsection \<open>The invariant\<close>

text \<open>
  The listener stays open, the descriptors watched lie between 0 and \<open>highest_socket\<close>, which is
  one of them and fits in an \<open>fd_set\<close>; the mapping is well formed; the context is that of a TCP
  server without link recovery, as \<open>main\<close> creates it.
\<close>

definition server_ok :: "'w server \<Rightarrow> bool" where
  "server_ok sv \<longleftrightarrow>
     finite (sv_connections sv) \<and> sv_listener sv \<in> sv_connections sv \<and>
     (\<forall>fd \<in> sv_connections sv. 0 \<le> fd \<and> fd \<le> sv_highest sv) \<and>
     sv_highest sv \<in> sv_connections sv \<and> sv_highest sv < FD_SETSIZE \<and>
     mapping_ok (sv_mapping sv) \<and> length (sv_query sv) = 260 \<and>
     (\<exists>d. be (sv_st sv) = TCP_backend d) \<and> \<not> link_recovery (sv_st sv)"

lemma server_okD:
  assumes "server_ok sv"
  shows "finite (sv_connections sv)" "sv_listener sv \<in> sv_connections sv"
    "fd \<in> sv_connections sv \<Longrightarrow> 0 \<le> fd" "fd \<in> sv_connections sv \<Longrightarrow> fd \<le> sv_highest sv"
    "sv_highest sv \<in> sv_connections sv" "sv_highest sv < FD_SETSIZE"
  using assms by (simp_all add: server_ok_def)

lemma server_ok_state:
  "server_ok sv \<Longrightarrow> ctx_backend (st_ctx st) = be (sv_st sv) \<Longrightarrow>
     ctx_error_recovery (st_ctx st) = ctx_error_recovery (st_ctx (sv_st sv)) \<Longrightarrow> server_ok (sv\<lparr>sv_st := st\<rparr>)"
  by (simp add: server_ok_def)

lemma close_fd_ctx [simp]: "st_ctx (close_fd os fd st) = st_ctx st"
  by (simp add: close_fd_def)

declare lower_highest.simps [simp del]

lemma lower_highest_spec:
  assumes "l \<in> C" "l \<le> h"
  shows "lower_highest l C h \<in> C \<and> lower_highest l C h \<le> h \<and> l \<le> lower_highest l C h \<and>
    (\<forall>fd \<in> C. fd \<le> h \<longrightarrow> fd \<le> lower_highest l C h)"
  using assms
proof (induction l C h rule: lower_highest.induct)
  case (1 l C h)
  show ?case
  proof (cases "h > l \<and> h \<notin> C")
    case True
    then have "lower_highest l C h = lower_highest l C (h - 1)" by (subst lower_highest.simps) simp
    moreover have "fd \<le> h - 1" if "fd \<in> C" "fd \<le> h" for fd
      using that True by (cases "fd = h") auto
    ultimately show ?thesis using "1.IH" True "1.prems" by auto
  next
    case False
    then have "lower_highest l C h = h" by (subst lower_highest.simps) (simp only: if_False)
    then show ?thesis using False "1.prems" by auto
  qed
qed

lemma accept_ok:
  assumes "server_ok sv"
  shows "server_ok (accept_client os sv)"
proof -
  obtain r w where r: "os_accept os (sv_listener sv) (st_world (sv_st sv)) = (r, w)"
    by (cases "os_accept os (sv_listener sv) (st_world (sv_st sv))")
  show ?thesis
  proof (cases r)
    case (Inl e)
    then show ?thesis using assms r by (auto simp: accept_client_def ret_count_def intro: server_ok_state)
  next
    case (Inr n)
    then show ?thesis
      using assms r server_okD [OF assms]
      by (fastforce simp: accept_client_def ret_count_def server_ok_def close_fd_def)
  qed
qed

lemma drop_ok:
  assumes "server_ok sv" "fd \<noteq> sv_listener sv"
  shows "server_ok (drop_client os fd sv)"
proof -
  note d = server_okD [OF assms(1)]
  have "sv_listener sv \<in> sv_connections sv - {fd}" "sv_listener sv \<le> sv_highest sv"
    using d(2,4) assms(2) by auto
  note low = lower_highest_spec [OF this]
  define h where "h = lower_highest (sv_listener sv) (sv_connections sv - {fd}) (sv_highest sv)"
  have "drop_client os fd sv = sv\<lparr>sv_st := close_fd os fd (sv_st sv), sv_connections := sv_connections sv - {fd},
      sv_highest := h\<rparr>"
    by (simp add: drop_client_def h_def Let_def)
  moreover have "h \<in> sv_connections sv - {fd}" "h < FD_SETSIZE" "\<forall>x \<in> sv_connections sv - {fd}. x \<le> h"
    using low d(4,6) by (simp_all add: h_def)
  ultimately show ?thesis
    using assms by (simp add: server_ok_def close_fd_def)
qed

lemma serve_ok:
  assumes "bounded_io mu os" "server_ok sv" "fd \<noteq> sv_listener sv"
  obtains sv' where "serve_client os fd sv = Some sv'" "server_ok sv'" "sv_listener sv' = sv_listener sv"
    "sv_connections sv - {fd} \<subseteq> sv_connections sv'" "same_layout (sv_mapping sv) (sv_mapping sv')"
proof -
  obtain d where tcp: "be (sv_st sv) = TCP_backend d" using assms(2) by (auto simp: server_ok_def)
  define st0 where "st0 = set_ctx_s fd (sv_st sv)"
  have st0: "be st0 = TCP_backend d" "\<not> link_recovery st0"
    using tcp assms(2) by (simp_all add: st0_def server_ok_def)
  have q: "length (sv_query sv) = 260" "mapping_ok (sv_mapping sv)" using assms(2) by (simp_all add: server_ok_def)
  obtain rc query st1 where rcv: "modbus_receive os The_ctx (sv_query sv) st0 = Some (rc, query, st1)"
      "length query = 260" "flag_only (st_ctx st0) (st_ctx st1)"
      "rc = -1 \<or> rc = 0 \<or> header_length (be st0) + 1 + checksum_length (be st0) \<le> rc \<and> rc \<le> max_adu_length (be st0)"
    using receive_returns [OF assms(1) _ _ st0(2), of "sv_query sv"] q(1) st0(1) by auto
  have ctx1: "st_ctx st1 = st_ctx st0" using rcv(3) st0(1) by (auto simp: flag_only_def)
  obtain rc' m' st2 where rep: "(if rc > 0 then do {
          (rc2, mapping, st) \<leftarrow> modbus_reply os The_ctx query rc (sv_mapping sv) st1;
          Some (if rc2 = -1 then -1 else rc, mapping, st) }
        else Some (rc, sv_mapping sv, st1)) = Some (rc', m', st2)" "mapping_ok m'" "st_ctx st2 = st_ctx st0"
      "same_layout (sv_mapping sv) m'"
  proof (cases "rc > 0")
    case True
    obtain rc2 m' st2 where "modbus_reply os The_ctx query rc (sv_mapping sv) st1 = Some (rc2, m', st2)"
        "mapping_ok m'" "same_layout (sv_mapping sv) m'" "st_ctx st2 = st_ctx st1"
      using reply_returns [OF bounded_ioD(1) [OF assms(1)] q(2), of st1 query rc] True rcv(2,4) st0 ctx1
      by auto
    then show ?thesis using that True ctx1 by simp
  next
    case False
    then show ?thesis using that q(2) ctx1 by simp
  qed
  define sv1 where "sv1 = sv\<lparr>sv_query := query, sv_mapping := m', sv_st := st2\<rparr>"
  have ok1: "server_ok sv1"
    using assms(2) rcv(2) rep(2,3) st0 by (simp add: server_ok_def sv1_def)
  have run: "serve_client os fd sv = Some (if rc' = -1 then drop_client os fd sv1 else sv1)"
    using rcv(1) rep(1) by (simp add: serve_client_def modbus_set_socket_def st0_def [symmetric] sv1_def)
  show ?thesis
  proof (cases "rc' = -1")
    case True
    show ?thesis
      by (rule that [of "drop_client os fd sv1"])
        (use True run drop_ok [OF ok1, of fd os] assms(3) rep(4) in \<open>auto simp: sv1_def drop_client_def Let_def\<close>)
  next
    case False
    show ?thesis by (rule that [of sv1]) (use False run ok1 rep(4) in \<open>auto simp: sv1_def\<close>)
  qed
qed

subsection \<open>Steps\<close>

text \<open>
  The events of the loop: a descriptor that is watched is ready and gets handled, or the world
  moves on (\<open>select\<close>, a signal).
\<close>

inductive server_step :: "'w os \<Rightarrow> 'w server \<Rightarrow> 'w server \<Rightarrow> bool" for os where
  Handle: "fd \<in> sv_connections sv \<Longrightarrow> handle_socket os fd sv = Some sv' \<Longrightarrow> server_step os sv sv'"
| World: "server_step os sv (sv\<lparr>sv_st := (sv_st sv)\<lparr>st_errno := e, st_world := w\<rparr>\<rparr>)"

inductive_cases server_stepE: "server_step os sv sv'"

abbreviation server_steps :: "'w os \<Rightarrow> 'w server \<Rightarrow> 'w server \<Rightarrow> bool" where
  "server_steps os \<equiv> (server_step os)\<^sup>*\<^sup>*"

lemma handle_ok:
  assumes "bounded_io mu os" "server_ok sv"
  obtains sv' where "handle_socket os fd sv = Some sv'" "server_ok sv'" "sv_listener sv' = sv_listener sv"
    "sv_connections sv - {fd} \<subseteq> sv_connections sv'" "same_layout (sv_mapping sv) (sv_mapping sv')"
proof (cases "fd = sv_listener sv")
  case True
  have "sv_listener (accept_client os sv) = sv_listener sv \<and>
      sv_connections sv \<subseteq> sv_connections (accept_client os sv) \<and>
      sv_mapping (accept_client os sv) = sv_mapping sv"
    by (auto simp: accept_client_def Let_def split: prod.splits)
  then show ?thesis
    using that [of "accept_client os sv"] True accept_ok [OF assms(2)] by (auto simp: handle_socket_def)
next
  case False
  show ?thesis
    by (rule serve_ok [OF assms False, of thesis]) (use that False in \<open>simp add: handle_socket_def\<close>)
qed

lemma step_ok:
  assumes "bounded_io mu os" "server_step os sv sv'" "server_ok sv"
  shows "server_ok sv' \<and> sv_listener sv' = sv_listener sv \<and> same_layout (sv_mapping sv) (sv_mapping sv')"
proof (rule server_stepE [OF assms(2)])
  fix fd
  assume "handle_socket os fd sv = Some sv'"
  then show ?thesis using handle_ok [OF assms(1,3), of fd] by (metis option.inject)
next
  fix e w
  assume "sv' = sv\<lparr>sv_st := (sv_st sv)\<lparr>st_errno := e, st_world := w\<rparr>\<rparr>"
  then show ?thesis using assms(3) by (simp add: server_ok_def)
qed

lemma steps_ok:
  assumes "bounded_io mu os" "server_steps os sv sv'" "server_ok sv"
  shows "server_ok sv' \<and> sv_listener sv' = sv_listener sv \<and> same_layout (sv_mapping sv) (sv_mapping sv')"
  using assms(2)
proof (induction rule: rtranclp_induct)
  case base
  then show ?case using assms(3) by simp
next
  case (step sv1 sv2)
  then show ?case using step_ok [OF assms(1) step(2)] same_layout_trans by auto
qed

text \<open>One scan of the ready set ends, and consists of steps.\<close>

lemma scan_returns:
  assumes "bounded_io mu os" "server_ok sv" "ready \<inter> {k..} \<subseteq> sv_connections sv"
  obtains sv' where "scan_ready os ready n k sv = Some sv'" "server_steps os sv sv'" "server_ok sv'"
proof -
  have "\<exists>sv'. scan_ready os ready n k sv = Some sv' \<and> server_steps os sv sv' \<and> server_ok sv'"
    using assms(2,3)
  proof (induction "nat (FD_SETSIZE - k)" arbitrary: k n sv rule: less_induct)
    case less
    note d = server_okD [OF less(2)]
    show ?case
    proof (cases "k \<le> sv_highest sv \<and> n > 0")
      case False
      then show ?thesis using less(2) by (subst scan_ready.simps) auto
    next
      case True
      then have m: "nat (FD_SETSIZE - (k + 1)) < nat (FD_SETSIZE - k)" using d(6) by simp
      show ?thesis
      proof (cases "k \<in> ready")
        case False
        then have eq: "scan_ready os ready n k sv = scan_ready os ready n (k + 1) sv"
          using True by (subst scan_ready.simps) simp
        have "ready \<inter> {k + 1..} \<subseteq> sv_connections sv" using less(3) by auto
        from less(1) [OF m less(2) this, of n] show ?thesis unfolding eq .
      next
        case rdy: True
        obtain sv1 where sv1: "handle_socket os k sv = Some sv1" "server_ok sv1"
            "sv_connections sv - {k} \<subseteq> sv_connections sv1"
          by (rule handle_ok [OF assms(1) less(2)])
        have eq: "scan_ready os ready n k sv = scan_ready os ready (n - 1) (k + 1) sv1"
          using True rdy sv1(1) by (subst scan_ready.simps) simp
        have step: "server_step os sv sv1" using Handle [OF _ sv1(1)] less(3) rdy by auto
        have "ready \<inter> {k + 1..} \<subseteq> sv_connections sv - {k}" using less(3) by auto
        then have "ready \<inter> {k + 1..} \<subseteq> sv_connections sv1" using sv1(3) by blast
        from less(1) [OF m sv1(2) this, of "n - 1"] show ?thesis
          unfolding eq using converse_rtranclp_into_rtranclp [of "server_step os", OF step] by blast
      qed
    qed
  qed
  then show ?thesis using that by blast
qed

text \<open>Documented behaviour of \<open>select\<close>: it reports descriptors of the set it was given.\<close>

definition reports_watched :: "'w os \<Rightarrow> bool" where
  "reports_watched os \<longleftrightarrow> (\<forall>fds w ready w'. os_select_set os fds w = (Inr ready, w') \<longrightarrow> ready \<subseteq> fds)"

lemma world_step: "server_step os sv (sv\<lparr>sv_st := (sv_st sv)\<lparr>st_world := w\<rparr>\<rparr>)"
  using World [where os = os and sv = sv and e = "st_errno (sv_st sv)" and w = w] by simp

lemma server_ok_world: "server_ok (sv\<lparr>sv_st := (sv_st sv)\<lparr>st_errno := e, st_world := w\<rparr>\<rparr>) = server_ok sv"
  "server_ok (sv\<lparr>sv_st := (sv_st sv)\<lparr>st_world := w\<rparr>\<rparr>) = server_ok sv"
  by (simp_all add: server_ok_def)

lemma loop_steps:
  assumes "bounded_io mu os" "reports_watched os" "tcp_server_loop os sv = Some (rc, sv')" "server_ok sv"
  shows "server_steps os sv sv'"
  using assms(3,1,2,4)
proof (induction os sv "(rc, sv')" rule: tcp_server_loop.raw_induct [rotated, consumes 1, case_names step])
  case (step f os sv)
  obtain stop w where stop: "os_stop_requested os (st_world (sv_st sv)) = (stop, w)"
    by (cases "os_stop_requested os (st_world (sv_st sv))")
  define sv1 where "sv1 = sv\<lparr>sv_st := (sv_st sv)\<lparr>st_world := w\<rparr>\<rparr>"
  have s1: "server_step os sv sv1" unfolding sv1_def by (rule world_step)
  obtain r w2 where sel: "os_select_set os (sv_connections sv) w = (r, w2)"
    by (cases "os_select_set os (sv_connections sv) w")
  show ?case
  proof (cases stop)
    case True
    then have "sv' = sv1" using step(2) stop by (simp add: stop_requested_def sv1_def)
    then show ?thesis using s1 by blast
  next
    case False
    note body = step(2) [simplified stop_requested_def stop Let_def prod.case False if_False, simplified]
    show ?thesis
    proof (cases r)
      case (Inl e)
      have "\<exists>e' w'. sv' = sv1\<lparr>sv_st := (sv_st sv1)\<lparr>st_errno := e', st_world := w'\<rparr>\<rparr>"
        using body sel Inl by (auto simp: sv1_def stop_requested_def Let_def split: prod.splits if_splits)
      then obtain e' w' where "sv' = sv1\<lparr>sv_st := (sv_st sv1)\<lparr>st_errno := e', st_world := w'\<rparr>\<rparr>" by blast
      then have "server_step os sv1 sv'" using World by simp
      then show ?thesis using s1 by (meson r_into_rtranclp rtranclp.rtrancl_into_rtrancl)
    next
      case (Inr ready)
      define sv2 where "sv2 = sv\<lparr>sv_st := (sv_st sv)\<lparr>st_world := w2\<rparr>\<rparr>"
      have s2: "server_step os sv sv2" unfolding sv2_def by (rule world_step)
      have ok2: "server_ok sv2" using step(5) by (simp add: sv2_def server_ok_world)
      have "ready \<inter> {0..} \<subseteq> sv_connections sv2"
        using step(4) sel Inr by (auto simp: reports_watched_def sv2_def)
      then obtain sv3 where sv3: "scan_ready os ready (int (card ready)) 0 sv2 = Some sv3"
          "server_steps os sv2 sv3" "server_ok sv3"
        by (rule scan_returns [OF step(3) ok2])
      have "f os sv3 = Some (rc, sv')"
        using body sel Inr sv3(1) by (simp add: sv2_def)
      from step(1) [OF this step(3,4) sv3(3)] show ?thesis
        using s2 sv3(2) by (meson converse_rtranclp_into_rtranclp rtranclp_trans)
    qed
  qed
qed

text \<open>C12: However many events the TCP server has seen, its variables are in order: the listener
  is still watched, every watched descriptor lies between 0 and \<open>highest_socket\<close>, which is
  watched itself and within the capacity of an \<open>fd_set\<close>, and the mapping is well formed with the
  sizes it started with. Every run of \<open>run_tcp_server\<close>'s loop consists of such events.\<close>

theorem tcp_server_invariant:
  assumes "bounded_io mu os" "reports_watched os" "server_ok sv"
  shows "(server_steps os sv sv' \<longrightarrow> server_ok sv' \<and> sv_listener sv' = sv_listener sv \<and>
      same_layout (sv_mapping sv) (sv_mapping sv')) \<and>
    (tcp_server_loop os sv = Some (rc, sv') \<longrightarrow> server_steps os sv sv')"
  using steps_ok [OF assms(1) _ assms(3)] loop_steps [OF assms(1,2) _ assms(3)] by blast

text \<open>C35: One scan of the descriptors that \<open>select\<close> reported ends, although accepting a client
  raises \<open>highest_socket\<close> and dropping one lowers it while the scan runs, and leaves the
  server's variables in order. Whatever the clients send, no step of it faults.\<close>

theorem scan_ready_terminates:
  assumes "bounded_io mu os" "server_ok sv" "ready \<subseteq> sv_connections sv"
  shows "\<exists>sv'. scan_ready os ready (int (card ready)) 0 sv = Some sv' \<and> server_ok sv'"
proof -
  have "ready \<inter> {0..} \<subseteq> sv_connections sv" using assms(3) by auto
  then show ?thesis using scan_returns [OF assms(1,2), of ready 0 "int (card ready)"] by metis
qed

subsection \<open>A concrete server\<close>

definition listening :: "u8 list \<Rightarrow> wire server" where
  "listening input = \<lparr>sv_connections = {3, 4}, sv_listener = 3, sv_highest = 4,
     sv_query = replicate 260 0, sv_mapping = small_mapping, sv_st = on_wire tcp_ctx input\<rparr>"

lemma listening_ok: "server_ok (listening input)"
  by (simp add: listening_def server_ok_def small_mapping_ok)

lemma wire_watched: "reports_watched wire_os"
  by (simp add: reports_watched_def wire_os_def)

theorem tcp_server_invariant_witness:
  "server_ok (accept_client wire_os (listening [])) \<and>
   same_layout small_mapping (sv_mapping (accept_client wire_os (listening [])))"
proof -
  have "server_step wire_os (listening []) (accept_client wire_os (listening []))"
    by (rule Handle [of 3]) (simp_all add: handle_socket_def listening_def)
  then show ?thesis
    using tcp_server_invariant [OF wire_bounded_io wire_watched listening_ok, of "[]" "accept_client wire_os (listening [])"]
    by (auto simp: listening_def)
qed

theorem scan_ready_terminates_witness:
  "\<exists>sv'. scan_ready wire_os {3, 4} (int (card {3 :: int, 4})) 0 (listening [0, 1, 0, 0, 0, 2, 255, 7]) = Some sv' \<and>
    server_ok sv'"
  by (rule scan_ready_terminates [OF wire_bounded_io listening_ok]) (simp add: listening_def)

end
