(* ===== verification/Modbus_Exchange.thy ===== *)
theory Modbus_Exchange
  imports Modbus_Client Modbus_Reply Modbus_Receive
begin

text \<open>
  Client and server together: the client's functions send the request the specification
  describes, accept the answer a server gives to it, and return what that answer says. The
  server at the other end of a connection is any device that behaves like \<open>serve\<close>, which
  \<open>modbus_reply\<close> was proved to do.
\<close>

subsection \<open>Checking an answer\<close>

text \<open>What \<open>check_confirmation\<close> counts in a good answer.\<close>

fun confirmed :: "request \<Rightarrow> int" where
  "confirmed (Read_coils a n) = int (nb_bytes n)"
| "confirmed (Read_discrete_inputs a n) = int (nb_bytes n)"
| "confirmed (Read_holding_registers a n) = int n"
| "confirmed (Read_input_registers a n) = int n"
| "confirmed (Write_coil a v) = 1"
| "confirmed (Write_register a v) = 1"
| "confirmed (Write_coils a bs) = int (length bs)"
| "confirmed (Write_registers a vs) = int (length vs)"
| "confirmed (Mask_write_register a x y) = 1"
| "confirmed (Write_and_read_registers wa vs ra n) = int n"

definition confirmation :: "request \<Rightarrow> response \<Rightarrow> 'w mst \<Rightarrow> int \<times> 'w mst" where
  "confirmation r resp st =
     (case resp of Exception e \<Rightarrow> (-1, set_errno (MODBUS_ENOBASE + int e) st) | _ \<Rightarrow> (confirmed r, st))"

lemmas confirmation_simps = rd_behind rd_behind_0 rd_Cons field_def encode_response_def
  be16_or_eq be16_hi8_lo8

lemma encode_request_hd: "\<exists>tl. encode_request r = request_function r # tl"
  using encode_request_start by blast

lemma response_length:
  assumes "request_fits r" "response_fits r resp" "int (length hdr) = header_length b"
    and "\<forall>e. resp \<noteq> Exception e"
  shows "compute_response_length_from_request b (hdr @ encode_request r @ rest) =
    Some (header_length b + int (length (encode_response r resp)) + checksum_length b)"
  using assms
  by (cases r; cases resp)
    (simp_all add: compute_response_length_from_request_def confirmation_simps Let_def add.assoc nb_bytes_int)

lemma request_length_known:
  assumes "request_fits r" "int (length hdr) = header_length b"
  shows "\<exists>n. compute_response_length_from_request b (hdr @ encode_request r @ rest) = Some n"
  using assms
  by (cases r) (simp_all add: compute_response_length_from_request_def confirmation_simps Let_def)

lemma uint_nb_bytes: "n \<le> 2000 \<Longrightarrow> uint (of_nat (nb_bytes n) :: u8) = int (nb_bytes n)"
  using nb_bytes_250 [of n] by (simp add: uint_of_nat_byte)

lemma uint_double: "n \<le> 125 \<Longrightarrow> uint (2 * of_nat n :: u8) = 2 * int n"
  using uint_of_nat_byte [of "2 * n"] by simp

lemma values_confirmed:
  assumes "request_fits r" "response_fits r resp" "\<forall>e. resp \<noteq> Exception e"
    and "int (length hdr) = off" "int (length hdr') = off"
  shows "confirmation_values off (uint (request_function r)) (hdr @ encode_request r @ rest)
      (hdr' @ encode_response r resp @ rest') = Some (confirmed r, confirmed r, True, True)"
  using assms
  by (cases r; cases resp)
    (simp_all add: confirmation_values_def confirmation_simps differ_def nb_bytes_int uint_nb_bytes
      uint_double)

lemma check_confirmation_run:
  assumes "request_fits r" "response_fits r resp"
    and "int (length hdr) = header_length (be st)" "int (length hdr') = header_length (be st)"
    and "be_pre_check_confirmation (hdr @ encode_request r @ rest) (hdr' @ encode_response r resp @ rest')
      n st = Some (0, st)"
    and "n = header_length (be st) + int (length (encode_response r resp)) + checksum_length (be st)"
  shows "check_confirmation os (hdr @ encode_request r @ rest) (hdr' @ encode_response r resp @ rest') n st =
    Some (confirmation r resp st)"
proof -
  let ?req = "hdr @ encode_request r @ rest" and ?rsp = "hdr' @ encode_response r resp @ rest'"
  let ?b = "be st" let ?f = "request_function r"
  have q: "rd ?req (header_length ?b) = Some ?f"
    using encode_request_hd [of r] assms(3) by (auto simp: rd_behind_0 rd_Cons simp del: request_function.simps)
  have small: "uint ?f \<le> 23" by (cases r) simp_all
  show ?thesis
  proof (cases "\<exists>e. resp = Exception e")
    case True
    then obtain e where e: "resp = Exception e" "e < 12" using assms(2) by auto
    have enc: "encode_response r resp = [?f + 128, of_nat e]" by (simp add: encode_response_def e)
    have uf: "uint (?f + 128) = uint ?f + 128"
      using small uint_u8_range [of ?f] by (simp add: uint_word_ariths)
    have ue: "uint (of_nat e :: u8) = int e" using e(2) by (simp add: uint_of_nat_byte)
    have rds: "rd ?rsp (header_length ?b) = Some (?f + 128)" "rd ?rsp (header_length ?b + 1) = Some (of_nat e)"
      using assms(4) by (simp_all add: enc rd_behind rd_behind_0 rd_Cons del: request_function.simps)
    obtain k where k: "compute_response_length_from_request ?b ?req = Some k"
      using request_length_known [OF assms(1,3)] by blast
    have n: "n = header_length ?b + 2 + checksum_length ?b" using assms(6) by (simp add: enc)
    have "check_exception ?b ?req ?rsp n st = Some (-1, set_errno (112345678 + int e) st)"
      using q rds uf ue e(2) by (simp add: check_exception_def n del: request_function.simps)
    then show ?thesis
      using assms(5) rds(1) uf k uint_u8_range [of ?f]
      by (simp add: check_confirmation_def confirmation_def e(1) Let_def del: request_function.simps)
  next
    case False
    then have ne: "\<forall>e. resp \<noteq> Exception e" by blast
    then have "hd (encode_response r resp) = ?f \<and> encode_response r resp \<noteq> []"
      using assms(2) by (cases r; cases resp) (simp_all add: encode_response_def)
    then have rf: "rd ?rsp (header_length ?b) = Some ?f"
      using assms(4) by (cases "encode_response r resp") (simp_all add: rd_behind_0 rd_Cons del: request_function.simps)
    have "confirmation r resp st = (confirmed r, st)"
      using ne by (cases resp) (simp_all add: confirmation_def)
    then show ?thesis
      using assms(5) q rf small response_length [OF assms(1,2,3) ne, of rest]
        values_confirmed [OF assms(1,2) ne assms(3,4), of rest rest'] assms(6)
      by (simp add: check_confirmation_def Let_def del: request_function.simps)
  qed
qed

subsection \<open>A device at the other end\<close>

text \<open>
  The calls around a transmission leave the connection alone; a complete request frame that is
  sent to the device is carried out there, and its answer will arrive.
\<close>

definition quiet :: "('w, 'd) link \<Rightarrow> 'w os \<Rightarrow> bool" where
  "quiet L os \<longleftrightarrow> (\<forall>w. l_up L w \<longrightarrow>
     (\<forall>us. undisturbed L w (os_usleep os us w)) \<and>
     (\<forall>fd. undisturbed L w (snd (os_tiocmget os fd w))) \<and>
     (\<forall>fd f. undisturbed L w (os_tiocmset os fd f w)) \<and>
     (\<forall>k fd on. undisturbed L w (os_custom_rts os k fd on w)))"

definition device_answers ::
    "backend \<Rightarrow> ('w, store) link \<Rightarrow> 'w \<Rightarrow> u8 list \<Rightarrow> request \<Rightarrow> (int + nat) \<times> 'w \<Rightarrow> bool" where
  "device_answers b L w hdr r = (\<lambda>(x, w').
     x = Inr (length (frame_of b hdr (encode_request r))) \<and> l_up L w' \<and>
     l_pending L w' = l_pending L w @
       response_frame b hdr (encode_response r (snd (serve (l_device L w) r))) \<and>
     l_device L w' = fst (serve (l_device L w) r))"

definition device_at :: "u8 \<Rightarrow> backend \<Rightarrow> ('w, store) link \<Rightarrow> 'w os \<Rightarrow> int \<Rightarrow> bool" where
  "device_at slave b L os s \<longleftrightarrow> delivers L os s \<and> quiet L os \<and>
     (\<forall>w hdr r. l_up L w \<and> int (length hdr) = header_length b \<and> be_hdr_ok b hdr \<and>
        last hdr = slave \<and> request_fits r \<longrightarrow>
        device_answers b L w hdr r (os_send os s (frame_of b hdr (encode_request r)) w) \<and>
        device_answers b L w hdr r (os_write os s (frame_of b hdr (encode_request r)) w))"

lemma device_atD:
  assumes "device_at slave b L os s" "l_up L w" "int (length hdr) = header_length b" "be_hdr_ok b hdr"
    "last hdr = slave" "request_fits r"
  shows "device_answers b L w hdr r (os_send os s (frame_of b hdr (encode_request r)) w)"
    and "device_answers b L w hdr r (os_write os s (frame_of b hdr (encode_request r)) w)"
  using assms by (simp_all add: device_at_def)

lemma quietD:
  assumes "quiet L os" "awaiting L c d bs st"
  shows "awaiting L c d bs (do_usleep os us st)" "awaiting L c d bs (call_set_rts os f on st)"
proof -
  show "awaiting L c d bs (do_usleep os us st)"
    using assms by (simp add: awaiting_def do_usleep_def quiet_def undisturbed_def)
  obtain fl w where g: "os_tiocmget os (ctx_s (st_ctx st)) (st_world st) = (fl, w)"
    by (cases "os_tiocmget os (ctx_s (st_ctx st)) (st_world st)")
  have "undisturbed L (st_world st) (snd (os_tiocmget os (ctx_s (st_ctx st)) (st_world st)))"
    using assms by (simp add: awaiting_def quiet_def)
  then have "undisturbed L (st_world st) w" by (simp add: g)
  then show "awaiting L c d bs (call_set_rts os f on st)"
    using assms g
    by (cases f) (simp_all add: awaiting_def rtu_ioctl_rts_def Let_def quiet_def undisturbed_def)
qed

text \<open>
  Sending a frame through the table, when \<open>send\<close> and \<open>write\<close> take it whole and lead from states
  with \<open>P\<close> to states with \<open>Q\<close>, neither of which the switching of the request-to-send line disturbs.
\<close>

definition undisturbed_by_rts :: "'w os \<Rightarrow> ('w mst \<Rightarrow> bool) \<Rightarrow> bool" where
  "undisturbed_by_rts os P \<longleftrightarrow>
     (\<forall>st us f on. P st \<longrightarrow> P (do_usleep os us st) \<and> P (call_set_rts os f on st))"

lemma send_between:
  assumes "undisturbed_by_rts os P" "undisturbed_by_rts os Q" "P st" "\<And>st. P st \<Longrightarrow> st_ctx st = c"
    and snd: "\<And>st. \<nexists>rtu. ctx_backend c = RTU_backend rtu \<Longrightarrow> P st \<Longrightarrow>
      \<exists>st'. ret_count (os_send os (ctx_s c) frame (st_world st)) st = (int (length frame), st') \<and> Q st'"
    and wrt: "\<And>st. P st \<Longrightarrow>
      \<exists>st'. ret_count (os_write os (ctx_s c) frame (st_world st)) st = (int (length frame), st') \<and> Q st'"
  shows "\<exists>st'. be_send os frame (int (length frame)) st = Some (int (length frame), st') \<and> Q st'"
proof -
  have whole: "rd_block frame 0 (int (length frame)) = Some frame" by (simp add: rd_block_all)
  have ctx: "st_ctx st = c" by (rule assms(4) [OF assms(3)])
  show ?thesis
  proof (cases "\<exists>rtu. ctx_backend c = RTU_backend rtu")
    case False
    then have "be_send os frame (int (length frame)) st =
        Some (ret_count (os_send os (ctx_s c) frame (st_world st)) st)"
      by (cases "ctx_backend c") (auto simp: be_send_def tcp_send_def ctx whole)
    then show ?thesis using snd [OF False assms(3)] by auto
  next
    case True
    then obtain rtu where rtu: "ctx_backend c = RTU_backend rtu" by blast
    show ?thesis
    proof (cases "rtu_rts rtu = MODBUS_RTU_RTS_NONE")
      case True
      then have "be_send os frame (int (length frame)) st =
          Some (ret_count (os_write os (ctx_s c) frame (st_world st)) st)"
        using rtu by (simp add: be_send_def rtu_send_def ctx whole)
      then show ?thesis using wrt [OF assms(3)] by auto
    next
      case False
      define st1 where "st1 = do_usleep os (rtu_rts_delay rtu)
        (call_set_rts os (rtu_set_rts rtu) (rtu_rts rtu = MODBUS_RTU_RTS_UP) st)"
      have st1: "P st1" using assms(1,3) by (simp add: st1_def undisturbed_by_rts_def)
      obtain st2 where st2: "ret_count (os_write os (ctx_s c) frame (st_world st1)) st1 =
          (int (length frame), st2)" "Q st2"
        using wrt [OF st1] by blast
      have "Q (call_set_rts os f on (do_usleep os us st2))" for f on us
        using assms(2) st2(2) by (simp add: undisturbed_by_rts_def)
      then show ?thesis
        using False rtu st2(1) assms(4) [OF st1]
        by (simp add: be_send_def rtu_send_def ctx whole Let_def st1_def)
    qed
  qed
qed

lemma awaiting_by_rts: "quiet L os \<Longrightarrow> undisturbed_by_rts os (awaiting L c d bs)"
  by (simp add: undisturbed_by_rts_def quietD)

lemma send_through:
  assumes "quiet L os" "awaiting L c d bs st"
    and snd: "\<And>st. \<nexists>rtu. ctx_backend c = RTU_backend rtu \<Longrightarrow> awaiting L c d bs st \<Longrightarrow> \<exists>st'. ret_count (os_send os (ctx_s c) frame (st_world st)) st =
      (int (length frame), st') \<and> awaiting L c d' bs' st'"
    and wrt: "\<And>st. awaiting L c d bs st \<Longrightarrow> \<exists>st'. ret_count (os_write os (ctx_s c) frame (st_world st)) st =
      (int (length frame), st') \<and> awaiting L c d' bs' st'"
  shows "\<exists>st'. be_send os frame (int (length frame)) st = Some (int (length frame), st') \<and>
    awaiting L c d' bs' st'"
  by (rule send_between [OF awaiting_by_rts awaiting_by_rts assms(2) _ snd wrt])
    (simp_all add: assms(1), simp add: awaiting_def)

text \<open>Transmission of a request to the device.\<close>

lemma send_to_device:
  assumes "device_at slave (ctx_backend c) L os (ctx_s c)" "awaiting L c d bs st"
    and "int (length hdr) = header_length (ctx_backend c)" "be_hdr_ok (ctx_backend c) hdr"
    and "last hdr = slave" "request_fits r" "frame = frame_of (ctx_backend c) hdr (encode_request r)"
  shows "\<exists>st'. be_send os frame (int (length frame)) st = Some (int (length frame), st') \<and>
    awaiting L c (fst (serve d r))
      (bs @ response_frame (ctx_backend c) hdr (encode_response r (snd (serve d r)))) st'"
proof -
  let ?b = "ctx_backend c"
  have ret: "\<exists>st'. ret_count x st = (int (length frame), st') \<and> awaiting L c (fst (serve d r))
      (bs @ response_frame ?b hdr (encode_response r (snd (serve d r)))) st'"
    if "awaiting L c d bs st" "device_answers ?b L (st_world st) hdr r x" for x st
    using that by (cases x) (auto simp: ret_count_def device_answers_def awaiting_def assms(7))
  have answers: "device_answers ?b L (st_world st) hdr r (os_send os (ctx_s c) frame (st_world st))"
    "device_answers ?b L (st_world st) hdr r (os_write os (ctx_s c) frame (st_world st))"
    if "awaiting L c d bs st" for st
    using that device_atD [OF assms(1) _ assms(3-6)] by (simp_all add: awaiting_def assms(7))
  have "quiet L os" using assms(1) by (simp add: device_at_def)
  then show ?thesis
    by (rule send_through [OF _ assms(2)]) (use ret answers in blast)+
qed

text \<open>\<open>be_advance\<close> moves the transaction counter only.\<close>

lemma same_kind_simps:
  assumes "same_kind b b'"
  shows "header_length b' = header_length b" "checksum_length b' = checksum_length b"
    "max_adu_length b' = max_adu_length b" "be_header b' = be_header b" "be_trailer b' = be_trailer b"
    "be_tid b' = be_tid b" "be_hdr_ok b' = be_hdr_ok b"
  using assms by (cases b; cases b'; simp)+

lemma same_kind_send_msg_pre:
  "same_kind b b' \<Longrightarrow> be_send_msg_pre b' m n = be_send_msg_pre b m n"
  by (cases b; cases b') (simp_all add: be_send_msg_pre_def)

lemma same_kind_frames:
  assumes "same_kind b b'"
  shows "frame_of b' = frame_of b" "response_frame b' = response_frame b"
  by (rule ext, rule ext, simp add: frame_of_def response_frame_def reply_sft_def same_kind_simps [OF assms])+

lemma same_kind_device:
  assumes "same_kind b b'"
  shows "device_at slave b' L os s = device_at slave b L os s"
  by (simp add: device_at_def device_answers_def same_kind_simps [OF assms] same_kind_frames [OF assms])

lemma same_kind_refl: "same_kind b b"
  by (cases b) simp_all

lemma be_advance_ctx:
  "same_kind (be st) (be (be_advance st))" "ctx_s (st_ctx (be_advance st)) = ctx_s (st_ctx st)"
  "ctx_slave (st_ctx (be_advance st)) = ctx_slave (st_ctx st)" "st_world (be_advance st) = st_world st"
  "st_errno (be_advance st) = st_errno st"
  by (cases "be st"; simp add: be_advance_def tcp_advance_def)+

text \<open>The state of a client whose connection to a device is idle.\<close>

definition client_at :: "('w, store) link \<Rightarrow> 'w os \<Rightarrow> u8 \<Rightarrow> store \<Rightarrow> 'w mst \<Rightarrow> bool" where
  "client_at L os slave d st \<longleftrightarrow>
     device_at slave (be st) L os (ctx_s (st_ctx st)) \<and> 0 \<le> ctx_s (st_ctx st) \<and>
     ctx_slave (st_ctx st) = uint slave \<and> awaiting L (st_ctx st) d [] st"

lemma client_at_origin:
  assumes "client_at L os slave d st"
  shows "be_can_request st" "sft_slave (be_origin st) = uint slave"
proof -
  have c: "ctx_slave (st_ctx st) = uint slave" using assms by (simp add: client_at_def)
  then have "ctx_slave (st_ctx st) \<noteq> -1" using uint_u8_range [of slave] by linarith
  then show "be_can_request st" by (simp add: be_can_request_def split: backend.splits)
  show "sft_slave (be_origin st) = uint slave"
    using c by (simp add: be_origin_def tcp_origin_def rtu_origin_def split: backend.splits)
qed

text \<open>The header of a message between this client and its device.\<close>

definition client_header :: "'w mst \<Rightarrow> nat \<Rightarrow> u8 list" where
  "client_header st n = be_header (be st) (be_origin st) n"

lemma client_header_facts:
  assumes "client_at L os slave d st"
  shows "int (length (client_header st n)) = header_length (be st)" "be_hdr_ok (be st) (client_header st n)"
    "last (client_header st n) = slave" "response_frame (be st) (client_header st n) pdu =
      frame_of (be st) (client_header st (length pdu)) pdu"
proof -
  note o = client_at_origin [OF assms]
  have can: "same_kind (be st) (be st) \<and> be_can_request st" using o(1) by (simp add: same_kind_refl)
  show "int (length (client_header st n)) = header_length (be st)"
    unfolding client_header_def by (rule be_framing.length_header)
  show "be_hdr_ok (be st) (client_header st n)"
    unfolding client_header_def by (rule be_requests.header_ok)
  show "last (client_header st n) = slave"
    using be_requests.header_slave [OF can, of n] o(2)
    by (intro word_uint_eqI) (simp add: client_header_def)
  show "response_frame (be st) (client_header st n) pdu = frame_of (be st) (client_header st (length pdu)) pdu"
    using be_requests.answer_header [OF can, of n 0 "length pdu"]
    by (simp add: response_frame_def frame_of_def reply_sft_def client_header_def Let_def)
qed

lemma pre_check_ok:
  "be_pre_check_confirmation (be_header (be st) org n @ xs) (be_header (be st) org m @ ys) k st = Some (0, st)"
  by (cases "be st")
    (simp_all add: be_pre_check_confirmation_def tcp_pre_check_confirmation_def
      rtu_pre_check_confirmation_def tcp_header_def rtu_basis_def buf_simps be16_eq)

text \<open>What a client function reports: the count of a good answer, or the exception as \<open>errno\<close>.\<close>

definition client_outcome :: "response \<Rightarrow> int \<Rightarrow> int \<Rightarrow> 'w mst \<Rightarrow> bool" where
  "client_outcome resp good rc st \<longleftrightarrow>
     (case resp of Exception e \<Rightarrow> rc = -1 \<and> st_errno st = MODBUS_ENOBASE + int e | _ \<Rightarrow> rc = good)"

lemma confirmation_outcome:
  "confirmation r resp st = (rc, st') \<Longrightarrow> client_outcome resp (confirmed r) rc st'"
  by (auto simp: confirmation_def client_outcome_def split: response.splits)

lemma awaiting_confirmation:
  "confirmation r resp st = (rc, st') \<Longrightarrow> awaiting L c d bs st' = awaiting L c d bs st"
  by (auto simp: confirmation_def split: response.splits)

lemma deliver_at_once:
  assumes "be_send os fr (int (length fr)) st = Some (int (length fr), st')"
  shows "deliver os fr st = Some (int (length fr), st')"
  using assms by (simp add: deliver_def send_loop.simps)

lemma exchange:
  assumes at: "client_at L os slave d st" and fits: "request_fits r"
    and room: "header_length (be st) + int (length (encode_request r)) + checksum_length (be st) \<le> int (length t)"
  shows "\<exists>n req st1 rc hdr rest st'.
    send_msg os (filled (be_basis (be st) (be_origin st) t @ encode_request r) t)
      (header_length (be st) + int (length (encode_request r))) (be_advance st) = Some (n, req, st1) \<and>
    0 < n \<and>
    await_confirmation os req st1 = Some (rc, hdr @ encode_response r (snd (serve d r)) @ rest, st') \<and>
    int (length hdr) = header_length (be st) \<and>
    client_outcome (snd (serve d r)) (confirmed r) rc st' \<and>
    awaiting L (st_ctx (be_advance st)) (fst (serve d r)) [] st'"
proof -
  define b where "b = be st"
  define st0 where "st0 = be_advance st"
  define resp where "resp = snd (serve d r)"
  define hq where "hq = client_header st (length (encode_request r))"
  define ha where "ha = client_header st (length (encode_response r resp))"
  define fr where "fr = frame_of b hq (encode_request r)"
  note hdr = client_header_facts [OF at, folded b_def]
  have kind: "same_kind b (be st0)" unfolding b_def st0_def by (rule be_advance_ctx)
  note k = same_kind_simps [OF kind] same_kind_frames [OF kind]
  have s: "device_at slave (be st0) L os (ctx_s (st_ctx st0))" "0 \<le> ctx_s (st_ctx st0)"
      "ctx_slave (st_ctx st0) = uint slave" "awaiting L (st_ctx st0) d [] st0"
    using at be_advance_ctx [of st] same_kind_device [OF kind, of slave L os]
    by (simp_all add: client_at_def st0_def b_def awaiting_def)
  have lens: "length (encode_request r) \<le> 253" "length (encode_response r resp) \<le> 253"
    using length_encode_request [OF fits] length_encode_response [OF serve_fits] by (simp_all add: resp_def)
  have "be_send_msg_pre b (filled (be_basis b (be_origin st) t @ encode_request r) t)
      (header_length b + int (length (encode_request r))) = Some (int (length fr), filled fr t)"
    using be_framing.pre_basis [OF lens(1), of b t "be_origin st"] room
    by (simp add: be_framing.frame_def fr_def frame_of_def hq_def client_header_def b_def)
  then have pre: "be_send_msg_pre (be st0) (filled (be_basis b (be_origin st) t @ encode_request r) t)
      (header_length b + int (length (encode_request r))) = Some (int (length fr), filled fr t)"
    by (simp add: same_kind_send_msg_pre [OF kind])
  obtain st1 where st1: "be_send os fr (int (length fr)) st0 = Some (int (length fr), st1)"
    "awaiting L (st_ctx st0) (fst (serve d r)) (frame_of (be st0) ha (encode_response r resp) @ []) st1"
    using send_to_device [OF s(1,4), of hq r fr] hdr fits
    by (auto simp: k fr_def hq_def ha_def resp_def)
  have sent: "send_msg os (filled (be_basis b (be_origin st) t @ encode_request r) t)
      (header_length b + int (length (encode_request r))) st0 = Some (int (length fr), filled fr t, st1)"
    by (simp add: send_msg_deliver [OF pre] deliver_at_once [OF st1(1)])
  have us: "for_us (st_ctx st0) ha"
    using s(3) hdr(1,3) [of "length (encode_response r resp)"] k(1)
    by (cases "be st0") (auto simp: for_us_def ha_def length_Suc_conv)
  have ann: "announced MSG_CONFIRMATION (be st0) ha (encode_response r resp)"
    unfolding resp_def by (rule announced_response [OF serve_fits]) (simp add: k ha_def hdr(1) resp_def)
  have dlv: "delivers L os (ctx_s (st_ctx st0))" using s(1) by (simp add: device_at_def)
  have adu: "max_adu_length (be st0) \<le> 260" by (cases "be st0") simp_all
  obtain st2 where st2: "awaiting L (st_ctx st0) (fst (serve d r)) [] st2"
    and recv: "modbus_receive_msg os (uninit os 260) MSG_CONFIRMATION st1 =
      Some (int (length (frame_of b ha (encode_response r resp))),
        filled (frame_of b ha (encode_response r resp)) (uninit os 260), st2)"
    using receive_msg_frame [OF dlv s(2) st1(2) _ lens(2) ann, of "uninit os 260"] us adu
      hdr(1) [of "length (encode_response r resp)"] by (auto simp: ha_def k)
  have ctx2: "st_ctx st2 = st_ctx st0" using st2 by (simp add: awaiting_def)
  obtain rest1 where req: "filled fr t = hq @ encode_request r @ rest1"
    by (auto simp: filled_def fr_def frame_of_def)
  obtain rest2 where rsp: "filled (frame_of b ha (encode_response r resp)) (uninit os 260) =
      ha @ encode_response r resp @ rest2"
    by (auto simp: filled_def frame_of_def)
  obtain rc st3 where conf: "confirmation r resp st2 = (rc, st3)" by (cases "confirmation r resp st2")
  have lh: "int (length hq) = header_length b" "int (length ha) = header_length b"
    using hdr(1) by (simp_all add: hq_def ha_def)
  have chk: "check_confirmation os (hq @ encode_request r @ rest1) (ha @ encode_response r resp @ rest2)
      (int (length (frame_of b ha (encode_response r resp)))) st2 = Some (rc, st3)"
  proof -
    have "be_header (be st) = be_header (be st2)" using k by (simp add: ctx2 b_def)
    then have "be_pre_check_confirmation (hq @ encode_request r @ rest1) (ha @ encode_response r resp @ rest2)
        (int (length (frame_of b ha (encode_response r resp)))) st2 = Some (0, st2)"
      by (simp add: hq_def ha_def client_header_def pre_check_ok)
    then show ?thesis
      using check_confirmation_run [OF fits, of resp hq st2 ha rest1 rest2] conf lh k ctx2
        length_frame_of [OF lh(2)] serve_fits by (simp add: resp_def)
  qed
  have pos: "0 < int (length fr)"
    using frame_of_positive [OF lh(1)] by (simp add: fr_def)
  have "await_confirmation os (filled fr t) st1 = Some (rc, ha @ encode_response r resp @ rest2, st3)"
    using frame_of_positive [OF lh(2), of "encode_response r resp"] chk
    by (simp add: await_confirmation_def recv req rsp)
  then show ?thesis
    using sent pos lh(2) confirmation_outcome [OF conf] st2
      awaiting_confirmation [OF conf, of L "st_ctx (be_advance st)" "fst (serve d r)" "[]"]
    unfolding st0_def b_def resp_def by blast
qed

end
