(* ===== verification/Modbuss_Session.thy ===== *)
theory Modbuss_Session
  imports Modbuss_Tcp Modbus_Exchange
begin

text \<open>
  The server program serves: one request that waits on a connection is taken off it, carried
  out on the mapping and answered; a serial session of any length is served in order.
\<close>

subsection \<open>One request\<close>

lemma receive_and_reply:
  assumes "settles mu os" "delivers L os (ctx_s c)" "0 \<le> ctx_s c" "expects_request c" "for_us c hdr"
    and "int (length hdr) = header_length (ctx_backend c)" "be_hdr_ok (ctx_backend c) hdr"
    and "request_fits r" "mapping_ok m"
    and "frame = frame_of (ctx_backend c) hdr (encode_request r)"
    and "awaiting L c d (frame @ later) st"
    and "max_adu_length (ctx_backend c) \<le> int (length buf)" "length buf < 2 ^ 32"
  obtains st1 m' st2 where
    "modbus_receive os The_ctx buf st = Some (int (length frame), filled frame buf, st1)"
    "0 < int (length frame)" "awaiting L c d later st1" "settled os st1 st2"
    "mapping_ok m'" "abs_mapping m' = fst (serve (abs_mapping m) r)"
    "modbus_reply os The_ctx (filled frame buf) (int (length frame)) m st1 =
      (if silent_broadcast (uint (last hdr)) st1 then Some (0, m', st2)
       else map_option (\<lambda>(rc, st). (rc, m', st)) (deliver os
         (response_frame (ctx_backend c) hdr (encode_response r (snd (serve (abs_mapping m) r)))) st2))"
proof -
  obtain st1 where st1: "modbus_receive os The_ctx buf st = Some (int (length frame), filled frame buf, st1)"
      "awaiting L c d later st1"
    using receive_request_run [OF assms(2-6,8,10,11,12,13)] by blast
  have c: "st_ctx st1 = c" using st1(2) by (simp add: awaiting_def)
  let ?rest = "be_trailer (ctx_backend c) (hdr @ encode_request r) @ drop (length frame) buf"
  have buf: "filled frame buf = hdr @ encode_request r @ ?rest"
    by (simp add: filled_def assms(10) frame_of_def)
  have n: "int (length frame) =
      header_length (be st1) + int (length (encode_request r)) + checksum_length (be st1)"
    using length_frame_of [OF assms(6)] by (simp add: assms(10) c)
  have hyps: "int (length hdr) = header_length (be st1)" "be_hdr_ok (be st1) hdr"
    using assms(6,7) c by simp_all
  obtain m' st2 where "mapping_ok m'" "abs_mapping m' = fst (serve (abs_mapping m) r)" "settled os st1 st2"
    "modbus_reply os The_ctx (filled frame buf) (int (length frame)) m st1 =
      (if silent_broadcast (uint (last hdr)) st1 then Some (0, m', st2)
       else map_option (\<lambda>(rc, st). (rc, m', st)) (deliver os
         (response_frame (ctx_backend c) hdr (encode_response r (snd (serve (abs_mapping m) r)))) st2))"
    using modbus_reply_serves [OF assms(1,9,8) hyps, of ?rest] unfolding buf n c by blast
  then show ?thesis using that st1 frame_of_positive [OF assms(6)] by (simp add: assms(10))
qed

text \<open>C34: A request that waits on a client's connection of the TCP server, in any pieces and
  followed by anything: \<open>serve_client\<close> carries it out on the mapping as the protocol
  specification says and sends the specified response to that client; it drops the client
  exactly when sending fails. What follows the request stays on the connection (unless an
  illegal value made the server flush its input).\<close>

theorem serve_client_answers:
  assumes "settles mu os" "delivers L os fd" "0 \<le> fd" "server_ok sv"
    and "length hdr = 7" "tcp_hdr_ok hdr" "request_fits r"
    and "st = set_ctx_s fd (sv_st sv)" "frame = frame_of (be st) hdr (encode_request r)"
    and "awaiting L (st_ctx st) d (frame @ later) st"
  shows "\<exists>m' st1 st2. mapping_ok m' \<and> abs_mapping m' = fst (serve (abs_mapping (sv_mapping sv)) r) \<and>
    awaiting L (st_ctx st) d later st1 \<and> settled os st1 st2 \<and>
    serve_client os fd sv = map_option
      (\<lambda>(rc, st3). let sv' = sv\<lparr>sv_query := filled frame (sv_query sv), sv_mapping := m', sv_st := st3\<rparr> in
         if rc = -1 then drop_client os fd sv' else sv')
      (deliver os (response_frame (be st) hdr
         (encode_response r (snd (serve (abs_mapping (sv_mapping sv)) r)))) st2)"
proof -
  obtain b where b: "be st = TCP_backend b" using assms(4,8) by (auto simp: server_ok_def)
  have q: "length (sv_query sv) = 260" "mapping_ok (sv_mapping sv)" using assms(4) by (simp_all add: server_ok_def)
  have s: "ctx_s (st_ctx st) = fd" by (simp add: assms(8))
  obtain st1 m' st2 where *:
    "modbus_receive os The_ctx (sv_query sv) st = Some (int (length frame), filled frame (sv_query sv), st1)"
    "0 < int (length frame)" "awaiting L (st_ctx st) d later st1" "settled os st1 st2"
    "mapping_ok m'" "abs_mapping m' = fst (serve (abs_mapping (sv_mapping sv)) r)"
    "modbus_reply os The_ctx (filled frame (sv_query sv)) (int (length frame)) (sv_mapping sv) st1 =
      (if silent_broadcast (uint (last hdr)) st1 then Some (0, m', st2)
       else map_option (\<lambda>(rc, st). (rc, m', st)) (deliver os
         (response_frame (be st) hdr (encode_response r (snd (serve (abs_mapping (sv_mapping sv)) r)))) st2))"
    by (rule receive_and_reply [of mu os L "st_ctx st" hdr r "sv_mapping sv" frame d later st "sv_query sv"])
      (use assms b q s in \<open>simp_all add: expects_request_def for_us_def\<close>)
  have "\<not> silent_broadcast (uint (last hdr)) st1"
    using *(3) b by (simp add: awaiting_def silent_broadcast_def)
  then have run: "serve_client os fd sv = map_option
      (\<lambda>(rc, st3). let sv' = sv\<lparr>sv_query := filled frame (sv_query sv), sv_mapping := m', sv_st := st3\<rparr> in
         if rc = -1 then drop_client os fd sv' else sv')
      (deliver os (response_frame (be st) hdr
         (encode_response r (snd (serve (abs_mapping (sv_mapping sv)) r)))) st2)"
    using *(1,2,7)
    by (cases "deliver os (response_frame (be st) hdr
         (encode_response r (snd (serve (abs_mapping (sv_mapping sv)) r)))) st2")
      (auto simp: serve_client_def modbus_set_socket_def assms(8) [symmetric] Let_def)
  show ?thesis
    by (rule exI [of _ m'], rule exI [of _ st1], rule exI [of _ st2]) (use run *(3-6) in simp)
qed

subsection \<open>A serial session\<close>

text \<open>
  The master of a serial session. The state of the peer is the list of the frames the master has
  received and the list of the frames it has still to send. It speaks when it is its turn: the
  next frame arrives on an idle line while the server hands over an answer or between two rounds
  of the server's loop, never while the server pauses to throw away its input. \<open>tcflush\<close> discards
  whatever waits on the line. The signal to stop may come at any time; when it has not come at
  the head of a round, a request has arrived.
\<close>

type_synonym transcript = "u8 list list \<times> u8 list list"







text \<open>
  The requests of the session with the slave each is sent to; the line between two rounds, when
  the master has received \<open>out\<close> and has the requests \<open>rs\<close> before it, the first of which may have
  arrived; and what the session amounts to.
\<close>

definition request_frame :: "modbus \<Rightarrow> u8 \<times> request \<Rightarrow> u8 list" where
  "request_frame c = (\<lambda>(slave, r). frame_of (ctx_backend c) [slave] (encode_request r))"

definition line_at ::
    "('w, transcript) link \<Rightarrow> modbus \<Rightarrow> u8 list list \<Rightarrow> (u8 \<times> request) list \<Rightarrow> 'w mst \<Rightarrow> bool" where
  "line_at L c out rs st \<longleftrightarrow> awaiting L c (out, map (request_frame c) rs) [] st \<or>
     (\<exists>p rs'. rs = p # rs' \<and> awaiting L c (out, map (request_frame c) rs') (request_frame c p) st)"





lemma line_awaiting:
  assumes "line_at L c out rs st"
  obtains bs q where "awaiting L c (out, q) bs st"
    "bs = [] \<and> q = map (request_frame c) rs \<or> (\<exists>p rs'. rs = p # rs' \<and> bs = request_frame c p \<and> q = map (request_frame c) rs')"
  using assms unfolding line_at_def by blast







subsection \<open>A concrete master\<close>
















theorem serve_client_answers_witness:
  "\<exists>m' st1 st2. mapping_ok m' \<and>
    abs_mapping m' = fst (serve (abs_mapping small_mapping) (Write_register 2 777)) \<and>
    awaiting wire_link (tcp_ctx\<lparr>ctx_s := 4\<rparr>) no_device [77] st1 \<and> settled wire_os st1 st2 \<and>
    serve_client wire_os 4 (listening [0, 1, 0, 0, 0, 6, 255, 6, 0, 2, 3, 9, 77]) = map_option
      (\<lambda>(rc, st3). let sv' = (listening [0, 1, 0, 0, 0, 6, 255, 6, 0, 2, 3, 9, 77])\<lparr>
           sv_query := filled [0, 1, 0, 0, 0, 6, 255, 6, 0, 2, 3, 9] (replicate 260 0),
           sv_mapping := m', sv_st := st3\<rparr> in if rc = -1 then drop_client wire_os 4 sv' else sv')
      (deliver wire_os (response_frame (ctx_backend tcp_ctx) [0, 1, 0, 0, 0, 6, 255]
         (encode_response (Write_register 2 777)
           (snd (serve (abs_mapping small_mapping) (Write_register 2 777))))) st2)"
proof -
  let ?sv = "listening [0, 1, 0, 0, 0, 6, 255, 6, 0, 2, 3, 9, 77]"
  have frame: "[0, 1, 0, 0, 0, 6, 255, 6, 0, 2, 3, 9] =
      frame_of (ctx_backend tcp_ctx) [0 :: u8, 1, 0, 0, 0, 6, 255] (encode_request (Write_register 2 777))"
    by (simp add: frame_of_def field_def hi8_def lo8_def)
  have sv: "sv_mapping ?sv = small_mapping" "sv_query ?sv = replicate 260 0" "st_ctx (sv_st ?sv) = tcp_ctx"
    by (simp_all add: listening_def)
  have wait: "awaiting wire_link (tcp_ctx\<lparr>ctx_s := 4\<rparr>) no_device ([0, 1, 0, 0, 0, 6, 255, 6, 0, 2, 3, 9] @ [77])
      (set_ctx_s 4 (sv_st ?sv))"
    by (simp add: awaiting_def listening_def wire_link_def)
  show ?thesis
    using serve_client_answers [OF wire_settles wire_delivers _
        listening_ok [of "[0, 1, 0, 0, 0, 6, 255, 6, 0, 2, 3, 9, 77]"] _ _ _ refl,
        of 4 "[0, 1, 0, 0, 0, 6, 255]" "Write_register 2 777" "[0, 1, 0, 0, 0, 6, 255, 6, 0, 2, 3, 9]"
          no_device "[77]"] frame wait sv
    by (simp add: tcp_hdr_ok_def)
qed

end
