(* ===== verification/Loopback.thy ===== *)
theory Loopback
  imports Modbus_Exchange
begin

text \<open>
  A concrete connection whose other end runs the modelled server: what the client sends is
  handed to \<open>modbus_reply\<close>, whose answer becomes the client's input. The
  examples of the theorems on the client run against it: their hypotheses about a device hold
  for the library's own server.
\<close>

record loop =
  lp_in :: "u8 list"
  lp_map :: "mapping"

definition loop_send :: "modbus \<Rightarrow> int \<Rightarrow> u8 list \<Rightarrow> loop \<Rightarrow> (int + nat) \<times> loop" where
  "loop_send c fd bs w =
     (case modbus_reply wire_os The_ctx bs (int (length bs)) (lp_map w) (on_wire c []) of
        None \<Rightarrow> (Inl EPIPE, w)
      | Some (rc, m, st) \<Rightarrow>
          (if rc = -1 then (Inl EPIPE, w)
           else (Inr (length bs),
             \<lparr>lp_in = lp_in w @ last (w_out (st_world st)), lp_map = m\<rparr>)))"

definition loop_recv :: "int \<Rightarrow> int \<Rightarrow> loop \<Rightarrow> (int + u8 list) \<times> loop" where
  "loop_recv fd n w = (Inr (take (nat n) (lp_in w)), w\<lparr>lp_in := drop (nat n) (lp_in w)\<rparr>)"

definition loop_os :: "modbus \<Rightarrow> loop os" where
  "loop_os c = \<lparr>
     os_send = loop_send c, os_write = loop_send c, os_recv = loop_recv,
     os_recv_dontwait = (\<lambda>fd n w. (Inl 11, w)), os_read = loop_recv,
     os_select = (\<lambda>fd tv w. (Inr (if lp_in w = [] then 0 else 1), tv, w)),
     os_select_write = (\<lambda>fd tv w. (Inr 1, w)),
     os_nanosleep = (\<lambda>req w. (None, w)), os_usleep = (\<lambda>us w. w),
     os_socket = (\<lambda>p q r w. (Inr 3, w)), os_setsockopt = (\<lambda>fd p w. (Inr (), w)),
     os_getsockopt_error = (\<lambda>fd w. (Inr 0, w)), os_inet_pton = (\<lambda>s. None),
     os_getaddrinfo = (\<lambda>n s p w. (Inr [], w)), os_connect = (\<lambda>fd a w. (Inr (), w)),
     os_bind = (\<lambda>fd a w. (Inr (), w)), os_listen = (\<lambda>fd n w. (Inr (), w)),
     os_accept = (\<lambda>fd w. (Inr 4, w)), os_shutdown = (\<lambda>fd w. w), os_close = (\<lambda>fd w. w),
     os_open = (\<lambda>d w. (Inr 3, w)),
     os_tcgetattr = (\<lambda>fd w. (\<lparr>c_iflag = 0, c_oflag = 0, c_cflag = 0, c_lflag = 0,
        c_ispeed = 0, c_ospeed = 0, c_vmin = 0, c_vtime = 0\<rparr>, w)),
     os_tcsetattr = (\<lambda>fd t w. (Inr (), w)),
     os_cfsetispeed = (\<lambda>s t. Inr (t\<lparr>c_ispeed := s\<rparr>)), os_cfsetospeed = (\<lambda>s t. Inr (t\<lparr>c_ospeed := s\<rparr>)),
     os_tcflush = (\<lambda>fd w. (Inr (), w)),
     os_tiocmget = (\<lambda>fd w. (0, w)), os_tiocmset = (\<lambda>fd f w. w),
     os_tiocgrs485 = (\<lambda>fd w. (Inr 0, w)), os_tiocsrs485 = (\<lambda>fd f w. (Inr (), w)),
     os_select_set = (\<lambda>fds w. (Inr fds, w)), os_stop_requested = (\<lambda>w. (True, w)),
     os_signal = (\<lambda>w. (True, w)), os_stack = (\<lambda>i. 0), os_custom_rts = (\<lambda>k fd on w. w)\<rparr>"

definition loop_link :: "(loop, store) link" where
  "loop_link = \<lparr>l_pending = lp_in, l_signals = \<lambda>w. 0, l_device = \<lambda>w. abs_mapping (lp_map w),
     l_up = \<lambda>w. mapping_ok (lp_map w)\<rparr>"

lemma wire_deliver:
  "\<exists>st'. deliver wire_os fr st = Some (int (length fr), st') \<and> last (w_out (st_world st')) = fr"
proof -
  have "\<exists>st'. be_send wire_os fr (int (length fr)) st = Some (int (length fr), st') \<and>
      last (w_out (st_world st')) = fr"
  proof (cases "be st")
    case (RTU_backend rtu)
    then show ?thesis
      by (cases "rtu_set_rts rtu")
        (simp_all add: be_send_def rtu_send_def rd_block_all ret_count_def wire_os_def wire_send_def
          do_usleep_def rtu_ioctl_rts_def Let_def)
  qed (simp_all add: be_send_def tcp_send_def rd_block_all ret_count_def wire_os_def wire_send_def)
  then show ?thesis using deliver_at_once by blast
qed

text \<open>The server answers a request on this connection.\<close>

lemma loop_answers:
  assumes "mapping_ok (lp_map w)" "int (length hdr) = header_length (ctx_backend c)"
    and "be_hdr_ok (ctx_backend c) hdr" "last hdr \<noteq> 0" "request_fits r"
  shows "device_answers (ctx_backend c) loop_link w hdr r
    (loop_send c fd (frame_of (ctx_backend c) hdr (encode_request r)) w)"
proof -
  let ?b = "ctx_backend c" and ?st = "on_wire c []"
  let ?frame = "frame_of ?b hdr (encode_request r)"
  have n: "int (length ?frame) = header_length (be ?st) + int (length (encode_request r)) + checksum_length (be ?st)"
    using length_frame_of [OF assms(2)] by simp
  have "\<not> silent_broadcast (uint (last hdr)) ?st"
    using assms(4) by (simp add: silent_broadcast_def uint_0_iff)
  then obtain m' st' where m': "mapping_ok m'"
    "abs_mapping m' = fst (serve (abs_mapping (lp_map w)) r)"
    "modbus_reply wire_os The_ctx ?frame (int (length ?frame)) (lp_map w) ?st =
      map_option (\<lambda>(rc, st''). (rc, m', st'')) (deliver wire_os
        (response_frame ?b hdr (encode_response r (snd (serve (abs_mapping (lp_map w)) r)))) st')"
    using modbus_reply_serves [OF wire_settles assms(1,5), of hdr ?st "be_trailer ?b (hdr @ encode_request r)"]
      assms(2,3) unfolding n by (auto simp: frame_of_def)
  obtain st'' where "deliver wire_os
        (response_frame ?b hdr (encode_response r (snd (serve (abs_mapping (lp_map w)) r)))) st' =
      Some (int (length (response_frame ?b hdr (encode_response r (snd (serve (abs_mapping (lp_map w)) r))))), st'')"
    "last (w_out (st_world st'')) =
      response_frame ?b hdr (encode_response r (snd (serve (abs_mapping (lp_map w)) r)))"
    using wire_deliver by blast
  then show ?thesis
    using m' by (simp add: device_answers_def loop_send_def loop_link_def)
qed

lemma loop_device:
  assumes "slave \<noteq> 0"
  shows "device_at slave (ctx_backend c) loop_link (loop_os c) s"
proof -
  have "delivers loop_link (loop_os c) s"
    by (auto simp: delivers_def loop_link_def loop_os_def select_reports_def undisturbed_def
        bytes_taken_def loop_recv_def)
  moreover have "quiet loop_link (loop_os c)"
    by (simp add: quiet_def loop_os_def undisturbed_def)
  moreover have "os_send (loop_os c) = loop_send c" "os_write (loop_os c) = loop_send c"
    by (simp_all add: loop_os_def)
  moreover have "l_up loop_link w = mapping_ok (lp_map w)" for w by (simp add: loop_link_def)
  ultimately show ?thesis
    using loop_answers assms by (simp add: device_at_def)
qed

definition loop_client :: "modbus \<Rightarrow> mapping \<Rightarrow> loop mst" where
  "loop_client c m = \<lparr>st_ctx = c, st_errno = 0, st_world = \<lparr>lp_in = [], lp_map = m\<rparr>\<rparr>"

lemma loop_client_at:
  assumes "ctx_slave c = uint slave" "0 \<le> ctx_s c" "slave \<noteq> 0" "mapping_ok m"
  shows "client_at loop_link (loop_os c) slave (abs_mapping m) (loop_client c m)"
  using loop_device [OF assms(3), of c] assms
  by (simp add: client_at_def loop_client_def awaiting_def loop_link_def)

lemma tcp_loop: "client_at loop_link (loop_os tcp_ctx) 255 (abs_mapping small_mapping) (loop_client tcp_ctx small_mapping)"
  by (rule loop_client_at) (simp_all add: small_mapping_ok)

lemma rtu_loop: "client_at loop_link (loop_os rtu_ctx) 17 (abs_mapping small_mapping) (loop_client rtu_ctx small_mapping)"
  by (rule loop_client_at) (simp_all add: small_mapping_ok)

end
