(* ===== verification/Modbus_Requests.thy ===== *)
theory Modbus_Requests
  imports Loopback
begin

text \<open>
  The functions of the client, each against the specification: on an idle connection to a
  device, the request is carried out there and the function returns what the answer says.
\<close>

subsection \<open>Carrying out a request\<close>

definition carried_out ::
    "('w, store) link \<Rightarrow> store \<Rightarrow> request \<Rightarrow> 'w mst \<Rightarrow> int \<Rightarrow> int \<Rightarrow> 'w mst \<Rightarrow> bool" where
  "carried_out L d r st good rc st' \<longleftrightarrow>
     client_outcome (snd (serve d r)) good rc st' \<and>
     awaiting L (st_ctx (be_advance st)) (fst (serve d r)) [] st'"

text \<open>The client is then ready for its next request.\<close>

lemma carried_out_client_at:
  assumes "client_at L os slave d st" "carried_out L d r st good rc st'"
  shows "client_at L os slave (fst (serve d r)) st'"
proof -
  have ctx: "st_ctx st' = st_ctx (be_advance st)" using assms(2) by (simp add: carried_out_def awaiting_def)
  have kind: "same_kind (be st) (be (be_advance st))" by (rule be_advance_ctx)
  show ?thesis
    using assms be_advance_ctx [of st] same_kind_device [OF kind, of slave L os]
    by (simp add: client_at_def carried_out_def ctx)
qed

lemma build_request:
  assumes "client_at L os slave d st" "header_length (be st) + 5 \<le> int (length t)"
  shows "be_build_request_basis f a n t st = Some (header_length (be st) + 5,
    filled (be_basis (be st) (be_origin st) t @ [word_of_int f, hi8 a, lo8 a, hi8 n, lo8 n]) t,
    be_advance st)"
  using be_requests.request [of "be st" st t f a n] client_at_origin [OF assms(1)] assms(2)
  by (simp add: same_kind_refl)

lemma send_and_confirm_run:
  assumes "client_at L os slave d st" "request_fits r"
    and "req = filled (be_basis (be st) (be_origin st) t @ encode_request r) t"
    and "n = header_length (be st) + int (length (encode_request r))"
    and "n + checksum_length (be st) \<le> int (length t)"
  shows "\<exists>rc st'. send_and_confirm os req n (be_advance st) = Some (rc, st') \<and>
    carried_out L d r st (confirmed r) rc st'"
proof -
  have "header_length (be st) + int (length (encode_request r)) + checksum_length (be st) \<le> int (length t)"
    using assms(4,5) by simp
  from exchange [OF assms(1,2) this] show ?thesis
    unfolding carried_out_def send_and_confirm_def assms(3,4) by fastforce
qed

lemma frame_room:
  "header_length b + 5 \<le> 12" "header_length b + 5 + checksum_length b \<le> 12"
  "header_length b + 7 + checksum_length b \<le> 14"
  by (cases b; simp)+

lemma frame_room_260: "k \<le> 253 \<Longrightarrow> header_length b + k + checksum_length b \<le> 260"
  by (cases b) simp_all

text \<open>Writing behind a header of known length: inside what is there, or at its end.\<close>

lemma wr_filled_behind:
  assumes "int (length pre) = h" "0 \<le> k" "k < int (length xs)"
  shows "wr (filled (pre @ xs) t) (h + k) v = Some (filled (pre @ xs[nat k := v]) t)"
  using wr_filled_inside [of "h + k" "pre @ xs" t v] assms
  by (auto simp: list_update_append nat_add_distrib)

lemma wr_filled_behind_end:
  assumes "int (length pre) = h" "k = int (length xs)" "h + k < int (length t)"
  shows "wr (filled (pre @ xs) t) (h + k) v = Some (filled (pre @ xs @ [v]) t)"
  using wr_filled [of "h + k" "pre @ xs" t v] assms by simp

subsection \<open>Single writes\<close>

lemma write_single_run:
  assumes "client_at L os slave d st" "request_fits r"
    and "encode_request r = [word_of_int f, hi8 a, lo8 a, hi8 (uint v), lo8 (uint v)]"
  shows "\<exists>rc st'. write_single os The_ctx f a v st = Some (rc, st') \<and>
    carried_out L d r st (confirmed r) rc st'"
  using send_and_confirm_run [OF assms(1,2) refl refl, of "uninit os 12"] frame_room [of "be st"]
    build_request [OF assms(1), of "uninit os 12" f a "uint v"]
  by (simp add: write_single_def assms(3))

lemma write_bit_run:
  assumes "client_at L os slave d st" "0 \<le> a" "a < 65536"
  shows "\<exists>rc st'. modbus_write_bit os The_ctx a status st = Some (rc, st') \<and>
    carried_out L d (Write_coil a (status \<noteq> 0)) st 1 rc st'"
  using write_single_run [OF assms(1), of "Write_coil a (status \<noteq> 0)" 5 a "if status \<noteq> 0 then 65280 else 0"]
    assms(2,3)
  by (cases "status = 0") (simp_all add: modbus_write_bit_def field_def)

text \<open>\<open>modbus_write_bit\<close> on an idle connection to a device sets the coil there (any non-zero
  status is on) and returns 1, or reports the device's exception through \<open>errno\<close> and returns
  -1; the connection is idle again.\<close>

theorem modbus_write_bit_correct:
  assumes "client_at L os slave d st" "0 \<le> a" "a < 65536"
  shows "\<exists>rc st'. modbus_write_bit os The_ctx a status st = Some (rc, st') \<and>
    carried_out L d (Write_coil a (status \<noteq> 0)) st 1 rc st'"
  by (rule write_bit_run [OF assms])

theorem modbus_write_bit_correct_witness:
  "\<exists>rc st'. modbus_write_bit (loop_os tcp_ctx) The_ctx 2 7 (loop_client tcp_ctx small_mapping) = Some (rc, st') \<and>
    carried_out loop_link (abs_mapping small_mapping) (Write_coil 2 (7 \<noteq> (0 :: int)))
      (loop_client tcp_ctx small_mapping) 1 rc st'"
  by (rule modbus_write_bit_correct [OF tcp_loop]) simp_all

lemma write_register_run:
  assumes "client_at L os slave d st" "0 \<le> a" "a < 65536"
  shows "\<exists>rc st'. modbus_write_register os The_ctx a v st = Some (rc, st') \<and>
    carried_out L d (Write_register a v) st 1 rc st'"
  using write_single_run [OF assms(1), of "Write_register a v" 6 a v] assms(2,3)
  by (simp add: modbus_write_register_def field_def)

text \<open>\<open>modbus_write_register\<close> on an idle connection to a device sets the register there and
  returns 1, or reports the device's exception.\<close>

theorem modbus_write_register_correct:
  assumes "client_at L os slave d st" "0 \<le> a" "a < 65536"
  shows "\<exists>rc st'. modbus_write_register os The_ctx a v st = Some (rc, st') \<and>
    carried_out L d (Write_register a v) st 1 rc st'"
  by (rule write_register_run [OF assms])

theorem modbus_write_register_correct_witness:
  "\<exists>rc st'. modbus_write_register (loop_os rtu_ctx) The_ctx 2 7 (loop_client rtu_ctx small_mapping) = Some (rc, st') \<and>
    carried_out loop_link (abs_mapping small_mapping) (Write_register 2 7)
      (loop_client rtu_ctx small_mapping) 1 rc st'"
  by (rule modbus_write_register_correct [OF rtu_loop]) simp_all

text \<open>\<open>modbus_mask_write_register\<close> on an idle connection to a device replaces the register
  there by (value AND and_mask) OR (or_mask AND NOT and_mask) and returns 1, or reports the
  device's exception.\<close>

theorem modbus_mask_write_register_correct:
  assumes "client_at L os slave d st" "0 \<le> a" "a < 65536"
  shows "\<exists>rc st'. modbus_mask_write_register os The_ctx a x y st = Some (rc, st') \<and>
    carried_out L d (Mask_write_register a x y) st 1 rc st'"
proof -
  let ?t = "uninit os 14" and ?basis = "be_basis (be st) (be_origin st) (uninit os 14)"
  let ?r = "Mask_write_register a x y"
  have len: "int (length ?basis) = header_length (be st)" by (rule be_framing.length_basis)
  have room: "header_length (be st) \<le> 7" by (cases "be st") simp_all
  note wrs = wr_filled_behind [OF len] wr_filled_behind_end [OF len]
  have "hi8 0 = 0" "lo8 0 = 0" by (simp_all add: hi8_def lo8_def)
  then show ?thesis
    using send_and_confirm_run [OF assms(1), of ?r _ ?t, OF _ refl refl] assms(2,3) frame_room(3) [of "be st"]
      build_request [OF assms(1), of ?t 22 a 0] room
    by (simp add: modbus_mask_write_register_def field_def wrs
        add.commute [of "numeral k" "header_length (be st)" for k])
qed

theorem modbus_mask_write_register_correct_witness:
  "\<exists>rc st'. modbus_mask_write_register (loop_os rtu_ctx) The_ctx 2 240 5 (loop_client rtu_ctx small_mapping) = Some (rc, st') \<and>
    carried_out loop_link (abs_mapping small_mapping) (Mask_write_register 2 240 5)
      (loop_client rtu_ctx small_mapping) 1 rc st'"
  by (rule modbus_mask_write_register_correct [OF rtu_loop]) simp_all

subsection \<open>Multiple writes\<close>

lemma put_registers_run:
  assumes "n \<le> length src" "length pre + 2 * n \<le> length t" "k = int (length pre)"
  shows "put_registers (int n) src (filled pre t) k =
    Some (k + 2 * int n, filled (pre @ encode_regs (take n src)) t)"
proof -
  let ?f = "\<lambda>i (req_length, req). do {
          v \<leftarrow> rd src i;
          req \<leftarrow> wr req req_length (hi8 (uint v));
          req \<leftarrow> wr req (req_length + 1) (lo8 (uint v));
          Some (req_length + 2, req) }"
  let ?S = "\<lambda>j. (k + 2 * int j, filled (pre @ encode_regs (take j src)) t)"
  have "for_loop n 0 ?f (?S 0) = Some (?S n)"
  proof (rule for_loop_states)
    fix j
    assume j: "j < n"
    then have "take (Suc j) src = take j src @ [src ! j]" "length (take j src) = j"
      using assms(1) by (simp_all add: take_Suc_conv_app_nth)
    then show "?f (0 + int j) (?S j) = Some (?S (Suc j))"
      using j assms by (simp add: rd_nat wr_filled encode_regs_snoc)
  qed
  then show ?thesis by (simp add: put_registers_def)
qed

lemma byte_of_bits_snoc:
  assumes "length xs < 8"
  shows "byte_of_bits (xs @ [b]) =
    (if b then byte_of_bits xs OR word_of_int (2 ^ length xs)
     else byte_of_bits xs AND word_of_int (NOT (2 ^ length xs)))"
proof (rule bit_word_eqI)
  fix n
  assume "n < LENGTH(8)"
  have pow: "bit (2 ^ length xs :: int) n \<longleftrightarrow> n = length xs" by (auto simp: bit_simps)
  have pow8: "bit (2 ^ length xs :: u8) n \<longleftrightarrow> n = length xs"
    using assms by (auto simp: bit_simps)
  show "bit (byte_of_bits (xs @ [b])) n = bit (if b then byte_of_bits xs OR word_of_int (2 ^ length xs)
     else byte_of_bits xs AND word_of_int (NOT (2 ^ length xs))) n"
    using assms \<open>n < LENGTH(8)\<close>
    by (auto simp: bit_byte_of_bits bit_or_iff bit_and_iff bit_word_of_int_iff bit_not_iff pow pow8 nth_append)
qed

text \<open>The inner loop of \<open>modbus_write_bits\<close> fills one byte.\<close>

lemma pack_byte_run:
  assumes "length done + k = 8" "length pre < length t"
    and "bs = map (\<lambda>v. v \<noteq> 0) (take n src)" "n \<le> length src" "8 * q + length done \<le> n"
    and "done = take (length done) (drop (8 * q) bs)"
  shows "\<exists>bc. pack_byte k (2 ^ length done) (int n) src (int (length pre)) (int (8 * q + length done))
      (int (8 * q + length done)) (filled (pre @ [byte_of_bits done]) t) =
    Some (filled (pre @ [byte_of_bits (chunk bs q)]) t, bc, int (min n (8 * q + 8))) \<and>
    (8 * q + 8 \<le> n \<longrightarrow> bc = int (8 * q + 8))"
  using assms
proof (induction k arbitrary: "done")
  case 0
  then have "done = chunk bs q" "length done = 8" by (simp_all add: chunk_def)
  then show ?case using "0.prems"(5) by simp
next
  case (Suc k)
  let ?p = "8 * q + length done"
  show ?case
  proof (cases "?p < n")
    case False
    then have "?p = n" using Suc.prems(5) by simp
    moreover have "length bs = n" using Suc.prems(3,4) by simp
    ultimately have "done = chunk bs q" using Suc.prems(1,6) by (simp add: chunk_def)
    then show ?thesis using \<open>?p = n\<close> Suc.prems(1) by simp
  next
    case True
    have bit: "bs ! ?p = (src ! ?p \<noteq> 0)" using True Suc.prems(3,4) by simp
    have next_done: "done @ [bs ! ?p] = take (Suc (length done)) (drop (8 * q) bs)"
      using True Suc.prems(3,4,6) by (simp add: take_Suc_conv_app_nth)
    have cell: "rd (filled (pre @ [byte_of_bits done]) t) (int (length pre)) = Some (byte_of_bits done)"
      by (simp add: filled_def rd_nat nth_append)
    have wrc: "wr (filled (pre @ [byte_of_bits done]) t) (int (length pre)) v = Some (filled (pre @ [v]) t)" for v
      using wr_filled_inside [of "int (length pre)" "pre @ [byte_of_bits done]" t v]
      by (simp add: list_update_append)
    have "(if src ! ?p \<noteq> 0 then byte_of_bits done OR word_of_int (2 ^ length done)
        else byte_of_bits done AND word_of_int (NOT (2 ^ length done))) = byte_of_bits (done @ [bs ! ?p])"
      using byte_of_bits_snoc [of "done" "bs ! ?p"] Suc.prems(1) bit by simp
    then show ?thesis
      using Suc.IH [of "done @ [bs ! ?p]"] Suc.prems True next_done cell wrc rd_nat [of src ?p]
      by (simp add: push_bit_eq_mult mult.commute add.commute)
  qed
qed

lemma pack_bytes_run:
  assumes "n \<le> length src" "length pre + nb_bytes n \<le> length t" "k = int (length pre)"
    and "bs = map (\<lambda>v. v \<noteq> 0) (take n src)"
  shows "pack_bytes (int (nb_bytes n)) (int n) src (filled pre t) k =
    Some (filled (pre @ pack_bits bs) t, k + int (nb_bytes n))"
proof -
  let ?pre = "\<lambda>j. pre @ map (\<lambda>i. byte_of_bits (chunk bs i)) [0..<j]"
  let ?f = "\<lambda>i (req, req_length, bit_check, pos). do {
          req \<leftarrow> wr req req_length 0;
          (req, bit_check, pos) \<leftarrow> pack_byte 8 1 (int n) src req_length bit_check pos req;
          Some (req, req_length + 1, bit_check, pos) }"
  let ?P = "\<lambda>j (req, len, bc, pos). req = filled (?pre j) t \<and> len = k + int j \<and>
    (8 * j \<le> n \<longrightarrow> bc = int (8 * j) \<and> pos = int (8 * j))"
  have lbs: "length bs = n" using assms(1,4) by simp
  have "\<exists>s. for_loop (nb_bytes n) 0 ?f (filled pre t, k, 0, 0) = Some s \<and> ?P (nb_bytes n) s"
  proof (rule for_loop_inv)
    show "?P 0 (filled pre t, k, 0, 0)" by simp
    fix j s
    assume j: "j < nb_bytes n" and P: "?P j s"
    have q: "8 * j < n"
    proof (rule ccontr)
      assume "\<not> 8 * j < n"
      then have "nb_bytes n \<le> j" by (intro nb_bytes_bound) simp
      with j show False by simp
    qed
    have room: "length (?pre j) < length t" using j assms(2) by simp
    have at: "k + int j = int (length (?pre j))" by (simp add: assms(3))
    have "byte_of_bits [] = 0" by (simp add: byte_of_bits_def)
    then obtain bc where run: "pack_byte 8 1 (int n) src (k + int j) (int (8 * j)) (int (8 * j))
        (filled (?pre j @ [0]) t) = Some (filled (?pre (Suc j)) t, bc, int (min n (8 * j + 8)))"
      "8 * j + 8 \<le> n \<longrightarrow> bc = int (8 * j + 8)"
      using pack_byte_run [of "[]" 8 "?pre j" t bs n src j] room assms(1,4) q unfolding at by auto
    show "\<exists>s'. ?f (0 + int j) s = Some s' \<and> ?P (Suc j) s'"
      using P q run wr_filled [OF at room] by (auto split: prod.splits)
  qed
  then show ?thesis
    by (auto simp: pack_bytes_def pack_bits_def lbs)
qed

lemma write_bits_run:
  assumes "client_at L os slave d st" "0 \<le> a" "a < 65536" "n \<le> length src" "n \<le> 1968"
  shows "\<exists>rc st'. modbus_write_bits os The_ctx a (int n) src st = Some (rc, st') \<and>
    carried_out L d (Write_coils a (map (\<lambda>v. v \<noteq> 0) (take n src))) st (int n) rc st'"
proof -
  let ?t = "uninit os 260" and ?basis = "be_basis (be st) (be_origin st) (uninit os 260)"
  define bs where "bs = map (\<lambda>v. v \<noteq> 0) (take n src)"
  have n: "length bs = n" "nb_bytes n \<le> 246"
    using assms(4,5) nb_bytes_bound [of n 246] by (simp_all add: bs_def)
  have len: "int (length ?basis) = header_length (be st)" by (rule be_framing.length_basis)
  have room: "header_length (be st) \<le> 7" by (cases "be st") simp_all
  have bc: "int n sdiv 8 + (if int n smod 8 \<noteq> 0 then 1 else 0) = int (nb_bytes n)"
    using nb_bytes_int [of n] by (cases "n = 0") (auto simp: signed_divide_int_def signed_modulo_int_def nb_bytes_def)
  have pack: "pack_bytes (int (nb_bytes n)) (int n) src
      (filled (?basis @ [15, hi8 a, lo8 a, hi8 (int n), lo8 (int n), of_nat (nb_bytes n)]) ?t)
      (header_length (be st) + 6) =
    Some (filled ((?basis @ [15, hi8 a, lo8 a, hi8 (int n), lo8 (int n), of_nat (nb_bytes n)]) @ pack_bits bs) ?t,
      header_length (be st) + 6 + int (nb_bytes n))"
    using len room n(2) assms(4) by (intro pack_bytes_run) (simp_all add: bs_def)
  show ?thesis
    using send_and_confirm_run [OF assms(1), of "Write_coils a bs" _ ?t, OF _ refl refl] assms(2,3,5) n
      frame_room_260 [of "int (6 + nb_bytes n)" "be st"] build_request [OF assms(1), of ?t 15 a "int n"]
      room pack bc
    by (simp add: wr_filled_behind_end [OF len] add.assoc  modbus_write_bits_def field_def bs_def [symmetric] Let_def
        add.commute [of "numeral k" "header_length (be st)" for k])
qed

text \<open>C33: \<open>modbus_write_bits\<close> on an idle connection to a device writes the first \<open>n\<close> values of
  \<open>src\<close> (any non-zero byte is on) to the coils from \<open>a\<close> and returns \<open>n\<close>, or reports the
  device's exception; \<open>src\<close> is not read beyond \<open>n\<close>.\<close>

theorem modbus_write_bits_correct:
  assumes "client_at L os slave d st" "0 \<le> a" "a < 65536" "n \<le> length src" "n \<le> 1968"
  shows "\<exists>rc st'. modbus_write_bits os The_ctx a (int n) src st = Some (rc, st') \<and>
    carried_out L d (Write_coils a (map (\<lambda>v. v \<noteq> 0) (take n src))) st (int n) rc st'"
  by (rule write_bits_run [OF assms])

theorem modbus_write_bits_correct_witness:
  "\<exists>rc st'. modbus_write_bits (loop_os tcp_ctx) The_ctx 1 (int 2) [1, 0, 5] (loop_client tcp_ctx small_mapping) = Some (rc, st') \<and>
    carried_out loop_link (abs_mapping small_mapping) (Write_coils 1 (map (\<lambda>v. v \<noteq> 0) (take 2 [1 :: u8, 0, 5])))
      (loop_client tcp_ctx small_mapping) (int 2) rc st'"
  by (rule modbus_write_bits_correct [OF tcp_loop]) simp_all

lemma write_registers_run:
  assumes "client_at L os slave d st" "0 \<le> a" "a < 65536" "n \<le> length src" "n \<le> 123"
  shows "\<exists>rc st'. modbus_write_registers os The_ctx a (int n) src st = Some (rc, st') \<and>
    carried_out L d (Write_registers a (take n src)) st (int n) rc st'"
proof -
  let ?t = "uninit os 260" and ?basis = "be_basis (be st) (be_origin st) (uninit os 260)"
  let ?head = "[16, hi8 a, lo8 a, hi8 (int n), lo8 (int n), of_nat (2 * n)]"
  have len: "int (length ?basis) = header_length (be st)" by (rule be_framing.length_basis)
  have room: "header_length (be st) \<le> 7" by (cases "be st") simp_all
  have put: "put_registers (int n) src (filled (?basis @ ?head) ?t) (header_length (be st) + 6) =
    Some (header_length (be st) + 6 + 2 * int n, filled ((?basis @ ?head) @ encode_regs (take n src)) ?t)"
    using len room assms(4,5) by (intro put_registers_run) simp_all
  show ?thesis
    using send_and_confirm_run [OF assms(1), of "Write_registers a (take n src)" _ ?t, OF _ refl refl] assms(2-5)
      frame_room_260 [of "int (6 + 2 * n)" "be st"] build_request [OF assms(1), of ?t 16 a "int n"]
      room put
    by (simp add: wr_filled_behind_end [OF len] add.assoc  modbus_write_registers_def field_def mult.commute [of _ 2]
        add.commute [of "numeral k" "header_length (be st)" for k])
qed

text \<open>\<open>modbus_write_registers\<close> on an idle connection to a device writes the first \<open>n\<close> values
  of \<open>src\<close> to the registers from \<open>a\<close> and returns \<open>n\<close>, or reports the device's exception.\<close>

theorem modbus_write_registers_correct:
  assumes "client_at L os slave d st" "0 \<le> a" "a < 65536" "n \<le> length src" "n \<le> 123"
  shows "\<exists>rc st'. modbus_write_registers os The_ctx a (int n) src st = Some (rc, st') \<and>
    carried_out L d (Write_registers a (take n src)) st (int n) rc st'"
  by (rule write_registers_run [OF assms])

theorem modbus_write_registers_correct_witness:
  "\<exists>rc st'. modbus_write_registers (loop_os rtu_ctx) The_ctx 1 (int 2) [11, 12, 13] (loop_client rtu_ctx small_mapping) = Some (rc, st') \<and>
    carried_out loop_link (abs_mapping small_mapping) (Write_registers 1 (take 2 [11, 12, 13]))
      (loop_client rtu_ctx small_mapping) (int 2) rc st'"
  by (rule modbus_write_registers_correct [OF rtu_loop]) simp_all

subsection \<open>Reads\<close>

text \<open>What a read leaves in the caller's array: the values, then what was there.\<close>

definition registers_read :: "response \<Rightarrow> u16 list \<Rightarrow> u16 list" where
  "registers_read resp dest = (case resp of Registers vs \<Rightarrow> filled vs dest | _ \<Rightarrow> dest)"

definition bits_read :: "response \<Rightarrow> u8 list \<Rightarrow> u8 list" where
  "bits_read resp dest = (case resp of Bits bs \<Rightarrow> filled (map of_bool bs) dest | _ \<Rightarrow> dest)"

lemma encode_regs_rd:
  assumes "i < length vs"
  shows "rd (encode_regs vs @ rest) (int (2 * i)) = Some (hi8 (uint (vs ! i)))"
    "rd (encode_regs vs @ rest) (int (2 * i + 1)) = Some (lo8 (uint (vs ! i)))"
  using encode_regs_nth [OF assms] assms unfolding rd_nat by (simp_all add: nth_append)

lemma load_registers_run:
  assumes "int (length hdr) = h" "length vs \<le> length dest"
  shows "load_registers (hdr @ (g # c # encode_regs vs) @ rest) h (int (length vs)) dest =
    Some (filled vs dest)"
proof -
  let ?rsp = "hdr @ (g # c # encode_regs vs) @ rest"
  have behind: "rd ?rsp (h + 2 + j) = rd (encode_regs vs @ rest) j" if "0 \<le> j" for j
    using rd_behind [of "hdr @ [g, c]" "h + 2" j "encode_regs vs @ rest"] assms(1) that by simp
  have "for_loop (length vs) 0
       (\<lambda>i dest. do {
          hi \<leftarrow> rd ?rsp (h + 2 + push_bit 1 i);
          lo \<leftarrow> rd ?rsp (h + 3 + push_bit 1 i);
          wr dest i (word_of_int (be16_or hi lo)) }) (filled (take 0 vs) dest) =
     Some (filled (take (length vs) vs) dest)"
  proof (rule for_loop_states)
    fix i
    assume i: "i < length vs"
    have "take (Suc i) vs = take i vs @ [vs ! i]" using i by (rule take_Suc_conv_app_nth)
    moreover have "length (take i vs) = i" using i by simp
    moreover have "rd ?rsp (h + 2 + int (2 * i)) = Some (hi8 (uint (vs ! i)))"
      "rd ?rsp (h + 2 + int (2 * i + 1)) = Some (lo8 (uint (vs ! i)))"
      by (simp_all only: behind of_nat_0_le_iff encode_regs_rd [OF i])
    moreover have "h + 2 + push_bit 1 (0 + int i) = h + 2 + int (2 * i)"
      "h + 3 + push_bit 1 (0 + int i) = h + 2 + int (2 * i + 1)"
      by (simp_all add: push_bit_eq_mult)
    moreover have "wr (filled (take i vs) dest) (0 + int i) v = Some (filled (take i vs @ [v]) dest)" for v
      using wr_filled [of "0 + int i" "take i vs" dest v] i assms(2) by simp
    ultimately show "do {
          hi \<leftarrow> rd ?rsp (h + 2 + push_bit 1 (0 + int i));
          lo \<leftarrow> rd ?rsp (h + 3 + push_bit 1 (0 + int i));
          wr (filled (take i vs) dest) (0 + int i) (word_of_int (be16_or hi lo)) } =
        Some (filled (take (Suc i) vs) dest)"
      by (simp only: bind.bind_lunit) (simp add: wire_simps)
  qed
  then show ?thesis by (simp add: load_registers_def)
qed

text \<open>The outcome of an exchange, split into the exception and the good answer.\<close>

lemma client_outcome_cases:
  assumes "client_outcome resp good rc st" "0 \<le> good"
  shows "rc = -1 \<longleftrightarrow> (\<exists>e. resp = Exception e)" "(\<nexists>e. resp = Exception e) \<Longrightarrow> rc = good"
  using assms by (auto simp: client_outcome_def split: response.splits)

lemma read_registers_run:
  assumes "client_at L os slave d st" "request_fits r" "n \<le> length dest" "n \<le> 125"
    and "encode_request r = [word_of_int f, hi8 a, lo8 a, hi8 (int n), lo8 (int n)]"
    and "r = Read_holding_registers a n \<or> r = Read_input_registers a n"
  shows "\<exists>rc st'. read_registers os f a (int n) dest st =
      Some (rc, registers_read (snd (serve d r)) dest, st') \<and> carried_out L d r st (int n) rc st'"
proof -
  let ?t = "uninit os 12" and ?resp = "snd (serve d r)"
  have build: "be_build_request_basis f a (int n) ?t st = Some (header_length (be st) + 5,
      filled (be_basis (be st) (be_origin st) ?t @ encode_request r) ?t, be_advance st)"
    using build_request [OF assms(1), of ?t f a "int n"] frame_room [of "be st"] by (simp add: assms(5))
  obtain k req st1 rc hdr rest st' where x: "send_msg os (filled (be_basis (be st) (be_origin st) ?t @ encode_request r) ?t)
      (header_length (be st) + 5) (be_advance st) = Some (k, req, st1)" "0 < k"
    "await_confirmation os req st1 = Some (rc, hdr @ encode_response r ?resp @ rest, st')"
    "int (length hdr) = header_length (be st)" "client_outcome ?resp (int n) rc st'"
    "awaiting L (st_ctx (be_advance st)) (fst (serve d r)) [] st'"
    using exchange [OF assms(1,2), of ?t] frame_room [of "be st"] assms(5,6) by force
  have hl: "header_length (be st') = header_length (be st)"
    using x(6) same_kind_simps [OF be_advance_ctx(1) [of st]] by (simp add: awaiting_def)
  have fin: "carried_out L d r st (int n) rc st'" using x(5,6) by (simp add: carried_out_def)
  show ?thesis
  proof (cases "\<exists>e. ?resp = Exception e")
    case True
    then have "rc = -1" using client_outcome_cases [OF x(5)] by simp
    then show ?thesis
      using fin True x assms(4) build by (auto simp: read_registers_def registers_read_def)
  next
    case False
    obtain vs where vs: "?resp = Registers vs" "length vs = n"
      using serve_fits [of r d] assms(6) False by (cases ?resp) auto
    have rc: "rc = int (length vs)" using client_outcome_cases [OF x(5)] False vs by simp
    have "load_registers (hdr @ encode_response r ?resp @ rest) (header_length (be st')) rc dest =
        Some (filled vs dest)"
      using load_registers_run [OF x(4), of vs dest _ _ rest] assms(3) vs
      by (simp add: encode_response_def rc hl del: request_function.simps)
    then show ?thesis
      using fin x assms(4) build rc by (auto simp: read_registers_def registers_read_def vs)
  qed
qed

lemma read_holding_run:
  assumes "client_at L os slave d st" "0 \<le> a" "a < 65536" "n \<le> 125" "n \<le> length dest"
  shows "\<exists>rc st'. modbus_read_registers os The_ctx a (int n) dest st =
      Some (rc, registers_read (snd (serve d (Read_holding_registers a n))) dest, st') \<and>
    carried_out L d (Read_holding_registers a n) st (int n) rc st'"
  using read_registers_run [OF assms(1), of "Read_holding_registers a n" n dest 3 a] assms(2-5)
  by (simp add: modbus_read_registers_def field_def)

text \<open>C14: \<open>modbus_read_registers\<close> on an idle connection to a device returns \<open>n\<close> and stores the
  values of its holding registers from \<open>a\<close> at the start of \<open>dest\<close>, or reports the device's
  exception and leaves \<open>dest\<close> as it was.\<close>

theorem modbus_read_registers_correct:
  assumes "client_at L os slave d st" "0 \<le> a" "a < 65536" "n \<le> 125" "n \<le> length dest"
  shows "\<exists>rc st'. modbus_read_registers os The_ctx a (int n) dest st =
      Some (rc, registers_read (snd (serve d (Read_holding_registers a n))) dest, st') \<and>
    carried_out L d (Read_holding_registers a n) st (int n) rc st'"
  by (rule read_holding_run [OF assms])

theorem modbus_read_registers_correct_witness:
  "\<exists>rc st'. modbus_read_registers (loop_os rtu_ctx) The_ctx 1 (int 2) [7, 8, 9] (loop_client rtu_ctx small_mapping) =
      Some (rc, registers_read (snd (serve (abs_mapping small_mapping) (Read_holding_registers 1 2))) [7, 8, 9], st') \<and>
    carried_out loop_link (abs_mapping small_mapping) (Read_holding_registers 1 2)
      (loop_client rtu_ctx small_mapping) (int 2) rc st'"
  by (rule modbus_read_registers_correct [OF rtu_loop]) simp_all

lemma read_input_run:
  assumes "client_at L os slave d st" "0 \<le> a" "a < 65536" "n \<le> 125" "n \<le> length dest"
  shows "\<exists>rc st'. modbus_read_input_registers os The_ctx a (int n) dest st =
      Some (rc, registers_read (snd (serve d (Read_input_registers a n))) dest, st') \<and>
    carried_out L d (Read_input_registers a n) st (int n) rc st'"
  using read_registers_run [OF assms(1), of "Read_input_registers a n" n dest 4 a] assms(2-5)
  by (simp add: modbus_read_input_registers_def field_def)

text \<open>\<open>modbus_read_input_registers\<close> does the same with the input registers.\<close>

theorem modbus_read_input_registers_correct:
  assumes "client_at L os slave d st" "0 \<le> a" "a < 65536" "n \<le> 125" "n \<le> length dest"
  shows "\<exists>rc st'. modbus_read_input_registers os The_ctx a (int n) dest st =
      Some (rc, registers_read (snd (serve d (Read_input_registers a n))) dest, st') \<and>
    carried_out L d (Read_input_registers a n) st (int n) rc st'"
  by (rule read_input_run [OF assms])

theorem modbus_read_input_registers_correct_witness:
  "\<exists>rc st'. modbus_read_input_registers (loop_os tcp_ctx) The_ctx 1 (int 2) [7, 8, 9] (loop_client tcp_ctx small_mapping) =
      Some (rc, registers_read (snd (serve (abs_mapping small_mapping) (Read_input_registers 1 2))) [7, 8, 9], st') \<and>
    carried_out loop_link (abs_mapping small_mapping) (Read_input_registers 1 2)
      (loop_client tcp_ctx small_mapping) (int 2) rc st'"
  by (rule modbus_read_input_registers_correct [OF tcp_loop]) simp_all

text \<open>The inner loop of \<open>read_io_status\<close> takes one byte apart.\<close>

lemma unpack_byte_run:
  assumes "k \<le> 8" "p + k = 8 * q + 8" "length bs \<le> length dest"
  shows "unpack_byte k (uint (byte_of_bits (chunk bs q))) (2 ^ (8 - k)) (int (min p (length bs))) (int (length bs))
      (filled (map of_bool (take p bs)) dest) =
    Some (filled (map of_bool (take (8 * q + 8) bs)) dest, int (min (8 * q + 8) (length bs)))"
  using assms
proof (induction k arbitrary: p)
  case 0
  then show ?case by simp
next
  case (Suc k)
  show ?case
  proof (cases "p < length bs")
    case False
    then show ?thesis using Suc.prems(2) by simp
  next
    case True
    let ?j = "8 - Suc k"
    have p: "p = 8 * q + ?j" "?j < 8" using Suc.prems(1,2) by simp_all
    have len: "length (chunk bs q) \<le> 8" by (simp add: length_chunk)
    have "?j < length bs - 8 * q" using True p by linarith
    then have "bit (byte_of_bits (chunk bs q)) ?j = bs ! p"
      using p by (simp only: bit_byte_of_bits [OF len]) (simp add: chunk_def length_chunk)
    then have test: "uint (byte_of_bits (chunk bs q)) AND 2 ^ ?j \<noteq> 0 \<longleftrightarrow> bs ! p"
      by (simp add: and_exp_eq_0_iff_not_bit bit_uint_iff p(2)) (use p(2) in \<open>auto dest: bit_imp_le_length\<close>)
    have wrp: "wr (filled (map of_bool (take p bs)) dest) (int p) v =
        Some (filled (map of_bool (take p bs) @ [v]) dest)" for v :: u8
      using True Suc.prems(3) by (simp add: wr_filled)
    have "take (Suc p) bs = take p bs @ [bs ! p]" using True by (rule take_Suc_conv_app_nth)
    moreover have "push_bit 1 (2 ^ ?j :: int) = 2 ^ (8 - k)"
    proof -
      have "8 - k = Suc ?j" using Suc.prems(1) by simp
      then show ?thesis by (simp only: push_bit_eq_mult power_Suc) simp
    qed
    ultimately show ?thesis
      using Suc.IH [of "Suc p"] Suc.prems True test wrp by (auto simp: min_absorb1 add.commute)
  qed
qed

lemma unpack_loop_run:
  assumes "int (length hdr) = h" "length bs \<le> length dest"
  shows "for_loop (nb_bytes (length bs)) (h + 2)
      (\<lambda>i (dest, pos). do {
         temp \<leftarrow> rd (hdr @ (g # c # pack_bits bs) @ rest) i;
         unpack_byte 8 (uint temp) 1 pos (int (length bs)) dest }) (dest, 0) =
    Some (filled (map of_bool bs) dest, int (length bs))"
proof -
  let ?rsp = "hdr @ (g # c # pack_bits bs) @ rest"
  let ?S = "\<lambda>k. (filled (map of_bool (take (8 * k) bs)) dest, int (min (8 * k) (length bs)))"
  have "for_loop (nb_bytes (length bs)) (h + 2)
      (\<lambda>i (dest, pos). do { temp \<leftarrow> rd ?rsp i; unpack_byte 8 (uint temp) 1 pos (int (length bs)) dest }) (?S 0) =
    Some (?S (nb_bytes (length bs)))"
  proof (rule for_loop_states)
    fix k
    assume k: "k < nb_bytes (length bs)"
    have "rd ?rsp (h + 2 + int k) = rd (pack_bits bs @ rest) (int k)"
      using rd_behind [of "hdr @ [g, c]" "h + 2" "int k" "pack_bits bs @ rest"] assms(1) by simp
    also have "\<dots> = Some (byte_of_bits (chunk bs k))"
      using k by (simp add: rd_nat nth_append) (simp add: pack_bits_def)
    finally show "(\<lambda>(dest, pos). do { temp \<leftarrow> rd ?rsp (h + 2 + int k);
        unpack_byte 8 (uint temp) 1 pos (int (length bs)) dest }) (?S k) = Some (?S (Suc k))"
      using unpack_byte_run [of 8 "8 * k" k bs dest] assms(2) by (simp add: add.commute)
  qed
  then show ?thesis using nb_bytes_le [of "length bs"] by (simp add: min_absorb2)
qed

lemma read_io_status_run:
  assumes "client_at L os slave d st" "request_fits r" "n \<le> length dest" "n \<le> 2000"
    and "encode_request r = [word_of_int f, hi8 a, lo8 a, hi8 (int n), lo8 (int n)]"
    and "r = Read_coils a n \<or> r = Read_discrete_inputs a n"
  shows "\<exists>rc st'. read_io_status os f a (int n) dest st =
      Some (rc, bits_read (snd (serve d r)) dest, st') \<and>
    carried_out L d r st (int (nb_bytes n)) rc st'"
proof -
  let ?t = "uninit os 12" and ?resp = "snd (serve d r)"
  have build: "be_build_request_basis f a (int n) ?t st = Some (header_length (be st) + 5,
      filled (be_basis (be st) (be_origin st) ?t @ encode_request r) ?t, be_advance st)"
    using build_request [OF assms(1), of ?t f a "int n"] frame_room [of "be st"] by (simp add: assms(5))
  obtain k req st1 rc hdr rest st' where x: "send_msg os (filled (be_basis (be st) (be_origin st) ?t @ encode_request r) ?t)
      (header_length (be st) + 5) (be_advance st) = Some (k, req, st1)" "0 < k"
    "await_confirmation os req st1 = Some (rc, hdr @ encode_response r ?resp @ rest, st')"
    "int (length hdr) = header_length (be st)" "client_outcome ?resp (int (nb_bytes n)) rc st'"
    "awaiting L (st_ctx (be_advance st)) (fst (serve d r)) [] st'"
    using exchange [OF assms(1,2), of ?t] frame_room [of "be st"] assms(5,6) by force
  have hl: "header_length (be st') = header_length (be st)"
    using x(6) same_kind_simps [OF be_advance_ctx(1) [of st]] by (simp add: awaiting_def)
  have fin: "carried_out L d r st (int (nb_bytes n)) rc st'" using x(5,6) by (simp add: carried_out_def)
  show ?thesis
  proof (cases "\<exists>e. ?resp = Exception e")
    case True
    then have "rc = -1" using client_outcome_cases [OF x(5)] by simp
    then show ?thesis
      using fin True x build by (auto simp: read_io_status_def bits_read_def)
  next
    case False
    obtain bs where bs: "?resp = Bits bs" "length bs = n"
      using serve_fits [of r d] assms(6) False by (cases ?resp) auto
    have rc: "rc = int (nb_bytes (length bs))" using client_outcome_cases [OF x(5)] False bs by simp
    show ?thesis
      using fin x build rc unpack_loop_run [OF x(4), of bs dest _ _ rest] assms(3) bs
      by (auto simp: read_io_status_def bits_read_def encode_response_def hl simp del: request_function.simps)
  qed
qed

text \<open>The public functions report the number of bits instead of the number of bytes.\<close>

lemma carried_out_count:
  assumes "carried_out L d r st good rc st'" "0 \<le> good" "0 \<le> good'"
  shows "carried_out L d r st good' (if rc = -1 then -1 else good') st'"
  using assms by (auto simp: carried_out_def client_outcome_def split: response.splits)

lemma read_coils_run:
  assumes "client_at L os slave d st" "0 \<le> a" "a < 65536" "n \<le> 2000" "n \<le> length dest"
  shows "\<exists>rc st'. modbus_read_bits os The_ctx a (int n) dest st =
      Some (rc, bits_read (snd (serve d (Read_coils a n))) dest, st') \<and>
    carried_out L d (Read_coils a n) st (int n) rc st'"
  using read_io_status_run [OF assms(1), of "Read_coils a n" n dest 1 a] assms(2-5)
  by (fastforce simp: modbus_read_bits_def field_def dest: carried_out_count [where good' = "int n"])

text \<open>C15: \<open>modbus_read_bits\<close> on an idle connection to a device returns \<open>n\<close> and stores its coils
  from \<open>a\<close> at the start of \<open>dest\<close>, one byte 0 or 1 each, or reports the device's exception and
  leaves \<open>dest\<close> as it was.\<close>

theorem modbus_read_bits_correct:
  assumes "client_at L os slave d st" "0 \<le> a" "a < 65536" "n \<le> 2000" "n \<le> length dest"
  shows "\<exists>rc st'. modbus_read_bits os The_ctx a (int n) dest st =
      Some (rc, bits_read (snd (serve d (Read_coils a n))) dest, st') \<and>
    carried_out L d (Read_coils a n) st (int n) rc st'"
  by (rule read_coils_run [OF assms])

theorem modbus_read_bits_correct_witness:
  "\<exists>rc st'. modbus_read_bits (loop_os tcp_ctx) The_ctx 1 (int 2) [7, 8, 9] (loop_client tcp_ctx small_mapping) =
      Some (rc, bits_read (snd (serve (abs_mapping small_mapping) (Read_coils 1 2))) [7, 8, 9], st') \<and>
    carried_out loop_link (abs_mapping small_mapping) (Read_coils 1 2)
      (loop_client tcp_ctx small_mapping) (int 2) rc st'"
  by (rule modbus_read_bits_correct [OF tcp_loop]) simp_all

lemma read_discrete_run:
  assumes "client_at L os slave d st" "0 \<le> a" "a < 65536" "n \<le> 2000" "n \<le> length dest"
  shows "\<exists>rc st'. modbus_read_input_bits os The_ctx a (int n) dest st =
      Some (rc, bits_read (snd (serve d (Read_discrete_inputs a n))) dest, st') \<and>
    carried_out L d (Read_discrete_inputs a n) st (int n) rc st'"
  using read_io_status_run [OF assms(1), of "Read_discrete_inputs a n" n dest 2 a] assms(2-5)
  by (fastforce simp: modbus_read_input_bits_def field_def dest: carried_out_count [where good' = "int n"])

text \<open>\<open>modbus_read_input_bits\<close> does the same with the discrete inputs.\<close>

theorem modbus_read_input_bits_correct:
  assumes "client_at L os slave d st" "0 \<le> a" "a < 65536" "n \<le> 2000" "n \<le> length dest"
  shows "\<exists>rc st'. modbus_read_input_bits os The_ctx a (int n) dest st =
      Some (rc, bits_read (snd (serve d (Read_discrete_inputs a n))) dest, st') \<and>
    carried_out L d (Read_discrete_inputs a n) st (int n) rc st'"
  by (rule read_discrete_run [OF assms])

theorem modbus_read_input_bits_correct_witness:
  "\<exists>rc st'. modbus_read_input_bits (loop_os rtu_ctx) The_ctx 1 (int 2) [7, 8, 9] (loop_client rtu_ctx small_mapping) =
      Some (rc, bits_read (snd (serve (abs_mapping small_mapping) (Read_discrete_inputs 1 2))) [7, 8, 9], st') \<and>
    carried_out loop_link (abs_mapping small_mapping) (Read_discrete_inputs 1 2)
      (loop_client rtu_ctx small_mapping) (int 2) rc st'"
  by (rule modbus_read_input_bits_correct [OF rtu_loop]) simp_all

subsection \<open>Write and read\<close>

text \<open>C3: \<open>modbus_write_and_read_registers\<close> on an idle connection to a device writes the first
  \<open>wn\<close> values of \<open>src\<close> there, then reads \<open>n\<close> registers into \<open>dest\<close> and returns \<open>n\<close>, or reports the
  device's exception and leaves \<open>dest\<close> as it was.\<close>

theorem modbus_write_and_read_registers_correct:
  assumes "client_at L os slave d st" "0 \<le> wa" "wa < 65536" "0 \<le> ra" "ra < 65536"
    and "wn \<le> length src" "wn \<le> 121" "n \<le> length dest" "n \<le> 125"
    and "r = Write_and_read_registers wa (take wn src) ra n"
  shows "\<exists>rc st'. modbus_write_and_read_registers os The_ctx wa (int wn) src ra (int n) dest st =
      Some (rc, registers_read (snd (serve d r)) dest, st') \<and> carried_out L d r st (int n) rc st'"
proof -
  let ?t = "uninit os 260" and ?basis = "be_basis (be st) (be_origin st) (uninit os 260)"
  let ?head = "[23, hi8 ra, lo8 ra, hi8 (int n), lo8 (int n), hi8 wa, lo8 wa, hi8 (int wn), lo8 (int wn),
      of_nat (2 * wn)]"
  let ?resp = "snd (serve d r)"
  have len: "int (length ?basis) = header_length (be st)" by (rule be_framing.length_basis)
  have room: "header_length (be st) \<le> 7" by (cases "be st") simp_all
  have fits: "request_fits r" using assms by simp
  have build: "be_build_request_basis 23 ra (int n) ?t st = Some (header_length (be st) + 5,
      filled (?basis @ [23, hi8 ra, lo8 ra, hi8 (int n), lo8 (int n)]) ?t, be_advance st)"
    using build_request [OF assms(1), of ?t 23 ra "int n"] room by simp
  have enc: "encode_request r = ?head @ encode_regs (take wn src)"
    using assms(6) by (simp add: assms(10) field_def)
  have put: "put_registers (int wn) src (filled (?basis @ ?head) ?t) (header_length (be st) + 10) =
    Some (header_length (be st) + 10 + 2 * int wn, filled (?basis @ encode_request r) ?t)"
    using put_registers_run [of wn src "?basis @ ?head" ?t "header_length (be st) + 10"] len room assms(6,7)
    by (simp add: enc)
  have elen: "int (length (encode_request r)) = 10 + 2 * int wn" using assms(6) by (simp add: enc)
  obtain k req st1 rc hdr rest st' where x: "send_msg os (filled (?basis @ encode_request r) ?t)
      (header_length (be st) + (10 + 2 * int wn)) (be_advance st) = Some (k, req, st1)" "0 < k"
    "await_confirmation os req st1 = Some (rc, hdr @ encode_response r ?resp @ rest, st')"
    "int (length hdr) = header_length (be st)" "client_outcome ?resp (int n) rc st'"
    "awaiting L (st_ctx (be_advance st)) (fst (serve d r)) [] st'"
    using exchange [OF assms(1) fits, of ?t] frame_room_260 [of "10 + 2 * int wn" "be st"] assms(7,10)
    unfolding elen by fastforce
  have hl: "header_length (be st') = header_length (be st)"
    using x(6) same_kind_simps [OF be_advance_ctx(1) [of st]] by (simp add: awaiting_def)
  have fin: "carried_out L d r st (int n) rc st'" using x(5,6) by (simp add: carried_out_def)
  have run: "modbus_write_and_read_registers os The_ctx wa (int wn) src ra (int n) dest st =
      (if rc = -1 then Some (-1, dest, st')
       else load_registers (hdr @ encode_response r ?resp @ rest) (header_length (be st)) rc dest \<bind>
         (\<lambda>dest. Some (rc, dest, st')))"
    using x(1-3) assms(7,9) build put room hl
    by (simp add: modbus_write_and_read_registers_def wr_filled_behind_end [OF len] mult.commute [of _ 2]
        add.assoc add.commute [of "numeral k" "header_length (be st)" for k])
  show ?thesis
  proof (cases "\<exists>e. ?resp = Exception e")
    case True
    then have "rc = -1" using client_outcome_cases [OF x(5)] by simp
    then show ?thesis using fin True run by (auto simp: registers_read_def)
  next
    case False
    obtain vs where vs: "?resp = Registers vs" "length vs = n"
      using serve_fits [of r d] assms(10) False by (cases ?resp) auto
    have rc: "rc = int (length vs)" using client_outcome_cases [OF x(5)] False vs by simp
    have "load_registers (hdr @ encode_response r ?resp @ rest) (header_length (be st)) rc dest =
        Some (filled vs dest)"
      using load_registers_run [OF x(4), of vs dest _ _ rest] assms(8) vs
      by (simp add: encode_response_def rc del: request_function.simps)
    then show ?thesis using fin run rc by (auto simp: registers_read_def vs)
  qed
qed

theorem modbus_write_and_read_registers_correct_witness:
  "\<exists>rc st'. modbus_write_and_read_registers (loop_os tcp_ctx) The_ctx 0 (int 2) [5, 6] 1 (int 3) [7, 8, 9]
      (loop_client tcp_ctx small_mapping) =
      Some (rc, registers_read (snd (serve (abs_mapping small_mapping)
        (Write_and_read_registers 0 (take 2 [5, 6]) 1 3))) [7, 8, 9], st') \<and>
    carried_out loop_link (abs_mapping small_mapping) (Write_and_read_registers 0 (take 2 [5, 6]) 1 3)
      (loop_client tcp_ctx small_mapping) (int 3) rc st'"
  by (rule modbus_write_and_read_registers_correct [OF tcp_loop]) simp_all

subsection \<open>Writing, then reading back\<close>

lemma read_write_range:
  assumes "read_range t a (length vs) \<noteq> None"
  shows "read_range (write_range t a vs) a (length vs) = Some vs"
proof -
  have eq: "map (write_range t a vs) [a..a + int (length vs) - 1] = map Some vs"
    by (rule nth_equalityI) (simp_all add: write_range_def)
  have "those (map Some vs) = Some vs" for vs :: "'a list" by (induction vs) simp_all
  with eq show ?thesis by (simp add: read_range_def)
qed

text \<open>C32: What \<open>modbus_write_registers\<close> wrote, \<open>modbus_read_registers\<close> on the same connection
  reads back: both return the number of registers, and \<open>dest\<close> starts with the values written.\<close>

theorem write_then_read_registers:
  assumes "client_at L os slave d st" "0 \<le> a" "a < 65536" "src \<noteq> []" "length src \<le> 123"
    and "length src \<le> length dest" "read_range (holding_registers d) a (length src) \<noteq> None"
  shows "\<exists>st2. do {
      (rc1, st1) \<leftarrow> modbus_write_registers os The_ctx a (int (length src)) src st;
      (rc2, dest, st2) \<leftarrow> modbus_read_registers os The_ctx a (int (length src)) dest st1;
      Some (rc1, rc2, dest, st2) } =
    Some (int (length src), int (length src), filled src dest, st2)"
proof -
  let ?n = "length src" and ?w = "Write_registers a src" and ?r = "Read_holding_registers a (length src)"
  let ?d = "fst (serve d ?w)"
  obtain vs where vs: "read_range (holding_registers d) a ?n = Some vs" using assms(7) by blast
  have srv: "serve_write (holding_registers d) a src = (write_range (holding_registers d) a src, Written)"
    using assms(4) vs by (simp add: serve_write_def)
  have again: "snd (serve ?d ?r) = Registers src"
    using read_write_range [OF assms(7)] assms(4,5) by (simp add: srv serve_read_def Suc_le_eq)
  obtain rc1 st1 where w: "modbus_write_registers os The_ctx a (int ?n) src st = Some (rc1, st1)"
    "carried_out L d ?w st (int ?n) rc1 st1"
    using write_registers_run [OF assms(1-3), of ?n src] assms(5) by auto
  have st1: "client_at L os slave ?d st1" by (rule carried_out_client_at [OF assms(1) w(2)])
  obtain rc2 st2 where r: "modbus_read_registers os The_ctx a (int ?n) dest st1 =
      Some (rc2, registers_read (snd (serve ?d ?r)) dest, st2)" "carried_out L ?d ?r st1 (int ?n) rc2 st2"
    using read_holding_run [OF st1 assms(2,3), of ?n dest] assms(5,6) by auto
  have "rc1 = int ?n" using w(2) by (simp add: carried_out_def srv client_outcome_def)
  moreover have "rc2 = int ?n" using r(2) unfolding carried_out_def again client_outcome_def by simp
  ultimately show ?thesis using w(1) r(1) [unfolded again] by (simp add: registers_read_def)
qed

theorem write_then_read_registers_witness:
  "\<exists>st2. do {
      (rc1, st1) \<leftarrow> modbus_write_registers (loop_os rtu_ctx) The_ctx 1 3 [5, 0, 7] (loop_client rtu_ctx small_mapping);
      (rc2, dest, st2) \<leftarrow> modbus_read_registers (loop_os rtu_ctx) The_ctx 1 3 [9, 9, 9, 9] st1;
      Some (rc1, rc2, dest, st2) } = Some (3, 3, [5, 0, 7, 9], st2)"
proof -
  have "read_range (holding_registers (abs_mapping small_mapping)) 1 (length [5 :: u16, 0, 7]) \<noteq> None"
    by (simp add: read_range_table) (simp add: small_mapping_def)
  from write_then_read_registers [OF rtu_loop _ _ _ _ _ this, of "[9, 9, 9, 9]"] show ?thesis
    by (simp add: filled_def)
qed

text \<open>C16: The same for coils: what \<open>modbus_write_bits\<close> wrote, \<open>modbus_read_bits\<close> reads back,
  each value normalised to 0 or 1.\<close>

theorem write_then_read_bits:
  assumes "client_at L os slave d st" "0 \<le> a" "a < 65536" "src \<noteq> []" "length src \<le> 1968"
    and "length src \<le> length dest" "read_range (coils d) a (length src) \<noteq> None"
  shows "\<exists>st2. do {
      (rc1, st1) \<leftarrow> modbus_write_bits os The_ctx a (int (length src)) src st;
      (rc2, dest, st2) \<leftarrow> modbus_read_bits os The_ctx a (int (length src)) dest st1;
      Some (rc1, rc2, dest, st2) } =
    Some (int (length src), int (length src), filled (map (\<lambda>v. of_bool (v \<noteq> 0)) src) dest, st2)"
proof -
  let ?n = "length src" and ?bs = "map (\<lambda>v. v \<noteq> 0) src"
  let ?w = "Write_coils a ?bs" and ?r = "Read_coils a (length src)"
  let ?d = "fst (serve d ?w)"
  obtain vs where vs: "read_range (coils d) a ?n = Some vs" using assms(7) by blast
  have srv: "serve_write (coils d) a ?bs = (write_range (coils d) a ?bs, Written)"
    using assms(4) vs by (simp add: serve_write_def)
  have "read_range (write_range (coils d) a ?bs) a ?n = Some ?bs"
    using read_write_range [of "coils d" a ?bs] assms(7) by simp
  then have again: "snd (serve ?d ?r) = Bits ?bs"
    using assms(4,5) by (simp add: srv serve_read_def Suc_le_eq)
  obtain rc1 st1 where w: "modbus_write_bits os The_ctx a (int ?n) src st = Some (rc1, st1)"
    "carried_out L d ?w st (int ?n) rc1 st1"
    using write_bits_run [OF assms(1-3), of ?n src] assms(5) by auto
  have st1: "client_at L os slave ?d st1" by (rule carried_out_client_at [OF assms(1) w(2)])
  obtain rc2 st2 where r: "modbus_read_bits os The_ctx a (int ?n) dest st1 =
      Some (rc2, bits_read (snd (serve ?d ?r)) dest, st2)" "carried_out L ?d ?r st1 (int ?n) rc2 st2"
    using read_coils_run [OF st1 assms(2,3), of ?n dest] assms(5,6) by auto
  have "rc1 = int ?n" using w(2) by (simp add: carried_out_def srv client_outcome_def)
  moreover have "rc2 = int ?n" using r(2) unfolding carried_out_def again client_outcome_def by simp
  ultimately show ?thesis using w(1) r(1) [unfolded again] by (simp add: bits_read_def comp_def)
qed

theorem write_then_read_bits_witness:
  "\<exists>st2. do {
      (rc1, st1) \<leftarrow> modbus_write_bits (loop_os tcp_ctx) The_ctx 1 3 [5, 0, 7] (loop_client tcp_ctx small_mapping);
      (rc2, dest, st2) \<leftarrow> modbus_read_bits (loop_os tcp_ctx) The_ctx 1 3 [9, 9, 9, 9] st1;
      Some (rc1, rc2, dest, st2) } = Some (3, 3, [1, 0, 1, 9], st2)"
proof -
  have "read_range (coils (abs_mapping small_mapping)) 1 (length [5 :: u8, 0, 7]) \<noteq> None"
    by (simp add: read_range_table) (simp add: small_mapping_def)
  from write_then_read_bits [OF tcp_loop _ _ _ _ _ this, of "[9, 9, 9, 9]"] show ?thesis
    by (simp add: filled_def)
qed

end
