(* ===== verification/Modbus_Client_Safe.thy ===== *)
theory Modbus_Client_Safe
  imports Modbus_Requests Modbus_Receive_Safe Modbus_Reply_Safe
begin

text \<open>
  The client against an arbitrary peer: whatever bytes come back (or none), the functions that
  read return, and write no more of the caller's array than was asked for.
\<close>

subsection \<open>A response that is accepted\<close>

lemma recover_returns:
  assumes "settles mu os"
  obtains st' where "recover_protocol os st = Some st'" "st_ctx st' = st_ctx st"
proof -
  have "\<exists>st'. recover_protocol os st = Some st' \<and> st_ctx st' = st_ctx st"
    using sleep_and_flush_returns [OF assms, of st "\<exists>st'. sleep_and_flush os st = Some st' \<and> st_ctx st' = st_ctx st"]
    by (auto simp: recover_protocol_def)
  then show ?thesis using that by blast
qed

lemma refuse_returns:
  assumes "settles mu os"
  obtains st' where "refuse_data os st = Some (-1, st')" "st_ctx st' = st_ctx st"
proof -
  obtain st' where "recover_protocol os st = Some st'" "st_ctx st' = st_ctx st"
    by (rule recover_returns [OF assms])
  then show ?thesis using that by (simp add: refuse_data_def)
qed

lemma pre_check_returns:
  assumes "4 \<le> length req" "4 \<le> length rsp"
  obtains rc st' where "be_pre_check_confirmation req rsp n st = Some (rc, st')" "st_ctx st' = st_ctx st"
    "rc = -1 \<or> rc = 0"
proof -
  have rds: "rd req 0 = Some (req ! 0)" "rd req 1 = Some (req ! 1)" "rd rsp 0 = Some (rsp ! 0)"
    "rd rsp 1 = Some (rsp ! 1)" "rd rsp 2 = Some (rsp ! 2)" "rd rsp 3 = Some (rsp ! 3)"
    using assms by (auto simp: buf_simps)
  have "\<exists>rc st'. be_pre_check_confirmation req rsp n st = Some (rc, st') \<and> st_ctx st' = st_ctx st \<and>
      (rc = -1 \<or> rc = 0)"
    by (cases "be st") (auto simp: be_pre_check_confirmation_def tcp_pre_check_confirmation_def
        rtu_pre_check_confirmation_def rds)
  then show ?thesis using that by blast
qed

text \<open>Room for the fields that the checks look at.\<close>

definition checkable :: "backend \<Rightarrow> u8 list \<Rightarrow> u8 list \<Rightarrow> bool" where
  "checkable b req rsp \<longleftrightarrow> header_length b + 5 \<le> int (length req) \<and> length rsp = 260"

lemma checkable_rd:
  assumes "checkable b req rsp" "0 \<le> k" "k \<le> 4"
  shows "rd req (header_length b + k) = Some (req ! nat (header_length b + k))"
    "rd rsp (header_length b + k) = Some (rsp ! nat (header_length b + k))"
  using assms be_framing.sizes [of b] by (simp_all add: checkable_def rd_Some)

lemmas checkable_rds = checkable_rd [where k = 0, simplified] checkable_rd [where k = 1, simplified]
  checkable_rd [where k = 2, simplified] checkable_rd [where k = 3, simplified]
  checkable_rd [where k = 4, simplified]

lemma response_length_returns:
  assumes "checkable b req rsp"
  shows "\<exists>k. compute_response_length_from_request b req = Some k"
  by (auto simp: compute_response_length_from_request_def checkable_rds [OF assms] Let_def)

lemma confirmation_values_return:
  assumes "checkable b req rsp"
  shows "\<exists>v. confirmation_values (header_length b) f req rsp = Some v"
  by (auto simp: confirmation_values_def differ_def checkable_rds [OF assms] Let_def)

lemma exception_returns:
  assumes "checkable (be st) req rsp"
  shows "\<exists>st'. check_exception (be st) req rsp n st = Some (-1, st') \<and> st_ctx st' = st_ctx st"
  by (auto simp: check_exception_def checkable_rds [OF assms] Let_def)

text \<open>
  \<open>check_confirmation\<close> on any response: it returns, and when it accepts one, that response has
  the length and the number of values that the request asked for.
\<close>

lemma check_confirmation_returns:
  assumes "settles mu os" "checkable (be st) req rsp"
  shows "\<exists>rc st'. check_confirmation os req rsp n st = Some (rc, st') \<and> st_ctx st' = st_ctx st \<and>
    (rc \<noteq> -1 \<longrightarrow> (\<exists>f k. rd rsp (header_length (be st)) = Some f \<and> rd req (header_length (be st)) = Some f \<and>
       confirmation_values (header_length (be st)) (uint f) req rsp = Some (rc, rc, True, True) \<and>
       compute_response_length_from_request (be st) req = Some k \<and> (n = k \<or> k = -1)))"
proof -
  let ?h = "header_length (be st)"
  note rds = checkable_rds [OF assms(2)]
  obtain k where k: "compute_response_length_from_request (be st) req = Some k"
    using response_length_returns [OF assms(2)] by blast
  have len: "4 \<le> length req" "4 \<le> length rsp"
    using assms(2) be_framing.sizes [of "be st"] by (simp_all add: checkable_def)
  obtain rc st1 where pre: "be_pre_check_confirmation req rsp n st = Some (rc, st1)" "st_ctx st1 = st_ctx st"
      "rc = -1 \<or> rc = 0"
    by (rule pre_check_returns [OF len])
  have b: "be st1 = be st" using pre(2) by simp
  define f where "f = rsp ! nat ?h"
  have f: "rd rsp ?h = Some f" using rds(2) by (simp add: f_def)
  obtain q where q: "rd req ?h = Some q" using rds(1) by blast
  obtain v1 v2 a d where v: "confirmation_values ?h (uint f) req rsp = Some (v1, v2, a, d)"
    using confirmation_values_return [OF assms(2), of "uint f"] by (metis prod_cases4)
  obtain st2 where ref: "refuse_data os st1 = Some (-1, st2)" "st_ctx st2 = st_ctx st1"
    by (rule refuse_returns [OF assms(1)])
  obtain st3 where rec: "recover_protocol os st1 = Some st3" "st_ctx st3 = st_ctx st1"
    by (rule recover_returns [OF assms(1)])
  obtain st4 where exc: "check_exception (be st) req rsp n st1 = Some (-1, st4)" "st_ctx st4 = st_ctx st1"
    using exception_returns [of st1 req rsp n] assms(2) by (auto simp: b)
  have "check_confirmation os req rsp n st =
    (if rc = -1 then Some (-1, st3)
     else if 128 \<le> uint f then Some (-1, st4)
     else if n = k \<or> k = -1 then
       (if f \<noteq> q then Some (-1, st2)
        else if v1 = v2 \<and> a \<and> d then Some (v2, st1) else Some (-1, st2))
     else Some (-1, st2))"
  proof (cases "f = q")
    case True
    then show ?thesis
      using v q f by (simp add: check_confirmation_def pre(1) rec(1) k exc(1) ref(1) Let_def)
  next
    case False
    then have "uint f \<noteq> uint q" by (simp add: word_uint_eq_iff)
    then show ?thesis
      using q f False by (simp add: check_confirmation_def pre(1) rec(1) k exc(1) ref(1) Let_def)
  qed
  then show ?thesis
    using v f q k pre(2) ref(2) rec(2) exc(2) by auto
qed

subsection \<open>One exchange\<close>

lemma deliver_returns:
  assumes "\<not> link_recovery st"
  obtains rc st' where "deliver os fr st = Some (rc, st')" "st_ctx st' = st_ctx st"
proof -
  obtain rc st' where s: "be_send os fr (int (length fr)) st = Some (rc, st')" "st_ctx st' = st_ctx st"
    by (rule send_ok [of "int (length fr)" fr]) auto
  then have "send_loop os fr (int (length fr)) st = Some (rc, st')"
    using assms by (simp add: send_loop.simps)
  then show ?thesis
    using that s(2) by (cases "rc > 0 \<and> rc \<noteq> int (length fr)") (auto simp: deliver_def)
qed

text \<open>The state of a client that can send requests, as \<open>main\<close> of the client program sets it up.\<close>

definition can_ask :: "'w mst \<Rightarrow> bool" where
  "can_ask st \<longleftrightarrow> be_can_request st \<and> \<not> link_recovery st"

text \<open>
  Building, sending and awaiting a confirmation: the request keeps its PDU behind its header, the
  response is either refused or fits the request.
\<close>

lemma recovery_advance: "ctx_error_recovery (st_ctx (be_advance st)) = ctx_error_recovery (st_ctx st)"
  by (simp add: be_advance_def tcp_advance_def split: backend.splits)

definition confirmed_only :: "'w os \<Rightarrow> int \<Rightarrow> int \<Rightarrow> int \<Rightarrow> u8 list \<Rightarrow> 'w mst \<Rightarrow> bool" where
  "confirmed_only os h f n req st \<longleftrightarrow>
     (\<exists>rc rsp st'. await_confirmation os req st = Some (rc, rsp, st') \<and> length rsp = 260 \<and>
        header_length (be st') = h \<and>
        (rc \<noteq> -1 \<longrightarrow> rd req (h + 3) = Some (hi8 n) \<and> rd req (h + 4) = Some (lo8 n) \<and>
           rd rsp h = Some (word_of_int f) \<and>
           confirmation_values h (uint (word_of_int f :: u8)) req rsp = Some (rc, rc, True, True)))"

lemma ask_returns:
  assumes "bounded_io mu os" "can_ask st" "length t = 260 \<or> length t = 12"
  shows "\<exists>buf rc req st1.
    be_build_request_basis f a n t st = Some (header_length (be st) + 5, buf, be_advance st) \<and>
    send_msg os buf (header_length (be st) + 5) (be_advance st) = Some (rc, req, st1) \<and>
    (rc > 0 \<longrightarrow> confirmed_only os (header_length (be st)) f n req st1)"
proof -
  let ?b = "be st" and ?pdu = "[word_of_int f, hi8 a, lo8 a, hi8 n, lo8 n] :: u8 list"
  let ?st = "be_advance st"
  have kind: "same_kind ?b (be ?st)" by (rule be_advance_ctx)
  note k = same_kind_simps [OF kind]
  have rec: "\<not> link_recovery ?st" using assms(2) by (simp add: can_ask_def recovery_advance)
  have room: "header_length ?b + 5 + checksum_length ?b \<le> int (length t)" "header_length ?b + 5 \<le> int (length t)"
    using assms(3) frame_room [of ?b] by auto
  define fr where "fr = be_framing.frame ?b (be_origin st) ?pdu"
  have build: "be_build_request_basis f a n t st =
      Some (header_length ?b + 5, filled (be_basis ?b (be_origin st) t @ ?pdu) t, ?st)"
    using be_requests.request [of ?b st t f a n] assms(2) room(2) by (simp add: can_ask_def same_kind_refl)
  have "be_send_msg_pre ?b (filled (be_basis ?b (be_origin st) t @ ?pdu) t) (header_length ?b + 5) =
      Some (int (length fr), filled fr t)"
    using be_framing.pre_basis [of ?pdu ?b t "be_origin st"] room(1) by (simp add: fr_def)
  then have pre: "be_send_msg_pre (be ?st) (filled (be_basis ?b (be_origin st) t @ ?pdu) t) (header_length ?b + 5) =
      Some (int (length fr), filled fr t)"
    by (simp add: same_kind_send_msg_pre [OF kind])
  obtain rc st1 where dl: "deliver os fr ?st = Some (rc, st1)" "st_ctx st1 = st_ctx ?st"
    by (rule deliver_returns [OF rec])
  have sent: "send_msg os (filled (be_basis ?b (be_origin st) t @ ?pdu) t) (header_length ?b + 5) ?st =
      Some (rc, filled fr t, st1)"
    by (simp add: send_msg_deliver [OF pre] dl(1))
  define hdr where "hdr = be_header ?b (be_origin st) (length ?pdu)"
  define tl where "tl = be_trailer ?b (hdr @ ?pdu) @ drop (length fr) t"
  have req: "filled fr t = hdr @ ?pdu @ tl" "int (length hdr) = header_length ?b"
    using be_framing.length_header [of ?b "be_origin st"]
    by (simp_all add: filled_def fr_def be_framing.frame_def hdr_def tl_def)
  have rds: "rd (filled fr t) (header_length ?b) = Some (word_of_int f)"
    "rd (filled fr t) (header_length ?b + 3) = Some (hi8 n)" "rd (filled fr t) (header_length ?b + 4) = Some (lo8 n)"
    using req(2) by (simp_all add: req(1) rd_behind rd_behind_0 rd_Cons)
  have b1: "header_length (be st1) = header_length ?b" "checksum_length (be st1) = checksum_length ?b"
    using k dl(2) by simp_all
  have rec1: "\<not> link_recovery st1" using rec dl(2) by simp
  have adu: "max_adu_length (be st1) \<le> 260" by (cases "be st1") simp_all
  obtain n2 rsp st2 where rcv: "modbus_receive_msg os (uninit os 260) MSG_CONFIRMATION st1 = Some (n2, rsp, st2)"
      "length rsp = 260" "n2 \<le> 260" "st_ctx st2 = st_ctx st1"
    using receive_msg_returns [OF assms(1), of st1 "uninit os 260" MSG_CONFIRMATION] adu rec1 by fastforce
  have chk: "checkable (be st2) (filled fr t) rsp"
    using req rcv(2,4) b1(1) by (simp add: checkable_def)
  obtain rc2 st3 where cc: "check_confirmation os (filled fr t) rsp n2 st2 = Some (rc2, st3)" "st_ctx st3 = st_ctx st2"
      "rc2 \<noteq> -1 \<longrightarrow> (\<exists>f' k. rd rsp (header_length (be st2)) = Some f' \<and> rd (filled fr t) (header_length (be st2)) = Some f' \<and>
       confirmation_values (header_length (be st2)) (uint f') (filled fr t) rsp = Some (rc2, rc2, True, True) \<and>
       compute_response_length_from_request (be st2) (filled fr t) = Some k \<and> (n2 = k \<or> k = -1))"
    using check_confirmation_returns [OF bounded_ioD(1) [OF assms(1)] chk, of n2] by blast
  have "confirmed_only os (header_length ?b) f n (filled fr t) st1"
  proof (cases "n2 = -1")
    case True
    then have "await_confirmation os (filled fr t) st1 = Some (-1, rsp, st2)"
      by (simp add: await_confirmation_def rcv(1))
    then show ?thesis using rcv(2,4) b1(1) by (simp add: confirmed_only_def)
  next
    case False
    then have "await_confirmation os (filled fr t) st1 = Some (rc2, rsp, st3)"
      by (simp add: await_confirmation_def rcv(1) cc(1))
    then show ?thesis using cc(2,3) rcv(2-4) b1 rds by (auto simp: confirmed_only_def)
  qed
  then show ?thesis using build sent by blast
qed

subsection \<open>The functions that read\<close>

text \<open>What a read may do to the caller's array.\<close>

definition only_front :: "nat \<Rightarrow> 'a list \<Rightarrow> 'a list \<Rightarrow> bool" where
  "only_front n xs ys \<longleftrightarrow> length ys = length xs \<and> drop n ys = drop n xs"

lemma only_front_refl [simp]: "only_front n xs xs"
  by (simp add: only_front_def)

lemma only_front_wr: "only_front n xs ys \<Longrightarrow> i < n \<Longrightarrow> only_front n xs (ys[i := v])"
  by (simp add: only_front_def drop_update_cancel)

lemma only_front_filled: "length vs = n \<Longrightarrow> n \<le> length dest \<Longrightarrow> only_front n dest (filled vs dest)"
  by (simp add: only_front_def filled_def)

text \<open>Any bytes are the big-endian encoding of some registers.\<close>

lemma bytes_are_regs:
  assumes "length bs = 2 * n"
  obtains vs where "length vs = n" "bs = encode_regs vs"
proof -
  have "\<exists>vs. length vs = n \<and> bs = encode_regs vs"
    using assms
  proof (induction n arbitrary: bs)
    case (Suc n)
    then obtain x y bs' where bs: "bs = x # y # bs'" "length bs' = 2 * n"
      by (auto simp: length_Suc_conv)
    obtain vs where vs: "length vs = n" "bs' = encode_regs vs" using Suc.IH [OF bs(2)] by blast
    define v :: u16 where "v = word_of_int (be16 x y)"
    have "hi8 (uint v) = x" "lo8 (uint v) = y" by (simp_all add: v_def wire_simps)
    then have "encode_regs (v # vs) = bs" by (simp add: encode_regs_def bs(1) vs(2))
    then show ?case using vs(1) by (metis length_Cons)
  qed simp
  then show ?thesis using that by blast
qed

text \<open>
  A response whose PDU behind the header of \<open>h\<close> bytes is a read response of \<open>vs\<close>: function code,
  byte count (the code takes the odd count too), the registers in the byte order of the protocol.
\<close>

definition carries_registers :: "int \<Rightarrow> u8 \<Rightarrow> u8 list \<Rightarrow> u16 list \<Rightarrow> bool" where
  "carries_registers h f rsp vs \<longleftrightarrow>
     (\<exists>hdr c rest. rsp = hdr @ (f # c # encode_regs vs) @ rest \<and> int (length hdr) = h \<and>
        uint c div 2 = int (length vs))"

lemma response_carries:
  assumes "0 \<le> h" "h + 2 + 2 * int n \<le> int (length rsp)" "rd rsp h = Some f" "rd rsp (h + 1) = Some c"
    and "uint c div 2 = int n"
  obtains vs where "length vs = n" "carries_registers h f rsp vs"
proof -
  obtain k where k: "h = int k" using assms(1) nonneg_eq_int by blast
  obtain vs where vs: "length vs = n" "take (2 * n) (drop (k + 2) rsp) = encode_regs vs"
    by (rule bytes_are_regs [of "take (2 * n) (drop (k + 2) rsp)" n]) (use assms(2) k in auto)
  have "k + 1 < length rsp" "rsp ! k = f" "rsp ! (k + 1) = c"
    using assms(2-4) k by (auto simp: rd_def nat_add_distrib split: if_splits)
  then have "drop k rsp = f # c # drop (k + 2) rsp"
    by (simp add: Cons_nth_drop_Suc [symmetric])
  then have "rsp = take k rsp @ (f # c # encode_regs vs) @ drop (2 * n) (drop (k + 2) rsp)"
    by (metis append_Cons append_take_drop_id vs(2))
  moreover have "int (length (take k rsp)) = h" using assms(2) k by simp
  ultimately have "carries_registers h f rsp vs"
    using assms(5) vs(1) unfolding carries_registers_def by blast
  then show ?thesis using that vs(1) by blast
qed

lemma load_carried:
  assumes "carries_registers h f rsp vs" "length vs \<le> length dest"
  shows "load_registers rsp h (int (length vs)) dest = Some (filled vs dest)"
  using assms load_registers_run by (auto simp: carries_registers_def)

text \<open>
  The outcome of reading \<open>n\<close> registers with function \<open>f\<close>: a failure that leaves \<open>dest\<close> alone, or the
  count, when the request was sent, \<open>await_confirmation\<close> accepted a response to it, and the first
  \<open>n\<close> cells hold the registers of that response.
\<close>

definition registers_or_failure ::
    "'w os \<Rightarrow> int \<Rightarrow> int \<Rightarrow> nat \<Rightarrow> u16 list \<Rightarrow> 'w mst \<Rightarrow> int \<Rightarrow> u16 list \<Rightarrow> bool" where
  "registers_or_failure os f a n dest st rc dest' \<longleftrightarrow>
     rc \<le> 0 \<and> dest' = dest \<or>
     rc = int n \<and>
     (\<exists>k buf st1 sent req st2 rsp st3 vs.
        be_build_request_basis f a (int n) (uninit os MIN_REQ_LENGTH) st = Some (k, buf, st1) \<and>
        send_msg os buf k st1 = Some (sent, req, st2) \<and> 0 < sent \<and>
        await_confirmation os req st2 = Some (int n, rsp, st3) \<and>
        carries_registers (header_length (be st)) (word_of_int f) rsp vs \<and>
        length vs = n \<and> dest' = filled vs dest)"

lemma unpack_returns:
  "0 \<le> pos \<Longrightarrow> pos \<le> int n \<Longrightarrow> n \<le> length dest \<Longrightarrow> \<exists>dest' pos'. unpack_byte k temp m pos (int n) dest = Some (dest', pos') \<and>
    only_front n dest dest' \<and> 0 \<le> pos' \<and> pos' \<le> int n"
proof (induction k arbitrary: m pos dest)
  case 0
  then show ?case by simp
next
  case (Suc k)
  show ?case
  proof (cases "pos < int n")
    case True
    obtain p where p: "pos = int p" "p < n" using True Suc.prems(1) nonneg_eq_int by (metis of_nat_less_iff)
    define d where "d = dest[p := if temp AND m \<noteq> 0 then 1 else 0]"
    have d: "wr dest pos (if temp AND m \<noteq> 0 then 1 else 0) = Some d" "only_front n dest d" "n \<le> length d"
      using p Suc.prems(3) only_front_wr [OF only_front_refl p(2), of dest] by (simp_all add: d_def wr_nat)
    obtain d' pos' where "unpack_byte k temp (push_bit 1 m) (pos + 1) (int n) d = Some (d', pos')"
        "only_front n d d'" "0 \<le> pos'" "pos' \<le> int n"
      using Suc.IH [of "pos + 1" d "push_bit 1 m"] Suc.prems(1) True d(3) by auto
    then show ?thesis using True d(1,2) by (auto simp: only_front_def)
  qed (use Suc.prems in simp)
qed

lemma registers_confirmed:
  assumes "f = 3 \<or> f = 4" "0 \<le> n" "n \<le> 125" "rd req (h + 3) = Some (hi8 n)" "rd req (h + 4) = Some (lo8 n)"
    and "confirmation_values h (uint (word_of_int f :: u8)) req rsp = Some (rc, rc, True, True)"
  shows "rc = n" "\<exists>c. rd rsp (h + 1) = Some c \<and> uint c div 2 = n"
  using assms by (auto simp: confirmation_values_def be16_hi8_lo8 split: bind_splits)

lemma bits_confirmed:
  assumes "f = 1 \<or> f = 2" "0 \<le> n" "n \<le> 2000" "rd req (h + 3) = Some (hi8 n)" "rd req (h + 4) = Some (lo8 n)"
    and "confirmation_values h (uint (word_of_int f :: u8)) req rsp = Some (rc, rc, True, True)"
  shows "0 \<le> rc" "rc \<le> 250"
proof -
  have "rc = n div 8 + (if n mod 8 \<noteq> 0 then 1 else 0)"
    using assms by (auto simp: confirmation_values_def be16_hi8_lo8 Let_def split: bind_splits)
  moreover have "n div 8 + (if n mod 8 \<noteq> 0 then 1 else 0) \<le> 250" using assms(3) by (cases "n = 2000") auto
  ultimately show "0 \<le> rc" "rc \<le> 250" using assms(2) by auto
qed

lemma read_registers_returns:
  assumes "bounded_io mu os" "can_ask st" "f = 3 \<or> f = 4" "n \<le> length dest"
  shows "\<exists>rc dest' st'. read_registers os f a (int n) dest st = Some (rc, dest', st') \<and>
    only_front n dest dest' \<and> registers_or_failure os f a n dest st rc dest'"
proof (cases "n \<le> 125")
  case True
  let ?h = "header_length (be st)"
  obtain buf rc req st1 where buf: "be_build_request_basis f a (int n) (uninit os 12) st = Some (?h + 5, buf, be_advance st)"
    and snd: "send_msg os buf (?h + 5) (be_advance st) = Some (rc, req, st1)"
    and conf: "rc > 0 \<longrightarrow> confirmed_only os ?h f (int n) req st1"
    using ask_returns [OF assms(1,2), of "uninit os 12" f a "int n"] by auto
  show ?thesis
  proof (cases "rc > 0")
    case False
    then show ?thesis using True buf snd by (simp add: read_registers_def registers_or_failure_def)
  next
    case pos: True
    obtain rc2 rsp st2 where aw: "await_confirmation os req st1 = Some (rc2, rsp, st2)" "length rsp = 260"
        "header_length (be st2) = ?h"
        "rc2 \<noteq> -1 \<Longrightarrow> rc2 = int n \<and> rd rsp ?h = Some (word_of_int f) \<and>
           (\<exists>c. rd rsp (?h + 1) = Some c \<and> uint c div 2 = int n)"
      using conf pos registers_confirmed [OF assms(3), of "int n"] True unfolding confirmed_only_def
      by (metis of_nat_0_le_iff of_nat_le_iff of_nat_numeral)
    show ?thesis
    proof (cases "rc2 = -1")
      case True
      then show ?thesis using buf snd pos aw(1) \<open>n \<le> 125\<close> by (simp add: read_registers_def registers_or_failure_def)
    next
      case False
      obtain c where c: "rd rsp (?h + 1) = Some c" "uint c div 2 = int n" using aw(4) [OF False] by blast
      obtain vs where vs: "length vs = n" "carries_registers ?h (word_of_int f) rsp vs"
        by (rule response_carries [OF _ _ _ c]) (use True aw(2) aw(4) [OF False] be_framing.sizes [of "be st"] in auto)
      have "load_registers rsp ?h (int n) dest = Some (filled vs dest)"
        using load_carried [OF vs(2)] vs(1) assms(4) by simp
      then have "read_registers os f a (int n) dest st = Some (int n, filled vs dest, st2)"
        using True buf snd pos aw(1,3) aw(4) [OF False] False by (simp add: read_registers_def)
      moreover have "registers_or_failure os f a n dest st (int n) (filled vs dest)"
        using buf snd pos aw(1) aw(4) [OF False] vs unfolding registers_or_failure_def by auto
      ultimately show ?thesis using only_front_filled [OF vs(1) assms(4)] by blast
    qed
  qed
qed (simp add: read_registers_def registers_or_failure_def)

lemma read_io_status_returns:
  assumes "bounded_io mu os" "can_ask st" "f = 1 \<or> f = 2" "n \<le> length dest" "n \<le> 2000"
  shows "\<exists>rc dest' st'. read_io_status os f a (int n) dest st = Some (rc, dest', st') \<and> only_front n dest dest'"
proof -
  let ?h = "header_length (be st)"
  obtain buf rc req st1 where buf: "be_build_request_basis f a (int n) (uninit os 12) st = Some (?h + 5, buf, be_advance st)"
    and snd: "send_msg os buf (?h + 5) (be_advance st) = Some (rc, req, st1)"
    and conf: "rc > 0 \<longrightarrow> confirmed_only os ?h f (int n) req st1"
    using ask_returns [OF assms(1,2), of "uninit os 12" f a "int n"] by auto
  show ?thesis
  proof (cases "rc > 0")
    case False
    then show ?thesis using buf snd by (simp add: read_io_status_def)
  next
    case pos: True
    obtain rc2 rsp st2 where aw: "await_confirmation os req st1 = Some (rc2, rsp, st2)" "length rsp = 260"
        "header_length (be st2) = ?h" "rc2 \<noteq> -1 \<Longrightarrow> 0 \<le> rc2 \<and> rc2 \<le> 250"
      using conf pos bits_confirmed [OF assms(3), of "int n"] assms(5) by (auto simp: confirmed_only_def)
    show ?thesis
    proof (cases "rc2 = -1")
      case True
      then show ?thesis using buf snd pos aw(1) by (simp add: read_io_status_def)
    next
      case False
      let ?f = "\<lambda>i (dest, pos). rd rsp i \<bind> (\<lambda>temp. unpack_byte 8 (uint temp) 1 pos (int n) dest)"
      have "\<exists>s'. for_loop (nat rc2) (?h + 2) ?f (dest, 0) = Some s' \<and>
          (only_front n dest (fst s') \<and> 0 \<le> snd s' \<and> snd s' \<le> int n)"
      proof (rule for_loop_inv)
        show "only_front n dest (fst (dest, 0 :: int)) \<and> 0 \<le> snd (dest, 0 :: int) \<and> snd (dest, 0 :: int) \<le> int n" by simp
        fix k and s :: "u8 list \<times> int"
        assume k: "k < nat rc2" and s: "only_front n dest (fst s) \<and> 0 \<le> snd s \<and> snd s \<le> int n"
        obtain d p where dp: "s = (d, p)" by (cases s)
        have "rd rsp (?h + 2 + int k) = Some (rsp ! nat (?h + 2 + int k))"
          by (rule rd_Some) (use k aw(2) aw(4) [OF False] be_framing.sizes [of "be st"] in linarith)+
        moreover have "n \<le> length d" using s assms(4) dp by (simp add: only_front_def)
        ultimately show "\<exists>s'. ?f (?h + 2 + int k) s = Some s' \<and> (only_front n dest (fst s') \<and> 0 \<le> snd s' \<and> snd s' \<le> int n)"
          using unpack_returns [of p n d 8 "uint (rsp ! nat (?h + 2 + int k))" 1] s dp
          by (fastforce simp: only_front_def)
      qed
      then obtain d p where "for_loop (nat rc2) (?h + 2) ?f (dest, 0) = Some (d, p)" "only_front n dest d" by auto
      then show ?thesis
        using buf snd pos aw(1,3) False by (simp add: read_io_status_def)
    qed
  qed
qed

text \<open>C38: \<open>modbus_read_registers\<close> and \<open>modbus_read_input_registers\<close> with any peer, which may
  answer anything, late or not at all, without link recovery: they return; either the result is
  not positive and \<open>dest\<close> is as it was, or the result is \<open>n\<close>, a response to the request that was
  sent has been accepted, and the first \<open>n\<close> cells of \<open>dest\<close> hold the registers of that response,
  all of them, in its order and byte order; the cells behind are never touched.\<close>

theorem read_registers_any_peer:
  assumes "bounded_io mu os" "can_ask st" "n \<le> length dest"
  shows "(\<exists>rc dest' st'. modbus_read_registers os The_ctx a (int n) dest st = Some (rc, dest', st') \<and>
      only_front n dest dest' \<and> registers_or_failure os 3 a n dest st rc dest') \<and>
    (\<exists>rc dest' st'. modbus_read_input_registers os The_ctx a (int n) dest st = Some (rc, dest', st') \<and>
      only_front n dest dest' \<and> registers_or_failure os 4 a n dest st rc dest')"
  using read_registers_returns [OF assms(1,2) _ assms(3), of 3 a]
    read_registers_returns [OF assms(1,2) _ assms(3), of 4 a]
  by (auto simp: modbus_read_registers_def modbus_read_input_registers_def registers_or_failure_def)

text \<open>C25: \<open>modbus_read_bits\<close> and \<open>modbus_read_input_bits\<close> with any peer, without link recovery:
  they return \<open>n\<close> or -1 and change at most the first \<open>n\<close> cells of \<open>dest\<close>.\<close>

theorem read_bits_any_peer:
  assumes "bounded_io mu os" "can_ask st" "n \<le> length dest"
  shows "(\<exists>rc dest' st'. modbus_read_bits os The_ctx a (int n) dest st = Some (rc, dest', st') \<and>
      only_front n dest dest' \<and> (rc = -1 \<or> rc = int n)) \<and>
    (\<exists>rc dest' st'. modbus_read_input_bits os The_ctx a (int n) dest st = Some (rc, dest', st') \<and>
      only_front n dest dest' \<and> (rc = -1 \<or> rc = int n))"
proof (cases "n \<le> 2000")
  case True
  then show ?thesis
    using read_io_status_returns [OF assms(1,2) _ assms(3), of 1 a]
      read_io_status_returns [OF assms(1,2) _ assms(3), of 2 a]
    by (fastforce simp: modbus_read_bits_def modbus_read_input_bits_def)
qed (simp add: modbus_read_bits_def modbus_read_input_bits_def)

lemma wire_can_ask: "can_ask (on_wire tcp_ctx input)"
  by (simp add: can_ask_def be_can_request_def)

theorem read_registers_any_peer_witness:
  "\<exists>rc dest' st'. modbus_read_registers wire_os The_ctx 7 (int 2) [1, 2, 3]
      (on_wire tcp_ctx [0, 1, 0, 0, 0, 7, 255, 3, 4, 9, 9, 8, 8]) = Some (rc, dest', st') \<and>
    only_front 2 [1, 2, 3] dest' \<and>
    registers_or_failure wire_os 3 7 2 [1, 2, 3] (on_wire tcp_ctx [0, 1, 0, 0, 0, 7, 255, 3, 4, 9, 9, 8, 8]) rc dest'"
  by (rule read_registers_any_peer [OF wire_bounded_io wire_can_ask, THEN conjunct1]) simp

theorem read_bits_any_peer_witness:
  "\<exists>rc dest' st'. modbus_read_bits wire_os The_ctx 7 (int 2) [1, 2, 3]
      (on_wire tcp_ctx [0, 1, 0, 0, 0, 7, 255, 1, 250, 9, 9]) = Some (rc, dest', st') \<and>
    only_front 2 [1, 2, 3] dest' \<and> (rc = -1 \<or> rc = int 2)"
  by (rule read_bits_any_peer [OF wire_bounded_io wire_can_ask, THEN conjunct1]) simp

end
