(* ===== verification/Modbus_Edges.thy ===== *)
theory Modbus_Edges
  imports Modbus_Requests Modbus_Reply_Safe
begin

text \<open>
  The edges of the interface: refused arguments, requests outside the ten data functions, and
  the functions that send a caller's own bytes.
\<close>

subsection \<open>Refused arguments\<close>

lemmas client_defs = modbus_read_bits_def modbus_read_input_bits_def modbus_read_registers_def
  modbus_read_input_registers_def modbus_write_bit_def modbus_write_register_def write_single_def
  modbus_write_bits_def modbus_write_registers_def modbus_mask_write_register_def
  modbus_write_and_read_registers_def modbus_report_slave_id_def modbus_send_raw_request_def

text \<open>C37: Without a context every request function but one returns -1 with EINVAL and does nothing
  else; \<open>modbus_mask_write_register\<close> alone dereferences the null pointer. A count over the limit
  of the protocol is refused with EMBMDATA before anything is sent, and an unusable length or
  destination with EINVAL.\<close>

theorem client_refuses_arguments:
  "modbus_read_bits os NULL_ctx a n bits st = Some (-1, bits, set_errno EINVAL st) \<and>
   modbus_read_input_bits os NULL_ctx a n bits st = Some (-1, bits, set_errno EINVAL st) \<and>
   modbus_read_registers os NULL_ctx a n regs st = Some (-1, regs, set_errno EINVAL st) \<and>
   modbus_read_input_registers os NULL_ctx a n regs st = Some (-1, regs, set_errno EINVAL st) \<and>
   modbus_write_bit os NULL_ctx a v st = Some (-1, set_errno EINVAL st) \<and>
   modbus_write_register os NULL_ctx a w st = Some (-1, set_errno EINVAL st) \<and>
   modbus_write_bits os NULL_ctx a n bits st = Some (-1, set_errno EINVAL st) \<and>
   modbus_write_registers os NULL_ctx a n regs st = Some (-1, set_errno EINVAL st) \<and>
   modbus_write_and_read_registers os NULL_ctx a n src b k regs st = Some (-1, regs, set_errno EINVAL st) \<and>
   modbus_report_slave_id os NULL_ctx k bits st = Some (-1, bits, set_errno EINVAL st) \<and>
   modbus_send_raw_request os NULL_ctx bits n st = Some (-1, set_errno EINVAL st) \<and>
   modbus_mask_write_register os NULL_ctx a w w' st = None \<and>
   modbus_read_bits os The_ctx a (2001 + i) bits st = Some (-1, bits, set_errno EMBMDATA st) \<and>
   modbus_read_input_bits os The_ctx a (2001 + i) bits st = Some (-1, bits, set_errno EMBMDATA st) \<and>
   modbus_read_registers os The_ctx a (126 + i) regs st = Some (-1, regs, set_errno EMBMDATA st) \<and>
   modbus_read_input_registers os The_ctx a (126 + i) regs st = Some (-1, regs, set_errno EMBMDATA st) \<and>
   modbus_write_bits os The_ctx a (1969 + i) bits st = Some (-1, set_errno EMBMDATA st) \<and>
   modbus_write_registers os The_ctx a (124 + i) regs st = Some (-1, set_errno EMBMDATA st) \<and>
   modbus_write_and_read_registers os The_ctx a (122 + i) src b k regs st = Some (-1, regs, set_errno EMBMDATA st) \<and>
   modbus_write_and_read_registers os The_ctx a k src b (126 + i) regs st = Some (-1, regs, set_errno EMBMDATA st) \<and>
   modbus_report_slave_id os The_ctx (- i) bits st = Some (-1, bits, set_errno EINVAL st) \<and>
   modbus_send_raw_request os The_ctx bits (1 - i) st = Some (-1, set_errno EINVAL st) \<and>
   modbus_send_raw_request os The_ctx bits (255 + i) st = Some (-1, set_errno EINVAL st)"
  if "i \<ge> 0"
  using that by (simp add: client_defs)

subsection \<open>Requests outside the ten data functions\<close>

lemma reply_start:
  assumes "int (length hdr) = header_length (be st)" "req = hdr @ f # x # y # rest"
  shows "rd req (header_length (be st) - 1) = Some (last hdr)" "rd req (header_length (be st)) = Some f"
    "rd16 req (header_length (be st) + 1) = Some (be16 x y)"
    "be_prepare_response_tid (be st) req n = Some (be_tid (be st) hdr, n - checksum_length (be st))"
proof -
  have "hdr \<noteq> []" using assms(1) be_framing.sizes(1) [of "be st"] by auto
  then show "rd req (header_length (be st) - 1) = Some (last hdr)"
    by (simp add: assms(2) assms(1) [symmetric] rd_def last_conv_nth nth_append nat_diff_distrib Suc_le_eq)
qed (use assms(1) be_framing.prepare [OF assms(1)] in
    \<open>simp_all add: assms(2) rd16_def rd_behind rd_behind_0 rd_Cons add.assoc\<close>)

text \<open>C36: A request with a function code the server does not know is answered with exception 1
  (illegal function) after a flush, whatever else it holds; the mapping stays as it is.\<close>

theorem unknown_function_refused:
  assumes "settles mu os" "mapping_ok m" "int (length hdr) = header_length (be st)"
    and "f \<notin> {1, 2, 3, 4, 5, 6, 7, 15, 16, 17, 22, 23}"
  shows "\<exists>st'. settled os st st' \<and> modbus_reply os The_ctx (hdr @ f # x # y # rest) n m st =
    (if silent_broadcast (uint (last hdr)) st then Some (0, m, st')
     else map_option (\<lambda>(rc, st''). (rc, m, st'')) (deliver os (response_frame (be st) hdr [f + 128, 1]) st'))"
proof -
  let ?req = "hdr @ f # x # y # rest"
  define sft where "sft = \<lparr>sft_slave = uint (last hdr), sft_function = uint f, sft_t_id = be_tid (be st) hdr\<rparr>"
  note start = reply_start [OF assms(3), of ?req f x y rest, OF refl]
  have s: "replying mu os st hdr f sft (uninit os 260) m"
    using assms by (auto simp: replying_def sft_def)
  obtain k rsp st' where run: "response_exception os sft (int 1) (uninit os 260) True m st = Some (k, rsp, m, st')"
      "settled os st st'" "sendable (be st) hdr [f + 128, 1] k rsp"
    using exception_answers [OF s, of 1 "[]" True] by (auto simp: answers_def)
  have "reply_dispatch os ?req (n - checksum_length (be st)) sft (be16 x y) (uninit os 260) m st =
      Some (Some (k, rsp, m, st'))"
    using assms(4) run(1) by (auto simp: reply_dispatch_def sft_def Let_def word_uint_eq_iff)
  then have "modbus_reply os The_ctx ?req n m st =
    (if silent_broadcast (uint (last hdr)) st' then Some (0, m, st')
     else send_msg os rsp k st' \<bind> (\<lambda>(rc, rsp, st). Some (rc, m, st)))"
    by (simp add: modbus_reply_def start sft_def)
  moreover have "silent_broadcast (uint (last hdr)) st' = silent_broadcast (uint (last hdr)) st"
    by (simp add: silent_broadcast_def settled_ctx [OF run(2)])
  ultimately show ?thesis
    using deliver_sendable [of st' hdr "[f + 128, 1]" k rsp os m] run(2,3) settled_ctx [OF run(2)] by auto
qed

text \<open>The request to report the slave's identity is answered with the identity byte 180, the
  run indicator on, and the name and version of the library; the request for the exception
  status is not supported: nothing is sent and errno is ENOPROTOOPT.\<close>

theorem identity_reported:
  assumes "settles mu os" "mapping_ok m" "int (length hdr) = header_length (be st)"
  shows "modbus_reply os The_ctx (hdr @ 17 # x # y # rest) n m st =
      (if silent_broadcast (uint (last hdr)) st then Some (0, m, st)
       else map_option (\<lambda>(rc, st'). (rc, m, st')) (deliver os
         (response_frame (be st) hdr ([17, 11, 180, 255] @ ascii ''LMB3.1.10'')) st)) \<and>
    modbus_reply os The_ctx (hdr @ 7 # x # y # rest) n m st = Some (-1, m, set_errno ENOPROTOOPT st)"
proof
  let ?b = "be st" and ?t = "uninit os 260" and ?req = "hdr @ 17 # x # y # rest"
  let ?id = "ascii ''LMB3.1.10''" and ?basis = "be_basis (be st)"
  define sft where "sft = \<lparr>sft_slave = uint (last hdr), sft_function = 17, sft_t_id = be_tid ?b hdr\<rparr>"
  note start = reply_start [OF assms(3), of ?req 17 x y rest, OF refl]
  have s: "replying mu os st hdr 17 sft ?t m"
    using assms by (auto simp: replying_def sft_def)
  note d = replyingD [OF s] and bl = replying_basis_length [of ?b sft ?t]
  have id: "length ?id = 9" by (simp add: ascii_def)
  define H where "H = length (?basis sft ?t)"
  have H: "header_length ?b = int H" "H \<le> 7" using bl d(5) by (simp_all add: H_def)
  have rest: "drop (Suc H) ?t = ?t ! (H + 1) # ?t ! (H + 2) # ?t ! (H + 3) # drop (H + 4) ?t"
    using H(2) Cons_nth_drop_Suc [of "Suc H" ?t] Cons_nth_drop_Suc [of "Suc (Suc H)" ?t]
      Cons_nth_drop_Suc [of "Suc (Suc (Suc H))" ?t] by (simp add: eval_nat_numeral)
  have start_id: "be_build_response_basis ?b sft ?t =
      Some (int H + 1, ?basis sft ?t @ 17 # ?t ! (H + 1) # ?t ! (H + 2) # ?t ! (H + 3) # drop (H + 4) ?t)"
    using replying_build [OF s] by (simp add: filled_def H(1) H_def [symmetric] rest)
  have w1: "wr (?basis sft ?t @ 17 # u # v # z) (2 + int H) k = Some (?basis sft ?t @ 17 # u # k # z)" for u v k z
    using wr_append_at [of "2 + int H" "?basis sft ?t @ [17, u]" v z k] by (simp add: H_def)
  have w2: "wr (?basis sft ?t @ 17 # u # v # v' # z) (3 + int H) k = Some (?basis sft ?t @ 17 # u # v # k # z)" for u v v' k z
    using wr_append_at [of "3 + int H" "?basis sft ?t @ [17, u, v]" v' z k] by (simp add: H_def)
  have w3: "wr_block (?basis sft ?t @ 17 # u # v # v' # drop (H + 4) ?t) (4 + int H) ?id =
      Some (?basis sft ?t @ 17 # u # v # v' # ?id @ drop (H + 13) ?t)" for u v v'
    using wr_block_append_end [of ?id "drop (H + 4) ?t" "?basis sft ?t @ [17, u, v, v']"] id H(2)
    by (simp add: H_def add.commute)
  have w4: "wr (?basis sft ?t @ 17 # u # z) (int H + 1) k = Some (?basis sft ?t @ 17 # k # z)" for u k z
    using wr_append_at [of "int H + 1" "?basis sft ?t @ [17]" u z k] by (simp add: H_def)
  have name: "''LMB'' @ LIBMODBUS_VERSION_STRING = ''LMB3.1.10''" "int (length LIBMODBUS_VERSION_STRING) = 6"
    by (simp_all add: LIBMODBUS_VERSION_STRING_def)
  have "reply_report_slave_id sft ?t m st =
      Some (13 + int H, ?basis sft ?t @ [17, 11, 180, 255] @ ?id @ drop (H + 13) ?t, m, st)"
    unfolding reply_report_slave_id_def start_id Let_def name
    by (simp add: w1 w2 w3 w4)
  then have "reply_report_slave_id sft ?t m st =
      Some (header_length ?b + 13, filled (?basis sft ?t @ [17, 11, 180, 255] @ ?id) ?t, m, st)"
    by (simp add: filled_def H(1) H_def [symmetric] id add.commute)
  then have "reply_dispatch os ?req (n - checksum_length ?b) sft (be16 x y) ?t m st =
      Some (Some (header_length ?b + 13, filled (?basis sft ?t @ [17, 11, 180, 255] @ ?id) ?t, m, st))"
    by (simp add: reply_dispatch_def sft_def Let_def)
  moreover have "sendable ?b hdr ([17, 11, 180, 255] @ ?id) (header_length ?b + 13)
      (filled (?basis sft ?t @ [17, 11, 180, 255] @ ?id) ?t)"
    using replying_sendable [OF s, of "[17, 11, 180, 255] @ ?id"] id by simp
  ultimately show "modbus_reply os The_ctx ?req n m st =
      (if silent_broadcast (uint (last hdr)) st then Some (0, m, st)
       else map_option (\<lambda>(rc, st'). (rc, m, st')) (deliver os
         (response_frame (be st) hdr ([17, 11, 180, 255] @ ascii ''LMB3.1.10'')) st))"
    using deliver_sendable [of st hdr "[17, 11, 180, 255] @ ?id" "header_length ?b + 13" _ os m]
    by (simp add: modbus_reply_def start sft_def)
next
  show "modbus_reply os The_ctx (hdr @ 7 # x # y # rest) n m st = Some (-1, m, set_errno ENOPROTOOPT st)"
    using reply_start [OF assms(3), of "hdr @ 7 # x # y # rest" 7 x y rest, OF refl]
    by (simp add: modbus_reply_def reply_dispatch_def)
qed

text \<open>\<open>modbus_reply_exception\<close> sends the exception frame for a request with any function code,
  if the code is one of the protocol's, and otherwise reports EINVAL and sends nothing.\<close>

theorem exception_sent:
  assumes "int (length hdr) = header_length (be st)"
  shows "modbus_reply_exception os The_ctx (hdr @ f # rest) e st =
    (if uint e < 12 then deliver os (response_frame (be st) hdr [f + 128, ucast e]) st
     else Some (-1, set_errno EINVAL st))"
proof -
  let ?b = "be st" and ?t = "uninit os 260"
  define sft where "sft = \<lparr>sft_slave = uint (last hdr), sft_function = uint f + 128, sft_t_id = be_tid ?b hdr\<rparr>"
  have "hdr \<noteq> []" using assms(1) be_framing.sizes(1) [of ?b] by auto
  then have rds: "rd (hdr @ f # rest) (header_length ?b - 1) = Some (last hdr)"
    "rd (hdr @ f # rest) (header_length ?b) = Some f"
    using assms by (simp_all add: assms(1) [symmetric] rd_def last_conv_nth nth_append nat_diff_distrib Suc_le_eq)
  have tid: "be_prepare_response_tid ?b (hdr @ f # rest) 99 = Some (be_tid ?b hdr, 99 - checksum_length ?b)"
    by (rule be_framing.prepare [OF assms])
  have room: "header_length ?b < int (length ?t)" "header_length ?b \<le> 7" by (cases ?b; simp)+
  have build: "be_build_response_basis ?b sft ?t =
      Some (header_length ?b + 1, filled (be_basis ?b sft ?t @ [f + 128]) ?t)"
    using be_framing.build [OF room(1), of sft] by (simp add: sft_def wi_hom_add [symmetric] word_of_int_uint)
  have wr: "wr (filled (be_basis ?b sft ?t @ [f + 128]) ?t) (header_length ?b + 1) (ucast e) =
      Some (filled (be_basis ?b sft ?t @ [f + 128, ucast e]) ?t)"
    using wr_filled [of "header_length ?b + 1" "be_basis ?b sft ?t @ [f + 128]" ?t "ucast e"]
      be_framing.length_basis [of ?b sft ?t] room by simp
  have "sendable ?b hdr [f + 128, ucast e] (header_length ?b + 2) (filled (be_basis ?b sft ?t @ [f + 128, ucast e]) ?t)"
    using sendable_basis [of "[f + 128, ucast e]" ?t sft hdr ?b] by (simp add: sft_def)
  then obtain t' where "be_send_msg_pre ?b (filled (be_basis ?b sft ?t @ [f + 128, ucast e]) ?t) (header_length ?b + 2) =
      Some (int (length (response_frame ?b hdr [f + 128, ucast e])), filled (response_frame ?b hdr [f + 128, ucast e]) t')"
    by (auto simp: sendable_def)
  from send_msg_deliver [OF this, of os] show ?thesis
    by (cases "deliver os (response_frame ?b hdr [f + 128, ucast e]) st")
      (auto simp: modbus_reply_exception_def rds tid build wr sft_def [symmetric] add.commute [of _ 2])
qed

text \<open>\<open>modbus_send_raw_request\<close> frames the caller's bytes, slave first, as they are: what is sent
  is the header for that slave, the function code and the data, and the backend's checksum.\<close>

theorem raw_request_framed:
  assumes "2 \<le> n" "n \<le> 254" "n \<le> length raw"
  shows "modbus_send_raw_request os The_ctx raw (int n) st =
    deliver os (be_framing.frame (be st) \<lparr>sft_slave = uint (raw ! 0), sft_function = uint (raw ! 1), sft_t_id = 0\<rparr>
      (take (n - 1) (drop 1 raw))) st"
proof -
  let ?b = "be st" and ?t = "uninit os 260"
  define sft where "sft = \<lparr>sft_slave = uint (raw ! 0), sft_function = uint (raw ! 1), sft_t_id = 0\<rparr>"
  let ?pdu = "take (n - 1) (drop 1 raw)"
  have room: "header_length ?b < int (length ?t)" "header_length ?b + 253 + checksum_length ?b \<le> int (length ?t)"
    by (cases ?b; simp)+
  have pdu: "?pdu = raw ! 1 # take (n - 2) (drop 2 raw)" "length ?pdu = n - 1"
  proof -
    have "drop 1 raw = raw ! 1 # drop 2 raw" using assms Cons_nth_drop_Suc [of 1 raw] by (simp add: numeral_2_eq_2)
    moreover have "n - 1 = Suc (n - 2)" using assms(1) by simp
    ultimately show "?pdu = raw ! 1 # take (n - 2) (drop 2 raw)" by (simp only: take_Suc_Cons)
    show "length ?pdu = n - 1" using assms by simp
  qed
  have build: "be_build_response_basis ?b sft ?t =
      Some (header_length ?b + 1, filled (be_basis ?b sft ?t @ [raw ! 1]) ?t)"
    using be_framing.build [OF room(1), of sft] by (simp add: sft_def word_of_int_uint)
  have blk: "rd_block raw 2 (int n - 2) = Some (take (n - 2) (drop 2 raw))"
    using assms by (simp add: rd_block_def nat_diff_distrib)
  have bl: "header_length ?b + 1 = int (length (be_basis ?b sft ?t @ [raw ! 1]))"
    using be_framing.length_basis [of ?b sft ?t] by simp
  have "length (be_basis ?b sft ?t) \<le> 7"
    using be_framing.length_basis [of ?b sft ?t] be_framing.sizes [of ?b] by simp
  then have wl: "length (be_basis ?b sft ?t @ [raw ! 1]) + length (take (n - 2) (drop 2 raw)) \<le> length ?t"
    using assms by simp
  have wrb: "wr_block (filled (be_basis ?b sft ?t @ [raw ! 1]) ?t) (header_length ?b + 1) (take (n - 2) (drop 2 raw)) =
      Some (filled (be_basis ?b sft ?t @ ?pdu) ?t)"
    using wr_block_filled [OF bl wl] by (simp only: append_assoc append_Cons append_Nil pdu(1))
  have pre: "be_send_msg_pre ?b (filled (be_basis ?b sft ?t @ ?pdu) ?t) (header_length ?b + int (n - 1)) =
      Some (int (length (be_framing.frame ?b sft ?pdu)), filled (be_framing.frame ?b sft ?pdu) ?t)"
    using be_framing.pre_basis [of ?pdu ?b ?t sft] pdu(2) assms(1,2) room(2) by simp
  have "modbus_send_raw_request os The_ctx raw (int n) st =
      send_msg os (filled (be_basis ?b sft ?t @ ?pdu) ?t) (header_length ?b + int (n - 1)) st \<bind>
      (\<lambda>(rc, req, st). Some (rc, st))"
  proof -
    have first: "rd raw 0 = Some (raw ! 0)" "rd raw 1 = Some (raw ! 1)"
      using assms by (auto simp: rd_def)
    show ?thesis
    proof (cases "n = 2")
    case True
    then show ?thesis
      using assms build pdu(1) by (simp add: modbus_send_raw_request_def first sft_def Let_def)
  next
    case False
    then show ?thesis
      using assms build blk wrb by (simp add: modbus_send_raw_request_def first sft_def Let_def add_diff_eq)
    qed
  qed
  then show ?thesis
    using send_msg_deliver [OF pre, of os]
    by (cases "deliver os (be_framing.frame ?b sft ?pdu) st") (simp_all add: sft_def split: prod.splits)
qed

subsection \<open>Concrete runs\<close>

lemma tcp_frame: "response_frame (TCP_backend t) [a, b, 0, 0, l, l', u] pdu =
    [a, b, 0, 0, hi8 (int (length pdu) + 1), lo8 (int (length pdu) + 1), u] @ pdu"
  by (simp add: response_frame_def reply_sft_def Let_def tcp_header_def tcp_tid_def wire_simps)

theorem client_refuses_arguments_witness:
  "modbus_mask_write_register wire_os NULL_ctx 7 1 2 (on_wire tcp_ctx []) = None \<and>
   modbus_read_registers wire_os The_ctx 7 126 [5] (on_wire tcp_ctx []) =
     Some (-1, [5], set_errno EMBMDATA (on_wire tcp_ctx []))"
  using client_refuses_arguments [where i = 0 and os = wire_os and a = 7 and regs = "[5]"
      and w = 1 and w' = 2 and st = "on_wire tcp_ctx []"] by simp

theorem unknown_function_refused_witness:
  "\<exists>st'. settled wire_os (on_wire tcp_ctx []) st' \<and>
    modbus_reply wire_os The_ctx [0, 1, 0, 0, 0, 5, 255, 43, 14, 1, 0] 11 small_mapping (on_wire tcp_ctx []) =
      map_option (\<lambda>(rc, st''). (rc, small_mapping, st'')) (deliver wire_os [0, 1, 0, 0, 0, 3, 255, 171, 1] st')"
  using unknown_function_refused [OF wire_settles small_mapping_ok, of "[0, 1, 0, 0, 0, 5, 255]"
      "on_wire tcp_ctx []" 43 14 1 "[0]" 11]
  by (simp add: silent_broadcast_def tcp_frame hi8_def lo8_def)

theorem identity_reported_witness:
  "modbus_reply wire_os The_ctx [0, 1, 0, 0, 0, 2, 255, 17, 0, 0] 10 small_mapping (on_wire tcp_ctx []) =
    map_option (\<lambda>(rc, st'). (rc, small_mapping, st')) (deliver wire_os
      [0, 1, 0, 0, 0, 14, 255, 17, 11, 180, 255, 76, 77, 66, 51, 46, 49, 46, 49, 48] (on_wire tcp_ctx []))"
  using identity_reported [OF wire_settles small_mapping_ok, of "[0, 1, 0, 0, 0, 2, 255]"
      "on_wire tcp_ctx []" 0 0 "[]" 10]
  by (simp add: silent_broadcast_def tcp_frame hi8_def lo8_def ascii_def of_char_def)

theorem exception_sent_witness:
  "modbus_reply_exception wire_os The_ctx [0, 1, 0, 0, 0, 6, 255, 3, 0, 1, 0, 1] 6 (on_wire tcp_ctx []) =
    deliver wire_os [0, 1, 0, 0, 0, 3, 255, 131, 6] (on_wire tcp_ctx [])"
  using exception_sent [of "[0, 1, 0, 0, 0, 6, 255]" "on_wire tcp_ctx []" wire_os 3 "[0, 1, 0, 1]" 6]
  by (simp add: tcp_frame hi8_def lo8_def)

theorem raw_request_framed_witness:
  "modbus_send_raw_request wire_os The_ctx [17, 43, 14, 1] 4 (on_wire rtu_ctx []) =
    deliver wire_os (be_framing.frame (ctx_backend rtu_ctx)
      \<lparr>sft_slave = 17, sft_function = 43, sft_t_id = 0\<rparr> [43, 14, 1]) (on_wire rtu_ctx [])"
  using raw_request_framed [of 4 "[17, 43, 14, 1]" wire_os "on_wire rtu_ctx []"] by simp

end
