(* ===== verification/Modbusc_Run.thy ===== *)
theory Modbusc_Run
  imports Modbus_Requests Modbusc
begin

text \<open>
  The client program from its checked options to the exit status: what the checks guarantee,
  and what the requests then do at the device.
\<close>

subsection \<open>The plan\<close>

text \<open>A request within the limits of the protocol, with arrays of its size.\<close>

definition plan_fits :: "int \<Rightarrow> nat \<Rightarrow> request_data \<Rightarrow> bool" where
  "plan_fits f n data \<longleftrightarrow> 1 \<le> n \<and>
     (f \<in> {1, 2} \<and> n \<le> 2000 \<and> length (rq_bits data) = n \<or>
      f \<in> {3, 4} \<and> n \<le> 125 \<and> length (rq_registers data) = n \<or>
      f = 5 \<and> n = 1 \<and> rq_scalar data \<in> {0, 1} \<or>
      f = 6 \<and> n = 1 \<and> rq_scalar data \<in> {0..65535} \<or>
      f = 15 \<and> n \<le> 1968 \<and> length (rq_bits data) = n \<and> set (rq_bits data) \<subseteq> {0, 1} \<or>
      f = 16 \<and> n \<le> 123 \<and> length (rq_registers data) = n)"

text \<open>What is written is what the command line gave.\<close>

definition plan_values :: "client_options \<Rightarrow> nat \<Rightarrow> request_data \<Rightarrow> bool" where
  "plan_values opts n data \<longleftrightarrow>
     (co_function opts \<in> {5, 6} \<longrightarrow> co_write opts = [rq_scalar data]) \<and>
     (co_function opts = 15 \<longrightarrow> map uint (rq_bits data) = co_write opts) \<and>
     (co_function opts = 16 \<longrightarrow> map uint (rq_registers data) = co_write opts)"

lemma parse_range_bounds:
  "mbu_parse_address_range text p q = Some (a, b) \<Longrightarrow> 0 \<le> a \<and> a \<le> b \<and> b \<le> 247"
  by (auto simp: mbu_parse_address_range_def split: option.splits prod.splits if_splits)

lemma timeout_parts:
  assumes "mbu_timeout_from_ms ms p q = Some (sec, usec)" "ms \<le> INT_MAX"
  shows "uint sec * 1000000 + uint usec = ms * 1000" "uint usec \<le> 999999" "0 < ms"
proof -
  have ms: "0 < ms" and s: "sec = word_of_int (ms sdiv 1000)" "usec = word_of_int (ms smod 1000) * 1000"
    using assms(1) by (auto simp: mbu_timeout_from_ms_def split: if_splits)
  have d: "ms sdiv 1000 = ms div 1000" "ms smod 1000 = ms mod 1000"
    using ms by (simp_all add: signed_divide_int_def signed_modulo_int_def)
  have q: "uint sec = ms div 1000"
    using ms assms(2) by (simp add: s d uint_word_of_int take_bit_int_eq_self)
  have r: "uint usec = ms mod 1000 * 1000"
    by (simp add: s d uint_word_ariths uint_word_of_int take_bit_int_eq_self mod_mult_left_eq)
  show "uint sec * 1000000 + uint usec = ms * 1000"
    unfolding q r using div_mult_mod_eq [of ms 1000] by linarith
  show "uint usec \<le> 999999" using pos_mod_bound [of 1000 ms] by (simp add: r)
  show "0 < ms" by (rule ms)
qed

lemma prepared_data:
  assumes "prepare_data mem opts plan = Some data" "cp_count plan = int n"
  shows "cp_type plan = DATA_BITS \<Longrightarrow> \<not> cp_is_write plan \<Longrightarrow> length (rq_bits data) = n"
    and "cp_type plan = DATA_REGISTERS \<Longrightarrow> \<not> cp_is_write plan \<Longrightarrow> length (rq_registers data) = n"
    and "cp_is_write plan \<Longrightarrow> length (co_write opts) = n \<Longrightarrow>
      (\<forall>v \<in> set (co_write opts). write_value_ok (co_function opts) (cp_type plan) v) \<and>
      (case cp_type plan of
         DATA_BITS \<Rightarrow> rq_bits data = map word_of_int (co_write opts)
       | DATA_REGISTERS \<Rightarrow> rq_registers data = map word_of_int (co_write opts)
       | DATA_SCALAR \<Rightarrow> rq_scalar data = last (co_write opts))"
  using assms by (auto simp: prepare_data_def Let_def list_all_iff split: data_type.splits if_splits)

lemma uint_of_ints:
  assumes "\<forall>v \<in> set vs. 0 \<le> v \<and> v < 2 ^ LENGTH('a :: len)"
  shows "map uint (map word_of_int vs :: 'a word list) = vs"
  using assms by (induction vs) (simp_all add: uint_word_of_int take_bit_int_eq_self)

lemma plan_function:
  assumes "plan_request opts = Some (ty, w, n)"
  shows "1 \<le> n" and
    "\<not> w \<and> ty = DATA_BITS \<and> co_function opts \<in> {1, 2} \<and> n \<le> 2000 \<or>
     \<not> w \<and> ty = DATA_REGISTERS \<and> co_function opts \<in> {3, 4} \<and> n \<le> 125 \<or>
     w \<and> int (length (co_write opts)) = n \<and>
       (ty = DATA_SCALAR \<and> co_function opts \<in> {5, 6} \<and> n = 1 \<or>
        ty = DATA_BITS \<and> co_function opts = 15 \<and> n \<le> 1968 \<or>
        ty = DATA_REGISTERS \<and> co_function opts = 16 \<and> n \<le> 123)"
  using assms by (auto simp: plan_request_def Let_def Suc_le_eq split: if_splits)

lemma prepared:
  assumes "plan_request opts = Some (ty, w, n)" "prepare_data mem opts plan = Some data"
    and "cp_type plan = ty" "cp_is_write plan = w" "cp_count plan = n"
  shows "plan_fits (co_function opts) (nat n) data \<and> plan_values opts (nat n) data"
proof -
  note pf = plan_function [OF assms(1)]
  obtain m where m: "n = int m" "1 \<le> m" using pf(1) by (cases n) auto
  have n: "cp_count plan = int m" "nat n = m" by (simp_all add: assms(5) m(1))
  note pd = prepared_data [OF assms(2) n(1), unfolded assms(3,4)]
  from pf(2) [unfolded m(1)] show ?thesis
    unfolding n(2)
  proof (elim disjE conjE, goal_cases bits regs single coils registers)
    case bits
    have "length (rq_bits data) = m" by (rule pd(1)) (use bits in simp_all)
    then show ?case using bits(3,4) m(2) by (elim insertE) (simp_all add: plan_fits_def plan_values_def)
  next
    case regs
    have "length (rq_registers data) = m" by (rule pd(2)) (use regs in simp_all)
    then show ?case using regs(3,4) m(2) by (elim insertE) (simp_all add: plan_fits_def plan_values_def)
  next
    case single
    have all: "\<forall>v \<in> set (co_write opts). write_value_ok (co_function opts) DATA_SCALAR v"
      and last: "rq_scalar data = last (co_write opts)"
      using pd(3) [OF single(1)] single(2,3) by simp_all
    have "length (co_write opts) = 1" using single(2,5) by simp
    then obtain v where v: "co_write opts = [v]" by (auto simp: length_Suc_conv)
    have "rq_scalar data = v" "write_value_ok (co_function opts) DATA_SCALAR v"
      using all last v by simp_all
    moreover have "m = 1" using single(5) by simp
    ultimately show ?case
      using single(4) v by (elim insertE) (simp_all add: plan_fits_def plan_values_def write_value_ok_def)
  next
    case coils
    have b: "rq_bits data = map word_of_int (co_write opts)" "\<forall>v \<in> set (co_write opts). v = 0 \<or> v = 1"
      using pd(3) coils by (auto simp: write_value_ok_def)
    have "map uint (rq_bits data) = co_write opts"
      unfolding b(1) using b(2) by (intro uint_of_ints) auto
    moreover have "set (rq_bits data) \<subseteq> {0, 1}" using b by auto
    ultimately show ?case using coils m(2) b(1) by (auto simp: plan_fits_def plan_values_def)
  next
    case registers
    have b: "rq_registers data = map word_of_int (co_write opts)" "\<forall>v \<in> set (co_write opts). 0 \<le> v \<and> v \<le> 65535"
      using pd(3) registers by (auto simp: write_value_ok_def)
    have "map uint (rq_registers data) = co_write opts"
      unfolding b(1) using b(2) by (intro uint_of_ints) auto
    then show ?case using registers m(2) b(1) by (auto simp: plan_fits_def plan_values_def)
  qed
qed

lemma check_optionsD:
  assumes "check_options opts = Some plan"
  shows "\<exists>ty w. plan_request opts = Some (ty, w, cp_count plan) \<and> cp_type plan = ty \<and> cp_is_write plan = w"
    and "mbu_parse_address_range (Some (co_address opts)) True True = Some (cp_address_start plan, cp_address_end plan)"
    and "0 \<le> cp_register plan" "cp_register plan + cp_count plan \<le> 65536"
    and "mbu_timeout_from_ms (co_timeout opts) True True = Some (cp_seconds plan, cp_microseconds plan)"
    and "cp_register plan = co_reg opts - of_bool (co_base_one opts)" "0 \<le> co_interframe_delay opts"
  using assms
  by (auto simp: check_options_def validate_register_range_def Let_def split: bind_splits if_splits prod.splits)

lemma client_plan:
  assumes "check_options opts = Some plan" "prepare_data mem opts plan = Some data"
    and "co_timeout opts \<le> INT_MAX"
  shows "0 \<le> cp_address_start plan" "cp_address_start plan \<le> cp_address_end plan" "cp_address_end plan \<le> 247"
    "0 \<le> cp_register plan" "cp_register plan + cp_count plan \<le> 65536" "0 < cp_count plan"
    "plan_fits (co_function opts) (nat (cp_count plan)) data"
    "plan_values opts (nat (cp_count plan)) data"
    "uint (cp_seconds plan) * 1000000 + uint (cp_microseconds plan) = co_timeout opts * 1000"
    "modbus_set_response_timeout The_ctx (cp_seconds plan) (cp_microseconds plan) st =
      (0, set_ctx ((st_ctx st)\<lparr>ctx_response_timeout :=
        \<lparr>tv_sec = uint (cp_seconds plan), tv_usec = uint (cp_microseconds plan)\<rparr>\<rparr>) st)"
proof -
  obtain ty w where p: "plan_request opts = Some (ty, w, cp_count plan)" "cp_type plan = ty" "cp_is_write plan = w"
    using check_optionsD(1) [OF assms(1)] by blast
  show "plan_fits (co_function opts) (nat (cp_count plan)) data" "plan_values opts (nat (cp_count plan)) data"
    using prepared [OF p(1) assms(2) p(2,3)] by simp_all
  show "0 < cp_count plan" using plan_function(1) [OF p(1)] by simp
  note t = timeout_parts [OF check_optionsD(5) [OF assms(1)] assms(3)]
  show "uint (cp_seconds plan) * 1000000 + uint (cp_microseconds plan) = co_timeout opts * 1000" by (rule t)
  have "\<not> (cp_seconds plan = 0 \<and> cp_microseconds plan = 0)" using t(1,3) by auto
  moreover have "cp_microseconds plan \<le> 999999" using t(2) by (simp add: word_le_def)
  ultimately show "modbus_set_response_timeout The_ctx (cp_seconds plan) (cp_microseconds plan) st =
      (0, set_ctx ((st_ctx st)\<lparr>ctx_response_timeout :=
        \<lparr>tv_sec = uint (cp_seconds plan), tv_usec = uint (cp_microseconds plan)\<rparr>\<rparr>) st)"
    by (auto simp: modbus_set_response_timeout_def linorder_not_less)
qed (use parse_range_bounds [OF check_optionsD(2) [OF assms(1)]] check_optionsD(3,4) [OF assms(1)] in simp_all)

text \<open>C27: Whatever the command line says, options that pass the checks of \<open>modbusc\<close> make a plan the
  library's functions accept: the slave addresses lie in 0..247 and are in order, the registers
  in 0..65535, the count is within the limit of the function, the arrays have that many
  elements and hold the values given, and the timeout is the one given, in seconds and
  microseconds that \<open>modbus_set_response_timeout\<close> accepts.\<close>

theorem client_plan_valid:
  assumes "check_options opts = Some plan" "prepare_data mem opts plan = Some data"
    and "co_timeout opts \<le> INT_MAX"
  shows "0 \<le> cp_address_start plan \<and> cp_address_start plan \<le> cp_address_end plan \<and> cp_address_end plan \<le> 247 \<and>
    0 \<le> cp_register plan \<and> cp_register plan + cp_count plan \<le> 65536 \<and> 0 < cp_count plan \<and>
    plan_fits (co_function opts) (nat (cp_count plan)) data \<and>
    plan_values opts (nat (cp_count plan)) data \<and>
    uint (cp_seconds plan) * 1000000 + uint (cp_microseconds plan) = co_timeout opts * 1000 \<and>
    (\<exists>st'. modbus_set_response_timeout The_ctx (cp_seconds plan) (cp_microseconds plan) st = (0, st'))"
  by (intro conjI exI; rule client_plan [OF assms])

subsection \<open>One request\<close>

text \<open>The request of the protocol that a function code of the command line stands for, and the
  caller's data after the response.\<close>

definition planned_request :: "int \<Rightarrow> int \<Rightarrow> nat \<Rightarrow> request_data \<Rightarrow> request" where
  "planned_request f a n data =
     (if f = 1 then Read_coils a n
      else if f = 2 then Read_discrete_inputs a n
      else if f = 3 then Read_holding_registers a n
      else if f = 4 then Read_input_registers a n
      else if f = 5 then Write_coil a (rq_scalar data \<noteq> 0)
      else if f = 6 then Write_register a (word_of_int (rq_scalar data))
      else if f = 15 then Write_coils a (map (\<lambda>v. v \<noteq> 0) (rq_bits data))
      else Write_registers a (rq_registers data))"

definition data_after :: "int \<Rightarrow> response \<Rightarrow> request_data \<Rightarrow> request_data" where
  "data_after f resp data =
     (if f \<in> {1, 2} then data\<lparr>rq_bits := bits_read resp (rq_bits data)\<rparr>
      else if f \<in> {3, 4} then data\<lparr>rq_registers := registers_read resp (rq_registers data)\<rparr>
      else data)"

lemma perform_request_run:
  assumes "client_at L os slave d st" "0 \<le> a" "a < 65536" "plan_fits f n data"
    and "r = planned_request f a n data"
  shows "\<exists>rc st'. perform_request os f a (int n) data st =
      Some (rc, data_after f (snd (serve d r)) data, st') \<and> carried_out L d r st (int n) rc st'"
proof -
  note at = assms(1-3)
  from assms(4) consider "f = 1" "n \<le> 2000" "length (rq_bits data) = n"
    | "f = 2" "n \<le> 2000" "length (rq_bits data) = n"
    | "f = 3" "n \<le> 125" "length (rq_registers data) = n"
    | "f = 4" "n \<le> 125" "length (rq_registers data) = n"
    | "f = 5" "n = 1" | "f = 6" "n = 1"
    | "f = 15" "n \<le> 1968" "length (rq_bits data) = n"
    | "f = 16" "n \<le> 123" "length (rq_registers data) = n"
    unfolding plan_fits_def by blast
  then show ?thesis
  proof cases
    case 1
    then show ?thesis
      using read_coils_run [OF at, of n "rq_bits data"] assms(5)
      by (auto simp: perform_request_def planned_request_def data_after_def)
  next
    case 2
    then show ?thesis
      using read_discrete_run [OF at, of n "rq_bits data"] assms(5)
      by (auto simp: perform_request_def planned_request_def data_after_def)
  next
    case 3
    then show ?thesis
      using read_holding_run [OF at, of n "rq_registers data"] assms(5)
      by (auto simp: perform_request_def planned_request_def data_after_def)
  next
    case 4
    then show ?thesis
      using read_input_run [OF at, of n "rq_registers data"] assms(5)
      by (auto simp: perform_request_def planned_request_def data_after_def)
  next
    case 5
    then show ?thesis
      using write_bit_run [OF at, of "rq_scalar data"] assms(5)
      by (auto simp: perform_request_def planned_request_def data_after_def)
  next
    case 6
    then show ?thesis
      using write_register_run [OF at, of "word_of_int (rq_scalar data)"] assms(5)
      by (auto simp: perform_request_def planned_request_def data_after_def)
  next
    case 7
    then show ?thesis
      using write_bits_run [OF at, of n "rq_bits data"] assms(5)
      by (auto simp: perform_request_def planned_request_def data_after_def)
  next
    case 8
    then show ?thesis
      using write_registers_run [OF at, of n "rq_registers data"] assms(5)
      by (auto simp: perform_request_def planned_request_def data_after_def)
  qed
qed

lemma print_result_ok:
  assumes "plan_fits f n data" "ty = (if f \<in> {1, 2, 15} then DATA_BITS else if f \<in> {5, 6} then DATA_SCALAR else DATA_REGISTERS)"
    and "r = planned_request f a n data"
  shows "print_result (is_write_function f) ty (int n) (data_after f (snd (serve d r)) data) = Some ()"
proof (cases "f \<in> {1, 2, 3, 4}")
  case False
  then show ?thesis using assms(1) by (auto simp: plan_fits_def print_result_def is_write_function_def)
next
  case True
  consider "f \<in> {1, 2}" "length (rq_bits data) = n" | "f \<in> {3, 4}" "length (rq_registers data) = n"
    using True assms(1) by (auto simp: plan_fits_def)
  then show ?thesis
  proof cases
    case 1
    have "length (bits_read (snd (serve d r)) (rq_bits data)) = n"
      using serve_fits [of r d] 1 assms(3)
      by (cases "snd (serve d r)") (auto simp: planned_request_def bits_read_def)
    then show ?thesis using 1(1) assms(2) by (auto simp: print_result_def data_after_def)
  next
    case 2
    have "length (registers_read (snd (serve d r)) (rq_registers data)) = n"
      using serve_fits [of r d] 2 assms(3)
      by (cases "snd (serve d r)") (auto simp: planned_request_def registers_read_def)
    then show ?thesis using 2(1) assms(2) by (auto simp: print_result_def data_after_def)
  qed
qed

subsection \<open>The whole run\<close>

definition with_slave :: "int \<Rightarrow> 'w mst \<Rightarrow> 'w mst" where
  "with_slave slave st = set_ctx ((st_ctx st)\<lparr>ctx_slave := slave\<rparr>) st"

lemma set_slave_in_range: "0 \<le> a \<Longrightarrow> a \<le> 247 \<Longrightarrow> modbus_set_slave The_ctx a st = (0, with_slave a st)"
  by (simp add: modbus_set_slave_def be_set_slave_def rtu_set_slave_def tcp_set_slave_def with_slave_def Let_def
      split: backend.splits)

text \<open>What the program reports for one slave.\<close>

definition exit_status :: "response \<Rightarrow> int" where
  "exit_status resp = (case resp of Exception e \<Rightarrow> -1 | _ \<Rightarrow> 0)"

lemma process_one:
  assumes "client_at L os slave d (with_slave a st)" "0 \<le> a" "a \<le> 247" "0 \<le> reg" "reg < 65536"
    and "plan_fits f n data" "r = planned_request f reg n data"
    and "ty = (if f \<in> {1, 2, 15} then DATA_BITS else if f \<in> {5, 6} then DATA_SCALAR else DATA_REGISTERS)"
  shows "\<exists>st'. process_requests os a a f reg (int n) ty data delay st =
      Some (exit_status (snd (serve d r)), data_after f (snd (serve d r)) data, st') \<and>
    client_at L os slave (fst (serve d r)) st' \<and>
    (\<forall>e. snd (serve d r) = Exception e \<longrightarrow> st_errno st' = MODBUS_ENOBASE + int e)"
proof -
  obtain rc st' where run: "perform_request os f reg (int n) data (with_slave a st) =
      Some (rc, data_after f (snd (serve d r)) data, st')" "carried_out L d r (with_slave a st) (int n) rc st'"
    using perform_request_run [OF assms(1,4,5,6,7)] by blast
  have "rc = int n \<longleftrightarrow> exit_status (snd (serve d r)) = 0" "exit_status (snd (serve d r)) \<in> {0, -1}"
    using run(2) by (auto simp: carried_out_def client_outcome_def exit_status_def split: response.splits)
  then have "process_requests os a a f reg (int n) ty data delay st =
      Some (exit_status (snd (serve d r)), data_after f (snd (serve d r)) data, st')"
    using run(1) print_result_ok [OF assms(6,8,7), of d] set_slave_in_range [OF assms(2,3), of st]
    by (auto simp: process_requests_def process_address_def)
  moreover have "st_errno st' = MODBUS_ENOBASE + int e" if "snd (serve d r) = Exception e" for e
    using run(2) that by (simp add: carried_out_def client_outcome_def)
  ultimately show ?thesis
    using carried_out_client_at [OF assms(1) run(2)] by blast
qed

text \<open>The context as \<open>configure_context\<close> leaves it.\<close>

definition configured :: "client_options \<Rightarrow> client_plan \<Rightarrow> 'w mst \<Rightarrow> 'w mst" where
  "configured opts plan st = set_ctx ((st_ctx st)\<lparr>ctx_debug := (if co_verbose opts > 1 then 1 else 0),
     ctx_response_timeout := \<lparr>tv_sec = uint (cp_seconds plan), tv_usec = uint (cp_microseconds plan)\<rparr>\<rparr>) st"

lemma modbusc_request_run:
  assumes "check_options opts = Some plan" "prepare_data mem opts plan = Some data"
    and "co_timeout opts \<le> INT_MAX" "cp_address_end plan = cp_address_start plan"
    and "modbus_connect os The_ctx (configured opts plan st) = (0, st1)"
    and "client_at L os slave d (with_slave (cp_address_start plan) st1)"
    and "r = planned_request (co_function opts) (cp_register plan) (nat (cp_count plan)) data"
  shows "\<exists>st'. connect_and_process os The_ctx (cp_address_start plan) (cp_address_end plan) (co_function opts)
      (cp_register plan) (cp_count plan) (cp_type plan) data delay (co_verbose opts) (cp_seconds plan)
      (cp_microseconds plan) st =
      Some (exit_status (snd (serve d r)), data_after (co_function opts) (snd (serve d r)) data,
        modbus_close os The_ctx st') \<and>
    client_at L os slave (fst (serve d r)) st' \<and>
    (\<forall>e. snd (serve d r) = Exception e \<longrightarrow> st_errno st' = MODBUS_ENOBASE + int e)"
proof -
  note p = client_plan [OF assms(1-3)]
  obtain ty w where "plan_request opts = Some (ty, w, cp_count plan)" "cp_type plan = ty"
    using check_optionsD(1) [OF assms(1)] by blast
  then have ty: "cp_type plan = (if co_function opts \<in> {1, 2, 15} then DATA_BITS
      else if co_function opts \<in> {5, 6} then DATA_SCALAR else DATA_REGISTERS)"
    using plan_function(2) by fastforce
  have conf: "configure_context The_ctx (if co_verbose opts > 1 then 1 else 0) (cp_seconds plan)
      (cp_microseconds plan) st = (0, configured opts plan st)"
    by (simp add: configure_context_def modbus_set_debug_def configured_def p(10))
  have a: "cp_address_start plan \<le> 247" "cp_register plan < 65536" using p(2,3,5,6) by simp_all
  obtain st' where st': "process_requests os (cp_address_start plan) (cp_address_start plan) (co_function opts)
      (cp_register plan) (int (nat (cp_count plan))) (cp_type plan) data delay st1 =
      Some (exit_status (snd (serve d r)), data_after (co_function opts) (snd (serve d r)) data, st')"
    "client_at L os slave (fst (serve d r)) st'"
    "\<forall>e. snd (serve d r) = Exception e \<longrightarrow> st_errno st' = MODBUS_ENOBASE + int e"
    using process_one [OF assms(6) p(1) a(1) p(4) a(2) p(7) assms(7) ty] by blast
  then show ?thesis
    using conf assms(4,5) p(6) by (auto simp: connect_and_process_def)
qed

text \<open>C11: \<open>modbusc\<close> does what its command line says: with options that pass the checks, one slave
  address and a connection to a device with that address, \<open>connect_and_process\<close> carries out the
  one request the function code, the registers and the values stand for, returns 0 with the
  values read in the request's array when the device accepts it, or -1 with the exception of the
  device in \<open>errno\<close>, and closes the connection.\<close>

theorem modbusc_request:
  assumes "check_options opts = Some plan" "prepare_data mem opts plan = Some data"
    and "co_timeout opts \<le> INT_MAX" "cp_address_end plan = cp_address_start plan"
    and "modbus_connect os The_ctx (configured opts plan st) = (0, st1)"
    and "client_at L os slave d (with_slave (cp_address_start plan) st1)"
    and "r = planned_request (co_function opts) (cp_register plan) (nat (cp_count plan)) data"
  shows "\<exists>st'. connect_and_process os The_ctx (cp_address_start plan) (cp_address_end plan) (co_function opts)
      (cp_register plan) (cp_count plan) (cp_type plan) data delay (co_verbose opts) (cp_seconds plan)
      (cp_microseconds plan) st =
      Some (exit_status (snd (serve d r)), data_after (co_function opts) (snd (serve d r)) data,
        modbus_close os The_ctx st') \<and>
    client_at L os slave (fst (serve d r)) st' \<and>
    (\<forall>e. snd (serve d r) = Exception e \<longrightarrow> st_errno st' = MODBUS_ENOBASE + int e)"
  using assms by (rule modbusc_request_run)

subsection \<open>A concrete command line\<close>

text \<open>\<open>modbusc rtu -d /dev/ttyS0 -b 9600 -a 17 -f 3 -r 1 -c 2\<close>, to a device that is the library's server.\<close>

definition read_two :: client_options where
  "read_two = \<lparr>co_is_rtu = True, co_address = ''17'', co_reg = 1, co_base_one = False, co_function = 3,
     co_write = [], co_count = 2, co_timeout = 1000, co_interframe_delay = 200, co_verbose = 0, co_port = 502,
     co_host = ''127.0.0.1'', co_device = ''/dev/ttyS0'', co_baud = [9600], co_parity = [''E''],
     co_data_bits = ''8'', co_stop_bits = ''1''\<rparr>"

definition two_plan :: client_plan where
  "two_plan = \<lparr>cp_address_start = 17, cp_address_end = 17, cp_register = 1, cp_type = DATA_REGISTERS,
     cp_is_write = False, cp_count = 2, cp_seconds = 1, cp_microseconds = 0\<rparr>"

definition two_data :: request_data where
  "two_data = \<lparr>rq_scalar = 0, rq_bits = [], rq_registers = [0, 0]\<rparr>"

definition two_ctx :: modbus where
  "two_ctx = rtu_ctx\<lparr>ctx_debug := 0, ctx_response_timeout := \<lparr>tv_sec = 1, tv_usec = 0\<rparr>\<rparr>"

lemma read_two_plan: "check_options read_two = Some two_plan" "prepare_data True read_two two_plan = Some two_data"
  by code_simp+

lemma two_connected:
  "modbus_connect (loop_os two_ctx) The_ctx (configured read_two two_plan (loop_client rtu_ctx small_mapping)) =
     (0, loop_client two_ctx small_mapping)"
  by (simp add: modbus_connect_def be_connect_def configured_def loop_client_def read_two_def two_plan_def
      rtu_ctx_def rtu_connect_def loop_os_def set_rtu_def ret_count_def ret_unit_def zero_termios_def two_ctx_def
      tcp_ctx_def)

lemma two_at: "client_at loop_link (loop_os two_ctx) 17 (abs_mapping small_mapping)
    (with_slave (cp_address_start two_plan) (loop_client two_ctx small_mapping))"
proof -
  have "with_slave (cp_address_start two_plan) (loop_client two_ctx small_mapping) = loop_client two_ctx small_mapping"
    by (simp add: with_slave_def loop_client_def two_plan_def two_ctx_def rtu_ctx_def)
  moreover have "client_at loop_link (loop_os two_ctx) 17 (abs_mapping small_mapping) (loop_client two_ctx small_mapping)"
    by (rule loop_client_at) (simp_all add: small_mapping_ok two_ctx_def)
  ultimately show ?thesis by simp
qed

theorem client_plan_valid_witness:
  "plan_fits 3 2 two_data \<and> (\<exists>st'. modbus_set_response_timeout The_ctx 1 0 (on_wire tcp_ctx []) = (0, st'))"
  using client_plan_valid [OF read_two_plan, of "on_wire tcp_ctx []"]
  by (simp add: read_two_def two_plan_def)

theorem modbusc_request_witness:
  "\<exists>st'. connect_and_process (loop_os two_ctx) The_ctx 17 17 3 1 2 DATA_REGISTERS two_data 200 0 1 0
      (loop_client rtu_ctx small_mapping) =
    Some (0, \<lparr>rq_scalar = 0, rq_bits = [], rq_registers = [20, 30]\<rparr>, modbus_close (loop_os two_ctx) The_ctx st')"
proof -
  have srv: "snd (serve (abs_mapping small_mapping) (Read_holding_registers 1 2)) = Registers [20, 30]"
    by code_simp
  have "planned_request (co_function read_two) (cp_register two_plan) (nat (cp_count two_plan)) two_data =
      Read_holding_registers 1 2"
    by (simp add: planned_request_def read_two_def two_plan_def)
  note main = modbusc_request [OF read_two_plan _ _ two_connected two_at this [symmetric], of 200, unfolded srv]
  have "\<exists>st'. connect_and_process (loop_os two_ctx) The_ctx 17 17 3 1 2 DATA_REGISTERS two_data 200 0 1 0
      (loop_client rtu_ctx small_mapping) =
    Some (exit_status (Registers [20, 30]), data_after 3 (Registers [20, 30]) two_data,
      modbus_close (loop_os two_ctx) The_ctx st')"
    using main by (simp add: read_two_def two_plan_def) blast
  then show ?thesis by (simp add: exit_status_def data_after_def registers_read_def two_data_def filled_def)
qed

end
