(* ===== verification/Argtable_Regex.thy ===== *)
theory Argtable_Regex
  imports Modbusc
begin

text \<open>
  The regular expressions of \<open>argtable3/argtable3.c\<close> (T-Rex), with which \<open>arg_rex\<close> checks an
  argument: the compiler of a pattern into an array of nodes, and the matcher. A C \<open>char\<close> is
  signed. \<open>longjmp\<close> out of the compiler is an \<open>Inl\<close> with the message; \<open>None\<close> is, as everywhere, an
  access outside an array, and here also running out of the fuel that bounds the recursion. The
  captures, which nothing reads, are left out.
\<close>

subsection \<open>Characters\<close>

definition char_int :: "char \<Rightarrow> int" where
  "char_int c = (let n = (of_char c :: int) in if n \<ge> 128 then n - 256 else n)"

text \<open>The character at a place of a string, the final NUL included.\<close>

definition c_at :: "string \<Rightarrow> int \<Rightarrow> int option" where
  "c_at text i = (if i = int (length text) then Some 0 else map_option char_int (rd text i))"

text \<open>\<open>ctype.h\<close> in the "C" locale.\<close>

definition c_isdigit :: "int \<Rightarrow> bool" where "c_isdigit c \<longleftrightarrow> 48 \<le> c \<and> c \<le> 57"
definition c_isupper :: "int \<Rightarrow> bool" where "c_isupper c \<longleftrightarrow> 65 \<le> c \<and> c \<le> 90"
definition c_islower :: "int \<Rightarrow> bool" where "c_islower c \<longleftrightarrow> 97 \<le> c \<and> c \<le> 122"
definition c_isalpha :: "int \<Rightarrow> bool" where "c_isalpha c \<longleftrightarrow> c_isupper c \<or> c_islower c"
definition c_isalnum :: "int \<Rightarrow> bool" where "c_isalnum c \<longleftrightarrow> c_isalpha c \<or> c_isdigit c"
definition c_isspace :: "int \<Rightarrow> bool" where "c_isspace c \<longleftrightarrow> c = 32 \<or> 9 \<le> c \<and> c \<le> 13"
definition c_isprint :: "int \<Rightarrow> bool" where "c_isprint c \<longleftrightarrow> 32 \<le> c \<and> c \<le> 126"
definition c_iscntrl :: "int \<Rightarrow> bool" where "c_iscntrl c \<longleftrightarrow> 0 \<le> c \<and> c \<le> 31 \<or> c = 127"
definition c_ispunct :: "int \<Rightarrow> bool" where "c_ispunct c \<longleftrightarrow> 33 \<le> c \<and> c \<le> 126 \<and> \<not> c_isalnum c"
definition c_isxdigit :: "int \<Rightarrow> bool" where
  "c_isxdigit c \<longleftrightarrow> c_isdigit c \<or> 65 \<le> c \<and> c \<le> 70 \<or> 97 \<le> c \<and> c \<le> 102"
definition c_toupper :: "int \<Rightarrow> int" where "c_toupper c = (if c_islower c then c - 32 else c)"
definition c_tolower :: "int \<Rightarrow> int" where "c_tolower c = (if c_isupper c then c + 32 else c)"

lemmas ctype_defs = c_isdigit_def c_isupper_def c_islower_def c_isalpha_def c_isalnum_def
  c_isspace_def c_isprint_def c_iscntrl_def c_ispunct_def c_isxdigit_def c_toupper_def c_tolower_def

subsection \<open>Nodes and the state of the compiler\<close>

abbreviation (input) OP_GREEDY :: int where "OP_GREEDY \<equiv> 256"
abbreviation (input) OP_OR :: int where "OP_OR \<equiv> 257"
abbreviation (input) OP_EXPR :: int where "OP_EXPR \<equiv> 258"
abbreviation (input) OP_NOCAPEXPR :: int where "OP_NOCAPEXPR \<equiv> 259"
abbreviation (input) OP_DOT :: int where "OP_DOT \<equiv> 260"
abbreviation (input) OP_CLASS :: int where "OP_CLASS \<equiv> 261"
abbreviation (input) OP_CCLASS :: int where "OP_CCLASS \<equiv> 262"
abbreviation (input) OP_NCLASS :: int where "OP_NCLASS \<equiv> 263"
abbreviation (input) OP_RANGE :: int where "OP_RANGE \<equiv> 264"
abbreviation (input) OP_EOL :: int where "OP_EOL \<equiv> 266"
abbreviation (input) OP_BOL :: int where "OP_BOL \<equiv> 267"
abbreviation (input) OP_WB :: int where "OP_WB \<equiv> 268"

record trex_node =
  nd_type :: int
  nd_left :: int
  nd_right :: int
  nd_next :: int

record trex =
  tx_pattern :: string
  tx_p :: int
  tx_nodes :: "trex_node list"
  tx_nallocated :: int
  tx_nsubexpr :: int
  tx_icase :: bool

type_synonym 'a tx = "trex \<Rightarrow> (string + 'a \<times> trex) option"

definition tx_bind :: "'a tx \<Rightarrow> ('a \<Rightarrow> 'b tx) \<Rightarrow> 'b tx" where
  "tx_bind m f exp =
     (case m exp of
        None \<Rightarrow> None
      | Some (Inl e) \<Rightarrow> Some (Inl e)
      | Some (Inr (x, exp')) \<Rightarrow> f x exp')"

definition tx_return :: "'a \<Rightarrow> 'a tx" where
  "tx_return x exp = Some (Inr (x, exp))"

definition trex_error :: "string \<Rightarrow> 'a tx" where
  "trex_error e exp = Some (Inl e)"

text \<open>\<open>*exp->_p\<close>, \<open>exp->_p++\<close>, and an assignment to a field of a node.\<close>

definition tx_peek :: "int tx" where
  "tx_peek exp = map_option (\<lambda>c. Inr (c, exp)) (c_at (tx_pattern exp) (tx_p exp))"

definition tx_skip :: "unit tx" where
  "tx_skip exp = Some (Inr ((), exp\<lparr>tx_p := tx_p exp + 1\<rparr>))"

definition tx_node :: "int \<Rightarrow> trex_node tx" where
  "tx_node i exp = map_option (\<lambda>nd. Inr (nd, exp)) (rd (tx_nodes exp) i)"

definition tx_update :: "int \<Rightarrow> (trex_node \<Rightarrow> trex_node) \<Rightarrow> unit tx" where
  "tx_update i f exp = do {
     nd \<leftarrow> rd (tx_nodes exp) i;
     nodes \<leftarrow> wr (tx_nodes exp) i (f nd);
     Some (Inr ((), exp\<lparr>tx_nodes := nodes\<rparr>)) }"

definition trex_newnode :: "int \<Rightarrow> int tx" where
  "trex_newnode ty exp =
     (let nd = \<lparr>nd_type = ty, nd_left = -1,
                nd_right = (if ty = OP_EXPR then tx_nsubexpr exp else -1), nd_next = -1\<rparr>;
          nsize = int (length (tx_nodes exp));
          nallocated = (if tx_nallocated exp < nsize + 1 then tx_nallocated exp * 2
                        else tx_nallocated exp) in
      if nsize < nallocated then
        Some (Inr (nsize, exp\<lparr>tx_nodes := tx_nodes exp @ [nd], tx_nallocated := nallocated,
          tx_nsubexpr := (if ty = OP_EXPR then tx_nsubexpr exp + 1 else tx_nsubexpr exp)\<rparr>))
      else None)"

definition trex_expect :: "char \<Rightarrow> unit tx" where
  "trex_expect n = tx_bind tx_peek (\<lambda>c.
     if c \<noteq> char_int n then trex_error ''expected paren'' else tx_skip)"

subsection \<open>Compiling\<close>

definition trex_escapechar :: "int tx" where
  "trex_escapechar = tx_bind tx_peek (\<lambda>c.
     if c = char_int (CHR 0x5C) then
       tx_bind tx_skip (\<lambda>_. tx_bind tx_peek (\<lambda>c. tx_bind tx_skip (\<lambda>_. tx_return
         (if c = char_int (CHR ''v'') then 11 else if c = char_int (CHR ''n'') then 10
          else if c = char_int (CHR ''t'') then 9 else if c = char_int (CHR ''r'') then 13
          else if c = char_int (CHR ''f'') then 12 else c))))
     else if \<not> c_isprint c then trex_error ''letter expected''
     else tx_bind tx_skip (\<lambda>_. tx_return c))"

definition trex_charclass :: "int \<Rightarrow> int tx" where
  "trex_charclass classid = tx_bind (trex_newnode OP_CCLASS) (\<lambda>n.
     tx_bind (tx_update n (\<lambda>nd. nd\<lparr>nd_left := classid\<rparr>)) (\<lambda>_. tx_return n))"

definition is_class_letter :: "int \<Rightarrow> bool" where
  "is_class_letter c \<longleftrightarrow> c \<in> set (map char_int ''aAwWsSdDxXcCpPlu'')"

definition trex_charnode :: "bool \<Rightarrow> int tx" where
  "trex_charnode isclass = tx_bind tx_peek (\<lambda>c.
     if c = char_int (CHR 0x5C) then
       tx_bind tx_skip (\<lambda>_. tx_bind tx_peek (\<lambda>c.
         if c = char_int (CHR ''n'') then tx_bind tx_skip (\<lambda>_. trex_newnode 10)
         else if c = char_int (CHR ''t'') then tx_bind tx_skip (\<lambda>_. trex_newnode 9)
         else if c = char_int (CHR ''r'') then tx_bind tx_skip (\<lambda>_. trex_newnode 13)
         else if c = char_int (CHR ''f'') then tx_bind tx_skip (\<lambda>_. trex_newnode 12)
         else if c = char_int (CHR ''v'') then tx_bind tx_skip (\<lambda>_. trex_newnode 11)
         else if is_class_letter c then tx_bind tx_skip (\<lambda>_. trex_charclass c)
         else if (c = char_int (CHR ''b'') \<or> c = char_int (CHR ''B'')) \<and> \<not> isclass then
           tx_bind (trex_newnode OP_WB) (\<lambda>node.
             tx_bind (tx_update node (\<lambda>nd. nd\<lparr>nd_left := c\<rparr>)) (\<lambda>_.
               tx_bind tx_skip (\<lambda>_. tx_return node)))
         else tx_bind tx_skip (\<lambda>_. trex_newnode c)))
     else if \<not> c_isprint c then trex_error ''letter expected''
     else tx_bind tx_skip (\<lambda>_. trex_newnode c))"

text \<open>The loop of \<open>trex_class\<close> over the characters up to the bracket; \<open>exp->_eol\<close> is null there.\<close>

fun trex_class_loop :: "nat \<Rightarrow> int \<Rightarrow> int \<Rightarrow> (int \<times> int) tx" where
  "trex_class_loop 0 first chain = (\<lambda>exp. None)"
| "trex_class_loop (Suc fuel) first chain = tx_bind tx_peek (\<lambda>c.
     if c = char_int (CHR '']'') then tx_return (first, chain)
     else if c = char_int (CHR ''-'') \<and> first \<noteq> -1 then
       tx_bind tx_skip (\<lambda>_. tx_bind (trex_newnode OP_RANGE) (\<lambda>r. tx_bind tx_peek (\<lambda>c.
         if first > c then trex_error ''invalid range''
         else tx_bind (tx_node first) (\<lambda>nd.
           if nd_type nd = OP_CCLASS then trex_error ''cannot use character classes in ranges''
           else tx_bind (tx_update r (\<lambda>n. n\<lparr>nd_left := nd_type nd\<rparr>)) (\<lambda>_.
             tx_bind trex_escapechar (\<lambda>t.
               tx_bind (tx_update r (\<lambda>n. n\<lparr>nd_right := t\<rparr>)) (\<lambda>_.
                 tx_bind (tx_update chain (\<lambda>n. n\<lparr>nd_next := r\<rparr>)) (\<lambda>_.
                   trex_class_loop fuel (-1) r))))))))
     else if first \<noteq> -1 then
       tx_bind (tx_update chain (\<lambda>n. n\<lparr>nd_next := first\<rparr>)) (\<lambda>_.
         tx_bind (trex_charnode True) (\<lambda>c. trex_class_loop fuel c first))
     else tx_bind (trex_charnode True) (\<lambda>c. trex_class_loop fuel c chain))"

definition trex_class :: "nat \<Rightarrow> int tx" where
  "trex_class fuel = tx_bind tx_peek (\<lambda>c.
     tx_bind (if c = char_int (CHR ''^'')
              then tx_bind (trex_newnode OP_NCLASS) (\<lambda>ret. tx_bind tx_skip (\<lambda>_. tx_return ret))
              else trex_newnode OP_CLASS) (\<lambda>ret.
       tx_bind tx_peek (\<lambda>c.
         if c = char_int (CHR '']'') then trex_error ''empty class''
         else tx_bind (trex_class_loop fuel (-1) ret) (\<lambda>(first, chain).
           tx_bind (if first \<noteq> -1 then tx_update chain (\<lambda>n. n\<lparr>nd_next := first\<rparr>) else tx_return ()) (\<lambda>_.
             tx_bind (tx_update ret (\<lambda>n. n\<lparr>nd_left := nd_next n, nd_next := -1\<rparr>)) (\<lambda>_.
               tx_return ret))))))"

fun trex_parsenumber_loop :: "nat \<Rightarrow> int \<Rightarrow> int \<Rightarrow> int tx" where
  "trex_parsenumber_loop 0 ret positions = (\<lambda>exp. None)"
| "trex_parsenumber_loop (Suc fuel) ret positions = tx_bind tx_peek (\<lambda>c.
     if \<not> c_isdigit c then tx_return ret
     else tx_bind tx_skip (\<lambda>_.
       if ret * 10 + (c - 48) > 2147483647 then (\<lambda>exp. None)
       else if positions = 1000000000 then trex_error ''overflow in numeric constant''
       else trex_parsenumber_loop fuel (ret * 10 + (c - 48)) (positions * 10)))"

definition trex_parsenumber :: "nat \<Rightarrow> int tx" where
  "trex_parsenumber fuel = tx_bind tx_peek (\<lambda>c.
     tx_bind tx_skip (\<lambda>_. trex_parsenumber_loop fuel (c - 48) 10))"

text \<open>
  The repetition behind an element, as \<open>(p0, p1)\<close>; the casts to \<open>unsigned short\<close> keep the low 16
  bits. \<open>p0 << 16\<close> overflows \<open>int\<close> for a \<open>p0\<close> of \<open>0x8000\<close> or more.
\<close>

definition trex_repetition :: "nat \<Rightarrow> (int \<times> int) option tx" where
  "trex_repetition fuel = tx_bind tx_peek (\<lambda>c.
     if c = char_int (CHR ''*'') then tx_bind tx_skip (\<lambda>_. tx_return (Some (0, 0xFFFF)))
     else if c = char_int (CHR ''+'') then tx_bind tx_skip (\<lambda>_. tx_return (Some (1, 0xFFFF)))
     else if c = char_int (CHR ''?'') then tx_bind tx_skip (\<lambda>_. tx_return (Some (0, 1)))
     else if c = char_int (CHR ''{'') then
       tx_bind tx_skip (\<lambda>_. tx_bind tx_peek (\<lambda>c.
         if \<not> c_isdigit c then trex_error ''number expected''
         else tx_bind (trex_parsenumber fuel) (\<lambda>p0. tx_bind tx_peek (\<lambda>c.
           if c = char_int (CHR ''}'') then
             tx_bind tx_skip (\<lambda>_. tx_return (Some (p0 AND 0xFFFF, p0 AND 0xFFFF)))
           else if c = char_int (CHR '','') then
             tx_bind tx_skip (\<lambda>_. tx_bind tx_peek (\<lambda>c.
               tx_bind (if c_isdigit c then trex_parsenumber fuel else tx_return 0xFFFF) (\<lambda>p1.
                 tx_bind (trex_expect (CHR ''}'')) (\<lambda>_.
                   tx_return (Some (p0 AND 0xFFFF, p1 AND 0xFFFF))))))
           else trex_error '', or } expected''))))
     else tx_return None)"

definition trex_greedy_node :: "int \<Rightarrow> (int \<times> int) option \<Rightarrow> int tx" where
  "trex_greedy_node ret rep =
     (case rep of
        None \<Rightarrow> tx_return ret
      | Some (p0, p1) \<Rightarrow>
          if p0 \<ge> 0x8000 then (\<lambda>exp. None)
          else tx_bind (trex_newnode OP_GREEDY) (\<lambda>nnode.
            tx_bind (tx_update nnode (\<lambda>n. n\<lparr>nd_left := ret, nd_right := push_bit 16 p0 OR p1\<rparr>)) (\<lambda>_.
              tx_return nnode)))"

fun trex_list :: "nat \<Rightarrow> int tx" and trex_element :: "nat \<Rightarrow> int tx" where
  "trex_list 0 = (\<lambda>exp. None)"
| "trex_list (Suc fuel) = tx_bind tx_peek (\<lambda>c.
     tx_bind (if c = char_int (CHR ''^'')
              then tx_bind tx_skip (\<lambda>_. trex_newnode OP_BOL) else tx_return (-1)) (\<lambda>ret.
       tx_bind (trex_element fuel) (\<lambda>e.
         tx_bind (if ret \<noteq> -1 then tx_bind (tx_update ret (\<lambda>n. n\<lparr>nd_next := e\<rparr>)) (\<lambda>_. tx_return ret)
                  else tx_return e) (\<lambda>ret.
           tx_bind tx_peek (\<lambda>c.
             if c = char_int (CHR ''|'') then
               tx_bind tx_skip (\<lambda>_. tx_bind (trex_newnode OP_OR) (\<lambda>temp.
                 tx_bind (tx_update temp (\<lambda>n. n\<lparr>nd_left := ret\<rparr>)) (\<lambda>_.
                   tx_bind (trex_list fuel) (\<lambda>tright.
                     tx_bind (tx_update temp (\<lambda>n. n\<lparr>nd_right := tright\<rparr>)) (\<lambda>_. tx_return temp)))))
             else tx_return ret)))))"
| "trex_element 0 = (\<lambda>exp. None)"
| "trex_element (Suc fuel) = tx_bind tx_peek (\<lambda>c.
     tx_bind
       (if c = char_int (CHR ''('') then
          tx_bind tx_skip (\<lambda>_. tx_bind tx_peek (\<lambda>c.
            tx_bind
              (if c = char_int (CHR ''?'')
               then tx_bind tx_skip (\<lambda>_. tx_bind (trex_expect (CHR '':'')) (\<lambda>_. trex_newnode OP_NOCAPEXPR))
               else trex_newnode OP_EXPR) (\<lambda>expr.
              tx_bind (trex_list fuel) (\<lambda>newn.
                tx_bind (tx_update expr (\<lambda>n. n\<lparr>nd_left := newn\<rparr>)) (\<lambda>_.
                  tx_bind (trex_expect (CHR '')'')) (\<lambda>_. tx_return expr))))))
        else if c = char_int (CHR ''['') then
          tx_bind tx_skip (\<lambda>_. tx_bind (trex_class fuel) (\<lambda>ret.
            tx_bind (trex_expect (CHR '']'')) (\<lambda>_. tx_return ret)))
        else if c = char_int (CHR ''$'') then tx_bind tx_skip (\<lambda>_. trex_newnode OP_EOL)
        else if c = char_int (CHR ''.'') then tx_bind tx_skip (\<lambda>_. trex_newnode OP_DOT)
        else trex_charnode False) (\<lambda>ret.
       tx_bind (trex_repetition fuel) (\<lambda>rep.
         tx_bind (trex_greedy_node ret rep) (\<lambda>ret.
           tx_bind tx_peek (\<lambda>c.
             if c \<notin> {char_int (CHR ''|''), char_int (CHR '')''), char_int (CHR ''*''), char_int (CHR ''+''), 0} then
               tx_bind (trex_element fuel) (\<lambda>nnode.
                 tx_bind (tx_update ret (\<lambda>n. n\<lparr>nd_next := nnode\<rparr>)) (\<lambda>_. tx_return ret))
             else tx_return ret)))))"

text \<open>
  Every nested call of the compiler has consumed a character or is that of an element by a list,
  so twice the length of the pattern is fuel enough.
\<close>

definition trex_compile :: "string \<Rightarrow> bool \<Rightarrow> (string + trex) option" where
  "trex_compile pattern icase =
     map_option (map_sum (\<lambda>e. e) snd)
       (tx_bind (trex_newnode OP_EXPR) (\<lambda>first.
          tx_bind (trex_list (2 * length pattern + 2)) (\<lambda>res.
            tx_bind (tx_update first (\<lambda>n. n\<lparr>nd_left := res\<rparr>)) (\<lambda>_.
              tx_bind tx_peek (\<lambda>c.
                if c \<noteq> 0 then trex_error ''unexpected character'' else tx_return ()))))
        \<lparr>tx_pattern = pattern, tx_p = 0, tx_nodes = [], tx_nallocated = int (length pattern),
         tx_nsubexpr = 0, tx_icase = icase\<rparr>)"

subsection \<open>Matching\<close>

definition trex_matchcclass :: "int \<Rightarrow> int \<Rightarrow> bool" where
  "trex_matchcclass cclass c =
     (if cclass = char_int (CHR ''a'') then c_isalpha c
      else if cclass = char_int (CHR ''A'') then \<not> c_isalpha c
      else if cclass = char_int (CHR ''w'') then c_isalnum c \<or> c = char_int (CHR ''_'')
      else if cclass = char_int (CHR ''W'') then \<not> c_isalnum c \<and> c \<noteq> char_int (CHR ''_'')
      else if cclass = char_int (CHR ''s'') then c_isspace c
      else if cclass = char_int (CHR ''S'') then \<not> c_isspace c
      else if cclass = char_int (CHR ''d'') then c_isdigit c
      else if cclass = char_int (CHR ''D'') then \<not> c_isdigit c
      else if cclass = char_int (CHR ''x'') then c_isxdigit c
      else if cclass = char_int (CHR ''X'') then \<not> c_isxdigit c
      else if cclass = char_int (CHR ''c'') then c_iscntrl c
      else if cclass = char_int (CHR ''C'') then \<not> c_iscntrl c
      else if cclass = char_int (CHR ''p'') then c_ispunct c
      else if cclass = char_int (CHR ''P'') then \<not> c_ispunct c
      else if cclass = char_int (CHR ''l'') then c_islower c
      else if cclass = char_int (CHR ''u'') then c_isupper c
      else False)"

definition trex_same_char :: "bool \<Rightarrow> int \<Rightarrow> int \<Rightarrow> bool" where
  "trex_same_char icase ty c \<longleftrightarrow> (if icase then c = c_tolower ty \<or> c = c_toupper ty else c = ty)"

definition trex_in_range :: "bool \<Rightarrow> trex_node \<Rightarrow> int \<Rightarrow> bool" where
  "trex_in_range icase nd c \<longleftrightarrow>
     (if icase then c_toupper (nd_left nd) \<le> c \<and> c \<le> c_toupper (nd_right nd) \<or>
        c_tolower (nd_left nd) \<le> c \<and> c \<le> c_tolower (nd_right nd)
      else nd_left nd \<le> c \<and> c \<le> nd_right nd)"

text \<open>The chain of the nodes of a class; no longer than the array, as each node is linked once.\<close>

fun trex_matchclass :: "nat \<Rightarrow> trex \<Rightarrow> trex_node \<Rightarrow> int \<Rightarrow> bool option" where
  "trex_matchclass 0 exp nd c = None"
| "trex_matchclass (Suc fuel) exp nd c =
     (if (if nd_type nd = OP_RANGE then trex_in_range (tx_icase exp) nd c
          else if nd_type nd = OP_CCLASS then trex_matchcclass (nd_left nd) c
          else trex_same_char (tx_icase exp) (nd_type nd) c) then Some True
      else if nd_next nd = -1 then Some False
      else do {
        nd' \<leftarrow> rd (tx_nodes exp) (nd_next nd);
        trex_matchclass fuel exp nd' c })"

text \<open>A link to a node, with what a null link stands for.\<close>

definition trex_link :: "trex \<Rightarrow> int \<Rightarrow> trex_node option \<Rightarrow> trex_node option option" where
  "trex_link exp i otherwise = (if i = -1 then Some otherwise else map_option Some (rd (tx_nodes exp) i))"

definition greedy_done :: "int \<Rightarrow> int \<Rightarrow> int \<Rightarrow> bool" where
  "greedy_done p0 p1 n \<longleftrightarrow> p0 = p1 \<and> p0 = n \<or> n \<ge> p0 \<and> p1 = 0xFFFF \<or> n \<ge> p0 \<and> n \<le> p1"

definition at_word_boundary :: "string \<Rightarrow> int \<Rightarrow> bool option" where
  "at_word_boundary text s = do {
     c \<leftarrow> c_at text s;
     if s = 0 \<and> \<not> c_isspace c then Some True
     else do {
       at_end \<leftarrow> (if s = int (length text) then do { b \<leftarrow> c_at text (s - 1); Some (\<not> c_isspace b) } else Some False);
       if at_end then Some True
       else do {
         d \<leftarrow> c_at text (s + 1);
         Some (\<not> c_isspace c \<and> c_isspace d \<or> c_isspace c \<and> \<not> c_isspace d) } } }"

text \<open>
  The three loops of \<open>trex_matchnode\<close>, on the matcher of the nested nodes. A result is the place
  behind the match, \<open>None\<close> for a null pointer, inside the option of the model.
\<close>

type_synonym trex_matcher = "trex_node \<Rightarrow> int \<Rightarrow> trex_node option \<Rightarrow> int option option"

primrec trex_greedy ::
    "nat \<Rightarrow> trex_matcher \<Rightarrow> trex \<Rightarrow> string \<Rightarrow> trex_node \<Rightarrow> trex_node option \<Rightarrow> trex_node option
     \<Rightarrow> int \<Rightarrow> int \<Rightarrow> int \<Rightarrow> int option option" where
  "trex_greedy 0 m exp text nd greedystop nxt nmaches s good = None"
| "trex_greedy (Suc fuel) m exp text nd greedystop nxt nmaches s good =
     (let p0 = drop_bit 16 (nd_right nd) AND 0xFFFF; p1 = nd_right nd AND 0xFFFF in
      if \<not> (nmaches = 0xFFFF \<or> nmaches < p1) then Some (if greedy_done p0 p1 nmaches then Some good else None)
      else do {
        l \<leftarrow> rd (tx_nodes exp) (nd_left nd);
        r \<leftarrow> m l s greedystop;
        case r of
          None \<Rightarrow> Some (if greedy_done p0 p1 nmaches then Some good else None)
        | Some s \<Rightarrow> do {
            let nmaches = nmaches + 1;
            stop \<leftarrow>
              (case greedystop of
                 None \<Rightarrow> Some False
               | Some g \<Rightarrow>
                   if nd_type g \<noteq> OP_GREEDY \<or> drop_bit 16 (nd_right g) AND 0xFFFF \<noteq> 0 then do {
                     gnext \<leftarrow> (if nd_next g \<noteq> -1 then trex_link exp (nd_next g) None
                              else case nxt of None \<Rightarrow> Some None
                                | Some n \<Rightarrow> trex_link exp (nd_next n) None);
                     stop \<leftarrow> m g s gnext;
                     Some (stop \<noteq> None \<and> greedy_done p0 p1 nmaches) }
                   else Some False);
            if stop \<or> s \<ge> int (length text) then
              Some (if greedy_done p0 p1 nmaches then Some s else None)
            else trex_greedy fuel m exp text nd greedystop nxt nmaches s s } })"

primrec trex_branch :: "nat \<Rightarrow> trex_matcher \<Rightarrow> trex \<Rightarrow> trex_node \<Rightarrow> int \<Rightarrow> int option option" where
  "trex_branch 0 m exp nd str = None"
| "trex_branch (Suc fuel) m exp nd str = do {
     r \<leftarrow> m nd str None;
     case r of
       None \<Rightarrow> Some None
     | Some s \<Rightarrow>
         if nd_next nd = -1 then Some (Some s)
         else do {
           n \<leftarrow> rd (tx_nodes exp) (nd_next nd);
           trex_branch fuel m exp n s } }"

primrec trex_sequence ::
    "nat \<Rightarrow> trex_matcher \<Rightarrow> trex \<Rightarrow> trex_node \<Rightarrow> int \<Rightarrow> trex_node option \<Rightarrow> int option option" where
  "trex_sequence 0 m exp nd str nxt = None"
| "trex_sequence (Suc fuel) m exp nd str nxt = do {
     subnext \<leftarrow> trex_link exp (nd_next nd) nxt;
     r \<leftarrow> m nd str subnext;
     case r of
       None \<Rightarrow> Some None
     | Some s \<Rightarrow>
         if nd_next nd = -1 then Some (Some s)
         else do {
           n \<leftarrow> rd (tx_nodes exp) (nd_next nd);
           trex_sequence fuel m exp n s nxt } }"

text \<open>The fuel bounds the depth of the nodes and the turns of each loop.\<close>

primrec trex_matchnode :: "nat \<Rightarrow> trex \<Rightarrow> string \<Rightarrow> trex_matcher" where
  "trex_matchnode 0 exp text = (\<lambda>nd str nxt. None)"
| "trex_matchnode (Suc fuel) exp text = (\<lambda>nd str nxt.
     if nd_type nd = OP_GREEDY then do {
       greedystop \<leftarrow> trex_link exp (nd_next nd) nxt;
       trex_greedy fuel (trex_matchnode fuel exp text) exp text nd greedystop nxt 0 str str }
     else if nd_type nd = OP_OR then do {
       l \<leftarrow> rd (tx_nodes exp) (nd_left nd);
       asd \<leftarrow> trex_branch fuel (trex_matchnode fuel exp text) exp l str;
       case asd of
         Some s \<Rightarrow> Some (Some s)
       | None \<Rightarrow> do {
           r \<leftarrow> rd (tx_nodes exp) (nd_right nd);
           trex_branch fuel (trex_matchnode fuel exp text) exp r str } }
     else if nd_type nd = OP_EXPR \<or> nd_type nd = OP_NOCAPEXPR then do {
       n \<leftarrow> rd (tx_nodes exp) (nd_left nd);
       trex_sequence fuel (trex_matchnode fuel exp text) exp n str nxt }
     else if nd_type nd = OP_WB then do {
       b \<leftarrow> at_word_boundary text str;
       Some (if b = (nd_left nd = char_int (CHR ''b'')) then Some str else None) }
     else if nd_type nd = OP_BOL then Some (if str = 0 then Some str else None)
     else if nd_type nd = OP_EOL then Some (if str = int (length text) then Some str else None)
     else if nd_type nd = OP_DOT then Some (Some (str + 1))
     else do {
       c \<leftarrow> c_at text str;
       found \<leftarrow>
         (if nd_type nd = OP_NCLASS \<or> nd_type nd = OP_CLASS then do {
            l \<leftarrow> rd (tx_nodes exp) (nd_left nd);
            m \<leftarrow> trex_matchclass (length (tx_nodes exp)) exp l c;
            Some (m = (nd_type nd = OP_CLASS)) }
          else if nd_type nd = OP_CCLASS then Some (trex_matchcclass (nd_left nd) c)
          else Some (trex_same_char (tx_icase exp) (nd_type nd) c));
       Some (if found then Some (str + 1) else None) })"

definition trex_match :: "nat \<Rightarrow> trex \<Rightarrow> string \<Rightarrow> bool option" where
  "trex_match fuel exp text = do {
     nd \<leftarrow> rd (tx_nodes exp) 0;
     res \<leftarrow> trex_matchnode fuel exp text nd 0 None;
     Some (res = Some (int (length text))) }"

end
