(* ===== verification/Argtable_Patterns.thy ===== *)
theory Argtable_Patterns
  imports Argtable_Regex
begin

text \<open>
  The regular expressions the programs give to \<open>arg_rex\<close>: what their compiled forms match.
\<close>

subsection \<open>The languages\<close>

definition is_decimal :: "char \<Rightarrow> bool" where
  "is_decimal c \<longleftrightarrow> c_isdigit (char_int c)"

definition short_number :: "string \<Rightarrow> bool" where
  "short_number s \<longleftrightarrow> s \<noteq> [] \<and> length s \<le> 3 \<and> list_all is_decimal s"

definition address_text :: "string \<Rightarrow> bool" where
  "address_text s \<longleftrightarrow> short_number s \<or> (\<exists>a b. s = a @ ''.'' @ b \<and> short_number a \<and> short_number b)"

definition parity_text :: "string \<Rightarrow> bool" where
  "parity_text s \<longleftrightarrow> (\<exists>c \<in> set ''NEOneo''. s = [c])"

subsection \<open>The compiled patterns\<close>

definition ADDRESS_PATTERN :: string where
  "ADDRESS_PATTERN = ''^[0-9]{1,3}('' @ [CHR 0x5C] @ ''.[0-9]{1,3})?$''"

definition node :: "int \<Rightarrow> int \<Rightarrow> int \<Rightarrow> int \<Rightarrow> trex_node" where
  "node ty l r n = \<lparr>nd_type = ty, nd_left = l, nd_right = r, nd_next = n\<rparr>"

definition address_nodes :: "trex_node list" where
  "address_nodes = [node OP_EXPR 1 0 (-1), node OP_BOL (-1) (-1) 5,
     node OP_CLASS 4 (-1) (-1), node 48 (-1) (-1) (-1), node OP_RANGE 48 57 (-1), node OP_GREEDY 2 65539 12,
     node OP_EXPR 7 1 (-1), node 46 (-1) (-1) 11,
     node OP_CLASS 10 (-1) (-1), node 48 (-1) (-1) (-1), node OP_RANGE 48 57 (-1), node OP_GREEDY 8 65539 (-1),
     node OP_GREEDY 6 1 13, node OP_EOL (-1) (-1) (-1)]"

definition either_nodes :: "int \<Rightarrow> int \<Rightarrow> trex_node list" where
  "either_nodes x y = [node OP_EXPR 1 0 (-1), node OP_BOL (-1) (-1) 2, node OP_EXPR 4 1 6, node x (-1) (-1) (-1),
     node OP_OR 3 5 (-1), node y (-1) (-1) (-1), node OP_EOL (-1) (-1) (-1)]"

definition parity_nodes :: "trex_node list" where
  "parity_nodes = [node OP_EXPR 1 0 (-1), node OP_BOL (-1) (-1) 2, node OP_EXPR 4 1 8, node 78 (-1) (-1) (-1),
     node OP_OR 3 6 (-1), node 69 (-1) (-1) (-1), node OP_OR 5 7 (-1), node 79 (-1) (-1) (-1),
     node OP_EOL (-1) (-1) (-1)]"

definition word_nodes :: "int \<Rightarrow> int \<Rightarrow> int \<Rightarrow> trex_node list" where
  "word_nodes x y z = [node OP_EXPR 1 0 (-1), node x (-1) (-1) 2, node y (-1) (-1) 3, node z (-1) (-1) (-1)]"

definition compiled :: "string \<Rightarrow> bool \<Rightarrow> trex_node list \<Rightarrow> int \<Rightarrow> int \<Rightarrow> trex" where
  "compiled pattern icase nodes n k = \<lparr>tx_pattern = pattern, tx_p = int (length pattern), tx_nodes = nodes,
     tx_nallocated = n, tx_nsubexpr = k, tx_icase = icase\<rparr>"

lemma patterns_compiled:
  "trex_compile ADDRESS_PATTERN False = Some (Inr (compiled ADDRESS_PATTERN False address_nodes 27 2))"
  "trex_compile ''^(7|8)$'' False = Some (Inr (compiled ''^(7|8)$'' False (either_nodes 55 56) 7 2))"
  "trex_compile ''^(1|2)$'' False = Some (Inr (compiled ''^(1|2)$'' False (either_nodes 49 50) 7 2))"
  "trex_compile ''^(N|E|O)$'' True = Some (Inr (compiled ''^(N|E|O)$'' True parity_nodes 9 2))"
  "trex_compile ''rtu'' True = Some (Inr (compiled ''rtu'' True (word_nodes 114 116 117) 6 1))"
  "trex_compile ''tcp'' True = Some (Inr (compiled ''tcp'' True (word_nodes 116 99 112) 6 1))"
  by code_simp+

subsection \<open>What they match\<close>

lemma compiled_simps [simp]:
  "tx_nodes (compiled p ic nodes n k) = nodes" "tx_icase (compiled p ic nodes n k) = ic"
  by (simp_all add: compiled_def)

lemma node_simps [simp]:
  "nd_type (node ty l r n) = ty" "nd_left (node ty l r n) = l" "nd_right (node ty l r n) = r"
  "nd_next (node ty l r n) = n"
  by (simp_all add: node_def)

lemma fuel_Suc: "10 \<le> fuel \<Longrightarrow> \<exists>f. fuel = Suc (Suc (Suc (Suc (Suc (Suc (Suc (Suc (Suc (Suc f)))))))))"
  by (rule exI [of _ "fuel - 10"]) simp

lemma c_at_simps [simp]:
  "c_at [] 0 = Some 0" "c_at (c # cs) 0 = Some (char_int c)"
  "c_at (c # cs) 1 = c_at cs 0" "c_at (c # cs) 2 = c_at cs 1" "c_at (c # cs) 3 = c_at cs 2"
  by (simp_all add: c_at_def rd_def numeral_2_eq_2 numeral_3_eq_3)

lemma char_int_mod: "char_int c mod 256 = of_char c"
proof -
  have "(of_char c :: int) = int (of_char c)" "(of_char c :: nat) < 256" by (simp_all add: of_nat_of_char)
  then have "0 \<le> (of_char c :: int)" "(of_char c :: int) < 256" by linarith+
  then show ?thesis by (simp add: char_int_def Let_def)
qed

lemma char_int_eq [simp]: "char_int c = char_int d \<longleftrightarrow> c = d"
  by (metis char_int_mod of_char_eq_iff)

lemma either_match:
  assumes "10 \<le> fuel" "0 < x" "x < 128" "0 < y" "y < 128"
  shows "trex_match fuel (compiled p False (either_nodes x y) n k) text =
    Some (map char_int text = [x] \<or> map char_int text = [y])"
proof -
  obtain f where f: "fuel = Suc (Suc (Suc (Suc (Suc (Suc (Suc (Suc (Suc (Suc f)))))))))"
    using fuel_Suc [OF assms(1)] by blast
  consider "text = []" | c where "text = [c]" | c d cs where "text = c # d # cs"
    by (metis list.exhaust)
  then show ?thesis
    unfolding f
    by cases (use assms in \<open>auto simp: trex_match_def either_nodes_def rd_def trex_link_def trex_same_char_def\<close>)
qed

lemma word_match:
  assumes "10 \<le> fuel" "0 < x" "x < 128" "0 < y" "y < 128" "0 < z" "z < 128"
  shows "trex_match fuel (compiled p True (word_nodes x y z) n k) text =
    Some (\<exists>a b c. map char_int text = [a, b, c] \<and> trex_same_char True x a \<and> trex_same_char True y b \<and>
      trex_same_char True z c)"
proof -
  obtain f where f: "fuel = Suc (Suc (Suc (Suc (Suc (Suc (Suc (Suc (Suc (Suc f)))))))))"
    using fuel_Suc [OF assms(1)] by blast
  consider "text = []" | a where "text = [a]" | a b where "text = [a, b]" | a b c cs where "text = a # b # c # cs"
    by (metis list.exhaust)
  then show ?thesis
    unfolding f
    by cases (use assms in \<open>auto simp: trex_match_def word_nodes_def rd_def trex_link_def trex_same_char_def c_tolower_def c_toupper_def ctype_defs\<close>)
qed

lemma parity_match:
  assumes "10 \<le> fuel"
  shows "trex_match fuel (compiled p True parity_nodes n k) text =
    Some (\<exists>c. map char_int text = [c] \<and> c \<in> {78, 110, 69, 101, 79, 111})"
proof -
  obtain f where f: "fuel = Suc (Suc (Suc (Suc (Suc (Suc (Suc (Suc (Suc (Suc f)))))))))"
    using fuel_Suc [OF assms(1)] by blast
  consider "text = []" | c where "text = [c]" | c d cs where "text = c # d # cs"
    by (metis list.exhaust)
  then show ?thesis
    unfolding f
    by cases (auto simp: trex_match_def parity_nodes_def rd_def trex_link_def trex_same_char_def ctype_defs)
qed

text \<open>The address, from the inside out: digits, the group behind the dot, the whole.\<close>

definition digit_run :: "string \<Rightarrow> nat" where
  "digit_run s = min 3 (length (takeWhile is_decimal s))"

lemma digit_run_simps [simp]:
  "digit_run [] = 0"
  "digit_run (a # s) = (if is_decimal a then min 3 (Suc (digit_run s)) else 0)"
  by (auto simp: digit_run_def)

lemma c_at_end [simp]: "c_at text (int (length text)) = Some 0"
  by (simp add: c_at_def)

lemma c_at_append [simp]:
  "c_at (pre @ rest) (int (length pre)) = c_at rest 0"
  "0 \<le> j \<Longrightarrow> c_at (pre @ rest) (int (length pre) + j) = c_at rest j"
  "0 \<le> j \<Longrightarrow> c_at (pre @ rest) (j + int (length pre)) = c_at rest j"
  by (auto simp: c_at_def rd_append2)

declare trex_matchnode.simps [simp del] trex_greedy.simps [simp del]

lemma match_node:
  "trex_matchnode (Suc f) e text (node OP_GREEDY l r n) s nxt = do {
     greedystop \<leftarrow> trex_link e n nxt;
     trex_greedy f (trex_matchnode f e text) e text (node OP_GREEDY l r n) greedystop nxt 0 s s }"
  "trex_matchnode (Suc f) e text (node OP_EXPR l r n) s nxt = do {
     m \<leftarrow> rd (tx_nodes e) l;
     trex_sequence f (trex_matchnode f e text) e m s nxt }"
  "trex_matchnode (Suc f) e text (node OP_EOL l r n) s nxt = Some (if s = int (length text) then Some s else None)"
  "trex_matchnode (Suc f) e text (node OP_BOL l r n) s nxt = Some (if s = 0 then Some s else None)"
  "trex_matchnode (Suc f) e text (node 46 l r n) s nxt = do {
     c \<leftarrow> c_at text s;
     Some (if trex_same_char (tx_icase e) 46 c then Some (s + 1) else None) }"
  by (simp_all add: trex_matchnode.simps)

lemma address_rd:
  assumes "tx_nodes e = address_nodes"
  shows "rd (tx_nodes e) 0 = Some (node OP_EXPR 1 0 (-1))" "rd (tx_nodes e) 1 = Some (node OP_BOL (-1) (-1) 5)"
    "rd (tx_nodes e) 2 = Some (node OP_CLASS 4 (-1) (-1))" "rd (tx_nodes e) 4 = Some (node OP_RANGE 48 57 (-1))"
    "rd (tx_nodes e) 5 = Some (node OP_GREEDY 2 65539 12)" "rd (tx_nodes e) 6 = Some (node OP_EXPR 7 1 (-1))"
    "rd (tx_nodes e) 7 = Some (node 46 (-1) (-1) 11)" "rd (tx_nodes e) 8 = Some (node OP_CLASS 10 (-1) (-1))"
    "rd (tx_nodes e) 10 = Some (node OP_RANGE 48 57 (-1))" "rd (tx_nodes e) 11 = Some (node OP_GREEDY 8 65539 (-1))"
    "rd (tx_nodes e) 12 = Some (node OP_GREEDY 6 1 13)" "rd (tx_nodes e) 13 = Some (node OP_EOL (-1) (-1) (-1))"
    "length (tx_nodes e) = Suc 13"
  by (simp_all add: assms address_nodes_def rd_def)

lemma matchclass_range:
  "0 < n \<Longrightarrow> trex_matchclass n e (node OP_RANGE a b (-1)) c = Some (trex_in_range (tx_icase e) (node OP_RANGE a b (-1)) c)"
  by (cases n) auto

lemma class_step:
  assumes "tx_nodes e = address_nodes" "\<not> tx_icase e" "l = 4 \<or> l = 10" "c_at text s = Some c"
  shows "trex_matchnode (Suc f) e text (node OP_CLASS l (-1) (-1)) s nxt = Some (if c_isdigit c then Some (s + 1) else None)"
  using assms(2-4)
  by (auto simp: trex_matchnode.simps address_rd [OF assms(1)] matchclass_range trex_in_range_def c_isdigit_def)

definition digit_node :: "int \<Rightarrow> int \<Rightarrow> trex_node option \<Rightarrow> trex_node option \<Rightarrow> bool" where
  "digit_node l nx stop nxt \<longleftrightarrow> l = 2 \<and> nx = 12 \<and> stop = Some (node OP_GREEDY 6 1 13) \<or>
     l = 8 \<and> nx = -1 \<and> nxt = Some (node OP_EOL (-1) (-1) (-1)) \<and> stop = nxt"

lemma greedy_turn:
  assumes "tx_nodes e = address_nodes" "\<not> tx_icase e" "digit_node l nx stop nxt" "0 \<le> nm" "nm < 3"
    and "c_at text s = Some c" "s < int (length text) \<or> c = 0"
  shows "trex_greedy (Suc f) (trex_matchnode (Suc g) e text) e text (node OP_GREEDY l 65539 nx) stop nxt nm s good =
    (if \<not> c_isdigit c then Some (if 1 \<le> nm then Some good else None)
     else if s + 1 = int (length text) then Some (Some (s + 1))
     else trex_greedy f (trex_matchnode (Suc g) e text) e text (node OP_GREEDY l 65539 nx) stop nxt (nm + 1) (s + 1) (s + 1))"
proof -
  have l: "rd (tx_nodes e) l = Some (node OP_CLASS (l + 2) (-1) (-1))" "l + 2 = 4 \<or> l + 2 = 10"
    using assms(3) by (auto simp: digit_node_def address_rd [OF assms(1)])
  have bits: "drop_bit 16 (65539 :: int) AND 65535 = 1" "(65539 :: int) AND 65535 = 3"
      "drop_bit 16 (1 :: int) AND 65535 = 0" by simp_all
  note step = class_step [OF assms(1,2) l(2) assms(6)]
  show ?thesis
    using assms(3-5,7)
    by (auto simp: trex_greedy.simps step l(1) match_node bits digit_node_def greedy_done_def trex_link_def
        address_rd [OF assms(1)] c_isdigit_def)
qed

lemma greedy_full:
  "trex_greedy (Suc f) m e text (node OP_GREEDY l 65539 nx) stop nxt 3 s good = Some (Some good)"
  by (simp add: trex_greedy.simps greedy_done_def)

lemma digits_loop:
  assumes "tx_nodes e = address_nodes" "\<not> tx_icase e" "digit_node l nx stop nxt" "text = pre @ rest"
  shows "trex_greedy (Suc (Suc (Suc (Suc f)))) (trex_matchnode (Suc g) e text) e text (node OP_GREEDY l 65539 nx) stop nxt
      0 (int (length pre)) (int (length pre)) =
    Some (if digit_run rest = 0 then None else Some (int (length pre + digit_run rest)))"
proof -
  note turn = greedy_turn [OF assms(1-3)]
  have nul: "\<not> c_isdigit 0" by (simp add: c_isdigit_def)
  consider "rest = []" | a where "rest = [a]" | a b where "rest = [a, b]" | a b c cs where "rest = a # b # c # cs"
    by (metis list.exhaust)
  then show ?thesis
  proof cases
    case 1
    have c0: "c_at text (int (length pre)) = Some 0" by (simp add: assms(4) 1)
    show ?thesis using turn [OF _ _ c0, of 0] nul by (simp add: 1)
  next
    case 2
    have c0: "c_at text (int (length pre)) = Some (char_int a)" by (simp add: assms(4) 2)
    show ?thesis using turn [OF _ _ c0, of 0] by (simp add: assms(4) 2 is_decimal_def)
  next
    case 3
    have c0: "c_at text (int (length pre)) = Some (char_int a)" "c_at text (int (length pre) + 1) = Some (char_int b)"
      by (simp_all add: assms(4) 3)
    show ?thesis using turn [OF _ _ c0(1), of 0] turn [OF _ _ c0(2), of 1]
      by (simp add: assms(4) 3 is_decimal_def)
  next
    case 4
    have c0: "c_at text (int (length pre)) = Some (char_int a)" "c_at text (int (length pre) + 1) = Some (char_int b)"
        "c_at text (2 + int (length pre)) = Some (char_int c)"
      by (simp_all add: assms(4) 4)
    show ?thesis using turn [OF _ _ c0(1), of 0] turn [OF _ _ c0(2), of 1] turn [OF _ _ c0(3), of 2] greedy_full
      by (simp add: assms(4) 4 is_decimal_def)
  qed
qed

lemma digits_step:
  assumes "tx_nodes e = address_nodes" "\<not> tx_icase e" "text = pre @ rest"
    and "l = 2 \<and> nx = 12 \<or> l = 8 \<and> nx = -1 \<and> nxt = Some (node OP_EOL (-1) (-1) (-1))"
  shows "trex_matchnode (Suc (Suc (Suc (Suc (Suc f))))) e text (node OP_GREEDY l 65539 nx) (int (length pre)) nxt =
    Some (if digit_run rest = 0 then None else Some (int (length pre + digit_run rest)))"
proof -
  obtain stop where "digit_node l nx stop nxt" "trex_link e nx nxt = Some stop"
    using assms(4) by (auto simp: digit_node_def trex_link_def address_rd [OF assms(1)])
  then show ?thesis
    using digits_loop [OF assms(1,2) _ assms(3), of l nx stop nxt f "Suc (Suc (Suc f))"]
    by (simp add: match_node)
qed

definition group_end :: "string \<Rightarrow> nat" where
  "group_end rest = (case rest of c # s \<Rightarrow> if c = CHR ''.'' \<and> digit_run s \<noteq> 0 then Suc (digit_run s) else 0 | [] \<Rightarrow> 0)"

lemma char_dot: "char_int c = 46 \<longleftrightarrow> c = CHR ''.''"
  using char_int_eq [of c "CHR ''.''"] by (simp add: char_int_def)

lemma group_step:
  assumes "tx_nodes e = address_nodes" "\<not> tx_icase e" "text = pre @ rest"
  shows "trex_matchnode (Suc (Suc (Suc (Suc (Suc (Suc (Suc (Suc f)))))))) e text (node OP_EXPR 7 1 (-1)) (int (length pre))
      (Some (node OP_EOL (-1) (-1) (-1))) =
    Some (if group_end rest = 0 then None else Some (int (length pre + group_end rest)))"
proof (cases rest)
  case Nil
  then show ?thesis using assms(2,3)
    by (simp add: match_node trex_link_def address_rd [OF assms(1)] trex_same_char_def group_end_def)
next
  case (Cons c s)
  have "text = (pre @ [c]) @ s" using Cons assms(3) by simp
  then have digits: "trex_matchnode (Suc (Suc (Suc (Suc (Suc g))))) e text (node OP_GREEDY 8 65539 (-1))
      (int (length pre) + 1) (Some (node OP_EOL (-1) (-1) (-1))) =
    Some (if digit_run s = 0 then None else Some (int (length pre) + 1 + int (digit_run s)))" for g
    using digits_step [OF assms(1,2), where pre = "pre @ [c]" and rest = s and l = 8 and nx = "-1" and f = g
        and nxt = "Some (node OP_EOL (-1) (-1) (-1))"]
    by (simp add: add.commute)
  have "c_at text (int (length pre)) = Some (char_int c)" using Cons assms(3) by simp
  then show ?thesis using assms(2) digits Cons
    by (simp add: match_node(2,5) trex_link_def address_rd [OF assms(1)] trex_same_char_def group_end_def char_dot)
qed

lemma address_match:
  assumes "tx_nodes e = address_nodes" "\<not> tx_icase e" "14 \<le> fuel"
  shows "trex_match fuel e text = Some (digit_run text \<noteq> 0 \<and>
    digit_run text + group_end (drop (digit_run text) text) = length text)"
proof -
  obtain f where f: "fuel = Suc (Suc (Suc (Suc (Suc (Suc (Suc (Suc (Suc (Suc (Suc (Suc (Suc (Suc f)))))))))))))"
    using assms(3) by (intro that [of "fuel - 14"]) simp
  define d where "d = digit_run text"
  have d: "d \<le> length text" "3 \<ge> d"
    using length_takeWhile_le [of is_decimal "text"] by (simp_all add: d_def digit_run_def)
  have split: "text = take d text @ drop d text" "length (take d text) = d" using d by simp_all
  have digits: "trex_matchnode (Suc (Suc (Suc (Suc (Suc g))))) e text (node OP_GREEDY 2 65539 12) 0 nxt =
      Some (if d = 0 then None else Some (int d))" for g nxt
    using digits_step [OF assms(1,2), where pre = "[]" and rest = "text" and l = 2 and nx = 12] by (simp add: d_def)
  note grp = group_step [OF assms(1,2) split(1), unfolded split(2)]
  have opt: "trex_matchnode (Suc (Suc (Suc (Suc (Suc (Suc (Suc (Suc (Suc (Suc g)))))))))) e text (node OP_GREEDY 6 1 13) (int d)
        (Some (node OP_EOL (-1) (-1) (-1))) =
      Some (Some (int (d + group_end (drop d text))))" for g
    using grp by (simp add: match_node(1,3) trex_greedy.simps trex_link_def address_rd [OF assms(1)] greedy_done_def)
  show ?thesis
    unfolding f trex_match_def
    using digits opt by (auto simp: match_node(2-4) trex_link_def address_rd [OF assms(1)] d_def [symmetric])
qed

lemma digit_run_short: "list_all is_decimal a \<Longrightarrow> length a \<le> 3 \<Longrightarrow> digit_run (a @ s) = min 3 (length a + digit_run s)"
  by (induction a) (auto simp: digit_run_def)

lemma digit_run_prefix:
  "length (take (digit_run s) s) = digit_run s" "list_all is_decimal (take (digit_run s) s)" "digit_run s \<le> 3"
proof -
  show "length (take (digit_run s) s) = digit_run s" "digit_run s \<le> 3"
    using length_takeWhile_le [of is_decimal s] by (simp_all add: digit_run_def)
  have t: "takeWhile is_decimal s = take (length (takeWhile is_decimal s)) s" by (rule takeWhile_eq_take)
  have "take 3 (takeWhile is_decimal s) = take (digit_run s) s"
    by (subst t) (simp only: take_take digit_run_def)
  then show "list_all is_decimal (take (digit_run s) s)"
    by (metis (no_types, lifting) in_set_takeD list_all_iff set_takeWhileD)
qed

lemma not_decimal_dot: "\<not> is_decimal (CHR ''.'')"
  by (simp add: is_decimal_def c_isdigit_def char_int_def)

lemma address_text_iff:
  "address_text text \<longleftrightarrow> digit_run text \<noteq> 0 \<and> digit_run text + group_end (drop (digit_run text) text) = length text"
    (is "_ \<longleftrightarrow> ?R")
proof
  assume "address_text text"
  then consider "short_number text" | a b where "text = a @ ''.'' @ b" "short_number a" "short_number b"
    by (auto simp: address_text_def)
  then show ?R
  proof cases
    case 1
    then show ?thesis using digit_run_short [of "text" "[]"] by (auto simp: short_number_def group_end_def)
  next
    case 2
    have "digit_run text = length a" "digit_run b = length b"
      using 2 digit_run_short [of a "''.'' @ b"] digit_run_short [of b "[]"]
      by (simp_all add: short_number_def not_decimal_dot)
    then show ?thesis using 2 by (auto simp: short_number_def group_end_def)
  qed
next
  assume R: ?R
  let ?d = "digit_run text" and ?r = "drop (digit_run text) text"
  note d = digit_run_prefix [of "text"]
  have a: "short_number (take ?d text)" using d R unfolding short_number_def by (metis length_0_conv)
  show "address_text text"
  proof (cases "group_end ?r = 0")
    case True
    then show ?thesis using R a by (simp add: address_text_def)
  next
    case False
    then obtain s where s: "?r = CHR ''.'' # s" "digit_run s \<noteq> 0" "group_end ?r = Suc (digit_run s)"
      by (auto simp: group_end_def split: list.splits if_splits)
    have "length text = ?d + Suc (length s)" using s(1) d(1) by (metis append_take_drop_id length_Cons length_append)
    then have "digit_run s = length s" using R s(3) by simp
    then have "short_number s" using digit_run_prefix [of s] s(2) by (auto simp: short_number_def)
    then show ?thesis using a s(1) append_take_drop_id [of ?d "text"]
      unfolding address_text_def by (metis append_Cons append_Nil)
  qed
qed

lemma char_int_code:
  assumes "0 \<le> k" "k < 128"
  shows "char_int c = k \<longleftrightarrow> (of_char c :: nat) = nat k"
proof -
  have "char_int c = k \<longleftrightarrow> (of_char c :: int) = k"
    using assms char_int_mod [of c] pos_mod_bound [of 256 "char_int c"] unfolding char_int_def Let_def by auto
  moreover have "(of_char c :: int) = int (of_char c)" by (simp add: of_nat_of_char)
  ultimately show ?thesis using assms by auto
qed

lemma same_letter:
  assumes "97 \<le> x" "x \<le> 122"
  shows "trex_same_char True x (char_int c) \<longleftrightarrow> to_lower c = nat x"
  using assms
  by (auto simp: trex_same_char_def c_tolower_def c_toupper_def c_isupper_def c_islower_def char_int_code
      to_lower_def Let_def)

lemma map_char_int_single: "map char_int s = [char_int c] \<longleftrightarrow> s = [c]"
  by auto

lemma single_char:
  "map char_int s = [55] \<longleftrightarrow> s = ''7''" "map char_int s = [56] \<longleftrightarrow> s = ''8''"
  "map char_int s = [49] \<longleftrightarrow> s = ''1''" "map char_int s = [50] \<longleftrightarrow> s = ''2''"
  "map char_int s = [78] \<longleftrightarrow> s = ''N''" "map char_int s = [110] \<longleftrightarrow> s = ''n''"
  "map char_int s = [69] \<longleftrightarrow> s = ''E''" "map char_int s = [101] \<longleftrightarrow> s = ''e''"
  "map char_int s = [79] \<longleftrightarrow> s = ''O''" "map char_int s = [111] \<longleftrightarrow> s = ''o''"
  using map_char_int_single [of s "CHR ''7''"] map_char_int_single [of s "CHR ''8''"]
    map_char_int_single [of s "CHR ''1''"] map_char_int_single [of s "CHR ''2''"]
    map_char_int_single [of s "CHR ''N''"] map_char_int_single [of s "CHR ''n''"]
    map_char_int_single [of s "CHR ''E''"] map_char_int_single [of s "CHR ''e''"]
    map_char_int_single [of s "CHR ''O''"] map_char_int_single [of s "CHR ''o''"]
  by (simp_all add: char_int_def)

lemma parity_char: "(\<exists>c. map char_int s = [c] \<and> c \<in> {78, 110, 69, 101, 79, 111}) \<longleftrightarrow> parity_text s"
proof -
  have "(\<exists>c. map char_int s = [c] \<and> c \<in> {78, 110, 69, 101, 79, 111}) \<longleftrightarrow>
      map char_int s = [78] \<or> map char_int s = [110] \<or> map char_int s = [69] \<or> map char_int s = [101] \<or>
      map char_int s = [79] \<or> map char_int s = [111]"
    by auto
  then show ?thesis unfolding single_char parity_text_def by auto
qed

lemma word_letters:
  assumes "to_lower a = nat x" "to_lower b = nat y" "to_lower c = nat z"
    and "97 \<le> x" "x \<le> 122" "97 \<le> y" "y \<le> 122" "97 \<le> z" "z \<le> 122"
  shows "(\<exists>i j k. map char_int s = [i, j, k] \<and> trex_same_char True x i \<and> trex_same_char True y j \<and>
      trex_same_char True z k) \<longleftrightarrow> equals_ignore_case s [a, b, c]"
proof -
  consider "s = []" | p where "s = [p]" | p q where "s = [p, q]" | p q r where "s = [p, q, r]"
    | p q r t ts where "s = p # q # r # t # ts" by (metis list.exhaust)
  then show ?thesis using assms by cases (auto simp: same_letter)
qed

lemma patterns_match_run:
  assumes "14 \<le> fuel"
  shows "(\<exists>e. trex_compile ADDRESS_PATTERN False = Some (Inr e) \<and> trex_match fuel e text = Some (address_text text)) \<and>
    (\<exists>e. trex_compile ''^(7|8)$'' False = Some (Inr e) \<and> trex_match fuel e text = Some (text = ''7'' \<or> text = ''8'')) \<and>
    (\<exists>e. trex_compile ''^(1|2)$'' False = Some (Inr e) \<and> trex_match fuel e text = Some (text = ''1'' \<or> text = ''2'')) \<and>
    (\<exists>e. trex_compile ''^(N|E|O)$'' True = Some (Inr e) \<and> trex_match fuel e text = Some (parity_text text)) \<and>
    (\<exists>e. trex_compile ''rtu'' True = Some (Inr e) \<and> trex_match fuel e text = Some (equals_ignore_case text ''rtu'')) \<and>
    (\<exists>e. trex_compile ''tcp'' True = Some (Inr e) \<and> trex_match fuel e text = Some (equals_ignore_case text ''tcp''))"
proof -
  have fuel: "10 \<le> fuel" using assms by simp
  have rtu: "(\<exists>i j k. map char_int text = [i, j, k] \<and> trex_same_char True 114 i \<and> trex_same_char True 116 j \<and>
      trex_same_char True 117 k) \<longleftrightarrow> equals_ignore_case text ''rtu''"
    and tcp: "(\<exists>i j k. map char_int text = [i, j, k] \<and> trex_same_char True 116 i \<and> trex_same_char True 99 j \<and>
      trex_same_char True 112 k) \<longleftrightarrow> equals_ignore_case text ''tcp''"
    by (rule word_letters; simp add: to_lower_def)+
  show ?thesis
    using address_match [OF _ _ assms, of "compiled ADDRESS_PATTERN False address_nodes 27 2" "text"]
    by (simp del: insert_iff add: patterns_compiled either_match [OF fuel] word_match [OF fuel] parity_match [OF fuel]
        address_text_iff single_char rtu tcp parity_char)
qed

text \<open>C22: The regular expressions the programs check their arguments with accept exactly what they are
  meant to: the compiler of the patterns succeeds, and the matcher, with any fuel from 14 on,
  ends on every text and accepts an address or address range of one to three digits each, one of
  the two digits allowed, one letter for the parity, and the command, whatever its case.\<close>

theorem patterns_match:
  assumes "14 \<le> fuel"
  shows "(\<exists>e. trex_compile ADDRESS_PATTERN False = Some (Inr e) \<and> trex_match fuel e text = Some (address_text text)) \<and>
    (\<exists>e. trex_compile ''^(7|8)$'' False = Some (Inr e) \<and> trex_match fuel e text = Some (text = ''7'' \<or> text = ''8'')) \<and>
    (\<exists>e. trex_compile ''^(1|2)$'' False = Some (Inr e) \<and> trex_match fuel e text = Some (text = ''1'' \<or> text = ''2'')) \<and>
    (\<exists>e. trex_compile ''^(N|E|O)$'' True = Some (Inr e) \<and> trex_match fuel e text = Some (parity_text text)) \<and>
    (\<exists>e. trex_compile ''rtu'' True = Some (Inr e) \<and> trex_match fuel e text = Some (equals_ignore_case text ''rtu'')) \<and>
    (\<exists>e. trex_compile ''tcp'' True = Some (Inr e) \<and> trex_match fuel e text = Some (equals_ignore_case text ''tcp''))"
  using assms by (rule patterns_match_run)

theorem patterns_match_witness:
  "\<exists>e. trex_compile ADDRESS_PATTERN False = Some (Inr e) \<and> trex_match 65538 e ''1.247'' = Some True"
proof -
  have "short_number ''1''" "short_number ''247''"
    by (simp_all add: short_number_def is_decimal_def c_isdigit_def char_int_def)
  then have "address_text ''1.247''" unfolding address_text_def by force
  then show ?thesis using patterns_match [of 65538 "''1.247''"] by auto
qed

end
