(* ===== verification/Argtable_Scan.thy ===== *)
theory Argtable_Scan
  imports Argtable_Patterns
begin

text \<open>
  The entries of a table of \<open>argtable3/argtable3.c\<close>: flags, integers, strings and regular
  expressions, each with its reset, scan and check functions. The functions a header points to
  are chosen by the kind of the data, which the constructors fix.
\<close>

abbreviation (input) ARG_TERMINATOR :: u8 where "ARG_TERMINATOR \<equiv> 1"
abbreviation (input) ARG_HASVALUE :: u8 where "ARG_HASVALUE \<equiv> 2"
abbreviation (input) ARG_HASOPTVALUE :: u8 where "ARG_HASOPTVALUE \<equiv> 4"

abbreviation (input) ARG_ERR_MINCOUNT :: int where "ARG_ERR_MINCOUNT \<equiv> 1"
abbreviation (input) ARG_ERR_MAXCOUNT :: int where "ARG_ERR_MAXCOUNT \<equiv> 2"
abbreviation (input) ARG_ERR_BADINT :: int where "ARG_ERR_BADINT \<equiv> 3"
abbreviation (input) ARG_ERR_OVERFLOW :: int where "ARG_ERR_OVERFLOW \<equiv> 4"
abbreviation (input) ARG_ERR_REGNOMATCH :: int where "ARG_ERR_REGNOMATCH \<equiv> 7"

record arg_hdr =
  hdr_flag :: u8
  hdr_shortopts :: "string option"
  hdr_longopts :: "string option"
  hdr_mincount :: int
  hdr_maxcount :: int

text \<open>What follows \<open>count\<close> in \<open>struct arg_int\<close>, \<open>arg_str\<close> and \<open>arg_rex\<close> (with its \<open>privhdr\<close>).\<close>

datatype arg_data =
    Lit_data
  | Int_data "int list"
  | Str_data "string list"
  | Rex_data string bool "string list"

record arg = arg_hdr +
  arg_count :: int
  arg_data :: arg_data

text \<open>
  The constructors. \<open>ival\<close> is what \<open>xmalloc\<close> returned, so its contents are an argument; \<open>sval\<close> is
  filled with empty strings. \<open>arg_rexn\<close> returns a null pointer only without a pattern.
\<close>

definition arg_litn :: "string option \<Rightarrow> string option \<Rightarrow> int \<Rightarrow> int \<Rightarrow> arg" where
  "arg_litn shortopts longopts mincount maxcount =
     \<lparr>hdr_flag = 0, hdr_shortopts = shortopts, hdr_longopts = longopts, hdr_mincount = mincount,
      hdr_maxcount = (if maxcount < mincount then mincount else maxcount), arg_count = 0, arg_data = Lit_data\<rparr>"

definition arg_intn :: "(nat \<Rightarrow> int) \<Rightarrow> string option \<Rightarrow> string option \<Rightarrow> int \<Rightarrow> int \<Rightarrow> arg" where
  "arg_intn memory shortopts longopts mincount maxcount =
     (let maxcount = (if maxcount < mincount then mincount else maxcount) in
      \<lparr>hdr_flag = ARG_HASVALUE, hdr_shortopts = shortopts, hdr_longopts = longopts, hdr_mincount = mincount,
       hdr_maxcount = maxcount, arg_count = 0, arg_data = Int_data (map memory [0..<nat maxcount])\<rparr>)"

definition arg_strn :: "string option \<Rightarrow> string option \<Rightarrow> int \<Rightarrow> int \<Rightarrow> arg" where
  "arg_strn shortopts longopts mincount maxcount =
     (let maxcount = (if maxcount < mincount then mincount else maxcount) in
      \<lparr>hdr_flag = ARG_HASVALUE, hdr_shortopts = shortopts, hdr_longopts = longopts, hdr_mincount = mincount,
       hdr_maxcount = maxcount, arg_count = 0, arg_data = Str_data (replicate (nat maxcount) [])\<rparr>)"

definition arg_rexn :: "string option \<Rightarrow> string option \<Rightarrow> string \<Rightarrow> int \<Rightarrow> int \<Rightarrow> bool \<Rightarrow> arg" where
  "arg_rexn shortopts longopts pattern mincount maxcount icase =
     (let maxcount = (if maxcount < mincount then mincount else maxcount) in
      \<lparr>hdr_flag = ARG_HASVALUE, hdr_shortopts = shortopts, hdr_longopts = longopts, hdr_mincount = mincount,
       hdr_maxcount = maxcount, arg_count = 0,
       arg_data = Rex_data pattern icase (replicate (nat maxcount) [])\<rparr>)"

subsection \<open>Integers\<close>

text \<open>\<open>s * val\<close> overflows \<open>long\<close> when \<open>val\<close> is \<open>LONG_MIN\<close>, as in \<open>-0x-8000000000000000\<close>.\<close>

definition strtol0X :: "string \<Rightarrow> char \<Rightarrow> int \<Rightarrow> (int \<times> string) option" where
  "strtol0X str X base =
     (let (neg, ptr) = skip_sign (dropWhile is_space str) in
      if at ptr 0 \<noteq> CHR ''0'' then Some (0, str)
      else if to_upper (at ptr 1) \<noteq> to_upper X then Some (0, str)
      else
        let ptr = drop 2 ptr; (val, erange, endptr) = strtol ptr base in
        if endptr = ptr then Some (0, str)
        else if neg \<and> val = LONG_MIN then None
        else Some (if neg then - val else val, endptr))"

fun detectsuffix :: "string \<Rightarrow> string \<Rightarrow> bool" where
  "detectsuffix [] [] = True"
| "detectsuffix [] (c # suffix) = False"
| "detectsuffix (c # str) [] = (dropWhile is_space (c # str) = [])"
| "detectsuffix (c # str) (d # suffix) =
     (if to_upper c = to_upper d then detectsuffix str suffix else False)"

text \<open>Hexadecimal, octal, binary, decimal, in this order; \<open>Some None\<close> when none of them fits.\<close>

definition arg_int_number :: "string \<Rightarrow> (int \<times> string) option option" where
  "arg_int_number argval = do {
     (val, endptr) \<leftarrow> strtol0X argval (CHR ''X'') 16;
     if endptr \<noteq> argval then Some (Some (val, endptr))
     else do {
       (val, endptr) \<leftarrow> strtol0X argval (CHR ''O'') 8;
       if endptr \<noteq> argval then Some (Some (val, endptr))
       else do {
         (val, endptr) \<leftarrow> strtol0X argval (CHR ''B'') 2;
         if endptr \<noteq> argval then Some (Some (val, endptr))
         else (case strtol argval 10 of (val, erange, endptr) \<Rightarrow>
           Some (if endptr \<noteq> argval then Some (val, endptr) else None)) } } }"

definition scale_int :: "int \<Rightarrow> int \<Rightarrow> int \<Rightarrow> int \<times> int" where
  "scale_int factor errorcode val =
     (if val > INT_MAX sdiv factor \<or> val < INT_MIN sdiv factor then (ARG_ERR_OVERFLOW, val)
      else (errorcode, val * factor))"

definition arg_int_suffix :: "int \<Rightarrow> string \<Rightarrow> int \<times> int" where
  "arg_int_suffix val endptr =
     (let errorcode = (if val > INT_MAX \<or> val < INT_MIN then ARG_ERR_OVERFLOW else 0) in
      if detectsuffix endptr ''KB'' then scale_int 1024 errorcode val
      else if detectsuffix endptr ''MB'' then scale_int 1048576 errorcode val
      else if detectsuffix endptr ''GB'' then scale_int 1073741824 errorcode val
      else if \<not> detectsuffix endptr [] then (ARG_ERR_BADINT, val)
      else (errorcode, val))"

definition arg_int_scanfn :: "int list \<Rightarrow> arg \<Rightarrow> string option \<Rightarrow> (int \<times> arg) option" where
  "arg_int_scanfn ival parent argval =
     (if arg_count parent = hdr_maxcount parent then Some (ARG_ERR_MAXCOUNT, parent)
      else case argval of
        None \<Rightarrow> Some (0, parent\<lparr>arg_count := arg_count parent + 1\<rparr>)
      | Some text \<Rightarrow> do {
          number \<leftarrow> arg_int_number text;
          case number of
            None \<Rightarrow> Some (ARG_ERR_BADINT, parent)
          | Some (val, endptr) \<Rightarrow>
              (let (errorcode, val) = arg_int_suffix val endptr in
               if errorcode = 0 then do {
                 ival \<leftarrow> wr ival (arg_count parent) val;
                 Some (0, parent\<lparr>arg_data := Int_data ival, arg_count := arg_count parent + 1\<rparr>) }
               else Some (errorcode, parent)) })"

subsection \<open>Flags, strings and regular expressions\<close>

definition arg_lit_scanfn :: "arg \<Rightarrow> int \<times> arg" where
  "arg_lit_scanfn parent =
     (if arg_count parent < hdr_maxcount parent
      then (0, parent\<lparr>arg_count := arg_count parent + 1\<rparr>) else (ARG_ERR_MAXCOUNT, parent))"

definition arg_str_scanfn :: "string list \<Rightarrow> arg \<Rightarrow> string option \<Rightarrow> (int \<times> arg) option" where
  "arg_str_scanfn sval parent argval =
     (if arg_count parent = hdr_maxcount parent then Some (ARG_ERR_MAXCOUNT, parent)
      else case argval of
        None \<Rightarrow> Some (0, parent\<lparr>arg_count := arg_count parent + 1\<rparr>)
      | Some text \<Rightarrow> do {
          sval \<leftarrow> wr sval (arg_count parent) text;
          Some (0, parent\<lparr>arg_data := Str_data sval, arg_count := arg_count parent + 1\<rparr>) })"

text \<open>
  A null expression from \<open>trex_compile\<close> would be dereferenced. A repetition makes at most 65537
  turns, and the nesting of the nodes is no deeper than their number.
\<close>

definition arg_rex_scanfn ::
    "string \<Rightarrow> bool \<Rightarrow> string list \<Rightarrow> arg \<Rightarrow> string option \<Rightarrow> (int \<times> arg) option" where
  "arg_rex_scanfn pattern icase sval parent argval =
     (if arg_count parent = hdr_maxcount parent then Some (ARG_ERR_MAXCOUNT, parent)
      else case argval of
        None \<Rightarrow> Some (0, parent\<lparr>arg_count := arg_count parent + 1\<rparr>)
      | Some text \<Rightarrow> do {
          rex \<leftarrow> trex_compile pattern icase;
          case rex of
            Inl e \<Rightarrow> None
          | Inr exp \<Rightarrow> do {
              is_match \<leftarrow> trex_match (65538 + length (tx_nodes exp)) exp text;
              if \<not> is_match then Some (ARG_ERR_REGNOMATCH, parent)
              else do {
                sval \<leftarrow> wr sval (arg_count parent) text;
                Some (0, parent\<lparr>arg_data := Rex_data pattern icase sval, arg_count := arg_count parent + 1\<rparr>) } } })"

text \<open>The calls through the header; all check functions compare the count with \<open>mincount\<close>.\<close>

definition arg_scanfn :: "arg \<Rightarrow> string option \<Rightarrow> (int \<times> arg) option" where
  "arg_scanfn parent argval =
     (case arg_data parent of
        Lit_data \<Rightarrow> Some (arg_lit_scanfn parent)
      | Int_data ival \<Rightarrow> arg_int_scanfn ival parent argval
      | Str_data sval \<Rightarrow> arg_str_scanfn sval parent argval
      | Rex_data pattern icase sval \<Rightarrow> arg_rex_scanfn pattern icase sval parent argval)"

definition arg_checkfn :: "arg \<Rightarrow> int" where
  "arg_checkfn parent = (if arg_count parent < hdr_mincount parent then ARG_ERR_MINCOUNT else 0)"

text \<open>\<open>arg_str_resetfn\<close> also empties the strings counted.\<close>

definition arg_resetfn :: "arg \<Rightarrow> arg option" where
  "arg_resetfn parent =
     (case arg_data parent of
        Str_data sval \<Rightarrow> do {
          sval \<leftarrow> for_loop (nat (arg_count parent)) 0 (\<lambda>i sval. wr sval i []) sval;
          Some (parent\<lparr>arg_data := Str_data sval, arg_count := 0\<rparr>) }
      | _ \<Rightarrow> Some (parent\<lparr>arg_count := 0\<rparr>))"

end
