(* ===== verification/Argtable_Getopt.thy ===== *)
theory Argtable_Getopt
  imports Argtable_Regex
begin

text \<open>
  The \<open>getopt_long\<close> that \<open>argtable3/argtable3.c\<close> brings along (\<open>ARG_REPLACE_GETOPT\<close> is 1 unless the
  build says otherwise): the exchange of two blocks of arguments, the long options, and the scan.
  Its static and global variables are a record. \<open>nargv\<close> has one element more than there are
  arguments, the null pointer. Nothing is printed, as \<open>argtable3\<close> clears \<open>opterr\<close>.
\<close>

record getopt_option =
  opt_name :: string
  opt_has_arg :: int
  opt_flag :: bool
  opt_val :: int

text \<open>\<open>place\<close> points into a string, \<open>gs_offset\<close> characters from its start; \<open>gs_flag\<close> is what the flags
  of the long options point to.\<close>

record getopt_state =
  gs_nargv :: "string option list"
  gs_optind :: int
  gs_optopt :: int
  gs_optarg :: "string option"
  gs_optreset :: bool
  gs_place :: string
  gs_offset :: nat
  gs_nonopt_start :: int
  gs_nonopt_end :: int
  gs_flag :: int

subsection \<open>Exchanging two blocks\<close>

partial_function (option) c_gcd :: "int \<Rightarrow> int \<Rightarrow> int option" where
  "c_gcd a b =
     (if b = 0 then None
      else let c = a smod b in if c = 0 then Some b else c_gcd b c)"

declare c_gcd.simps [code]

definition permute_cycle :: "int \<Rightarrow> int \<Rightarrow> int \<Rightarrow> int \<Rightarrow> int \<Rightarrow> 'a list \<Rightarrow> 'a list option" where
  "permute_cycle panonopt_end nnonopts nopts cyclelen i nargv = (let cstart = panonopt_end + i in
     map_option snd (for_loop (nat cyclelen) 0 (\<lambda>j (pos, nargv).
       let pos = (if pos \<ge> panonopt_end then pos - nnonopts else pos + nopts) in do {
         swap \<leftarrow> rd nargv pos;
         c \<leftarrow> rd nargv cstart;
         nargv \<leftarrow> wr nargv pos c;
         nargv \<leftarrow> wr nargv cstart swap;
         Some (pos, nargv) }) (cstart, nargv)))"

definition permute_args :: "int \<Rightarrow> int \<Rightarrow> int \<Rightarrow> 'a list \<Rightarrow> 'a list option" where
  "permute_args panonopt_start panonopt_end opt_end nargv = do {
     let nnonopts = panonopt_end - panonopt_start;
     let nopts = opt_end - panonopt_end;
     ncycle \<leftarrow> c_gcd nnonopts nopts;
     let cyclelen = (opt_end - panonopt_start) sdiv ncycle;
     for_loop (nat ncycle) 0 (permute_cycle panonopt_end nnonopts nopts cyclelen) nargv }"

subsection \<open>Long options\<close>

abbreviation (input) no_argument :: int where "no_argument \<equiv> 0"
abbreviation (input) required_argument :: int where "required_argument \<equiv> 1"
abbreviation (input) optional_argument :: int where "optional_argument \<equiv> 2"

text \<open>
  The loop that looks for the name: \<open>m\<close> is the first partial match, with its index, \<open>second\<close> says
  that another one differs from it. The result adds whether the match is exact.
\<close>

fun match_long_options ::
    "string \<Rightarrow> bool \<Rightarrow> bool \<Rightarrow> getopt_option list \<Rightarrow> int \<Rightarrow> (int \<times> getopt_option) option \<Rightarrow> bool
     \<Rightarrow> (int \<times> getopt_option) option \<times> bool \<times> bool" where
  "match_long_options name short_too long_only [] i m second = (m, False, second)"
| "match_long_options name short_too long_only (p # ps) i m second =
     (if take (length name) (opt_name p) \<noteq> name then match_long_options name short_too long_only ps (i + 1) m second
      else if length (opt_name p) = length name then (Some (i, p), True, second)
      else if short_too \<and> length name = 1 then match_long_options name short_too long_only ps (i + 1) m second
      else case m of
        None \<Rightarrow> match_long_options name short_too long_only ps (i + 1) (Some (i, p)) second
      | Some (_, q) \<Rightarrow> match_long_options name short_too long_only ps (i + 1) m
          (second \<or> long_only \<or> opt_has_arg p \<noteq> opt_has_arg q \<or> opt_flag p \<noteq> opt_flag q \<or> opt_val p \<noteq> opt_val q))"

abbreviation (input) BADCH :: int where "BADCH \<equiv> 63"

definition BADARG :: "string \<Rightarrow> int" where
  "BADARG options = (if at options 0 = CHR '':'' then 58 else BADCH)"

definition parse_long_options ::
    "string \<Rightarrow> getopt_option list \<Rightarrow> bool \<Rightarrow> bool \<Rightarrow> getopt_state \<Rightarrow> (int \<times> getopt_state) option" where
  "parse_long_options options long_options short_too long_only st =
     (let current_argv = drop (gs_offset st) (gs_place st);
          name = takeWhile (\<lambda>c. c \<noteq> CHR ''='') current_argv;
          has_equal = (if name = current_argv then None else Some (drop (Suc (length name)) current_argv));
          st = st\<lparr>gs_optind := gs_optind st + 1\<rparr>;
          (m, exact_match, second_partial_match) =
            match_long_options name short_too long_only long_options 0 None False in
      if \<not> exact_match \<and> second_partial_match then Some (BADCH, st\<lparr>gs_optopt := 0\<rparr>)
      else case m of
        None \<Rightarrow>
          if short_too then Some (-1, st\<lparr>gs_optind := gs_optind st - 1\<rparr>)
          else Some (BADCH, st\<lparr>gs_optopt := 0\<rparr>)
      | Some (i, p) \<Rightarrow>
          if opt_has_arg p = no_argument \<and> has_equal \<noteq> None then
            Some (BADCH, st\<lparr>gs_optopt := (if \<not> opt_flag p then opt_val p else 0)\<rparr>)
          else do {
            st \<leftarrow>
              (if opt_has_arg p = required_argument \<or> opt_has_arg p = optional_argument then
                 (if has_equal \<noteq> None then Some (st\<lparr>gs_optarg := has_equal\<rparr>)
                  else if opt_has_arg p = required_argument then do {
                    word \<leftarrow> rd (gs_nargv st) (gs_optind st);
                    Some (st\<lparr>gs_optarg := word, gs_optind := gs_optind st + 1\<rparr>) }
                  else Some st)
               else Some st);
            if opt_has_arg p = required_argument \<and> gs_optarg st = None then
              Some (BADARG options, st\<lparr>gs_optopt := (if \<not> opt_flag p then opt_val p else 0),
                gs_optind := gs_optind st - 1\<rparr>)
            else if opt_flag p then Some (0, st\<lparr>gs_flag := opt_val p\<rparr>)
            else Some (opt_val p, st) })"

subsection \<open>The scan\<close>

text \<open>The end of the options: the arguments skipped go behind them.\<close>

definition getopt_finish :: "getopt_state \<Rightarrow> getopt_state option" where
  "getopt_finish st =
     (if gs_nonopt_end st \<noteq> -1 then do {
        nargv \<leftarrow> permute_args (gs_nonopt_start st) (gs_nonopt_end st) (gs_optind st) (gs_nargv st);
        Some (st\<lparr>gs_nargv := nargv, gs_optind := gs_optind st - (gs_nonopt_end st - gs_nonopt_start st),
                 gs_nonopt_start := -1, gs_nonopt_end := -1\<rparr>) }
      else Some (st\<lparr>gs_nonopt_start := -1, gs_nonopt_end := -1\<rparr>))"

text \<open>An argument that is no option is skipped for now.\<close>

definition getopt_skip :: "getopt_state \<Rightarrow> getopt_state option" where
  "getopt_skip st = do {
     st \<leftarrow>
       (if gs_nonopt_start st = -1 then Some (st\<lparr>gs_nonopt_start := gs_optind st\<rparr>)
        else if gs_nonopt_end st \<noteq> -1 then do {
          nargv \<leftarrow> permute_args (gs_nonopt_start st) (gs_nonopt_end st) (gs_optind st) (gs_nargv st);
          Some (st\<lparr>gs_nargv := nargv,
            gs_nonopt_start := gs_optind st - (gs_nonopt_end st - gs_nonopt_start st), gs_nonopt_end := -1\<rparr>) }
        else Some st);
     Some (st\<lparr>gs_optind := gs_optind st + 1\<rparr>) }"

text \<open>
  From the label \<open>start\<close> to an option: \<open>Inl\<close> a value to return, or \<open>Inr\<close> with \<open>place\<close> at the option.
  \<open>place[1]\<close> is not NUL where \<open>place\<close> is advanced.
\<close>

partial_function (option) getopt_next ::
    "int \<Rightarrow> bool \<Rightarrow> bool \<Rightarrow> getopt_state \<Rightarrow> ((int \<times> getopt_state) + getopt_state) option" where
  "getopt_next nargc permute allargs st =
     (if \<not> (gs_optreset st \<or> at (gs_place st) (gs_offset st) = NUL) then Some (Inr st)
      else
        let st = st\<lparr>gs_optreset := False\<rparr> in
        if gs_optind st \<ge> nargc then
          (let st = st\<lparr>gs_place := [], gs_offset := 0\<rparr> in
           if gs_nonopt_end st \<noteq> -1 then map_option (\<lambda>st. Inl (-1, st)) (getopt_finish st)
           else if gs_nonopt_start st \<noteq> -1 then
             Some (Inl (-1, st\<lparr>gs_optind := gs_nonopt_start st, gs_nonopt_start := -1, gs_nonopt_end := -1\<rparr>))
           else Some (Inl (-1, st\<lparr>gs_nonopt_start := -1, gs_nonopt_end := -1\<rparr>)))
        else do {
          word \<leftarrow> rd (gs_nargv st) (gs_optind st);
          s \<leftarrow> word;
          if at s 0 \<noteq> CHR ''-'' \<or> at s 1 = NUL then
            (let st = st\<lparr>gs_place := [], gs_offset := 0\<rparr> in
             if allargs then Some (Inl (1, st\<lparr>gs_optarg := Some s, gs_optind := gs_optind st + 1\<rparr>))
             else if \<not> permute then Some (Inl (-1, st))
             else do {
               st \<leftarrow> getopt_skip st;
               getopt_next nargc permute allargs st })
          else
            let st = (if gs_nonopt_start st \<noteq> -1 \<and> gs_nonopt_end st = -1
                      then st\<lparr>gs_nonopt_end := gs_optind st\<rparr> else st);
                st = st\<lparr>gs_place := s, gs_offset := 1\<rparr> in
            if at s 1 = CHR ''-'' \<and> at s 2 = NUL then
              map_option (\<lambda>st. Inl (-1, st))
                (getopt_finish (st\<lparr>gs_optind := gs_optind st + 1, gs_place := [], gs_offset := 0\<rparr>))
            else Some (Inr st) })"

declare getopt_next.simps [code]

text \<open>The short options. \<open>oli\<close> is the rest of the option string from the letter on.\<close>

definition getopt_short ::
    "int \<Rightarrow> string \<Rightarrow> getopt_option list \<Rightarrow> bool \<Rightarrow> getopt_state \<Rightarrow> (int \<times> getopt_state) option" where
  "getopt_short nargc options long_options long_only st =
     (let optchar = at (gs_place st) (gs_offset st);
          st = st\<lparr>gs_offset := gs_offset st + 1\<rparr>;
          more_chars = (at (gs_place st) (gs_offset st) \<noteq> NUL);
          oli = dropWhile (\<lambda>c. c \<noteq> optchar) options in
      if optchar = CHR '':'' \<or> (optchar = CHR ''-'' \<and> more_chars) \<or> oli = [] then
        (if optchar = CHR ''-'' \<and> \<not> more_chars then Some (-1, st)
         else Some (BADCH, st\<lparr>gs_optind := (if more_chars then gs_optind st else gs_optind st + 1),
           gs_optopt := char_int optchar\<rparr>))
      else if optchar = CHR ''W'' \<and> at oli 1 = CHR '';'' then do {
        let st = (if more_chars then st else st\<lparr>gs_optind := gs_optind st + 1\<rparr>);
        if \<not> more_chars \<and> gs_optind st \<ge> nargc then
          Some (BADARG options, st\<lparr>gs_place := [], gs_offset := 0, gs_optopt := char_int optchar\<rparr>)
        else do {
          st \<leftarrow> (if more_chars then Some st
                else do {
                  word \<leftarrow> rd (gs_nargv st) (gs_optind st);
                  s \<leftarrow> word;
                  Some (st\<lparr>gs_place := s, gs_offset := 0\<rparr>) });
          (r, st) \<leftarrow> parse_long_options options long_options False long_only st;
          Some (r, st\<lparr>gs_place := [], gs_offset := 0\<rparr>) } }
      else if at oli 1 \<noteq> CHR '':'' then
        Some (char_int optchar, st\<lparr>gs_optind := (if more_chars then gs_optind st else gs_optind st + 1)\<rparr>)
      else
        let st = st\<lparr>gs_optarg := None\<rparr> in
        if more_chars then
          Some (char_int optchar, st\<lparr>gs_optarg := Some (drop (gs_offset st) (gs_place st)), gs_place := [],
            gs_offset := 0, gs_optind := gs_optind st + 1\<rparr>)
        else if at oli 2 \<noteq> CHR '':'' then
          (let st = st\<lparr>gs_optind := gs_optind st + 1\<rparr> in
           if gs_optind st \<ge> nargc then
             Some (BADARG options, st\<lparr>gs_place := [], gs_offset := 0, gs_optopt := char_int optchar\<rparr>)
           else do {
             word \<leftarrow> rd (gs_nargv st) (gs_optind st);
             Some (char_int optchar, st\<lparr>gs_optarg := word, gs_place := [], gs_offset := 0,
               gs_optind := gs_optind st + 1\<rparr>) })
        else Some (char_int optchar, st\<lparr>gs_place := [], gs_offset := 0, gs_optind := gs_optind st + 1\<rparr>))"

text \<open>From the check for long options on.\<close>

definition getopt_rest ::
    "int \<Rightarrow> string \<Rightarrow> getopt_option list \<Rightarrow> bool \<Rightarrow> getopt_state \<Rightarrow> (int \<times> getopt_state) option" where
  "getopt_rest nargc options long_options long_only st =
     (let dash = (at (gs_place st) (gs_offset st) = CHR ''-'') in
      if gs_offset st \<noteq> 0 \<and> (dash \<or> long_only) then
        (let st = (if dash then st\<lparr>gs_offset := gs_offset st + 1\<rparr> else st);
             c = at (gs_place st) (gs_offset st);
             short_too = (\<not> dash \<and> c \<noteq> CHR '':'' \<and> c \<in> set options) in
         if dash \<and> c = NUL then Some (BADARG options, st)
         else do {
           (optchar, st) \<leftarrow> parse_long_options options long_options short_too long_only st;
           if optchar \<noteq> -1 then Some (optchar, st\<lparr>gs_place := [], gs_offset := 0\<rparr>)
           else getopt_short nargc options long_options long_only st })
      else getopt_short nargc options long_options long_only st)"

definition getopt_internal ::
    "bool \<Rightarrow> int \<Rightarrow> string \<Rightarrow> getopt_option list \<Rightarrow> bool \<Rightarrow> bool \<Rightarrow> getopt_state \<Rightarrow> (int \<times> getopt_state) option" where
  "getopt_internal posixly_correct nargc options long_options permute long_only st = do {
     let st = (if gs_optind st = 0 then st\<lparr>gs_optind := 1, gs_optreset := True\<rparr> else st);
     let allargs = (at options 0 = CHR ''-'');
     let permute = (permute \<and> (allargs \<or> \<not> (posixly_correct \<or> at options 0 = CHR ''+'')));
     let options = (if at options 0 = CHR ''+'' \<or> at options 0 = CHR ''-'' then tl options else options);
     let st = st\<lparr>gs_optarg := None\<rparr>;
     let st = (if gs_optreset st then st\<lparr>gs_nonopt_start := -1, gs_nonopt_end := -1\<rparr> else st);
     r \<leftarrow> getopt_next nargc permute allargs st;
     case r of
       Inl x \<Rightarrow> Some x
     | Inr st \<Rightarrow> getopt_rest nargc options long_options long_only st }"

definition getopt_long ::
    "bool \<Rightarrow> int \<Rightarrow> string \<Rightarrow> getopt_option list \<Rightarrow> getopt_state \<Rightarrow> (int \<times> getopt_state) option" where
  "getopt_long posixly_correct nargc options long_options st =
     getopt_internal posixly_correct nargc options long_options True False st"

end
