(* ===== verification/Argtable_Permute.thy ===== *)
theory Argtable_Permute
  imports Argtable_Getopt
begin

text \<open>
  \<open>permute_args\<close> exchanges two neighbouring blocks, each in its order, by following the cycles of
  the rotation. Nothing here models code.
\<close>

subsection \<open>The greatest common divisor\<close>

lemma smod_nonneg: "0 \<le> a \<Longrightarrow> 0 < b \<Longrightarrow> a smod b = a mod (b :: int)"
  by (cases "a = 0") (simp_all add: signed_modulo_int_def)

lemma sdiv_nonneg: "0 \<le> a \<Longrightarrow> 0 < b \<Longrightarrow> a sdiv b = a div (b :: int)"
  by (cases "a = 0") (simp_all add: signed_divide_int_def)

lemma c_gcd_run: "0 \<le> a \<Longrightarrow> 0 < b \<Longrightarrow> c_gcd a b = Some (gcd a b)"
proof (induction "nat b" arbitrary: a b rule: less_induct)
  case less
  have c: "a smod b = a mod b" "0 \<le> a mod b" "a mod b < b"
    using less(2,3) by (simp_all add: smod_nonneg)
  show ?case
  proof (cases "a mod b = 0")
    case True
    then show ?thesis using less(3) c(1) by (simp add: c_gcd.simps [of a b] Let_def gcd_proj2_if_dvd dvd_eq_mod_eq_0)
  next
    case False
    then have "c_gcd b (a mod b) = Some (gcd b (a mod b))"
      using less(1) [of "a mod b" b] less(2,3) c(2,3) by simp
    moreover have "gcd b (a mod b) = gcd a b" by (metis gcd.commute gcd_red_int)
    ultimately show ?thesis using False less(3) c(1) by (simp add: c_gcd.simps [of a b] Let_def)
  qed
qed

subsection \<open>The places of a cycle\<close>

definition turn :: "nat \<Rightarrow> nat \<Rightarrow> nat \<Rightarrow> nat \<Rightarrow> nat" where
  "turn n k c t = (c + t * k) mod n"

lemma turn_0 [simp]: "c < n \<Longrightarrow> turn n k c 0 = c"
  by (simp add: turn_def)

lemma turn_less [simp]: "c < n \<Longrightarrow> turn n k c t < n"
  by (simp add: turn_def)

lemma turn_Suc: "turn n k c (Suc t) = (turn n k c t + k) mod n"
  by (simp add: turn_def mod_simps algebra_simps)

lemma turn_step:
  fixes m k :: nat
  shows "p < m + k \<Longrightarrow> (p + k) mod (m + k) = (if m \<le> p then p - m else p + k)"
proof (cases "m \<le> p")
  case True
  assume "p < m + k"
  have "(p + k) mod (m + k) = ((p - m) + (m + k)) mod (m + k)" using True by simp
  also have "\<dots> = (p - m) mod (m + k)" by (rule mod_add_self2)
  finally show ?thesis using True \<open>p < m + k\<close> by simp
qed simp

lemma turn_back:
  fixes m k :: nat
  shows "p < m + k \<Longrightarrow> ((p + k) mod (m + k) + m) mod (m + k) = p"
proof -
  assume "p < m + k"
  have "((p + k) mod (m + k) + m) mod (m + k) = (p + (m + k)) mod (m + k)"
    by (simp add: mod_simps ac_simps)
  then show ?thesis using \<open>p < m + k\<close> by simp
qed

lemma period_dvd:
  fixes n k t :: nat
  assumes "0 < k"
  shows "n dvd t * k \<longleftrightarrow> n div gcd n k dvd t"
proof -
  let ?g = "gcd n k"
  have g: "0 < ?g" using assms by simp
  obtain a b where ab: "n = a * ?g" "k = b * ?g" and co: "coprime a b"
    using gcd_coprime_exists [of n k] g by auto
  have "n dvd t * k \<longleftrightarrow> a * ?g dvd (t * b) * ?g" using ab by (metis mult.assoc)
  also have "\<dots> \<longleftrightarrow> a dvd t * b" using g by simp
  also have "\<dots> \<longleftrightarrow> a dvd t" using co by (simp add: coprime_dvd_mult_left_iff)
  also have "a = n div ?g" using ab(1) g by (metis nonzero_mult_div_cancel_right nat_neq_iff)
  finally show ?thesis .
qed

lemma turn_period:
  assumes "0 < k" "0 < n" "c < n"
  shows "turn n k c (n div gcd n k) = c"
proof -
  have "n dvd n div gcd n k * k" using assms by (simp add: period_dvd)
  then obtain r where "n div gcd n k * k = n * r" by (elim dvdE)
  then show ?thesis using assms by (simp add: turn_def)
qed

lemma turn_inj:
  assumes "0 < k" "0 < n" "t < t'" "t' < n div gcd n k"
  shows "turn n k c t \<noteq> turn n k c t'"
proof
  assume "turn n k c t = turn n k c t'"
  then have "(c + t' * k) mod n = (c + t * k) mod n" by (simp add: turn_def)
  moreover have "c + t * k \<le> c + t' * k" using assms by simp
  ultimately have "n dvd (c + t' * k) - (c + t * k)" by (simp only: mod_eq_dvd_iff_nat)
  then have "n dvd (t' - t) * k" by (simp add: diff_mult_distrib)
  then have "n div gcd n k dvd t' - t" using assms by (simp add: period_dvd)
  then show False using assms by (auto dest: dvd_imp_le)
qed

text \<open>A place belongs to the cycle of the residue it has.\<close>

definition on_cycle :: "nat \<Rightarrow> nat \<Rightarrow> nat \<Rightarrow> nat set" where
  "on_cycle n k c = turn n k c ` {..<n div gcd n k}"

lemma on_cycle_iff:
  assumes "0 < k" "0 < n" "c < n" "q < n"
  shows "q \<in> on_cycle n k c \<longleftrightarrow> q mod gcd n k = c mod gcd n k"
proof
  assume "q \<in> on_cycle n k c"
  then obtain t where "q = (c + t * k) mod n" by (auto simp: on_cycle_def turn_def)
  then have "q mod gcd n k = (c + t * k) mod gcd n k" by (simp add: mod_mod_cancel)
  also have "\<dots> = c mod gcd n k" by (metis dvd_mult gcd_dvd2 mod_add_right_eq mod_0_imp_dvd dvd_imp_mod_0 add_0_right)
  finally show "q mod gcd n k = c mod gcd n k" .
next
  let ?g = "gcd n k" and ?l = "n div gcd n k"
  assume e: "q mod ?g = c mod ?g"
  have "(q + n) mod ?g = c mod ?g" using e by (metis add_0_right dvd_imp_mod_0 gcd_dvd1 mod_add_right_eq)
  then have "?g dvd (q + n) - c" using assms by (simp add: mod_eq_dvd_iff_nat)
  then obtain w where "(q + n) - c = ?g * w" by (elim dvdE)
  then have w: "c + ?g * w = q + n" using assms by simp
  obtain x y where xy: "k * x = n * y + ?g"
    using bezout_nat [of k n] assms by (auto simp: gcd.commute)
  have "c + (x * w) * k = c + ?g * w + n * (y * w)" using arg_cong [OF xy, of "\<lambda>z. z * w"] by (simp add: algebra_simps)
  then have t: "turn n k c (x * w) = q" using w assms by (simp add: turn_def)
  have l: "0 < ?l" using assms by (simp add: div_greater_zero_iff gcd_le1_nat)
  have "n dvd (x * w div ?l * ?l) * k" using assms by (simp add: period_dvd)
  then obtain r where r: "(x * w div ?l * ?l) * k = n * r" by (elim dvdE)
  have "c + (x * w) * k = c + (x * w mod ?l) * k + (x * w div ?l * ?l) * k"
    by (metis add.assoc add_mult_distrib mod_div_mult_eq)
  then have "turn n k c (x * w) = turn n k c (x * w mod ?l)"
    by (simp only: turn_def r mod_mult_self2)
  then show "q \<in> on_cycle n k c" using t l by (auto simp: on_cycle_def)
qed

subsection \<open>One cycle\<close>

text \<open>
  \<open>turned s m k Q\<close>: in the block of \<open>m + k\<close> words from \<open>s\<close> on, the places of \<open>Q\<close> have the word that
  was \<open>m\<close> places further, around the end; every other place is as it was.
\<close>

definition turned :: "nat \<Rightarrow> nat \<Rightarrow> nat \<Rightarrow> nat set \<Rightarrow> 'a list \<Rightarrow> 'a list" where
  "turned s m k Q A = map (\<lambda>x. if s \<le> x \<and> x - s < m + k \<and> x - s \<in> Q
     then A ! (s + (x - s + m) mod (m + k)) else A ! x) [0..<length A]"

lemma turned_length [simp]: "length (turned s m k Q A) = length A"
  by (simp add: turned_def)

text \<open>The words after \<open>j\<close> steps of the cycle from \<open>c\<close>, of length \<open>l\<close>.\<close>

definition turning :: "nat \<Rightarrow> nat \<Rightarrow> nat \<Rightarrow> nat \<Rightarrow> nat \<Rightarrow> nat \<Rightarrow> 'a list \<Rightarrow> 'a list" where
  "turning s m k c l j A = map (\<lambda>x. if x = s + c then A ! (s + turn (m + k) k c (min j (l - 1)))
     else if s \<le> x \<and> x - s \<in> turn (m + k) k c ` {1..j}
     then A ! (s + (x - s + m) mod (m + k)) else A ! x) [0..<length A]"

lemma turning_length [simp]: "length (turning s m k c l j A) = length A"
  by (simp add: turning_def)

lemma turning_0: "c < m + k \<Longrightarrow> turning s m k c l 0 A = A"
  by (rule nth_equalityI) (simp_all add: turning_def)

lemma turning_step:
  assumes "0 < k" "c < m + k" "l = (m + k) div gcd (m + k) k" "j < l" "s + (m + k) \<le> length A"
  defines "p \<equiv> s + turn (m + k) k c (Suc j)" and "B \<equiv> turning s m k c l j A"
  shows "B[p := B ! (s + c), s + c := B ! p] = turning s m k c l (Suc j) A"
proof (cases "Suc j = l")
  case True
  have "turn (m + k) k c (Suc j) = c" using True assms(1-3) turn_period [of k "m + k" c] by simp
  then have "p = s + c" by (simp add: p_def)
  moreover have "turn (m + k) k c ` {1..Suc j} \<subseteq> insert c (turn (m + k) k c ` {1..j})"
    using \<open>turn (m + k) k c (Suc j) = c\<close> by (auto simp: atLeastAtMostSuc_conv)
  ultimately show ?thesis using True assms(4)
    by (intro nth_equalityI) (auto simp: B_def turning_def)
next
  case False
  note inj = turn_inj [of k "m + k" _ _ c, folded assms(3)]
  have l: "Suc j < l" using False assms(4) by simp
  have "turn (m + k) k c 0 \<noteq> turn (m + k) k c (Suc j)" using inj [of 0 "Suc j"] l assms(1) by simp
  then have pc: "p \<noteq> s + c" using assms(2) by (simp add: p_def)
  have fresh: "turn (m + k) k c (Suc j) \<notin> turn (m + k) k c ` {1..j}"
  proof
    assume "turn (m + k) k c (Suc j) \<in> turn (m + k) k c ` {1..j}"
    then obtain t where "1 \<le> t" "t \<le> j" "turn (m + k) k c t = turn (m + k) k c (Suc j)" by force
    then show False using inj [of t "Suc j"] l assms(1) by simp
  qed
  have len: "p < length A" "s + c < length A"
    using assms(2,5) turn_less [OF assms(2), of k "Suc j"] by (simp_all add: p_def del: turn_less)
  have Bp: "B ! p = A ! p" using fresh pc len by (simp add: B_def turning_def p_def)
  have Bc: "B ! (s + c) = A ! (s + turn (m + k) k c j)" using len l by (simp add: B_def turning_def)
  have bk: "(turn (m + k) k c (Suc j) + m) mod (m + k) = turn (m + k) k c j"
    using turn_back [of "turn (m + k) k c j" m k] assms(2) by (simp add: turn_Suc)
  show ?thesis
  proof (rule nth_equalityI)
    fix x assume x: "x < length (B[p := B ! (s + c), s + c := B ! p])"
    consider "x = s + c" | "x \<noteq> s + c" "x = p" | "x \<noteq> s + c" "x \<noteq> p" by blast
    then show "B[p := B ! (s + c), s + c := B ! p] ! x = turning s m k c l (Suc j) A ! x"
    proof cases
      case 1
      then show ?thesis using l len Bp by (simp add: turning_def B_def p_def)
    next
      case 2
      then show ?thesis using len Bc bk by (simp add: turning_def B_def p_def)
    next
      case 3
      have "turn (m + k) k c ` {1..Suc j} = insert (turn (m + k) k c (Suc j)) (turn (m + k) k c ` {1..j})"
        by (simp add: atLeastAtMostSuc_conv)
      moreover have "s \<le> x \<Longrightarrow> x - s \<noteq> turn (m + k) k c (Suc j)" using 3 by (auto simp: p_def)
      ultimately show ?thesis using 3 x by (cases "s \<le> x") (simp_all add: turning_def B_def)
    qed
  qed (simp add: B_def)
qed

lemma turning_all:
  assumes "0 < k" "c < m + k" "l = (m + k) div gcd (m + k) k" "s + (m + k) \<le> length A"
  shows "turning s m k c l l A = turned s m k (on_cycle (m + k) k c) A"
proof -
  have l: "0 < l" using assms(1-3) by (simp add: div_greater_zero_iff gcd_le1_nat)
  have p: "turn (m + k) k c l = c" using assms(1-3) turn_period [of k "m + k" c] by simp
  have C: "turn (m + k) k c ` {1..l} = on_cycle (m + k) k c"
  proof -
    have "{1..l} = insert l (Suc ` {..<l - 1})"
      using l by (auto simp: image_Suc_lessThan)
    moreover have "{..<l} = insert 0 (Suc ` {..<l - 1})"
      using l by (cases l) (auto simp: lessThan_Suc_eq_insert_0)
    moreover have "on_cycle (m + k) k c = turn (m + k) k c ` {..<l}" by (simp only: on_cycle_def assms(3))
    ultimately show ?thesis using p assms(2) by simp
  qed
  have c: "c \<in> on_cycle (m + k) k c" using l assms(2,3) by (force simp: on_cycle_def intro: rev_image_eqI [of 0])
  have e: "(c + m) mod (m + k) = turn (m + k) k c (l - 1)"
    using turn_back [of "turn (m + k) k c (l - 1)" m k] turn_Suc [of "m + k" k c "l - 1"] p l assms(2) by simp
  have lt: "\<And>q. q \<in> on_cycle (m + k) k c \<Longrightarrow> q < m + k" using assms(2) by (auto simp: on_cycle_def)
  show ?thesis
  proof (rule nth_equalityI)
    fix x assume "x < length (turning s m k c l l A)"
    then show "turning s m k c l l A ! x = turned s m k (on_cycle (m + k) k c) A ! x"
      using c e lt assms(2) l p unfolding turning_def turned_def C
      by (cases "x = s + c") (auto simp: min_def)
  qed simp
qed

lemma permute_cycle_run:
  assumes "0 < k" "i < k" "s + (m + k) \<le> length A"
  shows "permute_cycle (int (s + m)) (int m) (int k) (int ((m + k) div gcd (m + k) k)) (int i) A
    = Some (turned s m k (on_cycle (m + k) k (m + i)) A)"
proof -
  define l where "l = (m + k) div gcd (m + k) k"
  define c where "c = m + i"
  have c: "c < m + k" using assms(2) by (simp add: c_def)
  define S where "S = (\<lambda>j. (int (s + turn (m + k) k c j), turning s m k c l j A))"
  have pos: "(if int (s + m) \<le> int (s + q) then int (s + q) - int m else int (s + q) + int k)
      = int (s + (q + k) mod (m + k))" if "q < m + k" for q
    using turn_step [OF that] by (simp split: if_splits)
  have "for_loop l 0 (\<lambda>j (pos, nargv).
       let pos = (if pos \<ge> int (s + m) then pos - int m else pos + int k) in do {
         swap \<leftarrow> rd nargv pos;
         c \<leftarrow> rd nargv (int (s + m) + int i);
         nargv \<leftarrow> wr nargv pos c;
         nargv \<leftarrow> wr nargv (int (s + m) + int i) swap;
         Some (pos, nargv) }) (S 0) = Some (S l)"
  proof (rule for_loop_states)
    fix j assume j: "j < l"
    have "s + turn (m + k) k c (Suc j) < length A" "s + c < length A"
      using turn_less [OF c, of k "Suc j"] assms(3) c by (simp_all del: turn_less)
    moreover have "int (s + m) + int i = int (s + c)" by (simp add: c_def)
    ultimately show "(case S j of (pos, nargv) \<Rightarrow>
       let pos = (if pos \<ge> int (s + m) then pos - int m else pos + int k) in do {
         swap \<leftarrow> rd nargv pos;
         c \<leftarrow> rd nargv (int (s + m) + int i);
         nargv \<leftarrow> wr nargv pos c;
         nargv \<leftarrow> wr nargv (int (s + m) + int i) swap;
         Some (pos, nargv) }) = Some (S (Suc j))"
      using turning_step [OF assms(1) c l_def j assms(3)] pos [OF turn_less [OF c]]
      by (simp only: S_def prod.case Let_def turn_Suc [symmetric] rd_nat wr_nat turning_length length_list_update
            if_True Option.bind.simps)
  qed
  moreover have "S 0 = (int (s + m) + int i, A)" using c by (simp add: S_def turning_0) (simp add: c_def)
  moreover have "snd (S l) = turned s m k (on_cycle (m + k) k c) A"
    using turning_all [OF assms(1) c l_def assms(3)] by (simp add: S_def)
  ultimately show ?thesis
    unfolding permute_cycle_def Let_def l_def [symmetric] nat_int by (simp add: Let_def c_def)
qed

subsection \<open>All cycles\<close>

lemma turned_turned:
  assumes "Q \<inter> R = {}" "\<And>q. q \<in> R \<Longrightarrow> q < m + k \<Longrightarrow> (q + m) mod (m + k) \<in> R" "s + (m + k) \<le> length A"
  shows "turned s m k R (turned s m k Q A) = turned s m k (Q \<union> R) A"
proof (rule nth_equalityI)
  fix x assume "x < length (turned s m k R (turned s m k Q A))"
  then have x: "x < length A" by simp
  show "turned s m k R (turned s m k Q A) ! x = turned s m k (Q \<union> R) A ! x"
  proof (cases "s \<le> x \<and> x - s < m + k \<and> x - s \<in> R")
    case True
    let ?y = "s + (x - s + m) mod (m + k)"
    have m: "(x - s + m) mod (m + k) < m + k" using True by (intro mod_less_divisor) linarith
    then have "?y < length A" using assms(3) by linarith
    moreover have "(x - s + m) mod (m + k) \<notin> Q" using True assms(1,2) by blast
    ultimately have "turned s m k Q A ! ?y = A ! ?y" by (simp add: turned_def)
    then show ?thesis using True x by (simp add: turned_def)
  next
    case False
    then show ?thesis using x by (auto simp: turned_def)
  qed
qed simp

definition residues :: "nat \<Rightarrow> nat \<Rightarrow> nat \<Rightarrow> nat set" where
  "residues n k i = {q. q < n \<and> q mod gcd n k < i}"

lemma permute_args_turned:
  assumes "0 < k" "s + (m + k) \<le> length A"
  shows "permute_args (int s) (int (s + m)) (int (s + m + k)) A = Some (turned s m k UNIV A)"
proof -
  define g where "g = gcd (m + k) k"
  have g: "0 < g" "g dvd m" "g dvd k" "g \<le> k" "gcd m k = g"
    using assms(1) by (simp_all add: g_def gcd_le2_nat)
  have len: "int (s + m + k) - int s = int (m + k)" "int (s + m + k) - int (s + m) = int k"
    "int (s + m) - int s = int m" by simp_all
  have c: "c_gcd (int m) (int k) = Some (int g)" using assms(1) g(5) by (simp add: c_gcd_run gcd_int_int_eq)
  have d: "int (m + k) sdiv int g = int ((m + k) div g)" using g(1) by (simp add: sdiv_nonneg zdiv_int)
  have cyc: "on_cycle (m + k) k (m + i) = {q. q < m + k \<and> q mod g = i}" if "i < g" for i
  proof -
    have "(m + i) mod g = i" using that g(2) by (metis add.commute dvd_imp_mod_0 add_0_right mod_add_right_eq mod_less)
    moreover have "m + i < m + k" using that g(4) by simp
    moreover have "q < m + k" if "q \<in> on_cycle (m + k) k (m + i)" for q
      using that \<open>m + i < m + k\<close> by (auto simp: on_cycle_def)
    ultimately show ?thesis using on_cycle_iff [of k "m + k" "m + i"] assms(1) by (auto simp: g_def)
  qed
  have closed: "(q + m) mod (m + k) mod g = q mod g" for q
    using g(2,3) by (simp add: mod_mod_cancel) (metis add_0_right dvd_imp_mod_0 mod_add_right_eq)
  have "for_loop g 0 (permute_cycle (int (s + m)) (int m) (int k) (int ((m + k) div g)))
      (turned s m k (residues (m + k) k 0) A) = Some (turned s m k (residues (m + k) k g) A)"
  proof (rule for_loop_states)
    fix i assume i: "i < g"
    have "turned s m k (on_cycle (m + k) k (m + i)) (turned s m k (residues (m + k) k i) A)
        = turned s m k (residues (m + k) k i \<union> on_cycle (m + k) k (m + i)) A"
    proof (rule turned_turned)
      show "residues (m + k) k i \<inter> on_cycle (m + k) k (m + i) = {}"
        unfolding cyc [OF i] residues_def g_def [symmetric] by auto
      show "(q + m) mod (m + k) \<in> on_cycle (m + k) k (m + i)" if "q \<in> on_cycle (m + k) k (m + i)" for q
        using that assms(1) unfolding cyc [OF i] by (simp add: closed)
    qed (fact assms(2))
    also have "residues (m + k) k i \<union> on_cycle (m + k) k (m + i) = residues (m + k) k (Suc i)"
      unfolding cyc [OF i] residues_def g_def [symmetric] by (auto simp: less_Suc_eq)
    finally show "permute_cycle (int (s + m)) (int m) (int k) (int ((m + k) div g)) (0 + int i)
        (turned s m k (residues (m + k) k i) A) = Some (turned s m k (residues (m + k) k (Suc i)) A)"
      using permute_cycle_run [of k i s m "turned s m k (residues (m + k) k i) A", folded g_def] assms i g(4)
      by simp
  qed
  moreover have "turned s m k (residues (m + k) k 0) A = A"
    by (rule nth_equalityI) (simp_all add: turned_def residues_def)
  moreover have "turned s m k (residues (m + k) k g) A = turned s m k UNIV A"
    using g(1) unfolding turned_def residues_def g_def [symmetric] by (simp cong: conj_cong)
  ultimately show ?thesis unfolding permute_args_def len Let_def c Option.bind.simps d by simp
qed

lemma turned_blocks:
  "ys \<noteq> [] \<Longrightarrow> turned (length pre) (length xs) (length ys) UNIV (pre @ xs @ ys @ post) = pre @ ys @ xs @ post"
proof (rule nth_equalityI)
  let ?s = "length pre" and ?m = "length xs" and ?k = "length ys"
  assume ys: "ys \<noteq> []"
  fix x assume "x < length (turned ?s ?m ?k UNIV (pre @ xs @ ys @ post))"
  then have x: "x < ?s + (?m + ?k + length post)" by simp
  consider "x < ?s" | i where "x = ?s + i" "i < ?k" | i where "x = ?s + (?k + i)" "i < ?m"
    | i where "x = ?s + (?m + ?k + i)"
  proof -
    assume h: "x < ?s \<Longrightarrow> thesis" "\<And>i. x = ?s + i \<Longrightarrow> i < ?k \<Longrightarrow> thesis"
      "\<And>i. x = ?s + (?k + i) \<Longrightarrow> i < ?m \<Longrightarrow> thesis" "\<And>i. x = ?s + (?m + ?k + i) \<Longrightarrow> thesis"
    show thesis
      using h(1) h(2) [of "x - ?s"] h(3) [of "x - ?s - ?k"] h(4) [of "x - ?s - ?m - ?k"] by linarith
  qed
  then show "turned ?s ?m ?k UNIV (pre @ xs @ ys @ post) ! x = (pre @ ys @ xs @ post) ! x"
  proof cases
    case 1
    then show ?thesis using x by (simp add: turned_def nth_append)
  next
    case 2
    then show ?thesis using x by (simp add: turned_def nth_append)
  next
    case 3
    then have "(?k + i + ?m) mod (?m + ?k) = i" by (simp add: add.assoc add.commute [of ?k] mod_add_self2)
    then show ?thesis using x 3 ys by (simp add: turned_def nth_append)
  next
    case 4
    then show ?thesis using x by (simp add: turned_def nth_append)
  qed
qed simp

lemma permute_args_blocks:
  assumes "ys \<noteq> []" "s = int (length pre)" "e = s + int (length xs)" "t = e + int (length ys)"
  shows "permute_args s e t (pre @ xs @ ys @ post) = Some (pre @ ys @ xs @ post)"
  using permute_args_turned [of "length ys" "length pre" "length xs" "pre @ xs @ ys @ post"] assms
  by (simp add: turned_blocks)

text \<open>C40: \<open>permute_args\<close> exchanges two neighbouring blocks of arguments and keeps the order in each.\<close>

theorem permute_args_exchanges:
  assumes "ys \<noteq> []" "s = int (length pre)" "e = s + int (length xs)" "t = e + int (length ys)"
  shows "permute_args s e t (pre @ xs @ ys @ post) = Some (pre @ ys @ xs @ post)"
  using assms by (rule permute_args_blocks)

theorem permute_args_exchanges_witness:
  "permute_args 1 4 6 [''prog'', ''a'', ''b'', ''c'', ''-m'', ''rtu''] = Some [''prog'', ''-m'', ''rtu'', ''a'', ''b'', ''c'']"
  using permute_args_exchanges [of "[''-m'', ''rtu'']" 1 "[''prog'']" 4 "[''a'', ''b'', ''c'']" 6 "[]"] by simp

end
