(* ===== verification/Argtable_Parse.thy ===== *)
theory Argtable_Parse
  imports Argtable_Scan Argtable_Permute
begin

text \<open>
  The main interface of \<open>argtable3/argtable3.c\<close>: the table of errors, the option lists made from a
  table, and \<open>arg_parse\<close>. A table is the list of its entries before the first terminator, beside
  the \<open>arg_end\<close> that is the terminator. A result \<open>None\<close> is an access outside an array, or a loop
  that does not end.
\<close>

abbreviation (input) ARG_ELIMIT :: int where "ARG_ELIMIT \<equiv> 1"
abbreviation (input) ARG_ENOMATCH :: int where "ARG_ENOMATCH \<equiv> 3"
abbreviation (input) ARG_ELONGOPT :: int where "ARG_ELONGOPT \<equiv> 4"
abbreviation (input) ARG_EMISSARG :: int where "ARG_EMISSARG \<equiv> 5"

text \<open>A parent is the index of an entry, or \<open>None\<close> for the end table itself.\<close>

record arg_end = arg_hdr +
  end_count :: int
  end_error :: "int list"
  end_parent :: "int option list"
  end_argval :: "string option list"

text \<open>The constructor leaves \<open>count\<close> and the arrays as \<open>xmalloc\<close> returned them.\<close>

definition new_arg_end :: "int \<Rightarrow> (nat \<Rightarrow> int \<times> int option \<times> string option) \<Rightarrow> int \<Rightarrow> arg_end" where
  "new_arg_end memory_count memory maxcount =
     \<lparr>hdr_flag = ARG_TERMINATOR, hdr_shortopts = None, hdr_longopts = None, hdr_mincount = 1,
      hdr_maxcount = maxcount, end_count = memory_count,
      end_error = map (fst \<circ> memory) [0..<nat maxcount],
      end_parent = map (fst \<circ> snd \<circ> memory) [0..<nat maxcount],
      end_argval = map (snd \<circ> snd \<circ> memory) [0..<nat maxcount]\<rparr>"

definition arg_register_error :: "arg_end \<Rightarrow> int option \<Rightarrow> int \<Rightarrow> string option \<Rightarrow> arg_end option" where
  "arg_register_error e parent error argval =
     (if end_count e < hdr_maxcount e then do {
        errors \<leftarrow> wr (end_error e) (end_count e) error;
        parents \<leftarrow> wr (end_parent e) (end_count e) parent;
        argvals \<leftarrow> wr (end_argval e) (end_count e) argval;
        Some (e\<lparr>end_error := errors, end_parent := parents, end_argval := argvals,
                end_count := end_count e + 1\<rparr>) }
      else do {
        errors \<leftarrow> wr (end_error e) (hdr_maxcount e - 1) ARG_ELIMIT;
        parents \<leftarrow> wr (end_parent e) (hdr_maxcount e - 1) None;
        argvals \<leftarrow> wr (end_argval e) (hdr_maxcount e - 1) None;
        Some (e\<lparr>end_error := errors, end_parent := parents, end_argval := argvals\<rparr>) })"

subsection \<open>The option lists\<close>

text \<open>\<open>strchr\<close> also finds the terminating NUL.\<close>

fun find_shortoption :: "int \<Rightarrow> arg list \<Rightarrow> char \<Rightarrow> int" where
  "find_shortoption tabindex [] shortopt = -1"
| "find_shortoption tabindex (a # table) shortopt =
     (case hdr_shortopts a of
        None \<Rightarrow> find_shortoption (tabindex + 1) table shortopt
      | Some s \<Rightarrow>
          if shortopt \<in> set s \<or> shortopt = NUL then tabindex
          else find_shortoption (tabindex + 1) table shortopt)"

text \<open>The names between the commas; a comma at the end does not start another one.\<close>

function option_names :: "string \<Rightarrow> string list" where
  "option_names longopts =
     (if longopts = [] then []
      else takeWhile (\<lambda>c. c \<noteq> CHR '','') longopts #
        option_names (drop (Suc (length (takeWhile (\<lambda>c. c \<noteq> CHR '','') longopts))) longopts))"
  by pat_completeness auto
termination by (relation "measure length") auto

declare option_names.simps [simp del]

text \<open>The first loop, which counts: it looks for commas from the second character on.\<close>

definition count_names :: "string \<Rightarrow> nat option" where
  "count_names longopts =
     (case longopts of [] \<Rightarrow> None | _ # rest \<Rightarrow> Some (1 + length (filter (\<lambda>c. c = CHR '','') rest)))"

definition has_arg_of :: "arg \<Rightarrow> int" where
  "has_arg_of a =
     (if hdr_flag a AND ARG_HASOPTVALUE \<noteq> 0 then optional_argument
      else if hdr_flag a AND ARG_HASVALUE \<noteq> 0 then required_argument else no_argument)"

fun table_options :: "int \<Rightarrow> arg list \<Rightarrow> getopt_option list" where
  "table_options tabindex [] = []"
| "table_options tabindex (a # table) =
     map (\<lambda>name. \<lparr>opt_name = name, opt_has_arg = has_arg_of a, opt_flag = True, opt_val = tabindex\<rparr>)
       (case hdr_longopts a of None \<Rightarrow> [] | Some s \<Rightarrow> option_names s) @
     table_options (tabindex + 1) table"

fun count_options :: "arg list \<Rightarrow> nat option" where
  "count_options [] = Some 1"
| "count_options (a # table) = do {
     n \<leftarrow> (case hdr_longopts a of None \<Rightarrow> Some 0 | Some s \<Rightarrow> count_names s);
     noptions \<leftarrow> count_options table;
     Some (n + noptions) }"

text \<open>The options and the terminator are written into an array of \<open>noptions\<close>.\<close>

definition alloc_longoptions :: "arg list \<Rightarrow> getopt_option list option" where
  "alloc_longoptions table = do {
     noptions \<leftarrow> count_options table;
     let options = table_options 0 table;
     if length options < noptions then Some options else None }"

definition alloc_shortoptions :: "arg list \<Rightarrow> string" where
  "alloc_shortoptions table =
     CHR '':'' # concat (map (\<lambda>a. case hdr_shortopts a of
         None \<Rightarrow> []
       | Some s \<Rightarrow> concat (map (\<lambda>c. c #
           (if hdr_flag a AND ARG_HASVALUE \<noteq> 0 then '':'' else []) @
           (if hdr_flag a AND ARG_HASOPTVALUE \<noteq> 0 then '':'' else [])) s)) table)"

subsection \<open>Tagged arguments\<close>

definition arg_scan :: "int \<Rightarrow> string option \<Rightarrow> arg list \<Rightarrow> (int \<times> arg list) option" where
  "arg_scan tabindex argval table = do {
     a \<leftarrow> rd table tabindex;
     (errorcode, a) \<leftarrow> arg_scanfn a argval;
     table \<leftarrow> wr table tabindex a;
     Some (errorcode, table) }"

definition arg_scan_report ::
    "int \<Rightarrow> string option \<Rightarrow> arg list \<Rightarrow> arg_end \<Rightarrow> (arg list \<times> arg_end) option" where
  "arg_scan_report tabindex argval table e = do {
     (errorcode, table) \<leftarrow> arg_scan tabindex argval table;
     e \<leftarrow> (if errorcode \<noteq> 0 then arg_register_error e (Some tabindex) errorcode argval else Some e);
     Some (table, e) }"

text \<open>The \<open>switch\<close> over what \<open>getopt_long\<close> returned.\<close>

definition arg_tagged ::
    "int \<Rightarrow> getopt_state \<Rightarrow> arg list \<Rightarrow> arg_end \<Rightarrow> (arg list \<times> arg_end) option" where
  "arg_tagged copt st table e =
     (if copt = 0 then do {
        a \<leftarrow> rd table (gs_flag st);
        e \<leftarrow>
          (if gs_optarg st = Some [] \<and> hdr_flag a AND ARG_HASVALUE \<noteq> 0 then do {
             word \<leftarrow> rd (gs_nargv st) (gs_optind st - 1);
             arg_register_error e None ARG_EMISSARG word }
           else Some e);
        arg_scan_report (gs_flag st) (gs_optarg st) table e }
      else if copt = BADCH then do {
        e \<leftarrow>
          (if gs_optopt st = 0 then do {
             word \<leftarrow> rd (gs_nargv st) (gs_optind st - 1);
             arg_register_error e None ARG_ELONGOPT word }
           else arg_register_error e None (gs_optopt st) None);
        Some (table, e) }
      else if copt = char_int (CHR '':'') then do {
        word \<leftarrow> rd (gs_nargv st) (gs_optind st - 1);
        e \<leftarrow> arg_register_error e None ARG_EMISSARG word;
        Some (table, e) }
      else
        let tabindex = find_shortoption 0 table (char_of copt) in
        if tabindex = -1 then do {
          e \<leftarrow> arg_register_error e None copt None;
          Some (table, e) }
        else arg_scan_report tabindex (gs_optarg st) table e)"

partial_function (option) arg_tagged_loop ::
    "bool \<Rightarrow> int \<Rightarrow> string \<Rightarrow> getopt_option list \<Rightarrow> getopt_state \<Rightarrow> arg list \<Rightarrow> arg_end
     \<Rightarrow> (getopt_state \<times> arg list \<times> arg_end) option" where
  "arg_tagged_loop posixly_correct argc shortoptions longoptions st table e = do {
     (copt, st) \<leftarrow> getopt_long posixly_correct argc shortoptions longoptions st;
     if copt = -1 then Some (st, table, e)
     else do {
       (table, e) \<leftarrow> arg_tagged copt st table e;
       arg_tagged_loop posixly_correct argc shortoptions longoptions st table e } }"

declare arg_tagged_loop.simps [code]

definition arg_parse_tagged ::
    "bool \<Rightarrow> int \<Rightarrow> getopt_state \<Rightarrow> arg list \<Rightarrow> arg_end \<Rightarrow> (getopt_state \<times> arg list \<times> arg_end) option" where
  "arg_parse_tagged posixly_correct argc st table e = do {
     longoptions \<leftarrow> alloc_longoptions table;
     arg_tagged_loop posixly_correct argc (alloc_shortoptions table) longoptions
       (st\<lparr>gs_optind := 0, gs_flag := 0\<rparr>) table e }"

subsection \<open>Untagged arguments\<close>

text \<open>
  The first loop: \<open>tentative\<close> is the tentative error (\<open>errorlast\<close>, \<open>optarglast\<close> and \<open>parentlast\<close>). The
  result says whether the words are exhausted.
\<close>

partial_function (option) arg_untagged_loop ::
    "int \<Rightarrow> string option list \<Rightarrow> int \<Rightarrow> int \<Rightarrow> int \<times> string option \<times> int \<Rightarrow> arg list
     \<Rightarrow> (bool \<times> int \<times> (int \<times> string option \<times> int) \<times> arg list) option" where
  "arg_untagged_loop argc argv tabindex optind tentative table =
     (if tabindex \<ge> int (length table) then Some (False, optind, tentative, table)
      else if optind \<ge> argc then Some (True, optind, tentative, table)
      else do {
        a \<leftarrow> rd table tabindex;
        if hdr_longopts a \<noteq> None \<or> hdr_shortopts a \<noteq> None then
          arg_untagged_loop argc argv (tabindex + 1) optind tentative table
        else do {
          word \<leftarrow> rd argv optind;
          (errorcode, table) \<leftarrow> arg_scan tabindex word table;
          if errorcode = 0 then
            arg_untagged_loop argc argv tabindex (optind + 1) (0, snd tentative) table
          else arg_untagged_loop argc argv (tabindex + 1) optind (errorcode, word, tabindex) table } })"

declare arg_untagged_loop.simps [code]

definition arg_unused :: "int \<Rightarrow> string option list \<Rightarrow> int \<Rightarrow> arg_end \<Rightarrow> arg_end option" where
  "arg_unused argc argv optind e =
     for_loop (nat (argc - optind)) optind (\<lambda>i e. do {
       word \<leftarrow> rd argv i;
       arg_register_error e None ARG_ENOMATCH word }) e"

definition arg_parse_untagged ::
    "int \<Rightarrow> string option list \<Rightarrow> int \<Rightarrow> arg list \<Rightarrow> arg_end \<Rightarrow> (int \<times> arg list \<times> arg_end) option" where
  "arg_parse_untagged argc argv optind table e = do {
     (exhausted, optind, (errorlast, optarglast, parentlast), table) \<leftarrow>
       arg_untagged_loop argc argv 0 optind (0, None, 0) table;
     if exhausted then Some (optind, table, e)
     else do {
       (optind, e) \<leftarrow>
         (if errorlast \<noteq> 0 then do {
            e \<leftarrow> arg_register_error e (Some parentlast) errorlast optarglast;
            Some (optind + 1, e) }
          else Some (optind, e));
       e \<leftarrow> arg_unused argc argv optind e;
       Some (max optind argc, table, e) } }"

subsection \<open>The whole\<close>

text \<open>The terminator has no check function.\<close>

fun arg_parse_check :: "int \<Rightarrow> arg list \<Rightarrow> arg_end \<Rightarrow> arg_end option" where
  "arg_parse_check tabindex [] e = Some e"
| "arg_parse_check tabindex (a # table) e = do {
     e \<leftarrow> (let errorcode = arg_checkfn a in
       if errorcode \<noteq> 0 then arg_register_error e (Some tabindex) errorcode None else Some e);
     arg_parse_check (tabindex + 1) table e }"

fun arg_reset_entries :: "arg list \<Rightarrow> arg list option" where
  "arg_reset_entries [] = Some []"
| "arg_reset_entries (a # table) = do {
     a \<leftarrow> arg_resetfn a;
     table \<leftarrow> arg_reset_entries table;
     Some (a # table) }"

definition arg_reset :: "arg list \<Rightarrow> arg_end \<Rightarrow> (arg list \<times> arg_end) option" where
  "arg_reset table e = do {
     table \<leftarrow> arg_reset_entries table;
     Some (table, e\<lparr>end_count := 0\<rparr>) }"

definition arg_parse ::
    "bool \<Rightarrow> getopt_state \<Rightarrow> string list \<Rightarrow> arg list \<Rightarrow> arg_end
     \<Rightarrow> (int \<times> getopt_state \<times> arg list \<times> arg_end) option" where
  "arg_parse posixly_correct st argv table e = do {
     let argc = int (length argv);
     (table, e) \<leftarrow> arg_reset table e;
     if argc = 0 then do {
       e \<leftarrow> arg_parse_check 0 table e;
       Some (end_count e, st, table, e) }
     else do {
       (st, table, e) \<leftarrow> arg_parse_tagged posixly_correct argc
         (st\<lparr>gs_nargv := map Some argv @ [None]\<rparr>) table e;
       (optind, table, e) \<leftarrow> arg_parse_untagged argc (gs_nargv st) (gs_optind st) table e;
       e \<leftarrow> (if end_count e = 0 then arg_parse_check 0 table e else Some e);
       Some (end_count e, st\<lparr>gs_optind := optind\<rparr>, table, e) } }"

text \<open>The variables of \<open>getopt_long\<close> when the program starts.\<close>

definition getopt_start :: getopt_state where
  "getopt_start = \<lparr>gs_nargv = [], gs_optind = 1, gs_optopt = BADCH, gs_optarg = None, gs_optreset = False,
     gs_place = [], gs_offset = 0, gs_nonopt_start = -1, gs_nonopt_end = -1, gs_flag = 0\<rparr>"

end
