(* ===== verification/Command_Line.thy ===== *)
theory Command_Line
  imports Argtable_Parse Modbuss
begin

text \<open>
  The command lines of \<open>modbusc.c\<close> and \<open>modbuss.c\<close>: the tables their \<open>main\<close> hands to \<open>arg_parse\<close>, what
  it does with the result, and the two programs from \<open>argv\<close> to the exit code.
\<close>

text \<open>The defaults stored behind the constructors: \<open>x->ival[0] = v\<close> and \<open>x->sval[0] = s\<close>.\<close>

definition set_ival :: "int \<Rightarrow> arg \<Rightarrow> arg" where
  "set_ival v a = (case arg_data a of
     Int_data ival \<Rightarrow> a\<lparr>arg_data := Int_data (ival[0 := v])\<rparr> | _ \<Rightarrow> a)"

definition set_sval :: "string \<Rightarrow> arg \<Rightarrow> arg" where
  "set_sval s a = (case arg_data a of
     Str_data sval \<Rightarrow> a\<lparr>arg_data := Str_data (sval[0 := s])\<rparr>
   | Rex_data pattern icase sval \<Rightarrow> a\<lparr>arg_data := Rex_data pattern icase (sval[0 := s])\<rparr>
   | _ \<Rightarrow> a)"

definition ival :: "arg \<Rightarrow> int list" where
  "ival a = (case arg_data a of Int_data xs \<Rightarrow> xs | _ \<Rightarrow> [])"

definition sval :: "arg \<Rightarrow> string list" where
  "sval a = (case arg_data a of Str_data xs \<Rightarrow> xs | Rex_data _ _ xs \<Rightarrow> xs | _ \<Rightarrow> [])"

text \<open>The first words of the values given, as many as \<open>count\<close> says.\<close>

definition ivals :: "arg \<Rightarrow> int list" where
  "ivals a = take (nat (arg_count a)) (ival a)"

definition svals :: "arg \<Rightarrow> string list" where
  "svals a = take (nat (arg_count a)) (sval a)"

subsection \<open>The client\<close>

text \<open>\<open>mem\<close> is what \<open>xmalloc\<close> returned for the integers of an entry.\<close>

definition client_common :: "(nat \<Rightarrow> nat \<Rightarrow> int) \<Rightarrow> arg list" where
  "client_common mem =
     [arg_rexn (Some ''a'') (Some ''addr'') ADDRESS_PATTERN 1 1 False,
      arg_intn (mem 2) (Some ''r'') (Some ''reg'') 1 1,
      arg_intn (mem 3) (Some ''f'') (Some ''func'') 1 1,
      arg_intn (mem 4) (Some ''w'') (Some ''write'') 0 MODBUS_MAX_WRITE_BITS,
      set_ival 1 (arg_intn (mem 5) (Some ''c'') (Some ''count'') 0 1),
      set_ival 1000 (arg_intn (mem 6) (Some ''o'') (Some ''timeout'') 0 1),
      arg_litn (Some ''1'') (Some ''base-1'') 0 1,
      set_ival 200 (arg_intn (mem 8) (Some ''e'') (Some ''itf-delay'') 0 1),
      arg_litn (Some ''v'') (Some ''verbose'') 0 2,
      arg_litn (Some ''h'') (Some ''help'') 0 1,
      arg_litn None (Some ''version'') 0 1]"

definition rtu_table :: "(nat \<Rightarrow> nat \<Rightarrow> int) \<Rightarrow> arg list" where
  "rtu_table mem = arg_rexn None None ''rtu'' 1 1 True # client_common mem @
     [arg_strn (Some ''d'') (Some ''dev'') 1 1,
      arg_intn (mem 13) (Some ''b'') (Some ''baud'') 1 16,
      set_sval ''8'' (arg_rexn None (Some ''data-bits'') ''^(7|8)$'' 0 1 False),
      set_sval ''1'' (arg_rexn None (Some ''stop-bits'') ''^(1|2)$'' 0 1 False),
      arg_rexn (Some ''p'') (Some ''parity'') ''^(N|E|O)$'' 0 3 True]"

definition tcp_table :: "(nat \<Rightarrow> nat \<Rightarrow> int) \<Rightarrow> arg list" where
  "tcp_table mem = arg_rexn None None ''tcp'' 1 1 True # client_common mem @
     [set_ival 502 (arg_intn (mem 12) (Some ''p'') (Some ''port'') 0 1),
      set_sval ''127.0.0.1'' (arg_strn (Some ''i'') (Some ''ip'') 0 1)]"

text \<open>What the rest of \<open>main\<close> reads from the entries; those of the other table keep their defaults.\<close>

definition client_read :: "bool \<Rightarrow> arg list \<Rightarrow> client_options" where
  "client_read is_rtu tbl =
     (let opts = (client_defaults is_rtu)\<lparr>co_address := sval (tbl ! 1) ! 0, co_reg := ival (tbl ! 2) ! 0,
            co_function := ival (tbl ! 3) ! 0, co_write := ivals (tbl ! 4),
            co_count := ival (tbl ! 5) ! 0, co_timeout := ival (tbl ! 6) ! 0,
            co_base_one := (arg_count (tbl ! 7) \<noteq> 0), co_interframe_delay := ival (tbl ! 8) ! 0,
            co_verbose := arg_count (tbl ! 9)\<rparr> in
      if is_rtu then
        opts\<lparr>co_device := sval (tbl ! 12) ! 0, co_baud := ivals (tbl ! 13),
             co_data_bits := sval (tbl ! 14) ! 0, co_stop_bits := sval (tbl ! 15) ! 0,
             co_parity := svals (tbl ! 16)\<rparr>
      else opts\<lparr>co_port := ival (tbl ! 12) ! 0, co_host := sval (tbl ! 13) ! 0\<rparr>)"

text \<open>The number of errors, the counts of \<open>--version\<close> and \<open>--help\<close>, and the options.\<close>

definition client_parse ::
    "bool \<Rightarrow> (nat \<Rightarrow> nat \<Rightarrow> int) \<Rightarrow> arg_end \<Rightarrow> string list \<Rightarrow> bool \<Rightarrow> (int \<times> int \<times> int \<times> client_options) option" where
  "client_parse posixly_correct mem e argv is_rtu = do {
     (parse_errors, st, tbl, e) \<leftarrow> arg_parse posixly_correct getopt_start argv
       (if is_rtu then rtu_table mem else tcp_table mem) e;
     Some (parse_errors, arg_count (tbl ! 11), arg_count (tbl ! 10), client_read is_rtu tbl) }"

subsection \<open>The server\<close>

definition server_common :: "(nat \<Rightarrow> nat \<Rightarrow> int) \<Rightarrow> arg list" where
  "server_common mem =
     [set_ival 1 (arg_intn (mem 1) (Some ''a'') (Some ''addr'') 0 1),
      set_ival 100 (arg_intn (mem 2) None (Some ''co'') 0 1),
      set_ival 100 (arg_intn (mem 3) None (Some ''di'') 0 1),
      set_ival 100 (arg_intn (mem 4) None (Some ''hr'') 0 1),
      set_ival 100 (arg_intn (mem 5) None (Some ''ir'') 0 1)]"

definition server_flags :: "arg list" where
  "server_flags = [arg_litn (Some ''v'') (Some ''verbose'') 0 1, arg_litn (Some ''h'') (Some ''help'') 0 1,
     arg_litn None (Some ''version'') 0 1]"

definition server_rtu_table :: "(nat \<Rightarrow> nat \<Rightarrow> int) \<Rightarrow> arg list" where
  "server_rtu_table mem = arg_rexn None None ''rtu'' 1 1 True # server_common mem @
     [arg_strn (Some ''d'') (Some ''dev'') 1 1,
      arg_intn (mem 7) (Some ''b'') (Some ''baud'') 1 1,
      set_sval ''8'' (arg_rexn None (Some ''data-bits'') ''^(7|8)$'' 0 1 False),
      set_sval ''1'' (arg_rexn None (Some ''stop-bits'') ''^(1|2)$'' 0 1 False),
      set_sval ''E'' (arg_rexn (Some ''p'') (Some ''parity'') ''^(N|E|O)$'' 0 1 True)] @ server_flags"

definition server_tcp_table :: "(nat \<Rightarrow> nat \<Rightarrow> int) \<Rightarrow> arg list" where
  "server_tcp_table mem = arg_rexn None None ''tcp'' 1 1 True # server_common mem @
     [set_ival 502 (arg_intn (mem 6) (Some ''p'') (Some ''port'') 0 1),
      set_sval ''127.0.0.1'' (arg_strn (Some ''i'') (Some ''ip'') 0 1)] @ server_flags"

definition server_read :: "bool \<Rightarrow> arg list \<Rightarrow> server_options" where
  "server_read is_rtu tbl =
     (let opts = (server_defaults is_rtu)\<lparr>so_address := ival (tbl ! 1) ! 0, so_coils := ival (tbl ! 2) ! 0,
            so_discrete_inputs := ival (tbl ! 3) ! 0, so_holding_registers := ival (tbl ! 4) ! 0,
            so_input_registers := ival (tbl ! 5) ! 0\<rparr> in
      if is_rtu then
        opts\<lparr>so_device := sval (tbl ! 6) ! 0, so_baud := ival (tbl ! 7) ! 0,
             so_data_bits := sval (tbl ! 8) ! 0, so_stop_bits := sval (tbl ! 9) ! 0,
             so_parity := sval (tbl ! 10) ! 0, so_verbose := arg_count (tbl ! 11)\<rparr>
      else opts\<lparr>so_port := ival (tbl ! 6) ! 0, so_bind_address := sval (tbl ! 7) ! 0,
             so_verbose := arg_count (tbl ! 8)\<rparr>)"

definition server_parse ::
    "bool \<Rightarrow> (nat \<Rightarrow> nat \<Rightarrow> int) \<Rightarrow> arg_end \<Rightarrow> string list \<Rightarrow> bool \<Rightarrow> (int \<times> int \<times> int \<times> server_options) option" where
  "server_parse posixly_correct mem e argv is_rtu = do {
     (parse_errors, st, tbl, e) \<leftarrow> arg_parse posixly_correct getopt_start argv
       (if is_rtu then server_rtu_table mem else server_tcp_table mem) e;
     let n = length tbl;
     Some (parse_errors, arg_count (tbl ! (n - 1)), arg_count (tbl ! (n - 2)), server_read is_rtu tbl) }"

subsection \<open>The programs\<close>

text \<open>
  What both \<open>main\<close> functions do before the checks: an exit code, or the options to go on with.
  \<open>tables_ok\<close> says that \<open>arg_nullcheck\<close> found no missing memory.
\<close>

definition start_program ::
    "bool \<Rightarrow> (bool \<Rightarrow> (int \<times> int \<times> int \<times> 'o) option) \<Rightarrow> string list \<Rightarrow> (int + 'o) option" where
  "start_program tables_ok parse argv =
     (let argc = length argv in
      if \<not> tables_ok then Some (Inl EXIT_FAILURE)
      else if argc = 2 \<and>
          (equals_ignore_case (argv ! 1) ''--help'' \<or> equals_ignore_case (argv ! 1) ''-h'') then
        Some (Inl EXIT_SUCCESS)
      else if argc = 2 \<and> equals_ignore_case (argv ! 1) ''--version'' then Some (Inl EXIT_SUCCESS)
      else if argc < 2 \<or>
          (\<not> equals_ignore_case (argv ! 1) ''rtu'' \<and> \<not> equals_ignore_case (argv ! 1) ''tcp'') then
        Some (Inl EXIT_FAILURE)
      else do {
        let is_rtu = equals_ignore_case (argv ! 1) ''rtu'';
        (parse_errors, version, help, opts) \<leftarrow> parse is_rtu;
        if version \<noteq> 0 then Some (Inl EXIT_SUCCESS)
        else if help \<noteq> 0 then Some (Inl EXIT_SUCCESS)
        else if parse_errors \<noteq> 0 then Some (Inl EXIT_FAILURE)
        else Some (Inr opts) })"

text \<open>The error table has room for 20; \<open>mem_end\<close> is what its memory contained.\<close>

definition client_program ::
    "'w os \<Rightarrow> bool \<Rightarrow> bool \<Rightarrow> (nat \<Rightarrow> nat \<Rightarrow> int) \<Rightarrow> int \<times> (nat \<Rightarrow> int \<times> int option \<times> string option) \<Rightarrow> bool
     \<Rightarrow> (nat \<Rightarrow> modbus option \<times> termios option \<times> bool) \<Rightarrow> modbus option \<Rightarrow> string option
     \<Rightarrow> string list \<Rightarrow> int \<Rightarrow> modbus \<Rightarrow> 'w \<Rightarrow> (int \<times> 'w) option" where
  "client_program os posixly_correct tables_ok mem mem_end mem_data mem_rtu mem_ctx mem_ip argv err raw w = do {
     r \<leftarrow> start_program tables_ok
       (client_parse posixly_correct mem (new_arg_end (fst mem_end) (snd mem_end) 20) argv) argv;
     case r of
       Inl exit_code \<Rightarrow> Some (exit_code, w)
     | Inr opts \<Rightarrow> client_main os mem_data mem_rtu mem_ctx mem_ip opts err raw w }"

definition server_program ::
    "'w os \<Rightarrow> bool \<Rightarrow> bool \<Rightarrow> (nat \<Rightarrow> nat \<Rightarrow> int) \<Rightarrow> int \<times> (nat \<Rightarrow> int \<times> int option \<times> string option)
     \<Rightarrow> server_memory \<Rightarrow> string list \<Rightarrow> int \<Rightarrow> 'w \<Rightarrow> (int \<times> 'w) option" where
  "server_program os posixly_correct tables_ok mem mem_end sm argv err w = do {
     r \<leftarrow> start_program tables_ok
       (server_parse posixly_correct mem (new_arg_end (fst mem_end) (snd mem_end) 20) argv) argv;
     case r of
       Inl exit_code \<Rightarrow> Some (exit_code, w)
     | Inr opts \<Rightarrow> server_main os sm opts err w }"

end
