(* ===== verification/Argtable_Order.thy ===== *)
theory Argtable_Order
  imports Argtable_Parse
begin

text \<open>
  A reference for \<open>arg_parse\<close>: the options of a command line are scanned in their order, however
  they are spelled, and the other words move behind them in theirs.
\<close>

subsection \<open>The scan of \<open>getopt_long\<close>\<close>

text \<open>
  Between two calls: the words \<open>A\<close> are done, \<open>P\<close> are words to move behind the options \<open>Q\<close>, and \<open>R\<close>
  is still to be read.
\<close>

definition ready :: "getopt_state \<Rightarrow> string option list \<Rightarrow> string option list \<Rightarrow> string option list
    \<Rightarrow> string option list \<Rightarrow> bool" where
  "ready st A P Q R \<longleftrightarrow>
     gs_nargv st = A @ P @ Q @ R \<and> gs_optind st = int (length (A @ P @ Q)) \<and> A \<noteq> [] \<and>
     (if gs_optreset st then P = [] \<and> Q = []
      else at (gs_place st) (gs_offset st) = NUL \<and> gs_nonopt_start st = (if P = [] then -1 else int (length A)) \<and>
        gs_nonopt_end st = (if Q = [] then -1 else int (length (A @ P))) \<and> (P = [] \<longrightarrow> Q = []))"

text \<open>What \<open>getopt_internal\<close> sets before the label \<open>start\<close>.\<close>

definition prepared :: "getopt_state \<Rightarrow> getopt_state" where
  "prepared st = (let st = st\<lparr>gs_optarg := None\<rparr> in
     if gs_optreset st then st\<lparr>gs_nonopt_start := -1, gs_nonopt_end := -1\<rparr> else st)"

definition is_word :: "string \<Rightarrow> bool" where
  "is_word s \<longleftrightarrow> at s 0 \<noteq> CHR ''-'' \<or> at s 1 = NUL"

lemma at_Nil [simp]: "at [] n = NUL"
  by (simp add: at_def)

lemma rd_at_block: "rd (A @ P @ Q @ x # R) (int (length (A @ P @ Q))) = Some x"
  using rd_behind_0 [of "A @ P @ Q" "int (length (A @ P @ Q))" "x # R"] by (simp add: rd_0)

lemma ready_prepared:
  "ready st A P Q R \<Longrightarrow> gs_nonopt_start (prepared st) = (if P = [] then -1 else int (length A)) \<and>
   gs_nonopt_end (prepared st) = (if Q = [] then -1 else int (length (A @ P))) \<and> (P = [] \<longrightarrow> Q = []) \<and>
   gs_nargv (prepared st) = A @ P @ Q @ R \<and> gs_optind (prepared st) = int (length (A @ P @ Q)) \<and>
   (gs_optreset (prepared st) \<or> at (gs_place (prepared st)) (gs_offset (prepared st)) = NUL)"
  by (simp add: ready_def prepared_def Let_def split: if_splits)

lemma getopt_next_update:
  assumes "ready st A P Q (Some s # R)" "int (length (A @ P @ Q)) < n"
  defines "st0 \<equiv> (prepared st)\<lparr>gs_optreset := False\<rparr>"
  shows "getopt_next n True False (prepared st) =
    (if is_word s then do {
       st \<leftarrow> getopt_skip (st0\<lparr>gs_place := [], gs_offset := 0\<rparr>);
       getopt_next n True False st }
     else
       let st = (if gs_nonopt_start st0 \<noteq> -1 \<and> gs_nonopt_end st0 = -1
                 then st0\<lparr>gs_nonopt_end := gs_optind st0\<rparr> else st0);
           st = st\<lparr>gs_place := s, gs_offset := 1\<rparr> in
       if at s 1 = CHR ''-'' \<and> at s 2 = NUL then
         map_option (\<lambda>st. Inl (-1, st))
           (getopt_finish (st\<lparr>gs_optind := gs_optind st + 1, gs_place := [], gs_offset := 0\<rparr>))
       else Some (Inr st))"
proof -
  note r = ready_prepared [OF assms(1)]
  have w: "rd (gs_nargv (prepared st)) (gs_optind (prepared st)) = Some (Some s)"
    using r by (simp only: rd_at_block)
  show ?thesis
    using r w assms(2)
    by (subst getopt_next.simps) (auto simp: st0_def is_word_def Let_def)
qed

lemma getopt_next_word:
  assumes "ready st A P Q (Some s # R)" "is_word s" "int (length (A @ P @ Q)) < n"
  shows "\<exists>st'. getopt_next n True False (prepared st) = getopt_next n True False st' \<and> prepared st' = st' \<and>
    \<not> gs_optreset st' \<and> ready st' (A @ Q) (P @ [Some s]) [] R"
proof -
  define st1 where "st1 = (prepared st)\<lparr>gs_optreset := False, gs_place := [], gs_offset := 0\<rparr>"
  note r = ready_prepared [OF assms(1)]
  have A: "A \<noteq> []" using assms(1) by (simp add: ready_def)
  have n: "getopt_next n True False (prepared st) = getopt_skip st1 \<bind> getopt_next n True False"
    using getopt_next_update [OF assms(1,3)] assms(2) by (simp add: st1_def)
  have "\<exists>st'. getopt_skip st1 = Some st' \<and> prepared st' = st' \<and>
    \<not> gs_optreset st' \<and> ready st' (A @ Q) (P @ [Some s]) [] R"
  proof (cases "Q = []")
    case True
    then show ?thesis using r A
      by (cases "P = []") (auto simp: getopt_skip_def st1_def prepared_def ready_def Let_def)
  next
    case False
    then have P: "P \<noteq> []" using r by blast
    have "permute_args (int (length A)) (int (length (A @ P))) (int (length (A @ P @ Q))) (A @ P @ Q @ Some s # R)
        = Some (A @ Q @ P @ Some s # R)"
      using False by (intro permute_args_blocks) simp_all
    then show ?thesis using r A P False
      by (auto simp: getopt_skip_def st1_def prepared_def ready_def Let_def)
  qed
  then show ?thesis using n by auto
qed

lemma getopt_next_end:
  assumes "ready st A P Q R" "n = int (length (A @ P @ Q))"
  shows "\<exists>st'. getopt_next n True False (prepared st) = Some (Inl (-1, st')) \<and>
    gs_nargv st' = A @ Q @ P @ R \<and> gs_optind st' = int (length (A @ Q))"
proof -
  note r = ready_prepared [OF assms(1)]
  show ?thesis
  proof (cases "Q = []")
    case True
    then show ?thesis using r assms(2)
      by (subst getopt_next.simps) (auto simp: Let_def)
  next
    case False
    have "permute_args (int (length A)) (int (length (A @ P))) (int (length (A @ P @ Q))) (A @ P @ Q @ R)
        = Some (A @ Q @ P @ R)"
      using False by (intro permute_args_blocks) simp_all
    then show ?thesis using r False assms(2)
      by (subst getopt_next.simps) (auto simp: Let_def getopt_finish_def)
  qed
qed

subsection \<open>One option\<close>

text \<open>Where \<open>getopt_internal\<close> stands when it has found the option \<open>w\<close>.\<close>

definition at_option :: "getopt_state \<Rightarrow> string option list \<Rightarrow> string option list \<Rightarrow> string option list
    \<Rightarrow> string \<Rightarrow> string option list \<Rightarrow> bool" where
  "at_option st A P Q w R \<longleftrightarrow>
     gs_nargv st = A @ P @ Q @ Some w # R \<and> gs_optind st = int (length (A @ P @ Q)) \<and> A \<noteq> [] \<and>
     \<not> gs_optreset st \<and> gs_place st = w \<and> gs_offset st = 1 \<and> gs_optarg st = None \<and>
     gs_nonopt_start st = (if P = [] then -1 else int (length A)) \<and>
     gs_nonopt_end st = (if P = [] then -1 else int (length (A @ P))) \<and> (P = [] \<longrightarrow> Q = [])"

lemma getopt_next_option:
  assumes "ready st A P Q (Some w # R)" "\<not> is_word w" "w \<noteq> ''--''" "NUL \<notin> set w" "int (length (A @ P @ Q)) < n"
  shows "\<exists>st'. getopt_next n True False (prepared st) = Some (Inr st') \<and> at_option st' A P Q w R"
proof -
  note r = ready_prepared [OF assms(1)]
  have A: "A \<noteq> []" using assms(1) by (simp add: ready_def)
  obtain c t where w: "w = CHR ''-'' # c # t"
    using assms(2) by (cases w; cases "tl w") (auto simp: is_word_def at_def)
  have "\<not> (c = CHR ''-'' \<and> at w 2 = NUL)"
  proof (cases t)
    case Nil
    then show ?thesis using assms(3) w by auto
  next
    case (Cons d u)
    then have "at w 2 = d" "d \<noteq> NUL" using w assms(4) by (auto simp: at_def)
    then show ?thesis by simp
  qed
  moreover have "at w 1 = c" using w by (simp add: at_def)
  moreover have "gs_optarg (prepared st) = None" by (simp add: prepared_def Let_def)
  ultimately show ?thesis
    using r A assms(2) by (auto simp: getopt_next_update [OF assms(1,5)] at_option_def Let_def)
qed

lemma getopt_long_ready:
  assumes "ready st A P Q R" "at options 0 = CHR '':''"
  shows "getopt_long False n options longs st =
    (do { r \<leftarrow> getopt_next n True False (prepared st);
          case r of Inl x \<Rightarrow> Some x | Inr st \<Rightarrow> getopt_rest n options longs False st })"
proof -
  have "gs_optind st = int (length (A @ P @ Q))" "A \<noteq> []" using assms(1) by (simp_all add: ready_def)
  then have "gs_optind st \<noteq> 0" by (cases A) simp_all
  then show ?thesis using assms(2)
    by (simp add: getopt_long_def getopt_internal_def prepared_def Let_def)
qed

text \<open>The state after an option and its words \<open>ws\<close>.\<close>

definition passed :: "getopt_state \<Rightarrow> string option list \<Rightarrow> string option list \<Rightarrow> string option list
    \<Rightarrow> string option list \<Rightarrow> string option list \<Rightarrow> bool" where
  "passed st A P Q ws R \<longleftrightarrow> \<not> gs_optreset st \<and>
     ready st (if P = [] then A @ ws else A) P (if P = [] then [] else Q @ ws) R"

lemma passedI:
  assumes "at_option st A P Q w R" "gs_nargv st' = gs_nargv st" "\<not> gs_optreset st'"
    "at (gs_place st') (gs_offset st') = NUL" "gs_nonopt_start st' = gs_nonopt_start st"
    "gs_nonopt_end st' = gs_nonopt_end st" "Some w # R = ws @ R'" "gs_optind st' = gs_optind st + int (length ws)" "ws \<noteq> []"
  shows "passed st' A P Q ws R'"
  using assms by (auto simp: passed_def at_option_def ready_def split: if_splits)

text \<open>The letters that \<open>getopt_internal\<close> and \<open>arg_parse_tagged\<close> do not treat on their own.\<close>

definition option_letter :: "char \<Rightarrow> bool" where
  "option_letter c \<longleftrightarrow> c \<notin> set ''-:?W'' \<and> c \<noteq> NUL \<and> (of_char c :: int) < 128"

lemma option_letterD:
  "option_letter c \<Longrightarrow> c \<noteq> CHR ''-'' \<and> c \<noteq> CHR '':'' \<and> c \<noteq> CHR ''?'' \<and> c \<noteq> CHR ''W'' \<and> c \<noteq> NUL"
  by (simp add: option_letter_def)

lemma at_2: "at [a, b] 0 = a" "at [a, b] 1 = b" "at [a, b] 2 = NUL" "at [a, b] (Suc 0) = b" "at [a, b] (Suc (Suc 0)) = NUL"
  by (simp_all add: at_def)

lemma getopt_rest_letter:
  assumes "at_option st A P Q [CHR ''-'', c] R" "option_letter c" "dropWhile (\<lambda>d. d \<noteq> c) options = c # o2"
    "at o2 0 \<noteq> CHR '':''"
  shows "\<exists>st'. getopt_rest n options longs False st = Some (char_int c, st') \<and>
    gs_optarg st' = None \<and> passed st' A P Q [Some [CHR ''-'', c]] R"
proof -
  have st: "gs_place st = [CHR ''-'', c]" "gs_offset st = 1" "gs_optarg st = None" "\<not> gs_optreset st"
    using assms(1) by (simp_all add: at_option_def)
  have o1: "at (c # o2) 1 = at o2 0" by (simp add: at_def)
  let ?st = "st\<lparr>gs_offset := 2, gs_optind := gs_optind st + 1\<rparr>"
  have "getopt_rest n options longs False st = Some (char_int c, ?st)"
    using assms(3,4) option_letterD [OF assms(2)] o1
    by (simp add: getopt_rest_def getopt_short_def Let_def st at_2 numeral_2_eq_2 del: dropWhile_eq_Nil_conv)
  moreover have "passed ?st A P Q [Some [CHR ''-'', c]] R"
    by (rule passedI [OF assms(1)]) (simp_all add: st at_2)
  ultimately show ?thesis using st(3) by simp
qed

lemma getopt_rest_letter_value:
  assumes "at_option st A P Q [CHR ''-'', c] (Some v # R)" "option_letter c"
    "dropWhile (\<lambda>d. d \<noteq> c) options = c # CHR '':'' # o2" "at o2 0 \<noteq> CHR '':''"
    "int (length (A @ P @ Q)) + 1 < n"
  shows "\<exists>st'. getopt_rest n options longs False st = Some (char_int c, st') \<and>
    gs_optarg st' = Some v \<and> passed st' A P Q [Some [CHR ''-'', c], Some v] R"
proof -
  have st: "gs_place st = [CHR ''-'', c]" "gs_offset st = 1" "gs_optarg st = None" "\<not> gs_optreset st"
      "gs_optind st = int (length (A @ P @ Q))" "gs_nargv st = A @ P @ Q @ Some [CHR ''-'', c] # Some v # R"
    using assms(1) by (simp_all add: at_option_def)
  have o1: "at (c # CHR '':'' # o2) 1 = CHR '':''" "at (c # CHR '':'' # o2) 2 = at o2 0" by (simp_all add: at_def)
  have v: "rd (gs_nargv st) (gs_optind st + 1) = Some (Some v)"
    using rd_at_block [of "A" "P" "Q @ [Some [CHR ''-'', c]]" "Some v" R] st by (simp add: add.commute)
  let ?st = "st\<lparr>gs_offset := 0, gs_place := [], gs_optarg := Some v, gs_optind := gs_optind st + 2\<rparr>"
  have "getopt_rest n options longs False st = Some (char_int c, ?st)"
    using assms(3,4,5) option_letterD [OF assms(2)] o1 v st(5)
    by (simp add: getopt_rest_def getopt_short_def Let_def st(1-4) at_2 numeral_2_eq_2 del: dropWhile_eq_Nil_conv)
  moreover have "passed ?st A P Q [Some [CHR ''-'', c], Some v] R"
    by (rule passedI [OF assms(1)]) (simp_all add: st)
  ultimately show ?thesis by simp
qed

text \<open>The value in the same word.\<close>

lemma getopt_rest_letter_joined:
  assumes "at_option st A P Q (CHR ''-'' # c # d # s) R" "option_letter c" "d \<noteq> NUL"
    "dropWhile (\<lambda>d. d \<noteq> c) options = c # CHR '':'' # o2"
  shows "\<exists>st'. getopt_rest n options longs False st = Some (char_int c, st') \<and>
    gs_optarg st' = Some (d # s) \<and> passed st' A P Q [Some (CHR ''-'' # c # d # s)] R"
proof -
  have st: "gs_place st = CHR ''-'' # c # d # s" "gs_offset st = 1" "\<not> gs_optreset st"
    using assms(1) by (simp_all add: at_option_def)
  have a: "at (CHR ''-'' # c # d # s) 1 = c" "at (CHR ''-'' # c # d # s) (Suc 0) = c"
    "at (CHR ''-'' # c # d # s) 2 = d" "at (CHR ''-'' # c # d # s) (Suc (Suc 0)) = d" "at (c # CHR '':'' # o2) (Suc 0) = CHR '':''"
    by (simp_all add: at_def)
  let ?st = "st\<lparr>gs_offset := 0, gs_place := [], gs_optarg := Some (d # s), gs_optind := gs_optind st + 1\<rparr>"
  have "getopt_rest n options longs False st = Some (char_int c, ?st)"
    using assms(3,4) option_letterD [OF assms(2)]
    by (simp add: getopt_rest_def getopt_short_def Let_def st a numeral_2_eq_2 del: dropWhile_eq_Nil_conv)
  moreover have "passed ?st A P Q [Some (CHR ''-'' # c # d # s)] R"
    by (rule passedI [OF assms(1)]) (simp_all add: st)
  ultimately show ?thesis by simp
qed

text \<open>Inside a group of letters: the letter at \<open>k\<close> is next.\<close>

definition in_group :: "getopt_state \<Rightarrow> string option list \<Rightarrow> string option list \<Rightarrow> string option list
    \<Rightarrow> string \<Rightarrow> nat \<Rightarrow> string option list \<Rightarrow> bool" where
  "in_group st A P Q w k R \<longleftrightarrow> at_option (st\<lparr>gs_offset := 1\<rparr>) A P Q w R \<and> gs_offset st = k \<and> 0 < k"

lemma getopt_rest_group:
  assumes "in_group st A P Q w k R" "at w k = c" "option_letter c" "dropWhile (\<lambda>d. d \<noteq> c) options = c # o2"
    "at o2 0 \<noteq> CHR '':''"
  shows "\<exists>st'. getopt_rest n options longs False st = Some (char_int c, st') \<and> gs_optarg st' = None \<and>
    (if at w (Suc k) = NUL then passed st' A P Q [Some w] R else in_group st' A P Q w (Suc k) R)"
proof -
  have st: "gs_place st = w" "gs_offset st = k" "gs_optarg st = None" "\<not> gs_optreset st"
    using assms(1) by (simp_all add: in_group_def at_option_def)
  have o1: "at (c # o2) 1 = at o2 0" by (simp add: at_def)
  let ?more = "at w (Suc k) \<noteq> NUL"
  let ?st = "st\<lparr>gs_offset := Suc k, gs_optind := (if ?more then gs_optind st else gs_optind st + 1)\<rparr>"
  have "getopt_rest n options longs False st = Some (char_int c, ?st)"
    using assms(2,4,5) option_letterD [OF assms(3)] o1
    by (simp add: getopt_rest_def getopt_short_def Let_def st del: dropWhile_eq_Nil_conv)
  moreover have "passed ?st A P Q [Some w] R" if "\<not> ?more"
    by (rule passedI [of "st\<lparr>gs_offset := 1\<rparr>"]) (use assms(1) that in \<open>simp_all add: st in_group_def\<close>)
  moreover have "in_group ?st A P Q w (Suc k) R" if ?more
    using assms(1) that by (simp add: in_group_def at_option_def)
  ultimately show ?thesis using st(3) by auto
qed

lemma getopt_next_group:
  assumes "in_group st A P Q w k R" "at w k \<noteq> NUL"
  shows "getopt_next n True False (prepared st) = Some (Inr (prepared st))" "in_group (prepared st) A P Q w k R"
proof -
  have "prepared st = st" using assms(1) by (simp add: prepared_def in_group_def at_option_def Let_def)
  moreover have "\<not> gs_optreset st" "gs_place st = w" "gs_offset st = k"
    using assms(1) by (simp_all add: in_group_def at_option_def)
  ultimately show "getopt_next n True False (prepared st) = Some (Inr (prepared st))" "in_group (prepared st) A P Q w k R"
    using assms by (simp_all add: getopt_next.simps [of n True False st])
qed

text \<open>A long option given with its whole name.\<close>

lemma match_long_options_exact:
  assumes "p \<in> set ps" "opt_name p = name" "\<And>q. q \<in> set ps \<Longrightarrow> opt_name q = name \<Longrightarrow> opt_val q = opt_val p \<and> opt_has_arg q = opt_has_arg p \<and> opt_flag q = opt_flag p"
  shows "\<exists>j q b. match_long_options name short_too long_only ps i m second = (Some (j, q), True, b) \<and>
    opt_val q = opt_val p \<and> opt_has_arg q = opt_has_arg p \<and> opt_flag q = opt_flag p"
  using assms
proof (induction ps arbitrary: i m second)
  case (Cons r ps)
  show ?case
  proof (cases "opt_name r = name")
    case True
    then show ?thesis using Cons.prems(3) [of r] by simp
  next
    case False
    then have "p \<in> set ps" using Cons.prems(1,2) by auto
    have *: "\<exists>j q b. match_long_options name short_too long_only ps i m second = (Some (j, q), True, b) \<and>
      opt_val q = opt_val p \<and> opt_has_arg q = opt_has_arg p \<and> opt_flag q = opt_flag p" for i m second
      by (rule Cons.IH [OF \<open>p \<in> set ps\<close> Cons.prems(2)]) (rule Cons.prems(3); simp)
    have n: "take (length name) (opt_name r) = name \<Longrightarrow> length (opt_name r) \<noteq> length name" using False by auto
    have "\<exists>m' s'. match_long_options name short_too long_only (r # ps) i m second
        = match_long_options name short_too long_only ps (i + 1) m' s'"
    proof (cases "take (length name) (opt_name r) = name \<and> \<not> (short_too \<and> length name = 1)")
      case True
      then have l: "length (opt_name r) \<noteq> length name" using n by blast
      show ?thesis
      proof (cases m)
        case None
        then have "match_long_options name short_too long_only (r # ps) i m second
            = match_long_options name short_too long_only ps (i + 1) (Some (i, r)) second"
          using True l by auto
        then show ?thesis by blast
      next
        case (Some k)
        then have "match_long_options name short_too long_only (r # ps) i m second
            = match_long_options name short_too long_only ps (i + 1) m
              (second \<or> long_only \<or> opt_has_arg r \<noteq> opt_has_arg (snd k) \<or> opt_flag r \<noteq> opt_flag (snd k) \<or>
               opt_val r \<noteq> opt_val (snd k))"
          using True l by (cases k) auto
        then show ?thesis by blast
      qed
    next
      case False
      then show ?thesis using n by (cases "take (length name) (opt_name r) = name") auto
    qed
    then obtain m' s' where "match_long_options name short_too long_only (r # ps) i m second
        = match_long_options name short_too long_only ps (i + 1) m' s'" by blast
    then show ?thesis using * [of "i + 1" m' s'] by (simp only: simp_thms)
  qed
qed simp

text \<open>The names a table gives to an entry, the first entry that has a name counting.\<close>

definition long_names :: "arg \<Rightarrow> string list" where
  "long_names a = (case hdr_longopts a of None \<Rightarrow> [] | Some s \<Rightarrow> option_names s)"

definition short_names :: "arg \<Rightarrow> string" where
  "short_names a = (case hdr_shortopts a of None \<Rightarrow> [] | Some s \<Rightarrow> s)"

lemma getopt_rest_long:
  assumes "at_option st A P Q (''--'' @ name) R" "name \<noteq> []" "NUL \<notin> set name" "CHR ''='' \<notin> set name"
    "p \<in> set longs" "opt_name p = name" "opt_flag p" "opt_has_arg p = no_argument"
    "\<And>q. q \<in> set longs \<Longrightarrow> opt_name q = name \<Longrightarrow> opt_val q = opt_val p \<and> opt_has_arg q = opt_has_arg p \<and> opt_flag q = opt_flag p"
  shows "\<exists>st'. getopt_rest n options longs False st = Some (0, st') \<and> gs_flag st' = opt_val p \<and>
    gs_optarg st' = None \<and> passed st' A P Q [Some (''--'' @ name)] R"
proof -
  have st: "gs_place st = CHR ''-'' # CHR ''-'' # name" "gs_offset st = 1" "gs_optarg st = None" "\<not> gs_optreset st"
    using assms(1) by (simp_all add: at_option_def)
  have a: "at (CHR ''-'' # CHR ''-'' # name) (Suc 0) = CHR ''-''"
    "at (CHR ''-'' # CHR ''-'' # name) (Suc (Suc 0)) \<noteq> NUL"
    using assms(2,3) by (cases name; auto simp: at_def)+
  have e: "takeWhile (\<lambda>c. c \<noteq> CHR ''='') name = name" using assms(4) by (auto simp: takeWhile_eq_all_conv)
  obtain j q b where m: "match_long_options name False False longs 0 None False = (Some (j, q), True, b)"
    "opt_val q = opt_val p" "opt_has_arg q = opt_has_arg p" "opt_flag q = opt_flag p"
    using match_long_options_exact [OF assms(5,6,9)] by blast
  let ?st = "st\<lparr>gs_optind := gs_optind st + 1, gs_flag := opt_val p, gs_place := [], gs_offset := 0\<rparr>"
  have "getopt_rest n options longs False st = Some (0, ?st)"
    using assms(7,8) m a by (simp add: getopt_rest_def parse_long_options_def Let_def st e)
  moreover have "passed ?st A P Q [Some (''--'' @ name)] R"
    by (rule passedI [OF assms(1)]) (simp_all add: st)
  ultimately show ?thesis using st(3) by simp
qed

lemma getopt_rest_long_value:
  assumes "at_option st A P Q (''--'' @ name) (Some v # R)" "name \<noteq> []" "NUL \<notin> set name" "CHR ''='' \<notin> set name"
    "p \<in> set longs" "opt_name p = name" "opt_flag p" "opt_has_arg p = required_argument"
    "\<And>q. q \<in> set longs \<Longrightarrow> opt_name q = name \<Longrightarrow> opt_val q = opt_val p \<and> opt_has_arg q = opt_has_arg p \<and> opt_flag q = opt_flag p"
  shows "\<exists>st'. getopt_rest n options longs False st = Some (0, st') \<and> gs_flag st' = opt_val p \<and>
    gs_optarg st' = Some v \<and> passed st' A P Q [Some (''--'' @ name), Some v] R"
proof -
  have st: "gs_place st = CHR ''-'' # CHR ''-'' # name" "gs_offset st = 1" "gs_optarg st = None" "\<not> gs_optreset st"
      "gs_optind st = int (length (A @ P @ Q))" "gs_nargv st = A @ P @ Q @ Some (''--'' @ name) # Some v # R"
    using assms(1) by (simp_all add: at_option_def)
  have a: "at (CHR ''-'' # CHR ''-'' # name) (Suc 0) = CHR ''-''"
    "at (CHR ''-'' # CHR ''-'' # name) (Suc (Suc 0)) \<noteq> NUL"
    using assms(2,3) by (cases name; auto simp: at_def)+
  have v: "rd (gs_nargv st) (gs_optind st + 1) = Some (Some v)"
    using rd_at_block [of "A" "P" "Q @ [Some (''--'' @ name)]" "Some v" R] st(5,6) by (simp add: add.commute)
  have e: "takeWhile (\<lambda>c. c \<noteq> CHR ''='') name = name" using assms(4) by (auto simp: takeWhile_eq_all_conv)
  obtain j q b where m: "match_long_options name False False longs 0 None False = (Some (j, q), True, b)"
    "opt_val q = opt_val p" "opt_has_arg q = opt_has_arg p" "opt_flag q = opt_flag p"
    using match_long_options_exact [OF assms(5,6,9)] by blast
  let ?st = "st\<lparr>gs_optind := gs_optind st + 2, gs_flag := opt_val p, gs_optarg := Some v, gs_place := [], gs_offset := 0\<rparr>"
  have "getopt_rest n options longs False st = Some (0, ?st)"
    using assms(7,8) m a v by (simp add: getopt_rest_def parse_long_options_def Let_def st(1-4) e)
  moreover have "passed ?st A P Q [Some (''--'' @ name), Some v] R"
    by (rule passedI [OF assms(1)]) (simp_all add: st)
  ultimately show ?thesis by simp
qed

lemma getopt_rest_long_joined:
  assumes "at_option st A P Q (''--'' @ name @ CHR ''='' # v) R" "name \<noteq> []" "NUL \<notin> set name" "CHR ''='' \<notin> set name"
    "p \<in> set longs" "opt_name p = name" "opt_flag p" "opt_has_arg p = required_argument"
    "\<And>q. q \<in> set longs \<Longrightarrow> opt_name q = name \<Longrightarrow> opt_val q = opt_val p \<and> opt_has_arg q = opt_has_arg p \<and> opt_flag q = opt_flag p"
  shows "\<exists>st'. getopt_rest n options longs False st = Some (0, st') \<and> gs_flag st' = opt_val p \<and>
    gs_optarg st' = Some v \<and> passed st' A P Q [Some (''--'' @ name @ CHR ''='' # v)] R"
proof -
  have st: "gs_place st = CHR ''-'' # CHR ''-'' # name @ CHR ''='' # v" "gs_offset st = 1" "gs_optarg st = None" "\<not> gs_optreset st"
    using assms(1) by (simp_all add: at_option_def)
  have a: "at (CHR ''-'' # CHR ''-'' # name @ CHR ''='' # v) (Suc 0) = CHR ''-''"
    "at (CHR ''-'' # CHR ''-'' # name @ CHR ''='' # v) (Suc (Suc 0)) \<noteq> NUL"
    using assms(2,3) by (cases name; auto simp: at_def)+
  have e: "takeWhile (\<lambda>c. c \<noteq> CHR ''='') (name @ CHR ''='' # v) = name" using assms(4) by (induction name) auto
  obtain j q b where m: "match_long_options name False False longs 0 None False = (Some (j, q), True, b)"
    "opt_val q = opt_val p" "opt_has_arg q = opt_has_arg p" "opt_flag q = opt_flag p"
    using match_long_options_exact [OF assms(5,6,9)] by blast
  let ?st = "st\<lparr>gs_optind := gs_optind st + 1, gs_flag := opt_val p, gs_optarg := Some v, gs_place := [], gs_offset := 0\<rparr>"
  have "getopt_rest n options longs False st = Some (0, ?st)"
    using assms(7,8) m a by (simp add: getopt_rest_def parse_long_options_def Let_def st e)
  moreover have "passed ?st A P Q [Some (''--'' @ name @ CHR ''='' # v)] R"
    by (rule passedI [OF assms(1)]) (simp_all add: st)
  ultimately show ?thesis by simp
qed

subsection \<open>The lists made from a table\<close>

text \<open>As the constructors make them: no optional values, and letters that are no punctuation.\<close>

definition plain_entry :: "arg \<Rightarrow> bool" where
  "plain_entry a \<longleftrightarrow> (hdr_flag a = 0 \<or> hdr_flag a = ARG_HASVALUE) \<and> list_all option_letter (short_names a)"

definition letters_of :: "arg \<Rightarrow> string" where
  "letters_of a = concat (map (\<lambda>c. c # (if hdr_flag a = ARG_HASVALUE then '':'' else [])) (short_names a))"

lemma alloc_shortoptions_plain:
  "list_all plain_entry entries \<Longrightarrow> alloc_shortoptions entries = CHR '':'' # concat (map letters_of entries)"
proof (induction entries)
  case (Cons a entries)
  then show ?case
    by (auto simp: alloc_shortoptions_def letters_of_def plain_entry_def short_names_def split: option.splits)
qed (simp add: alloc_shortoptions_def)

lemma at_append: "at (xs @ ys) 0 = (if xs = [] then at ys 0 else at xs 0)"
  by (cases xs) (simp_all add: at_def)

lemma no_colon_first:
  "list_all plain_entry entries \<Longrightarrow> at (concat (map letters_of entries)) 0 \<noteq> CHR '':''"
proof (induction entries)
  case (Cons a entries)
  show ?case
  proof (cases "short_names a")
    case Nil
    then show ?thesis using Cons by (simp add: letters_of_def)
  next
    case (Cons c s)
    then show ?thesis using Cons.prems by (auto simp: letters_of_def plain_entry_def at_def option_letter_def)
  qed
qed simp

lemma dropWhile_letters:
  assumes "c \<in> set s" "c \<noteq> CHR '':''" "v = [] \<or> v = '':''"
  shows "\<exists>s'. dropWhile (\<lambda>d. d \<noteq> c) (concat (map (\<lambda>d. d # v) s) @ rest)
    = c # v @ concat (map (\<lambda>d. d # v) s') @ rest \<and> set s' \<subseteq> set s"
  using assms(1)
proof (induction s)
  case (Cons d s)
  show ?case
  proof (cases "d = c")
    case True
    then show ?thesis by (intro exI [of _ s]) auto
  next
    case False
    then have "c \<in> set s" using Cons.prems by auto
    then show ?thesis using Cons.IH False assms(2,3) by (elim disjE) auto
  qed
qed simp

lemma dropWhile_no_letters:
  assumes "c \<notin> set s" "c \<noteq> CHR '':''" "v = [] \<or> v = '':''"
  shows "dropWhile (\<lambda>d. d \<noteq> c) (concat (map (\<lambda>d. d # v) s) @ rest) = dropWhile (\<lambda>d. d \<noteq> c) rest"
  using assms by (induction s) auto

lemma letters_found:
  assumes "list_all plain_entry entries" "i < length entries" "c \<in> set (short_names (entries ! i))"
    "\<And>j. j < i \<Longrightarrow> c \<notin> set (short_names (entries ! j))"
  shows "\<exists>o2. dropWhile (\<lambda>d. d \<noteq> c) (concat (map letters_of entries))
    = c # (if hdr_flag (entries ! i) = ARG_HASVALUE then '':'' else []) @ o2 \<and> at o2 0 \<noteq> CHR '':''"
  using assms
proof (induction entries arbitrary: i)
  case (Cons a entries)
  have c: "c \<noteq> CHR '':''"
    using Cons.prems(1-3) by (force simp: list_all_length plain_entry_def option_letter_def in_set_conv_nth)
  show ?case
  proof (cases i)
    case 0
    define v where "v = (if hdr_flag a = ARG_HASVALUE then '':'' else [])"
    have v: "v = [] \<or> v = '':''" "letters_of a = concat (map (\<lambda>d. d # v) (short_names a))"
      by (simp_all add: v_def letters_of_def)
    obtain s' where s': "dropWhile (\<lambda>d. d \<noteq> c) (letters_of a @ concat (map letters_of entries))
        = c # v @ concat (map (\<lambda>d. d # v) s') @ concat (map letters_of entries)" "set s' \<subseteq> set (short_names a)"
      using dropWhile_letters [OF _ c v(1)] Cons.prems(3) 0 v(2) by fastforce
    have "at (concat (map (\<lambda>d. d # v) s') @ concat (map letters_of entries)) 0 \<noteq> CHR '':''"
      using no_colon_first [of entries] s'(2) Cons.prems(1)
      by (cases s') (auto simp: at_def plain_entry_def list_all_iff option_letter_def)
    then show ?thesis using s'(1) 0 by (auto simp: v_def)
  next
    case (Suc k)
    have "c \<notin> set (short_names a)" using Cons.prems(4) [of 0] Suc by simp
    then have "dropWhile (\<lambda>d. d \<noteq> c) (concat (map letters_of (a # entries)))
        = dropWhile (\<lambda>d. d \<noteq> c) (concat (map letters_of entries))"
      using c dropWhile_no_letters [of c "short_names a" "[]"] dropWhile_no_letters [of c "short_names a" "'':''"]
      by (cases "hdr_flag a = ARG_HASVALUE") (simp_all add: letters_of_def)
    moreover have "\<And>j. j < k \<Longrightarrow> c \<notin> set (short_names (entries ! j))"
      using Cons.prems(4) [of "Suc j" for j] Suc by simp
    ultimately show ?thesis using Cons.IH [of k] Cons.prems(1-3) Suc by simp
  qed
qed simp

lemma find_shortoption_found:
  assumes "i < length entries" "c \<in> set (short_names (entries ! i))" "c \<noteq> NUL"
    "\<And>j. j < i \<Longrightarrow> c \<notin> set (short_names (entries ! j))"
  shows "find_shortoption k entries c = k + int i"
  using assms
proof (induction entries arbitrary: i k)
  case (Cons a entries)
  show ?case
  proof (cases i)
    case 0
    then show ?thesis using Cons.prems(2) by (auto simp: short_names_def split: option.splits)
  next
    case (Suc n)
    have "c \<notin> set (short_names a)" using Cons.prems(4) [of 0] Suc by simp
    then have "find_shortoption k (a # entries) c = find_shortoption (k + 1) entries c"
      using Cons.prems(3) by (auto simp: short_names_def split: option.splits)
    moreover have "\<And>j. j < n \<Longrightarrow> c \<notin> set (short_names (entries ! j))"
      using Cons.prems(4) [of "Suc j" for j] Suc by simp
    ultimately show ?thesis using Cons.IH [of n "k + 1"] Cons.prems(1-3) Suc by simp
  qed
qed simp

lemma in_table_options:
  "q \<in> set (table_options k entries) \<longleftrightarrow>
   (\<exists>j < length entries. \<exists>name \<in> set (long_names (entries ! j)).
      q = \<lparr>opt_name = name, opt_has_arg = has_arg_of (entries ! j), opt_flag = True, opt_val = k + int j\<rparr>)"
proof (induction entries arbitrary: k)
  case (Cons a entries)
  show ?case
    unfolding length_Cons Ex_less_Suc2
    by (auto simp: Cons.IH long_names_def [of a, symmetric] add.assoc)
qed simp

subsection \<open>A command line\<close>

text \<open>
  The words of a command line: a word that is no option; an option of the entry \<open>i\<close> written as \<open>w\<close>,
  its letter or its name, with the value it takes in the next word or in the same one
  (\<open>-xvalue\<close>, \<open>--name=value\<close>); or a group of letters without values behind one dash.
\<close>

datatype item = Plain string | Option nat string "string option" | Joined nat string string
  | Group "(nat \<times> char) list"

fun item_words :: "item \<Rightarrow> string list" where
  "item_words (Plain s) = [s]"
| "item_words (Option i w v) = w # (case v of None \<Rightarrow> [] | Some s \<Rightarrow> [s])"
| "item_words (Joined i w s) = [w @ (if take 2 w = ''--'' then CHR ''='' # s else s)]"
| "item_words (Group cs) = [CHR ''-'' # map snd cs]"

text \<open>The entries an item gives a value, in order.\<close>

fun item_reads :: "item \<Rightarrow> (nat \<times> string option) list" where
  "item_reads (Plain s) = []"
| "item_reads (Option i w v) = [(i, v)]"
| "item_reads (Joined i w s) = [(i, Some s)]"
| "item_reads (Group cs) = map (\<lambda>(i, c). (i, None)) cs"

definition option_word :: "arg list \<Rightarrow> nat \<Rightarrow> string \<Rightarrow> bool" where
  "option_word entries i w \<longleftrightarrow> i < length entries \<and>
     (if take 2 w = ''--'' then
        (let name = drop 2 w in name \<noteq> [] \<and> NUL \<notin> set name \<and> CHR ''='' \<notin> set name \<and>
          name \<in> set (long_names (entries ! i)) \<and>
          (\<forall>j < length entries. j \<noteq> i \<longrightarrow> name \<notin> set (long_names (entries ! j))))
      else \<exists>c \<in> set (short_names (entries ! i)). w = [CHR ''-'', c] \<and>
          (\<forall>j < i. c \<notin> set (short_names (entries ! j))))"

definition takes_value :: "arg list \<Rightarrow> nat \<Rightarrow> string option \<Rightarrow> bool" where
  "takes_value entries i v =
     (case v of None \<Rightarrow> hdr_flag (entries ! i) = 0 | Some s \<Rightarrow> hdr_flag (entries ! i) = ARG_HASVALUE \<and> s \<noteq> [])"

definition item_ok :: "arg list \<Rightarrow> item \<Rightarrow> bool" where
  "item_ok entries x =
     (case x of
        Plain s \<Rightarrow> is_word s
      | Option i w v \<Rightarrow> option_word entries i w \<and> takes_value entries i v
      | Joined i w s \<Rightarrow> option_word entries i w \<and> takes_value entries i (Some s) \<and> NUL \<notin> set s
      | Group cs \<Rightarrow> cs \<noteq> [] \<and>
          list_all (\<lambda>(i, c). option_word entries i [CHR ''-'', c] \<and> takes_value entries i None) cs)"

text \<open>The reference: every option is scanned, in order.\<close>

fun scan_reads :: "(nat \<times> string option) list \<Rightarrow> arg list \<Rightarrow> arg_end \<Rightarrow> (arg list \<times> arg_end) option" where
  "scan_reads [] entries e = Some (entries, e)"
| "scan_reads ((i, v) # rs) entries e = do {
     (entries, e) \<leftarrow> arg_scan_report (int i) v entries e;
     scan_reads rs entries e }"

definition scan_items :: "item list \<Rightarrow> arg list \<Rightarrow> arg_end \<Rightarrow> (arg list \<times> arg_end) option" where
  "scan_items xs = scan_reads (concat (map item_reads xs))"

definition option_words :: "item list \<Rightarrow> string list" where
  "option_words xs = concat (map (\<lambda>x. case x of Plain s \<Rightarrow> [] | _ \<Rightarrow> item_words x) xs)"

definition plain_words :: "item list \<Rightarrow> string list" where
  "plain_words xs = concat (map (\<lambda>x. case x of Plain s \<Rightarrow> [s] | _ \<Rightarrow> []) xs)"

lemma scan_reads_one [simp]: "scan_reads [(i, v)] entries e = arg_scan_report (int i) v entries e"
  by (cases "arg_scan_report (int i) v entries e") auto

lemma scan_reads_append:
  "scan_reads (rs @ qs) entries e = scan_reads rs entries e \<bind> (\<lambda>(entries, e). scan_reads qs entries e)"
  by (induction rs entries e rule: scan_reads.induct) (auto split: Option.bind_split)

lemma scan_items_simps [simp]:
  "scan_items [] entries e = Some (entries, e)"
  "scan_items (Plain s # xs) entries e = scan_items xs entries e"
  "scan_items (x # xs) entries e = scan_reads (item_reads x) entries e \<bind> (\<lambda>(entries, e). scan_items xs entries e)"
  by (simp_all add: scan_items_def scan_reads_append)

text \<open>Scanning keeps the headers, on which the option lists depend.\<close>

definition same_headers :: "arg list \<Rightarrow> arg list \<Rightarrow> bool" where
  "same_headers xs ys \<longleftrightarrow> map arg_hdr.truncate xs = map arg_hdr.truncate ys"

lemma arg_scanfn_header: "arg_scanfn a v = Some (r, a') \<Longrightarrow> arg_hdr.truncate a' = arg_hdr.truncate a"
  by (auto simp: arg_scanfn_def arg_lit_scanfn_def arg_int_scanfn_def arg_str_scanfn_def arg_rex_scanfn_def
      arg_hdr.truncate_def Let_def split: arg_data.splits if_splits option.splits bind_splits prod.splits sum.splits)

lemma arg_scan_report_headers:
  assumes "arg_scan_report i v entries e = Some (entries', e')"
  shows "same_headers entries' entries"
proof -
  obtain a' r where h: "arg_scanfn (entries ! nat i) v = Some (r, a')" "entries' = entries[nat i := a']"
    using assms by (auto simp: arg_scan_report_def arg_scan_def rd_def wr_def split: bind_splits prod.splits if_splits)
  have "map arg_hdr.truncate entries' = map arg_hdr.truncate (entries[nat i := entries ! nat i])"
    unfolding h(2) map_update using arg_scanfn_header [OF h(1)] by simp
  then show ?thesis by (simp add: same_headers_def)
qed

lemma same_headersD:
  assumes "same_headers xs ys"
  shows "length xs = length ys"
    and "i < length ys \<Longrightarrow> hdr_flag (xs ! i) = hdr_flag (ys ! i) \<and> hdr_shortopts (xs ! i) = hdr_shortopts (ys ! i)"
proof -
  show "length xs = length ys" using assms map_eq_imp_length_eq by (auto simp: same_headers_def)
  moreover have "map arg_hdr.truncate xs ! i = map arg_hdr.truncate ys ! i" using assms by (simp only: same_headers_def)
  ultimately have "i < length ys \<Longrightarrow> arg_hdr.truncate (xs ! i) = arg_hdr.truncate (ys ! i)" by (simp only: nth_map)
  then show "i < length ys \<Longrightarrow> hdr_flag (xs ! i) = hdr_flag (ys ! i) \<and> hdr_shortopts (xs ! i) = hdr_shortopts (ys ! i)"
    by (simp add: arg_hdr.truncate_def)
qed

lemma same_headers_short: "same_headers xs ys \<Longrightarrow> i < length ys \<Longrightarrow> short_names (xs ! i) = short_names (ys ! i)"
  using same_headersD(2) [of xs ys i] by (simp add: short_names_def)

lemma option_letter_int:
  assumes "option_letter c"
  shows "char_int c \<noteq> -1 \<and> char_int c \<noteq> 0 \<and> char_int c \<noteq> 63 \<and> char_int c \<noteq> 58 \<and> char_of (char_int c) = c"
proof -
  have i: "char_int c = of_char c" using assms by (simp add: option_letter_def char_int_def)
  have "(of_char c :: int) \<noteq> of_char NUL" "(of_char c :: int) \<noteq> of_char (CHR ''?'')" "(of_char c :: int) \<noteq> of_char (CHR '':'')"
    using assms by (simp_all only: of_char_eq_iff) (simp_all add: option_letter_def)
  moreover have "(0 :: int) \<le> of_char c" using of_nat_of_char [of c, where 'a = int] by (metis of_nat_0_le_iff)
  ultimately show ?thesis unfolding i by simp
qed

lemma same_headers_trans: "same_headers xs ys \<Longrightarrow> same_headers ys zs \<Longrightarrow> same_headers xs zs"
  by (simp add: same_headers_def)

text \<open>One turn of the loop for an option, by the two kinds of codes \<open>getopt_long\<close> returns.\<close>

lemma tagged_turn:
  assumes "getopt_long False n os ls st = Some (code, st')" "code \<noteq> -1"
    "arg_tagged code st' entries e = arg_scan_report (int i) v entries e"
  shows "arg_tagged_loop False n os ls st entries e = do {
      (entries, e) \<leftarrow> arg_scan_report (int i) v entries e;
      arg_tagged_loop False n os ls st' entries e }"
  using assms by (simp add: arg_tagged_loop.simps [of False n os ls st])

lemma tagged_long:
  assumes "i < length entries" "gs_flag st' = int i" "gs_optarg st' = v" "v \<noteq> Some []"
  shows "arg_tagged 0 st' entries e = arg_scan_report (int i) v entries e"
  using assms by (simp add: arg_tagged_def rd_nat)

lemma tagged_letter:
  assumes "same_headers entries entries0" "option_letter c" "option_word entries0 i [CHR ''-'', c]" "gs_optarg st' = v"
  shows "arg_tagged (char_int c) st' entries e = arg_scan_report (int i) v entries e" "char_int c \<noteq> -1"
proof -
  have c: "i < length entries0" "c \<in> set (short_names (entries0 ! i))" "\<And>j. j < i \<Longrightarrow> c \<notin> set (short_names (entries0 ! j))"
    using assms(3) option_letterD [OF assms(2)] by (auto simp: option_word_def)
  have "find_shortoption 0 entries c = int i"
    using find_shortoption_found [of i entries c 0] c same_headersD(1) [OF assms(1)]
      same_headers_short [OF assms(1)] option_letterD [OF assms(2)] by simp
  then show "arg_tagged (char_int c) st' entries e = arg_scan_report (int i) v entries e"
    using assms(4) option_letter_int [OF assms(2)] by (simp add: arg_tagged_def char_int_def [of "CHR '':''"])
  show "char_int c \<noteq> -1" using option_letter_int [OF assms(2)] by blast
qed

lemma letter_options:
  assumes "list_all plain_entry entries0" "option_word entries0 i w" "take 2 w \<noteq> ''--''"
  obtains c o2 where "w = [CHR ''-'', c]" "option_letter c"
    "dropWhile (\<lambda>d. d \<noteq> c) (alloc_shortoptions entries0)
       = c # (if hdr_flag (entries0 ! i) = ARG_HASVALUE then '':'' else []) @ o2" "at o2 0 \<noteq> CHR '':''"
proof -
  obtain c where c: "i < length entries0" "w = [CHR ''-'', c]" "c \<in> set (short_names (entries0 ! i))"
      "\<And>j. j < i \<Longrightarrow> c \<notin> set (short_names (entries0 ! j))"
    using assms(2,3) by (auto simp: option_word_def)
  have l: "option_letter c" using assms(1) c(3) nth_mem [OF c(1)] by (auto simp: plain_entry_def list_all_iff)
  show ?thesis
    using that [OF c(2) l] letters_found [OF assms(1) c(1,3,4)] option_letterD [OF l]
    by (auto simp: alloc_shortoptions_plain [OF assms(1)])
qed

lemma letter_word:
  assumes "list_all plain_entry entries0" "option_word entries0 i [CHR ''-'', c]"
  shows "take 2 [CHR ''-'', c] \<noteq> ''--''" "option_letter c" "c \<noteq> NUL" "c \<noteq> CHR ''-''"
proof -
  show "take 2 [CHR ''-'', c] \<noteq> ''--''" using assms(2) by (auto simp: option_word_def Let_def)
  then show l: "option_letter c" by (rule letter_options [OF assms]) simp
  show "c \<noteq> NUL" "c \<noteq> CHR ''-''" using option_letterD [OF l] by simp_all
qed

lemma long_option:
  assumes "option_word entries0 i w" "take 2 w = ''--''"
  obtains name p where "w = ''--'' @ name" "name \<noteq> []" "NUL \<notin> set name" "CHR ''='' \<notin> set name"
    "p \<in> set (table_options 0 entries0)" "opt_name p = name" "opt_flag p" "opt_val p = int i"
    "opt_has_arg p = has_arg_of (entries0 ! i)"
    "\<And>q. q \<in> set (table_options 0 entries0) \<Longrightarrow> opt_name q = name \<Longrightarrow>
       opt_val q = opt_val p \<and> opt_has_arg q = opt_has_arg p \<and> opt_flag q = opt_flag p"
proof -
  define name where "name = drop 2 w"
  have w: "w = ''--'' @ name" using assms(2) append_take_drop_id [of 2 w] by (simp add: name_def)
  have nm: "i < length entries0" "name \<noteq> []" "NUL \<notin> set name" "CHR ''='' \<notin> set name" "name \<in> set (long_names (entries0 ! i))"
    "\<And>j. j < length entries0 \<Longrightarrow> j \<noteq> i \<Longrightarrow> name \<notin> set (long_names (entries0 ! j))"
    using assms by (auto simp: option_word_def name_def [symmetric] Let_def)
  define p where "p = \<lparr>opt_name = name, opt_has_arg = has_arg_of (entries0 ! i), opt_flag = True, opt_val = 0 + int i\<rparr>"
  have p: "p \<in> set (table_options 0 entries0)" "opt_name p = name" "opt_flag p" "opt_val p = int i"
    "opt_has_arg p = has_arg_of (entries0 ! i)"
    using nm(1,5) by (auto simp: p_def in_table_options)
  have "opt_val q = opt_val p \<and> opt_has_arg q = opt_has_arg p \<and> opt_flag q = opt_flag p"
    if q: "q \<in> set (table_options 0 entries0)" "opt_name q = name" for q
  proof -
    obtain j where j: "j < length entries0" "name \<in> set (long_names (entries0 ! j))"
      "q = \<lparr>opt_name = name, opt_has_arg = has_arg_of (entries0 ! j), opt_flag = True, opt_val = 0 + int j\<rparr>"
      using q by (auto simp: in_table_options)
    then have "j = i" using nm(6) by blast
    then show ?thesis using j(3) by (simp add: p_def)
  qed
  then show ?thesis using that [OF w nm(2-4) p] by blast
qed

text \<open>One option with or without its value, in one of the two kinds of spelling.\<close>

definition spells :: "string list \<Rightarrow> string \<Rightarrow> string option \<Rightarrow> bool" where
  "spells ws w v \<longleftrightarrow> ws = w # (case v of None \<Rightarrow> [] | Some s \<Rightarrow> [s]) \<or>
     (\<exists>s. v = Some s \<and> NUL \<notin> set s \<and> ws = [w @ (if take 2 w = ''--'' then CHR ''='' # s else s)])"

lemma option_step:
  assumes plain: "list_all plain_entry entries0" and same: "same_headers entries entries0"
    and ow: "option_word entries0 i w" and tv: "takes_value entries0 i v" and ws: "spells ws w v"
    and r: "ready st A P Q (map Some ws @ R)"
    and n: "int (length (A @ P @ Q) + length ws) \<le> n"
  shows "\<exists>st'. passed st' A P Q (map Some ws) R \<and>
    arg_tagged_loop False n (alloc_shortoptions entries0) (table_options 0 entries0) st entries e = do {
      (entries, e) \<leftarrow> arg_scan_report (int i) v entries e;
      arg_tagged_loop False n (alloc_shortoptions entries0) (table_options 0 entries0) st' entries e }"
proof -
  let ?o = "alloc_shortoptions entries0" and ?l = "table_options 0 entries0"
  have o0: "at ?o 0 = CHR '':''" using plain by (simp add: alloc_shortoptions_plain at_def)
  have i: "i < length entries" using ow same_headersD(1) [OF same] by (simp add: option_word_def)
  have v: "v \<noteq> Some []" "\<And>s. v = Some s \<Longrightarrow> s \<noteq> []" using tv by (auto simp: takes_value_def)
  obtain W ws' where W: "ws = W # ws'" using ws by (auto simp: spells_def)
  have r': "ready st A P Q (Some W # map Some ws' @ R)" using r W by simp
  have nn: "int (length (A @ P @ Q)) < n" using n W by simp
  have step: "getopt_long False n ?o ?l st = Some (code, st')"
    if "getopt_next n True False (prepared st) = Some (Inr st1)" "getopt_rest n ?o ?l False st1 = Some (code, st')" for st1 code st'
    using getopt_long_ready [OF r' o0] that by simp
  show ?thesis
  proof (cases "take 2 w = ''--''")
    case True
    obtain name p where nm: "w = ''--'' @ name" "name \<noteq> []" "NUL \<notin> set name" "CHR ''='' \<notin> set name"
      and p: "p \<in> set ?l" "opt_name p = name" "opt_flag p" "opt_val p = int i" "opt_has_arg p = has_arg_of (entries0 ! i)"
      and u: "\<And>q. q \<in> set ?l \<Longrightarrow> opt_name q = name \<Longrightarrow>
         opt_val q = opt_val p \<and> opt_has_arg q = opt_has_arg p \<and> opt_flag q = opt_flag p"
      by (rule long_option [OF ow True]) blast
    note args = nm(2-4) p(1-3)
    obtain st1 where st1: "getopt_next n True False (prepared st) = Some (Inr st1)" "at_option st1 A P Q W (map Some ws' @ R)"
      using getopt_next_option [OF r' _ _ _ nn] ws W nm(1-3)
      by (auto simp: is_word_def at_def spells_def split: option.splits)
    have "\<exists>st'. getopt_rest n ?o ?l False st1 = Some (0, st') \<and> gs_flag st' = int i \<and> gs_optarg st' = v \<and>
        passed st' A P Q (map Some ws) R"
    proof (cases v)
      case None
      then have h: "opt_has_arg p = no_argument" using tv p(5) by (simp add: takes_value_def has_arg_of_def)
      have *: "ws = [''--'' @ name]" using ws None nm(1) by (simp add: spells_def)
      show ?thesis
        using getopt_rest_long [of st1 A P Q name R, OF _ args h u] st1(2) p(4) None W * by simp
    next
      case (Some s)
      then have h: "opt_has_arg p = required_argument" using tv p(5) by (simp add: takes_value_def has_arg_of_def)
      consider "ws = [''--'' @ name, s]" | "ws = [''--'' @ name @ CHR ''='' # s]"
        using ws Some nm(1) by (auto simp: spells_def)
      then show ?thesis
      proof cases
        case 1
        then show ?thesis
          using getopt_rest_long_value [of st1 A P Q name s R, OF _ args h u] st1(2) p(4) Some W by simp
      next
        case 2
        then show ?thesis
          using getopt_rest_long_joined [of st1 A P Q name s R, OF _ args h u] st1(2) p(4) Some W by simp
      qed
    qed
    then obtain st' where st': "getopt_rest n ?o ?l False st1 = Some (0, st')" "gs_flag st' = int i" "gs_optarg st' = v"
        "passed st' A P Q (map Some ws) R" by blast
    show ?thesis
      using tagged_turn [OF step [OF st1(1) st'(1)] _ tagged_long [OF i st'(2,3) v(1)]] st'(4) by auto
  next
    case False
    obtain c o2 where c: "w = [CHR ''-'', c]" "option_letter c"
      and o2: "dropWhile (\<lambda>d. d \<noteq> c) ?o = c # (if hdr_flag (entries0 ! i) = ARG_HASVALUE then '':'' else []) @ o2"
        "at o2 0 \<noteq> CHR '':''"
      by (rule letter_options [OF plain ow False])
    note l = option_letterD [OF c(2)]
    obtain st1 where st1: "getopt_next n True False (prepared st) = Some (Inr st1)" "at_option st1 A P Q W (map Some ws' @ R)"
      using getopt_next_option [OF r' _ _ _ nn] ws W c(1) l
      by (auto simp: is_word_def at_def spells_def split: option.splits)
    have "\<exists>st'. getopt_rest n ?o ?l False st1 = Some (char_int c, st') \<and> gs_optarg st' = v \<and>
        passed st' A P Q (map Some ws) R"
    proof (cases v)
      case None
      then have h: "hdr_flag (entries0 ! i) = 0" using tv by (simp add: takes_value_def)
      have *: "ws = [[CHR ''-'', c]]" using ws None c(1) by (simp add: spells_def)
      show ?thesis
        using getopt_rest_letter [of st1 A P Q c R, OF _ c(2)] st1(2) o2 h None W * by simp
    next
      case (Some s)
      then have h: "hdr_flag (entries0 ! i) = ARG_HASVALUE" using tv by (simp add: takes_value_def)
      obtain d t where s: "s = d # t" using v(2) [OF Some] by (cases s) auto
      consider "ws = [[CHR ''-'', c], s]" | "ws = [CHR ''-'' # c # s]" "NUL \<notin> set s"
        using ws Some c(1) l by (auto simp: spells_def)
      then show ?thesis
      proof cases
        case 1
        then show ?thesis
          using getopt_rest_letter_value [of st1 A P Q c s R, OF _ c(2)] st1(2) o2 h Some W n by simp
      next
        case 2
        then have "d \<noteq> NUL" using s by auto
        then show ?thesis
          using 2 getopt_rest_letter_joined [of st1 A P Q c d t R, OF _ c(2)] st1(2) o2 h Some W s by simp
      qed
    qed
    then obtain st' where st': "getopt_rest n ?o ?l False st1 = Some (char_int c, st')" "gs_optarg st' = v"
        "passed st' A P Q (map Some ws) R" by blast
    show ?thesis
      using tagged_turn [OF step [OF st1(1) st'(1)]] tagged_letter [OF same c(2) _ st'(2)] ow c(1) st'(3) by blast
  qed
qed
text \<open>A group of letters: one turn of the loop for each.\<close>

lemma getopt_long_next:
  "gs_optind st \<noteq> 0 \<Longrightarrow> at options 0 = CHR '':'' \<Longrightarrow> getopt_next n True False (prepared st) = Some (Inr st1) \<Longrightarrow>
   getopt_long False n options longs st = getopt_rest n options longs False st1"
  by (simp add: getopt_long_def getopt_internal_def prepared_def Let_def)

lemma letters_step:
  assumes plain: "list_all plain_entry entries0"
    and ok: "list_all (\<lambda>(i, c). option_word entries0 i [CHR ''-'', c] \<and> takes_value entries0 i None) cs" "cs \<noteq> []"
    and w: "w = u @ map snd cs" "length u = k"
    and st: "gs_optind st \<noteq> 0" "getopt_next n True False (prepared st) = Some (Inr st1)" "in_group st1 A P Q w k R"
  shows "\<exists>st'. passed st' A P Q [Some w] R \<and> (\<forall>entries e. same_headers entries entries0 \<longrightarrow>
    arg_tagged_loop False n (alloc_shortoptions entries0) (table_options 0 entries0) st entries e =
      scan_reads (map (\<lambda>(i, c). (i, None)) cs) entries e \<bind> (\<lambda>(entries, e).
      arg_tagged_loop False n (alloc_shortoptions entries0) (table_options 0 entries0) st' entries e))"
  using ok w st
proof (induction cs arbitrary: u k st st1)
  case (Cons p cs)
  let ?o = "alloc_shortoptions entries0" and ?l = "table_options 0 entries0"
  obtain i c where p: "p = (i, c)" by (cases p)
  have ow: "option_word entries0 i [CHR ''-'', c]" "hdr_flag (entries0 ! i) = 0"
    using Cons.prems(1) p by (simp_all add: takes_value_def)
  obtain o2 where c: "option_letter c" and o2: "dropWhile (\<lambda>d. d \<noteq> c) ?o = c # o2" "at o2 0 \<noteq> CHR '':''"
    using letter_options [OF plain ow(1) letter_word(1) [OF plain ow(1)]] ow(2) by auto
  have o0: "at ?o 0 = CHR '':''" using plain by (simp add: alloc_shortoptions_plain at_def)
  have at: "at w k = c" "at w (Suc k) = (case cs of [] \<Rightarrow> NUL | q # _ \<Rightarrow> snd q)"
    using Cons.prems(3,4) p by (auto simp: at_def nth_append split: list.split)
  obtain st2 where st2: "getopt_rest n ?o ?l False st1 = Some (char_int c, st2)" "gs_optarg st2 = None"
    "if at w (Suc k) = NUL then passed st2 A P Q [Some w] R else in_group st2 A P Q w (Suc k) R"
    using getopt_rest_group [OF Cons.prems(7) at(1) c o2] by blast
  have go: "getopt_long False n ?o ?l st = Some (char_int c, st2)"
    using getopt_long_next [OF Cons.prems(5) o0 Cons.prems(6)] st2(1) by simp
  have turn: "arg_tagged_loop False n ?o ?l st entries e = do {
      (entries, e) \<leftarrow> arg_scan_report (int i) None entries e;
      arg_tagged_loop False n ?o ?l st2 entries e }" if "same_headers entries entries0" for entries e
    using tagged_turn [OF go tagged_letter(2) tagged_letter(1)] that c ow(1) st2(2) by blast
  show ?case
  proof (cases cs)
    case Nil
    then have "passed st2 A P Q [Some w] R" using st2(3) at(2) by simp
    then show ?thesis using turn p Nil by (auto intro!: exI [of _ st2] simp del: scan_reads.simps(2))
  next
    case (Cons q qs)
    obtain j d where q: "q = (j, d)" by (cases q)
    have "option_word entries0 j [CHR ''-'', d]" using Cons.prems(1) Cons q by simp
    then have "d \<noteq> NUL" by (rule letter_word(3) [OF plain])
    then have g: "in_group st2 A P Q w (Suc k) R" "at w (Suc k) \<noteq> NUL" using st2(3) at(2) Cons q by simp_all
    have "gs_optind st2 \<noteq> 0" using g(1) by (cases A) (simp_all add: in_group_def at_option_def)
    then obtain st' where st': "passed st' A P Q [Some w] R"
      "\<And>entries e. same_headers entries entries0 \<Longrightarrow> arg_tagged_loop False n ?o ?l st2 entries e =
        scan_reads (map (\<lambda>(i, c). (i, None)) cs) entries e \<bind> (\<lambda>(entries, e).
        arg_tagged_loop False n ?o ?l st' entries e)"
      using Cons.IH [of "u @ [c]" "Suc k" st2 "prepared st2"] Cons.prems(1,3,4) p Cons getopt_next_group [OF g]
      by auto
    have "arg_tagged_loop False n ?o ?l st entries e =
        scan_reads (map (\<lambda>(i, c). (i, None)) (p # cs)) entries e \<bind> (\<lambda>(entries, e).
        arg_tagged_loop False n ?o ?l st' entries e)" if h: "same_headers entries entries0" for entries e
      using turn [OF h] st'(2) same_headers_trans [OF arg_scan_report_headers h] p
      by (auto split: Option.bind_split)
    then show ?thesis using st'(1) by blast
  qed
qed simp

lemma scan_reads_headers:
  "scan_reads rs entries e = Some (entries', e') \<Longrightarrow> same_headers entries entries0 \<Longrightarrow> same_headers entries' entries0"
proof (induction rs arbitrary: entries e)
  case (Cons p rs)
  obtain i v where p: "p = (i, v)" by (cases p)
  obtain xs f where x: "arg_scan_report (int i) v entries e = Some (xs, f)" "scan_reads rs xs f = Some (entries', e')"
    using Cons.prems(1) p by (auto split: bind_splits)
  show ?case
    by (rule Cons.IH [OF x(2)]) (rule same_headers_trans [OF arg_scan_report_headers [OF x(1)] Cons.prems(2)])
qed simp

text \<open>The turns of one item.\<close>

lemma item_step:
  assumes plain: "list_all plain_entry entries0" and same: "same_headers entries entries0"
    and ok: "item_ok entries0 x" "\<nexists>s. x = Plain s"
    and r: "ready st A P Q (map Some (item_words x) @ R)"
    and n: "int (length (A @ P @ Q) + length (item_words x)) \<le> n"
  shows "\<exists>st'. passed st' A P Q (map Some (item_words x)) R \<and>
    arg_tagged_loop False n (alloc_shortoptions entries0) (table_options 0 entries0) st entries e =
      scan_reads (item_reads x) entries e \<bind> (\<lambda>(entries, e).
      arg_tagged_loop False n (alloc_shortoptions entries0) (table_options 0 entries0) st' entries e)"
proof (cases x)
  case (Option i w v)
  then show ?thesis
    using option_step [OF plain same _ _ _ r n, of i w v] ok(1)
    by (auto simp: item_ok_def spells_def simp del: scan_reads.simps(2))
next
  case (Joined i w s)
  then show ?thesis
    using option_step [OF plain same _ _ _ r n, of i w "Some s"] ok(1)
    by (auto simp: item_ok_def spells_def simp del: scan_reads.simps(2))
next
  case (Group cs)
  let ?w = "CHR ''-'' # map snd cs"
  have ok': "cs \<noteq> []" "list_all (\<lambda>(i, c). option_word entries0 i [CHR ''-'', c] \<and> takes_value entries0 i None) cs"
    using ok(1) Group by (simp_all add: item_ok_def)
  have letter: "snd p \<noteq> NUL \<and> snd p \<noteq> CHR ''-''" if "p \<in> set cs" for p
    using letter_word(3,4) [OF plain, of "fst p" "snd p"] ok'(2) that by (auto simp: list_all_iff)
  have "NUL \<notin> set (map snd cs)" using letter by fastforce
  moreover have "at ?w 1 = snd (hd cs)" using ok'(1) by (cases cs) (simp_all add: at_def)
  moreover have "snd (hd cs) \<noteq> NUL \<and> snd (hd cs) \<noteq> CHR ''-''"
    using letter ok'(1) by simp
  ultimately have "\<not> is_word ?w" "?w \<noteq> ''--''" "NUL \<notin> set ?w"
    using ok'(1) by (auto simp: is_word_def at_def)
  then obtain st1 where st1: "getopt_next n True False (prepared st) = Some (Inr st1)" "at_option st1 A P Q ?w R"
    using getopt_next_option [of st A P Q ?w R n] r n Group by auto
  have "in_group st1 A P Q ?w 1 R" using st1(2) by (simp add: in_group_def at_option_def)
  moreover have "gs_optind st \<noteq> 0" using r by (cases A) (simp_all add: ready_def)
  ultimately show ?thesis
    using letters_step [OF plain ok'(2,1), of ?w "''-''" 1 st n st1 A P Q R] st1(1) same Group by auto
qed (use ok(2) in simp)


definition item_list :: "item list \<Rightarrow> string list" where
  "item_list xs = concat (map item_words xs)"

lemma tagged_items:
  assumes "list_all plain_entry entries0" "same_headers entries entries0" "list_all (item_ok entries0) xs"
    "ready st A P Q (map Some (item_list xs) @ [None])"
    "n = int (length (A @ P @ Q) + length (item_list xs))"
  defines "B \<equiv> A @ (if P = [] then [] else Q) @ map Some (option_words xs)"
  shows "\<exists>st'. gs_nargv st' = B @ P @ map Some (plain_words xs) @ [None] \<and> gs_optind st' = int (length B) \<and>
    arg_tagged_loop False n (alloc_shortoptions entries0) (table_options 0 entries0) st entries e = do {
      (entries, e) \<leftarrow> scan_items xs entries e;
      Some (st', entries, e) }"
  using assms(2-5) unfolding B_def
proof (induction xs arbitrary: st A P Q entries e)
  case Nil
  have o0: "at (alloc_shortoptions entries0) 0 = CHR '':''" using assms(1) by (simp add: alloc_shortoptions_plain at_def)
  obtain st' where st': "getopt_next n True False (prepared st) = Some (Inl (-1, st'))"
    "gs_nargv st' = A @ Q @ P @ [None]" "gs_optind st' = int (length (A @ Q))"
    using getopt_next_end [of st A P Q "[None]" n] Nil.prems(3,4) by (auto simp: item_list_def)
  have "P = [] \<Longrightarrow> Q = []" using Nil.prems(3) by (auto simp: ready_def split: if_splits)
  then show ?case
    using st' getopt_long_ready [OF Nil.prems(3) o0, of n "table_options 0 entries0"]
    by (intro exI [of _ st']) (auto simp: arg_tagged_loop.simps [of False n _ _ st] option_words_def plain_words_def)
next
  case (Cons x xs)
  show ?case
  proof (cases "\<exists>s. x = Plain s")
    case True
    then obtain s where Plain: "x = Plain s" by blast
    have o0: "at (alloc_shortoptions entries0) 0 = CHR '':''" using assms(1) by (simp add: alloc_shortoptions_plain at_def)
    have r: "ready st A P Q (Some s # map Some (item_list xs) @ [None])"
      using Cons.prems(3) Plain by (simp add: item_list_def)
    have "int (length (A @ P @ Q)) < n" using Cons.prems(4) Plain by (simp add: item_list_def)
    then obtain st1 where st1: "getopt_next n True False (prepared st) = getopt_next n True False st1" "prepared st1 = st1"
      "ready st1 (A @ Q) (P @ [Some s]) [] (map Some (item_list xs) @ [None])"
      using getopt_next_word [OF r] Cons.prems(2) Plain by (auto simp: item_ok_def)
    have "arg_tagged_loop False n (alloc_shortoptions entries0) (table_options 0 entries0) st entries e =
        arg_tagged_loop False n (alloc_shortoptions entries0) (table_options 0 entries0) st1 entries e"
      using getopt_long_ready [OF r o0] getopt_long_ready [OF st1(3) o0] st1(1,2)
      by (simp add: arg_tagged_loop.simps [of False n _ _ st] arg_tagged_loop.simps [of False n _ _ st1])
    moreover have "P = [] \<Longrightarrow> Q = []" using r by (auto simp: ready_def split: if_splits)
    moreover have "n = int (length ((A @ Q) @ (P @ [Some s]) @ []) + length (item_list xs))"
      using Cons.prems(4) Plain by (simp add: item_list_def)
    ultimately show ?thesis
      using Cons.IH [OF Cons.prems(1) _ st1(3), of e] Cons.prems(2) Plain
      by (auto simp: option_words_def plain_words_def)
  next
    case x: False
    let ?ws = "item_words x"
    have r: "ready st A P Q (map Some ?ws @ map Some (item_list xs) @ [None])"
      using Cons.prems(3) by (simp add: item_list_def)
    have "int (length (A @ P @ Q) + length ?ws) \<le> n" using Cons.prems(4) by (simp add: item_list_def)
    then obtain st1 where st1: "passed st1 A P Q (map Some ?ws) (map Some (item_list xs) @ [None])"
      "arg_tagged_loop False n (alloc_shortoptions entries0) (table_options 0 entries0) st entries e =
        scan_reads (item_reads x) entries e \<bind> (\<lambda>(entries, e).
        arg_tagged_loop False n (alloc_shortoptions entries0) (table_options 0 entries0) st1 entries e)"
      using item_step [OF assms(1) Cons.prems(1) _ x r] Cons.prems(2) by auto
    have ow: "option_words (x # xs) = ?ws @ option_words xs" "plain_words (x # xs) = plain_words xs"
      using x by (cases x; simp add: option_words_def plain_words_def)+
    show ?thesis
    proof (cases "scan_reads (item_reads x) entries e")
      case None
      show ?thesis
        by (intro exI [of _ "st1\<lparr>gs_nargv := (A @ (if P = [] then [] else Q) @ map Some (option_words (x # xs))) @ P @
              map Some (plain_words (x # xs)) @ [None],
            gs_optind := int (length (A @ (if P = [] then [] else Q) @ map Some (option_words (x # xs))))\<rparr>"])
          (simp add: st1(2) None)
    next
      case (Some y)
      then obtain entries1 e1 where y: "scan_reads (item_reads x) entries e = Some (entries1, e1)" by (cases y) auto
      let ?A = "if P = [] then A @ map Some ?ws else A" and ?Q = "if P = [] then [] else Q @ map Some ?ws"
      have "same_headers entries1 entries0" by (rule scan_reads_headers [OF y Cons.prems(1)])
      moreover have pq: "P = [] \<Longrightarrow> Q = []" using r by (auto simp: ready_def split: if_splits)
      then have "n = int (length (?A @ P @ ?Q) + length (item_list xs))"
        using Cons.prems(4) by (simp add: item_list_def)
      moreover have "list_all (item_ok entries0) xs" using Cons.prems(2) by simp
      moreover have "ready st1 ?A P ?Q (map Some (item_list xs) @ [None])" using st1(1) by (simp only: passed_def)
      ultimately obtain st' where st': "gs_nargv st' = (?A @ (if P = [] then [] else ?Q) @ map Some (option_words xs)) @ P @
            map Some (plain_words xs) @ [None]"
          "gs_optind st' = int (length (?A @ (if P = [] then [] else ?Q) @ map Some (option_words xs)))"
          "arg_tagged_loop False n (alloc_shortoptions entries0) (table_options 0 entries0) st1 entries1 e1 = do {
            (entries, e) \<leftarrow> scan_items xs entries1 e1;
            Some (st', entries, e) }"
        using Cons.IH [of entries1 st1 ?A P ?Q e1] by blast
      have "arg_tagged_loop False n (alloc_shortoptions entries0) (table_options 0 entries0) st entries e = do {
            (entries, e) \<leftarrow> scan_items (x # xs) entries e;
            Some (st', entries, e) }"
        using st1(2) st'(3) y by simp
      moreover have "gs_nargv st' = (A @ (if P = [] then [] else Q) @ map Some (option_words (x # xs))) @ P @
            map Some (plain_words (x # xs)) @ [None]"
          "gs_optind st' = int (length (A @ (if P = [] then [] else Q) @ map Some (option_words (x # xs))))"
        using st'(1,2) by (simp_all add: ow del: item_words.simps)
      ultimately show ?thesis by blast
    qed
  qed
qed

subsection \<open>The words behind the options\<close>

lemma arg_scan_length: "arg_scan i v entries = Some (r, entries') \<Longrightarrow> length entries' = length entries"
  by (auto simp: arg_scan_def dest: wr_length split: bind_splits prod.splits)

lemma arg_untagged_loop_shift:
  assumes "int (length pre) = k" "0 \<le> optind"
  shows "arg_untagged_loop (argc + k) (pre @ argv) tabindex (optind + k) tentative entries
    = map_option (\<lambda>(x, optind, y). (x, optind + k, y)) (arg_untagged_loop argc argv tabindex optind tentative entries)"
  using assms(2)
proof (induction "nat (argc - optind) + nat (int (length entries) - tabindex)"
    arbitrary: tabindex optind tentative entries rule: less_induct)
  case less
  have w: "rd (pre @ argv) (optind + k) = rd argv optind"
    using assms(1) less.prems by (simp add: rd_append2)
  have next_entry: "arg_untagged_loop (argc + k) (pre @ argv) (tabindex + 1) (optind + k) t xs
      = map_option (\<lambda>(x, optind, y). (x, optind + k, y)) (arg_untagged_loop argc argv (tabindex + 1) optind t xs)"
    if "tabindex < int (length entries)" "length xs = length entries" for t xs
    by (rule less.hyps) (use that less.prems in auto)
  have next_word: "arg_untagged_loop (argc + k) (pre @ argv) tabindex (optind + 1 + k) t xs
      = map_option (\<lambda>(x, optind, y). (x, optind + k, y)) (arg_untagged_loop argc argv tabindex (optind + 1) t xs)"
    if "optind < argc" "length xs = length entries" for t xs
    by (rule less.hyps) (use that less.prems in auto)
  note L = arg_untagged_loop.simps [of "argc + k" "pre @ argv" tabindex "optind + k" tentative entries]
  note R = arg_untagged_loop.simps [of argc argv tabindex optind tentative entries]
  show ?case
  proof (cases "tabindex \<ge> int (length entries) \<or> optind \<ge> argc \<or> rd entries tabindex = None")
    case True
    then show ?thesis by (subst L, subst R) auto
  next
    case False
    then obtain a where a: "\<not> tabindex \<ge> int (length entries)" "\<not> optind \<ge> argc" "rd entries tabindex = Some a" by auto
    show ?thesis
    proof (cases "hdr_longopts a \<noteq> None \<or> hdr_shortopts a \<noteq> None")
      case True
      then show ?thesis using a next_entry [of entries tentative] by (subst L, subst R) auto
    next
      case False
      show ?thesis
      proof (cases "rd argv optind \<bind> (\<lambda>word. arg_scan tabindex word entries)")
        case None
        then show ?thesis using a False w by (subst L, subst R) (auto split: bind_splits)
      next
        case (Some z)
        then obtain word r entries1 where z: "rd argv optind = Some word" "arg_scan tabindex word entries = Some (r, entries1)"
          by (cases z) (auto split: bind_splits)
        show ?thesis
          using a False w z next_word [of entries1 "(0, snd tentative)"]
            next_entry [of entries1 "(r, word, tabindex)"] arg_scan_length [OF z(2)]
          by (subst L, subst R) (auto simp: add.commute add.left_commute)
      qed
    qed
  qed
qed

lemma for_loop_shift: "for_loop m (i + k) f s = for_loop m i (\<lambda>j. f (j + k)) s"
proof (induction m arbitrary: i s)
  case (Suc m)
  have "for_loop m (i + k + 1) f = for_loop m (i + 1) (\<lambda>j. f (j + k))"
    using Suc.IH [of "i + 1"] by (intro ext) (simp add: ac_simps)
  then show ?case by simp
qed simp

lemma for_loop_cong:
  "(\<And>j s. i \<le> j \<Longrightarrow> f j s = g j s) \<Longrightarrow> for_loop m i f s = for_loop m i g s"
proof (induction m arbitrary: i s)
  case (Suc m)
  have "f i s = g i s" using Suc.prems by simp
  moreover have "for_loop m (i + 1) f = for_loop m (i + 1) g"
    by (intro ext) (rule Suc.IH, rule Suc.prems, simp)
  ultimately show ?case by simp
qed simp

lemma arg_unused_shift:
  assumes "int (length pre) = k" "0 \<le> optind"
  shows "arg_unused (argc + k) (pre @ argv) (optind + k) e = arg_unused argc argv optind e"
proof -
  have w: "rd (pre @ argv) (j + k) = rd argv j" if "0 \<le> j" for j
    using assms(1) that by (simp add: rd_append2)
  show ?thesis unfolding arg_unused_def for_loop_shift
    by (simp add: add.commute) (rule for_loop_cong, use assms(2) in \<open>simp add: w\<close>)
qed

lemma arg_untagged_loop_optind:
  "arg_untagged_loop argc argv tabindex optind tentative entries = Some r \<Longrightarrow> optind \<le> fst (snd r)"
proof (induction argc argv tabindex optind tentative entries r
    rule: arg_untagged_loop.raw_induct [rotated, consumes 1, case_names step])
  case (step f argc argv tabindex optind tentative entries r)
  show ?case
    using step(2) by (auto split: if_splits bind_splits prod.splits dest!: step(1))
qed

lemma arg_parse_untagged_shift:
  assumes "int (length pre) = k" "0 \<le> optind"
  shows "arg_parse_untagged (argc + k) (pre @ argv) (optind + k) entries e
    = map_option (\<lambda>(optind, y). (optind + k, y)) (arg_parse_untagged argc argv optind entries e)"
proof (cases "arg_untagged_loop argc argv 0 optind (0, None, 0) entries")
  case None
  then show ?thesis unfolding arg_parse_untagged_def arg_untagged_loop_shift [OF assms] by simp
next
  case (Some r)
  obtain x i errorlast optarglast parentlast entries' where r: "r = (x, i, (errorlast, optarglast, parentlast), entries')"
    by (cases r) auto
  have "optind \<le> i" using arg_untagged_loop_optind [OF Some] r by simp
  then have i: "0 \<le> i" "0 \<le> i + 1" using assms(2) by simp_all
  have m: "max (j + k) (argc + k) = max j argc + k" for j by simp
  have a: "i + k + 1 = i + 1 + k" by simp
  show ?thesis
    unfolding arg_parse_untagged_def arg_untagged_loop_shift [OF assms] Some r option.map prod.case Option.bind.simps a
    using arg_unused_shift [OF assms(1) i(1), of argc argv] arg_unused_shift [OF assms(1) i(2), of argc argv] m
    by (cases x; cases "errorlast = 0"; auto split: bind_split)
qed

subsection \<open>The theorem\<close>

definition options_countable :: "arg list \<Rightarrow> bool" where
  "options_countable entries \<longleftrightarrow> alloc_longoptions entries = Some (table_options 0 entries)"

lemma arg_resetfn_header: "arg_resetfn a = Some a' \<Longrightarrow> arg_hdr.truncate a' = arg_hdr.truncate a"
  by (auto simp: arg_resetfn_def arg_hdr.truncate_def split: arg_data.splits bind_splits)

lemma arg_reset_headers: "arg_reset_entries entries = Some entries' \<Longrightarrow> same_headers entries' entries"
  by (induction entries arbitrary: entries')
    (auto simp: same_headers_def arg_resetfn_header split: bind_splits)

lemma same_headers_lists:
  "same_headers xs ys \<Longrightarrow> table_options k xs = table_options k ys \<and> count_options xs = count_options ys \<and>
   list_all plain_entry xs = list_all plain_entry ys \<and> alloc_shortoptions xs = alloc_shortoptions ys"
proof (induction xs arbitrary: ys k)
  case Nil
  then show ?case by (simp add: same_headers_def)
next
  case (Cons x xs)
  then obtain y zs where ys: "ys = y # zs" "arg_hdr.truncate x = arg_hdr.truncate y" "same_headers xs zs"
    by (auto simp: same_headers_def Cons_eq_map_conv)
  then have h: "hdr_flag x = hdr_flag y" "hdr_shortopts x = hdr_shortopts y" "hdr_longopts x = hdr_longopts y"
    by (simp_all add: arg_hdr.truncate_def)
  show ?case
    using Cons.IH [OF ys(3)] h
    by (simp add: ys(1) has_arg_of_def plain_entry_def short_names_def alloc_shortoptions_def)
qed

lemma same_headers_items:
  assumes "same_headers xs ys"
  shows "item_ok xs x = item_ok ys x"
proof -
  have l: "length xs = length ys" using assms by (rule same_headersD(1))
  have h: "hdr_flag (xs ! i) = hdr_flag (ys ! i)" "short_names (xs ! i) = short_names (ys ! i)"
      "long_names (xs ! i) = long_names (ys ! i)" if "i < length ys" for i
  proof -
    have "map arg_hdr.truncate xs ! i = map arg_hdr.truncate ys ! i" using assms by (simp only: same_headers_def)
    then have "arg_hdr.truncate (xs ! i) = arg_hdr.truncate (ys ! i)" using that l by (simp only: nth_map)
    then show "hdr_flag (xs ! i) = hdr_flag (ys ! i)" "short_names (xs ! i) = short_names (ys ! i)"
      "long_names (xs ! i) = long_names (ys ! i)"
      by (simp_all add: arg_hdr.truncate_def short_names_def long_names_def)
  qed
  have w: "option_word xs i w = option_word ys i w" for i w
    using h l by (auto simp: option_word_def Let_def)
  have v: "option_word ys i w \<Longrightarrow> takes_value xs i v = takes_value ys i v" for i w v
    using h(1) by (auto simp: option_word_def takes_value_def split: option.splits)
  show ?thesis
  proof (cases x)
    case (Group cs)
    have "(option_word xs i w \<and> takes_value xs i v) = (option_word ys i w \<and> takes_value ys i v)" for i w v
      using w v by blast
    then show ?thesis using Group by (simp add: item_ok_def)
  qed (use w v in \<open>auto simp: item_ok_def\<close>)
qed

lemma arg_tagged_loop_start:
  "gs_optind st = 0 \<Longrightarrow> arg_tagged_loop p n os ls st entries e =
   arg_tagged_loop p n os ls (st\<lparr>gs_optind := 1, gs_optreset := True\<rparr>) entries e"
  by (simp add: arg_tagged_loop.simps [of p n os ls st]
      arg_tagged_loop.simps [of p n os ls "st\<lparr>gs_optind := 1, gs_optreset := True\<rparr>"]
      getopt_long_def getopt_internal_def Let_def)

lemma arg_parse_run:
  assumes "list_all plain_entry entries" "options_countable entries" "list_all (item_ok entries) xs"
  shows "map_option (\<lambda>(n, st, y). (n, y)) (arg_parse False st (prog # item_list xs) entries e) = do {
      (entries, e) \<leftarrow> arg_reset entries e;
      (entries, e) \<leftarrow> scan_items xs entries e;
      (optind, entries, e) \<leftarrow> arg_parse_untagged (int (length (plain_words xs)))
        (map Some (plain_words xs) @ [None]) 0 entries e;
      e \<leftarrow> (if end_count e = 0 then arg_parse_check 0 entries e else Some e);
      Some (end_count e, entries, e) }"
proof (cases "arg_reset_entries entries")
  case None
  then show ?thesis by (simp add: arg_parse_def arg_reset_def)
next
  case (Some entries1)
  note h = arg_reset_headers [OF Some]
  let ?e = "e\<lparr>end_count := 0\<rparr>" and ?st = "st\<lparr>gs_nargv := map Some (prog # item_list xs) @ [None]\<rparr>"
  let ?n = "int (length (prog # item_list xs))"
  have l: "alloc_longoptions entries1 = Some (table_options 0 entries1)"
    using assms(2) same_headers_lists [OF h, of 0] by (simp add: options_countable_def alloc_longoptions_def)
  have r: "ready (?st\<lparr>gs_optind := 0, gs_flag := 0, gs_optind := 1, gs_optreset := True\<rparr>) [Some prog] [] [] (map Some (item_list xs) @ [None])"
    by (simp add: ready_def)
  have "\<exists>st'. gs_nargv st' = (Some prog # map Some (option_words xs)) @ map Some (plain_words xs) @ [None] \<and>
      gs_optind st' = int (length (option_words xs)) + 1 \<and>
      arg_parse_tagged False ?n ?st entries1 ?e = do {
        (entries, e) \<leftarrow> scan_items xs entries1 ?e;
        Some (st', entries, e) }"
  proof -
    have "list_all plain_entry entries1" "list_all (item_ok entries1) xs" "same_headers entries1 entries1"
      using assms same_headers_lists [OF h, of 0] same_headers_items [OF h] by (simp_all add: list_all_iff same_headers_def)
    then show ?thesis
      using tagged_items [of entries1 entries1 xs _ "[Some prog]" "[]" "[]", OF _ _ _ r, of ?n ?e]
      unfolding arg_parse_tagged_def l Option.bind.simps
      by (subst arg_tagged_loop_start) (simp_all add: add.commute)
  qed
  then obtain st' where st': "gs_nargv st' = (Some prog # map Some (option_words xs)) @ map Some (plain_words xs) @ [None]"
      "gs_optind st' = 0 + (int (length (option_words xs)) + 1)"
      "arg_parse_tagged False ?n ?st entries1 ?e = do {
        (entries, e) \<leftarrow> scan_items xs entries1 ?e;
        Some (st', entries, e) }" by auto
  have "length (item_list xs) = length (option_words xs) + length (plain_words xs)"
    by (induction xs) (auto simp: item_list_def option_words_def plain_words_def split: item.split)
  then have n: "?n = int (length (plain_words xs)) + (int (length (option_words xs)) + 1)" by simp
  have u: "arg_parse_untagged ?n (gs_nargv st') (gs_optind st') ys f = map_option (\<lambda>(optind, y).
      (optind + (int (length (option_words xs)) + 1), y))
      (arg_parse_untagged (int (length (plain_words xs))) (map Some (plain_words xs) @ [None]) 0 ys f)" for ys f
    unfolding st'(1,2) n by (rule arg_parse_untagged_shift) simp_all
  have nz: "(?n = 0) = False" by simp
  show ?thesis
  proof (cases "scan_items xs entries1 ?e")
    case None
    then have "arg_parse_tagged False ?n ?st entries1 ?e = None" using st'(3) by simp
    then show ?thesis using None Some unfolding arg_parse_def Let_def arg_reset_def by (simp del: length_Cons)
  next
    case (Some y)
    obtain entries2 e2 where y: "y = (entries2, e2)" by (cases y)
    have t: "arg_parse_tagged False ?n ?st entries1 ?e = Some (st', entries2, e2)" using st'(3) Some y by simp
    show ?thesis
      unfolding arg_parse_def Let_def arg_reset_def \<open>arg_reset_entries entries = Some entries1\<close>
        Option.bind.simps prod.case t Some y nz if_False u
      by (auto split: option.split bind_split)
  qed
qed

text \<open>A flag, words, and an option with a value.\<close>

definition sample_table :: "arg list" where
  "sample_table = [arg_litn (Some ''v'') (Some ''verbose'') 0 2, arg_strn None None 0 2, arg_strn (Some ''d'') (Some ''dev'') 0 1]"

definition sample_end :: arg_end where
  "sample_end = new_arg_end 0 (\<lambda>i. (0, None, None)) 2"

definition sample_items :: "item list" where
  "sample_items = [Plain ''x'', Group [(0, CHR ''v''), (0, CHR ''v'')], Plain ''y'', Joined 2 ''--dev'' ''z'']"

text \<open>C9: \<open>arg_parse\<close> reads a command line in any order: it scans the options from left to right,
  whether they are written with their letter or their whole name, their value in the next word or
  in the same one (\<open>-xvalue\<close>, \<open>--name=value\<close>), or several flags in a group of letters, then hands the other
  words (\<open>POSIXLY_CORRECT\<close> not being set), which
  \<open>getopt_long\<close> has moved behind them, to the untagged entries in their order, and checks the counts
  when no error was found; it returns whenever those steps do.\<close>

theorem arg_parse_reorders:
  assumes "list_all plain_entry entries" "options_countable entries" "list_all (item_ok entries) xs"
  shows "map_option (\<lambda>(n, st, y). (n, y)) (arg_parse False st (prog # item_list xs) entries e) = do {
      (entries, e) \<leftarrow> arg_reset entries e;
      (entries, e) \<leftarrow> scan_items xs entries e;
      (optind, entries, e) \<leftarrow> arg_parse_untagged (int (length (plain_words xs)))
        (map Some (plain_words xs) @ [None]) 0 entries e;
      e \<leftarrow> (if end_count e = 0 then arg_parse_check 0 entries e else Some e);
      Some (end_count e, entries, e) }"
  using assms by (rule arg_parse_run)

theorem arg_parse_reorders_witness:
  "\<exists>entries e. map_option (\<lambda>(n, st, y). (n, y))
     (arg_parse False getopt_start [''p'', ''x'', ''-vv'', ''y'', ''--dev=z''] sample_table sample_end) =
       Some (0, entries, e) \<and>
     map arg_data entries = [Lit_data, Str_data [''x'', ''y''], Str_data [''z'']]"
proof -
  have "item_list sample_items = [''x'', ''-vv'', ''y'', ''--dev=z'']" by code_simp
  moreover have "list_all plain_entry sample_table" by code_simp
  moreover have "options_countable sample_table" by code_simp
  moreover have "list_all (item_ok sample_table) sample_items" by code_simp
  moreover have "map_option (\<lambda>(n, entries, e). (n, map arg_data entries)) (do {
      (entries, e) \<leftarrow> arg_reset sample_table sample_end;
      (entries, e) \<leftarrow> scan_items sample_items entries e;
      (optind, entries, e) \<leftarrow> arg_parse_untagged (int (length (plain_words sample_items)))
        (map Some (plain_words sample_items) @ [None]) 0 entries e;
      e \<leftarrow> (if end_count e = 0 then arg_parse_check 0 entries e else Some e);
      Some (end_count e, entries, e) }) = Some (0, [Lit_data, Str_data [''x'', ''y''], Str_data [''z'']])"
    by code_simp
  ultimately show ?thesis using arg_parse_reorders [of sample_table sample_items getopt_start "''p''" sample_end] by auto
qed

end
