(* ===== verification/Argtable_Safe.thy ===== *)
theory Argtable_Safe
  imports Argtable_Order
begin

text \<open>
  What \<open>arg_parse\<close> keeps: the headers, counts between zero and the maximum, arrays of the size the
  constructors gave them, integers that fit an \<open>int\<close>, and a table of errors that is never overrun.
\<close>

definition end_ok :: "arg_end \<Rightarrow> bool" where
  "end_ok e \<longleftrightarrow> 0 < hdr_maxcount e \<and> 0 \<le> end_count e \<and> end_count e \<le> hdr_maxcount e \<and>
     int (length (end_error e)) = hdr_maxcount e \<and> int (length (end_parent e)) = hdr_maxcount e \<and>
     int (length (end_argval e)) = hdr_maxcount e"

lemma register_ok:
  assumes "end_ok e"
  shows "\<exists>e'. arg_register_error e p r v = Some e' \<and> end_ok e' \<and> hdr_maxcount e' = hdr_maxcount e \<and>
    0 < end_count e' \<and> end_count e \<le> end_count e'"
proof (cases "end_count e < hdr_maxcount e")
  case True
  then have "nat (end_count e) < length (end_error e)" "nat (end_count e) < length (end_parent e)"
    "nat (end_count e) < length (end_argval e)" "0 \<le> end_count e"
    using assms by (auto simp: end_ok_def)
  then show ?thesis using True assms by (auto simp: arg_register_error_def wr_def end_ok_def)
next
  case False
  then have "0 < end_count e" using assms by (simp add: end_ok_def)
  then show ?thesis using False assms by (auto simp: arg_register_error_def wr_def end_ok_def)
qed

lemma register_okD:
  "arg_register_error e p r v = Some e' \<Longrightarrow> end_ok e \<Longrightarrow>
   end_ok e' \<and> hdr_maxcount e' = hdr_maxcount e \<and> 0 < end_count e' \<and> end_count e \<le> end_count e'"
  using register_ok [of e p r v] by auto

definition int_ok :: "int \<Rightarrow> bool" where
  "int_ok v \<longleftrightarrow> INT_MIN \<le> v \<and> v \<le> INT_MAX"

definition entry_ok :: "arg \<Rightarrow> bool" where
  "entry_ok a \<longleftrightarrow> 0 \<le> arg_count a \<and> arg_count a \<le> hdr_maxcount a \<and>
     (case arg_data a of
        Lit_data \<Rightarrow> True
      | Int_data ival \<Rightarrow> int (length ival) = hdr_maxcount a \<and> list_all int_ok ival
      | Str_data sval \<Rightarrow> int (length sval) = hdr_maxcount a
      | Rex_data pattern icase sval \<Rightarrow> int (length sval) = hdr_maxcount a)"

text \<open>The check against \<open>INT_MAX / factor\<close> bounds the product.\<close>

lemma scale_int_ok:
  assumes "0 < factor" "scale_int factor r v = (0, v')"
  shows "int_ok v'"
proof -
  have v: "v \<le> INT_MAX sdiv factor" "INT_MIN sdiv factor \<le> v" "v' = v * factor"
    using assms(2) by (auto simp: scale_int_def split: if_splits)
  have d: "INT_MAX sdiv factor = INT_MAX div factor" "INT_MIN sdiv factor = - (2147483648 div factor)"
    using assms(1) by (simp_all add: signed_divide_int_def)
  have le: "n div factor * factor \<le> n" if "0 \<le> n" for n
    using assms(1) that by (simp flip: minus_mod_eq_div_mult)
  have "v * factor \<le> INT_MAX div factor * factor" using v(1) d(1) assms(1) by (simp add: mult_right_mono)
  moreover have "- (2147483648 div factor) * factor \<le> v * factor"
    using v(2) d(2) assms(1) by (intro mult_right_mono) simp_all
  ultimately show ?thesis using le [of INT_MAX] le [of 2147483648] v(3) by (simp add: int_ok_def)
qed

lemma arg_int_suffix_ok: "arg_int_suffix v rest = (0, v') \<Longrightarrow> int_ok v'"
  by (auto simp: arg_int_suffix_def Let_def int_ok_def scale_int_ok dest: scale_int_ok [rotated] split: if_splits)

lemma arg_scanfn_ok:
  assumes "entry_ok a" "arg_scanfn a v = Some (r, a')"
  shows "entry_ok a'"
proof (cases "arg_data a")
  case Lit_data
  then show ?thesis using assms by (auto simp: arg_scanfn_def arg_lit_scanfn_def entry_ok_def split: if_splits)
next
  case (Int_data ival)
  have "int_ok x" if "arg_int_suffix n rest = (0, x)" for n rest x using that by (rule arg_int_suffix_ok)
  then show ?thesis using assms Int_data
    by (auto simp: arg_scanfn_def arg_int_scanfn_def entry_ok_def wr_def Let_def list_all_length nth_list_update
        split: if_splits option.splits bind_splits prod.splits)
next
  case (Str_data sval)
  then show ?thesis using assms
    by (auto simp: arg_scanfn_def arg_str_scanfn_def entry_ok_def wr_def split: if_splits option.splits bind_splits)
next
  case (Rex_data pattern icase sval)
  then show ?thesis using assms
    by (auto simp: arg_scanfn_def arg_rex_scanfn_def entry_ok_def wr_def
        split: if_splits option.splits bind_splits sum.splits)
qed

lemma arg_resetfn_ok: "arg_resetfn a = Some a' \<Longrightarrow> entry_ok a \<Longrightarrow> entry_ok a' \<and> arg_count a' = 0"
proof (cases "arg_data a")
  case (Str_data sval)
  assume a: "arg_resetfn a = Some a'" "entry_ok a"
  then obtain xs where xs: "for_loop (nat (arg_count a)) 0 (\<lambda>i sval. wr sval i []) sval = Some xs"
    "a' = a\<lparr>arg_data := Str_data xs, arg_count := 0\<rparr>"
    using Str_data by (auto simp: arg_resetfn_def split: bind_splits)
  have "length xs = length sval"
    by (rule for_loop_inv_Some [of "\<lambda>k ys. length ys = length sval", OF _ _ xs(1)]) (auto dest: wr_length)
  then show ?thesis using a(2) xs(2) Str_data by (simp add: entry_ok_def)
qed (auto simp: arg_resetfn_def entry_ok_def)

lemma arg_scan_ok:
  assumes "arg_scan i v entries = Some (r, entries')" "list_all entry_ok entries"
  shows "list_all entry_ok entries'"
proof -
  obtain a' where "arg_scanfn (entries ! nat i) v = Some (r, a')" "entries' = entries[nat i := a']"
    "nat i < length entries"
    using assms(1) by (auto simp: arg_scan_def rd_def wr_def split: bind_splits prod.splits if_splits)
  then show ?thesis
    using assms(2) arg_scanfn_ok [of "entries ! nat i" v r a'] by (auto simp: list_all_length nth_list_update)
qed

lemma arg_scan_report_ok:
  "arg_scan_report i v entries e = Some (entries', e') \<Longrightarrow> list_all entry_ok entries \<Longrightarrow> end_ok e \<Longrightarrow>
   list_all entry_ok entries' \<and> end_ok e' \<and> hdr_maxcount e' = hdr_maxcount e"
  by (auto simp: arg_scan_report_def dest: arg_scan_ok register_okD split: bind_splits if_splits)

lemma arg_tagged_ok:
  "arg_tagged copt st entries e = Some (entries', e') \<Longrightarrow> list_all entry_ok entries \<Longrightarrow> end_ok e \<Longrightarrow>
   list_all entry_ok entries' \<and> end_ok e' \<and> hdr_maxcount e' = hdr_maxcount e"
  by (auto simp: arg_tagged_def Let_def dest!: register_okD arg_scan_report_ok split: bind_splits if_splits)

lemma arg_tagged_headers: "arg_tagged copt st entries e = Some (entries', e') \<Longrightarrow> same_headers entries' entries"
  by (auto simp: arg_tagged_def Let_def same_headers_def dest!: arg_scan_report_headers
      split: bind_splits if_splits)

subsection \<open>The loops\<close>

definition kept :: "arg list \<Rightarrow> arg_end \<Rightarrow> arg list \<Rightarrow> arg_end \<Rightarrow> bool" where
  "kept entries e entries' e' \<longleftrightarrow>
     (list_all entry_ok entries \<and> end_ok e \<longrightarrow>
      list_all entry_ok entries' \<and> end_ok e' \<and> hdr_maxcount e' = hdr_maxcount e) \<and> same_headers entries' entries"

lemma kept_refl: "kept entries e entries e"
  by (simp add: kept_def same_headers_def)

lemma kept_trans: "kept xs e ys f \<Longrightarrow> kept ys f zs g \<Longrightarrow> kept xs e zs g"
  by (auto simp: kept_def same_headers_def)

lemma arg_tagged_kept: "arg_tagged copt st entries e = Some (entries', e') \<Longrightarrow> kept entries e entries' e'"
  using arg_tagged_ok arg_tagged_headers unfolding kept_def by blast

lemma register_kept: "arg_register_error e p r v = Some e' \<Longrightarrow> kept entries e entries e'"
  by (auto simp: kept_def same_headers_def dest: register_okD)

lemma arg_scan_headers: "arg_scan i v entries = Some (r, entries') \<Longrightarrow> same_headers entries' entries"
proof -
  assume a: "arg_scan i v entries = Some (r, entries')"
  then obtain a' where h: "arg_scanfn (entries ! nat i) v = Some (r, a')" "entries' = entries[nat i := a']"
    by (auto simp: arg_scan_def rd_def wr_def split: bind_splits prod.splits if_splits)
  have "map arg_hdr.truncate entries' = map arg_hdr.truncate (entries[nat i := entries ! nat i])"
    unfolding h(2) map_update using arg_scanfn_header [OF h(1)] by simp
  then show ?thesis by (simp add: same_headers_def)
qed

lemma arg_scan_kept: "arg_scan i v entries = Some (r, entries') \<Longrightarrow> kept entries e entries' e"
  using arg_scan_ok arg_scan_headers unfolding kept_def by blast

lemma arg_tagged_loop_kept:
  "arg_tagged_loop p n os ls st entries e = Some (st', entries', e') \<Longrightarrow> kept entries e entries' e'"
proof (induction p n os ls st entries e "(st', entries', e')"
    rule: arg_tagged_loop.raw_induct [rotated, consumes 1, case_names step])
  case (step f p n os ls st entries e)
  then obtain copt st1 where g: "getopt_long p n os ls st = Some (copt, st1)" by (auto split: bind_splits)
  show ?case
  proof (cases "copt = -1")
    case True
    then show ?thesis using step(2) g by (simp add: kept_refl)
  next
    case False
    then obtain entries1 e1 where t: "arg_tagged copt st1 entries e = Some (entries1, e1)"
      "f p n os ls st1 entries1 e1 = Some (st', entries', e')"
      using step(2) g by (auto split: bind_splits)
    then show ?thesis using step(1) arg_tagged_kept kept_trans by blast
  qed
qed

lemma arg_untagged_loop_kept:
  "arg_untagged_loop argc argv i optind t entries = Some (x, y, z, entries') \<Longrightarrow> kept entries e entries' e"
proof (induction argc argv i optind t entries "(x, y, z, entries')"
    rule: arg_untagged_loop.raw_induct [rotated, consumes 1, case_names step])
  case (step f argc argv i optind t entries)
  show ?case
    using step(2)
    by (auto simp: kept_refl split: if_splits bind_splits prod.splits
        dest!: step(1) arg_scan_kept [where e = e] intro: kept_trans)
qed

lemma arg_unused_kept:
  assumes "arg_unused argc argv optind e = Some e'"
  shows "kept entries e entries e'"
  by (rule for_loop_inv_Some [of "\<lambda>k f. kept entries e entries f", OF _ _ assms [unfolded arg_unused_def]])
    (auto simp: kept_refl split: bind_splits dest!: register_kept [where entries = entries] intro: kept_trans)

lemma arg_parse_untagged_kept:
  assumes "arg_parse_untagged argc argv optind entries e = Some (i, entries', e')"
  shows "kept entries e entries' e'"
  using assms
  by (auto simp: arg_parse_untagged_def split: bind_splits if_splits prod.splits
      dest!: arg_untagged_loop_kept [where e = e] register_kept [where entries = entries'] arg_unused_kept [where entries = entries']
      intro: kept_trans)

lemma arg_parse_check_kept: "arg_parse_check i xs e = Some e' \<Longrightarrow> kept entries e entries e'"
proof (induction i xs e rule: arg_parse_check.induct)
  case (2 i a xs e)
  then show ?case
    by (auto simp: Let_def split: bind_splits if_splits dest!: register_kept [where entries = entries] intro: kept_trans)
qed (simp add: kept_refl)

lemma arg_reset_kept:
  assumes "arg_reset entries e = Some (entries', e')"
  shows "kept entries e entries' e'"
proof -
  have r: "arg_reset_entries entries = Some entries'" "e' = e\<lparr>end_count := 0\<rparr>"
    using assms by (auto simp: arg_reset_def split: bind_splits)
  have "list_all entry_ok entries \<Longrightarrow> list_all entry_ok entries'"
    using r(1) by (induction entries arbitrary: entries') (auto dest: arg_resetfn_ok split: bind_splits)
  then show ?thesis using r arg_reset_headers [OF r(1)] by (auto simp: kept_def end_ok_def)
qed

lemma arg_parse_kept:
  assumes "arg_parse p st argv entries e = Some (n, st', entries', e')"
  shows "kept entries e entries' e' \<and> n = end_count e'"
  using assms
  by (auto simp: arg_parse_def arg_parse_tagged_def Let_def split: bind_splits if_splits prod.splits
      dest!: arg_reset_kept arg_tagged_loop_kept arg_parse_untagged_kept arg_parse_check_kept [where entries = entries']
      intro: kept_trans)

subsection \<open>The table\<close>

text \<open>C23: Whatever the command line, \<open>arg_parse\<close>, when it returns, leaves the headers as they were, every count between zero
  and the maximum of its entry, the arrays of values as long as they were made, every integer
  stored within the range of an \<open>int\<close>, and the number of errors within the room of the table of errors.\<close>

theorem arg_parse_keeps_table:
  assumes "list_all entry_ok entries" "end_ok e"
    and "arg_parse posixly_correct st argv entries e = Some (n, st', entries', e')"
  shows "same_headers entries' entries \<and> list_all entry_ok entries' \<and> end_ok e' \<and>
    n = end_count e' \<and> 0 \<le> n \<and> n \<le> hdr_maxcount e"
  using arg_parse_kept [OF assms(3)] assms(1,2) by (auto simp: kept_def end_ok_def)

theorem arg_parse_keeps_table_witness:
  "\<exists>n st entries e. arg_parse True getopt_start [''p'', ''-q'', ''-vvv'', ''--d'', ''x''] sample_table sample_end =
     Some (n, st, entries, e) \<and> n = 2 \<and> same_headers entries sample_table \<and> list_all entry_ok entries \<and> end_ok e"
proof -
  have ok: "list_all entry_ok sample_table \<and> end_ok sample_end" by code_simp
  have "map_option fst (arg_parse True getopt_start [''p'', ''-q'', ''-vvv'', ''--d'', ''x''] sample_table sample_end) = Some 2"
    by code_simp
  then obtain st entries e where
    "arg_parse True getopt_start [''p'', ''-q'', ''-vvv'', ''--d'', ''x''] sample_table sample_end = Some (2, st, entries, e)"
    by auto
  then show ?thesis using arg_parse_keeps_table [of sample_table sample_end True getopt_start] ok by blast
qed

end
