(* ===== verification/Mbu_Numbers.thy ===== *)
theory Mbu_Numbers
  imports Mbu_Common
begin

text \<open>
  The numbers of the command lines: writing a number down and parsing it. Nothing here models
  code.
\<close>

definition digit :: "nat \<Rightarrow> char" where
  "digit d = char_of (if d < 10 then d + 48 else d + 87)"

fun digits :: "nat \<Rightarrow> nat \<Rightarrow> string" where
  "digits b n = (if n < b \<or> b < 2 then [digit n] else digits b (n div b) @ [digit (n mod b)])"

declare digits.simps [simp del]

definition number_base :: "bool \<Rightarrow> nat" where
  "number_base hex = (if hex then 16 else 10)"

definition base_prefix :: "bool \<Rightarrow> string" where
  "base_prefix hex = (if hex then ''0x'' else [])"

text \<open>A number with a sign and, for base 16, the prefix \<open>0x\<close>; and its value.\<close>

definition number_text :: "string \<Rightarrow> bool \<Rightarrow> nat \<Rightarrow> string" where
  "number_text sign hex n = sign @ base_prefix hex @ digits (number_base hex) n"

definition signed_value :: "string \<Rightarrow> nat \<Rightarrow> int" where
  "signed_value sign n = (if sign = ''-'' then - int n else int n)"

lemma of_char_int: "(of_char c :: int) = int (of_char c)"
  by (rule of_nat_of_char [symmetric])

lemma of_char_nat: "n < 256 \<Longrightarrow> (of_char (char_of n :: char) :: nat) = n"
  by (simp add: of_char_of)

lemma digit_value_digit: "d < 36 \<Longrightarrow> digit_value (digit d) = Some (int d)"
  unfolding digit_value_def digit_def Let_def of_char_int by (simp add: of_char_nat)

lemma is_digit_digit: "d < 36 \<Longrightarrow> is_digit b (digit d) \<longleftrightarrow> int d < b"
  by (simp add: is_digit_def digit_value_digit)

lemma is_digit_char:
  assumes "is_digit b c" "b \<le> 16"
  shows "c \<noteq> CHR ''x''" "c \<noteq> CHR ''X''" "c \<noteq> CHR ''-''" "c \<noteq> CHR ''+''" "c \<noteq> CHR ''.''" "\<not> is_space c" "c \<noteq> NUL"
  using assms unfolding is_digit_def digit_value_def is_space_def Let_def of_char_int
  by (auto split: if_splits)

lemma digits_value_append:
  "list_all (is_digit b) xs \<Longrightarrow> digits_value b acc (xs @ ys) = digits_value b (digits_value b acc xs) ys"
  by (induction xs arbitrary: acc) (auto simp: is_digit_def split: option.splits)

lemma digits_all: "2 \<le> b \<Longrightarrow> b \<le> 36 \<Longrightarrow> list_all (is_digit (int b)) (digits b n)"
proof (induction b n rule: digits.induct)
  case (1 b n)
  show ?case
  proof (cases "n < b")
    case True
    then show ?thesis using "1.prems" by (simp add: digits.simps [of b n] is_digit_digit)
  next
    case False
    then show ?thesis
      using 1 less_le_trans [of "n mod b" b 36] by (simp add: digits.simps [of b n] is_digit_digit)
  qed
qed

lemma digits_value_digits: "2 \<le> b \<Longrightarrow> b \<le> 36 \<Longrightarrow> digits_value (int b) 0 (digits b n) = int n"
proof (induction b n rule: digits.induct)
  case (1 b n)
  show ?case
  proof (cases "n < b")
    case True
    then show ?thesis using "1.prems" by (simp add: digits.simps [of b n] digit_value_digit)
  next
    case False
    then have "digits_value (int b) 0 (digits b n) =
        digits_value (int b) (digits_value (int b) 0 (digits b (n div b))) [digit (n mod b)]"
      using "1.prems" by (simp add: digits.simps [of b n] digits_value_append digits_all)
    also have "\<dots> = int (n div b) * int b + int (n mod b)"
      using 1 False less_le_trans [of "n mod b" b 36] by (simp add: digit_value_digit)
    also have "\<dots> = int n"
      by (metis of_nat_add of_nat_mult div_mult_mod_eq)
    finally show ?thesis .
  qed
qed

lemma digits_Cons: "\<exists>c cs. digits b n = c # cs"
  by (cases "digits b n") (auto simp: digits.simps [of b n] split: if_splits)

lemma strtol_digits:
  assumes "2 \<le> b" "b \<le> 36" "\<forall>c cs. rest = c # cs \<longrightarrow> \<not> is_digit (int b) c"
  shows "takeWhile (is_digit (int b)) (digits b n @ rest) = digits b n"
    "dropWhile (is_digit (int b)) (digits b n @ rest) = rest"
  using digits_all [OF assms(1,2), of n] assms(3)
  by (cases rest; auto simp: list_all_iff takeWhile_append dropWhile_append)+

text \<open>No digit, or the end of the string, behind the number; the fraction point is what a range has.\<close>

definition ends_number :: "string \<Rightarrow> bool" where
  "ends_number rest \<longleftrightarrow> rest = [] \<or> hd rest = CHR ''.''"

lemma at_simps [simp]: "at [] i = NUL" "at (c # cs) 0 = c" "at (c # cs) (Suc i) = at cs i"
  "at (c # cs) 1 = at cs 0" "at (c # cs) 2 = at cs 1"
  by (simp_all add: at_def numeral_2_eq_2)

lemma strtol_text:
  assumes "sign \<in> {[], ''-'', ''+''}" "ends_number rest"
  shows "strtol (number_text sign hex n @ rest) (int (number_base hex)) =
    (if signed_value sign n > LONG_MAX then (LONG_MAX, True, rest)
     else if signed_value sign n < LONG_MIN then (LONG_MIN, True, rest)
     else (signed_value sign n, False, rest))"
proof -
  let ?b = "number_base hex" and ?ds = "digits (number_base hex) n"
  obtain c cs where cs: "?ds = c # cs" using digits_Cons by blast
  have b: "2 \<le> ?b" "?b \<le> 16" "?b \<le> 36" by (simp_all add: number_base_def)
  have dig: "is_digit (int ?b) c" "is_digit 16 c"
    using digits_all [OF b(1,3), of n] cs b(2) by (auto simp: is_digit_def split: option.splits)
  note ch = is_digit_char [OF dig(2) order_refl]
  have tail: "\<forall>c cs. rest = c # cs \<longrightarrow> \<not> is_digit (int ?b) c"
    using assms(2) is_digit_char(5) [of "int ?b"] b(2) by (auto simp: ends_number_def)
  note sd = strtol_digits [OF b(1,3) tail, of n]
  have white: "dropWhile is_space (number_text sign hex n @ rest) = number_text sign hex n @ rest"
    using assms(1) ch(6) cs by (auto simp: number_text_def base_prefix_def is_space_def)
  have sgn: "skip_sign (number_text sign hex n @ rest) =
      (sign = ''-'', base_prefix hex @ ?ds @ rest)"
    using assms(1) ch(3,4) cs by (auto simp: number_text_def base_prefix_def skip_sign_def)
  have hexp: "skip_hex_prefix (int ?b) (base_prefix hex @ ?ds @ rest) = ?ds @ rest"
    using dig cs by (auto simp: skip_hex_prefix_def base_prefix_def number_base_def)
  have ne: "?ds \<noteq> []" by (simp add: cs)
  have val: "digits_value (int ?b) 0 ?ds = int n" by (rule digits_value_digits [OF b(1,3)])
  show ?thesis
    using ne by (simp add: strtol_def white sgn hexp sd val signed_value_def Let_def)
qed

lemma parse_number_text:
  assumes "sign \<in> {[], ''-'', ''+''}" "ends_number rest"
  shows "parse_number (Some (number_text sign hex n @ rest)) =
    (if LONG_MIN \<le> signed_value sign n \<and> signed_value sign n \<le> LONG_MAX then Some (rest, signed_value sign n) else None)"
proof -
  let ?b = "number_base hex" and ?t = "number_text sign hex n @ rest"
  obtain c cs where cs: "digits ?b n = c # cs" using digits_Cons by blast
  have b: "2 \<le> ?b" "?b \<le> 36" by (simp_all add: number_base_def)
  have dig: "list_all (is_digit (int ?b)) (c # cs)" using digits_all [OF b, of n] cs by simp
  have ch: "x \<noteq> CHR ''x''" "x \<noteq> CHR ''X''" "x \<noteq> CHR ''-''" "x \<noteq> CHR ''+''" "x \<noteq> NUL" if "x \<in> set (c # cs)" for x
  proof -
    have "is_digit (int ?b) x" "int ?b \<le> 16" using that dig by (auto simp: list_all_iff number_base_def)
    then show "x \<noteq> CHR ''x''" "x \<noteq> CHR ''X''" "x \<noteq> CHR ''-''" "x \<noteq> CHR ''+''" "x \<noteq> NUL"
      using is_digit_char by blast+
  qed
  have second: "at (cs @ rest) 0 \<noteq> CHR ''x''" "at (cs @ rest) 0 \<noteq> CHR ''X''"
    using ch assms(2) by (cases cs; cases rest; auto simp: ends_number_def)+
  have base: "((at ?t 0 = CHR ''0'' \<and> (at ?t 1 = CHR ''x'' \<or> at ?t 1 = CHR ''X'')) \<or>
       ((at ?t 0 = CHR ''+'' \<or> at ?t 0 = CHR ''-'') \<and> at ?t 1 = CHR ''0'' \<and>
        (at ?t 2 = CHR ''x'' \<or> at ?t 2 = CHR ''X''))) = hex"
    using assms(1) ch [of c] second cs
    by (auto simp: number_text_def base_prefix_def numeral_2_eq_2)
  have base_int: "int ?b = (if hex then 16 else 10)" by (simp add: number_base_def)
  have start: "at ?t 0 \<noteq> NUL" "rest \<noteq> ?t"
    using assms(1) ch(5) [of c] cs by (auto simp: number_text_def base_prefix_def)
  show ?thesis
    unfolding parse_number_def option.case Let_def base base_int [symmetric] strtol_text [OF assms]
    using start by simp
qed

text \<open>C28: The numbers of the command lines are read as they are written: a decimal number, or a
  hexadecimal one behind \<open>0x\<close>, with or without a sign, is parsed to its value when it lies
  within the limits given and those of \<open>int\<close>, and refused otherwise, however long it is; an
  address \<open>a\<close> is the range from \<open>a\<close> to \<open>a\<close> and \<open>a.b\<close> the range from \<open>a\<close> to \<open>b\<close> when it is increasing and
  within 0..247.\<close>

theorem numbers_parse:
  assumes "sign \<in> {[], ''-'', ''+''}" "lo \<le> hi"
  shows "mbu_parse_int (Some (number_text sign hex n)) lo hi True =
      (if signed_value sign n \<in> {lo..hi} \<inter> {INT_MIN..INT_MAX} then Some (signed_value sign n) else None) \<and>
    mbu_parse_address_range (Some (number_text [] hex a)) True True =
      (if a \<le> 247 then Some (int a, int a) else None) \<and>
    mbu_parse_address_range (Some (number_text [] hex a @ ''.'' @ number_text [] hex b)) True True =
      (if a < b \<and> b \<le> 247 then Some (int a, int b) else None)"
proof (intro conjI)
  note num = parse_number_text [of _ "[]", simplified ends_number_def, simplified]
  show "mbu_parse_int (Some (number_text sign hex n)) lo hi True =
      (if signed_value sign n \<in> {lo..hi} \<inter> {INT_MIN..INT_MAX} then Some (signed_value sign n) else None)"
    using num [of sign hex n] assms by (auto simp: mbu_parse_int_def)
  show "mbu_parse_address_range (Some (number_text [] hex a)) True True =
      (if a \<le> 247 then Some (int a, int a) else None)"
    using num [of "[]" hex a] by (auto simp: mbu_parse_address_range_def signed_value_def)
  have "parse_number (Some (number_text [] hex a @ ''.'' @ number_text [] hex b)) =
      (if int a \<le> LONG_MAX then Some (''.'' @ number_text [] hex b, int a) else None)"
    using parse_number_text [of "[]" "''.'' @ number_text [] hex b" hex a]
    by (simp add: ends_number_def signed_value_def)
  then show "mbu_parse_address_range (Some (number_text [] hex a @ ''.'' @ number_text [] hex b)) True True =
      (if a < b \<and> b \<le> 247 then Some (int a, int b) else None)"
    using num [of "[]" hex b] by (auto simp: mbu_parse_address_range_def signed_value_def)
qed

theorem numbers_parse_witness:
  "mbu_parse_int (Some ''-0x1f'') (-100) 100 True = Some (-31)"
proof -
  have "number_text ''-'' True 31 = ''-0x1f''" by code_simp
  with numbers_parse [of "''-''" "-100" 100 True 31 0 0] show ?thesis by (simp add: signed_value_def)
qed

end
