(* ===== verification/Argtable_Numbers.thy ===== *)
theory Argtable_Numbers
  imports Argtable_Scan Mbu_Numbers
begin

text \<open>
  The integers of the command line, in the four notations \<open>arg_int\<close> knows and with its suffixes:
  writing one down and scanning it. Nothing here models code.
\<close>

definition int_prefix :: "nat \<Rightarrow> string" where
  "int_prefix b = (if b = 16 then ''0x'' else if b = 8 then ''0o'' else if b = 2 then ''0b'' else [])"

definition int_text :: "string \<Rightarrow> nat \<Rightarrow> nat \<Rightarrow> string" where
  "int_text sign b n = sign @ int_prefix b @ digits b n"

definition suffix_factors :: "(string \<times> int) list" where
  "suffix_factors = [([], 1), (''KB'', 1024), (''kb'', 1024), (''MB'', 1048576), (''mb'', 1048576),
     (''GB'', 1073741824), (''gb'', 1073741824)]"

text \<open>What may stand behind the digits.\<close>

definition suffix_start :: "string \<Rightarrow> bool" where
  "suffix_start rest \<longleftrightarrow> rest = [] \<or> hd rest \<in> set ''KMGkmg''"

lemma to_upper_suffix:
  "to_upper (CHR ''K'') = CHR ''K''" "to_upper (CHR ''M'') = CHR ''M''" "to_upper (CHR ''G'') = CHR ''G''"
  "to_upper (CHR ''k'') = CHR ''K''" "to_upper (CHR ''m'') = CHR ''M''" "to_upper (CHR ''g'') = CHR ''G''"
  "to_upper (CHR ''B'') = CHR ''B''" "to_upper (CHR ''X'') = CHR ''X''" "to_upper (CHR ''x'') = CHR ''X''"
  "to_upper (CHR ''O'') = CHR ''O''" "to_upper (CHR ''o'') = CHR ''O''" "to_upper (CHR ''b'') = CHR ''B''"
  "to_upper NUL = NUL"
  by code_simp+

lemma suffix_no_digit:
  assumes "suffix_start (c # cs)"
  shows "\<not> is_digit 16 c" "c \<noteq> CHR ''x''" "c \<noteq> CHR ''X''" "to_upper c \<notin> set ''XOB''" "\<not> is_space c"
  using assms by (auto simp: suffix_start_def is_digit_def digit_value_def is_space_def to_upper_suffix)

lemma is_digit_le: "is_digit b c \<Longrightarrow> b \<le> 16 \<Longrightarrow> is_digit 16 c"
  by (auto simp: is_digit_def split: option.splits)

lemma digits_zero: "2 \<le> b \<Longrightarrow> b \<le> 36 \<Longrightarrow> digits b n = CHR ''0'' # cs \<Longrightarrow> cs = []"
proof (induction b n arbitrary: cs rule: digits.induct)
  case (1 b n)
  show ?case
  proof (cases "n < b")
    case True
    then show ?thesis using 1(4) by (simp add: digits.simps [of b n])
  next
    case False
    obtain d ds where ds: "digits b (n div b) = d # ds" using digits_Cons by blast
    then have d: "d = CHR ''0''" using 1(2,4) False by (simp add: digits.simps [of b n])
    then have "ds = []" using 1(1) [OF _ 1(2,3)] ds False 1(2) by simp
    then have "digits_value (int b) 0 (digits b (n div b)) = 0" using ds d by (simp add: digit_value_def)
    then show ?thesis using False 1(2) digits_value_digits [OF 1(2,3), of "n div b"] by (simp add: div_eq_0_iff)
  qed
qed

text \<open>\<open>strtol\<close> on the digits of a base, and what is left.\<close>

definition clamped :: "int \<Rightarrow> int" where
  "clamped v = (if v > LONG_MAX then LONG_MAX else if v < LONG_MIN then LONG_MIN else v)"

lemma strtol_base:
  assumes "sign \<in> {[], ''-'', ''+''}" "b \<in> {2, 8, 10, 16}" "suffix_start rest"
  shows "strtol (sign @ digits b n @ rest) (int b) =
    (clamped (signed_value sign n), clamped (signed_value sign n) \<noteq> signed_value sign n, rest)"
proof -
  obtain c cs where cs: "digits b n = c # cs" using digits_Cons by blast
  have b: "2 \<le> b" "b \<le> 36" "int b \<le> 16" using assms(2) by auto
  have dig: "is_digit (int b) x" "is_digit 16 x" if "x \<in> set (c # cs)" for x
    using digits_all [OF b(1,2), of n] cs that is_digit_le [OF _ b(3)] by (auto simp: list_all_iff)
  note ch = is_digit_char [OF dig(2) order_refl]
  have tail: "\<forall>c cs. rest = c # cs \<longrightarrow> \<not> is_digit (int b) c"
    using assms(3) suffix_no_digit(1) is_digit_le [OF _ b(3)] by blast
  note sd = strtol_digits [OF b(1,2) tail, of n]
  have white: "dropWhile is_space (sign @ digits b n @ rest) = sign @ digits b n @ rest"
    using assms(1) ch(6) [of c] cs by (auto simp: is_space_def)
  have sgn: "skip_sign (sign @ digits b n @ rest) = (sign = ''-'', digits b n @ rest)"
    using assms(1) ch(3,4) [of c] cs by (auto simp: skip_sign_def)
  have "at (cs @ rest) 0 \<noteq> CHR ''x''" "at (cs @ rest) 0 \<noteq> CHR ''X''"
    using ch(1,2) suffix_no_digit(2,3) assms(3) by (cases cs; cases rest; fastforce)+
  then have hexp: "skip_hex_prefix (int b) (digits b n @ rest) = digits b n @ rest"
    by (simp add: skip_hex_prefix_def cs)
  have ne: "digits b n \<noteq> []" by (simp add: cs)
  have val: "digits_value (int b) 0 (digits b n) = int n" by (rule digits_value_digits [OF b(1,2)])
  show ?thesis
    using ne by (simp add: strtol_def white sgn hexp sd val signed_value_def Let_def clamped_def)
qed

definition base_letter :: "nat \<Rightarrow> char" where
  "base_letter b = (if b = 16 then CHR ''X'' else if b = 8 then CHR ''O'' else CHR ''B'')"

lemma strtol0X_text:
  assumes "sign \<in> {[], ''-'', ''+''}" "b \<in> {2, 8, 10, 16}" "b' \<in> {2, 8, 16}" "suffix_start rest"
  shows "strtol0X (int_text sign b n @ rest) (base_letter b') (int b') =
    Some (if b = b' then (if sign = ''-'' then - clamped (int n) else clamped (int n), rest)
      else (0, int_text sign b n @ rest))"
proof -
  obtain c cs where cs: "digits b n = c # cs" using digits_Cons by blast
  have b: "2 \<le> b" "b \<le> 36" "int b \<le> 16" using assms(2) by auto
  have dig: "is_digit 16 x" if "x \<in> set (c # cs)" for x
    using digits_all [OF b(1,2), of n] cs that is_digit_le [OF _ b(3)] by (auto simp: list_all_iff)
  note ch = is_digit_char [OF dig order_refl]
  have white: "dropWhile is_space (int_text sign b n @ rest) = int_text sign b n @ rest"
    using assms(1) ch(6) [of c] cs by (auto simp: int_text_def int_prefix_def is_space_def)
  have sgn: "skip_sign (int_text sign b n @ rest) = (sign = ''-'', int_prefix b @ digits b n @ rest)"
    using assms(1) ch(3,4) [of c] cs by (auto simp: skip_sign_def int_text_def int_prefix_def)
  show ?thesis
  proof (cases "b = 10")
    case True
    have "to_upper (at (cs @ rest) 0) \<notin> set ''XOB''" if "c = CHR ''0''"
    proof -
      have "cs = []" using digits_zero [OF b(1,2)] cs that by blast
      then show ?thesis using suffix_no_digit(4) assms(4) by (cases rest) (auto simp: to_upper_suffix)
    qed
    then show ?thesis
      unfolding strtol0X_def white sgn prod.case
      using True assms(3) cs by (auto simp: int_prefix_def base_letter_def to_upper_suffix)
  next
    case False
    have num: "strtol (digits b n @ rest) (int b) = (clamped (int n), clamped (int n) \<noteq> int n, rest)"
      using strtol_base [of "[]" b rest n] assms(2,4) by (simp add: signed_value_def)
    obtain l where l: "int_prefix b = [CHR ''0'', l]" "to_upper l = base_letter b"
      using False assms(2) that [of "CHR ''x''"] that [of "CHR ''o''"] that [of "CHR ''b''"]
      by (auto simp: int_prefix_def base_letter_def to_upper_suffix)
    have upper: "to_upper (base_letter b') = base_letter b'" by (simp add: base_letter_def to_upper_suffix)
    have same: "base_letter b = base_letter b' \<longleftrightarrow> b = b'"
      using False assms(2,3) by (auto simp: base_letter_def)
    have ne: "rest \<noteq> digits b n @ rest" by (simp add: cs)
    have low: "clamped (int n) \<noteq> LONG_MIN" by (simp add: clamped_def)
    show ?thesis
      unfolding strtol0X_def white sgn prod.case l(1)
      using num ne low same by (cases "b = b'") (simp_all add: l(2) upper Let_def)
  qed
qed

lemma arg_int_number_text:
  assumes "sign \<in> {[], ''-'', ''+''}" "b \<in> {2, 8, 10, 16}" "suffix_start rest"
  shows "arg_int_number (int_text sign b n @ rest) =
    Some (Some (if b = 10 then clamped (signed_value sign n)
      else if sign = ''-'' then - clamped (int n) else clamped (int n), rest))"
proof -
  note x = strtol0X_text [OF assms(1,2) _ assms(3), of 16 n] strtol0X_text [OF assms(1,2) _ assms(3), of 8 n]
    strtol0X_text [OF assms(1,2) _ assms(3), of 2 n]
  have ne: "rest \<noteq> int_text sign b n @ rest"
    using digits_Cons [of b n] by (auto simp: int_text_def)
  have "b = 10 \<Longrightarrow> strtol (int_text sign b n @ rest) 10 =
      (clamped (signed_value sign n), clamped (signed_value sign n) \<noteq> signed_value sign n, rest)"
    using strtol_base [OF assms, of n] by (simp add: int_text_def int_prefix_def)
  then show ?thesis
    using x ne assms(2) by (auto simp: arg_int_number_def base_letter_def)
qed

lemma scale_int_1:
  "scale_int 1 (if val > INT_MAX \<or> val < INT_MIN then ARG_ERR_OVERFLOW else 0) val =
    (if val > INT_MAX \<or> val < INT_MIN then ARG_ERR_OVERFLOW else 0, val)"
  by (simp add: scale_int_def signed_divide_int_def)

lemma arg_int_suffix_text:
  assumes "(sfx, factor) \<in> set suffix_factors"
  shows "arg_int_suffix val sfx = scale_int factor (if val > INT_MAX \<or> val < INT_MIN then ARG_ERR_OVERFLOW else 0) val"
    "suffix_start sfx"
proof -
  consider "sfx = []" "factor = 1" | "sfx \<in> {''KB'', ''kb''}" "factor = 1024"
    | "sfx \<in> {''MB'', ''mb''}" "factor = 1048576" | "sfx \<in> {''GB'', ''gb''}" "factor = 1073741824"
    using assms unfolding suffix_factors_def by auto
  then show "arg_int_suffix val sfx = scale_int factor (if val > INT_MAX \<or> val < INT_MIN then ARG_ERR_OVERFLOW else 0) val"
    unfolding arg_int_suffix_def Let_def
    by cases (simp only: scale_int_1, simp, (elim insertE emptyE; simp add: to_upper_suffix)+)
  show "suffix_start sfx" using assms by (auto simp: suffix_factors_def suffix_start_def)
qed

lemma scale_limits:
  assumes "(sfx, factor) \<in> set suffix_factors"
  shows "1 \<le> factor" "INT_MAX sdiv factor = INT_MAX div factor" "INT_MIN sdiv factor = - (2147483648 div factor)"
    "factor * (2147483648 div factor) = 2147483648"
proof -
  have "factor \<in> {1, 1024, 1048576, 1073741824}" using assms by (auto simp: suffix_factors_def)
  then show "1 \<le> factor" "INT_MAX sdiv factor = INT_MAX div factor" "INT_MIN sdiv factor = - (2147483648 div factor)"
      "factor * (2147483648 div factor) = 2147483648"
    by (elim insertE; simp add: signed_divide_int_def)+
qed

lemma scale_int_exact:
  assumes "(sfx, factor) \<in> set suffix_factors"
    and "val = v \<or> INT_MAX < val \<and> INT_MAX < v \<or> val < INT_MIN \<and> v < INT_MIN"
  shows "v * factor \<in> {INT_MIN..INT_MAX} \<Longrightarrow>
      scale_int factor (if val > INT_MAX \<or> val < INT_MIN then ARG_ERR_OVERFLOW else 0) val = (0, v * factor)"
    "v * factor \<notin> {INT_MIN..INT_MAX} \<Longrightarrow>
      fst (scale_int factor (if val > INT_MAX \<or> val < INT_MIN then ARG_ERR_OVERFLOW else 0) val) = ARG_ERR_OVERFLOW"
proof -
  note lim = scale_limits [OF assms(1)]
  have up: "x * factor \<le> INT_MAX \<longleftrightarrow> x \<le> INT_MAX div factor" for x
  proof
    assume "x * factor \<le> INT_MAX"
    then show "x \<le> INT_MAX div factor" using lim(1) zdiv_mono1 [of "x * factor" INT_MAX factor] by simp
  next
    assume "x \<le> INT_MAX div factor"
    then have "x * factor \<le> INT_MAX div factor * factor" using lim(1) by (intro mult_right_mono) auto
    also have "\<dots> \<le> INT_MAX" using lim(1) pos_mod_sign [of factor INT_MAX] div_mult_mod_eq [of INT_MAX factor] by linarith
    finally show "x * factor \<le> INT_MAX" .
  qed
  have low: "INT_MIN \<le> x * factor \<longleftrightarrow> - (2147483648 div factor) \<le> x" for x
  proof -
    have "INT_MIN \<le> x * factor \<longleftrightarrow> factor * (- (2147483648 div factor)) \<le> factor * x"
      using lim(4) by (simp add: mult.commute)
    then show ?thesis using lim(1) mult_le_cancel_left_pos [of factor "- (2147483648 div factor)" x] by linarith
  qed
  have big: "x \<le> INT_MAX div factor \<Longrightarrow> x \<le> INT_MAX" "- (2147483648 div factor) \<le> x \<Longrightarrow> INT_MIN \<le> x" for x
  proof -
    have "INT_MAX div factor \<le> INT_MAX div 1" "2147483648 div factor \<le> 2147483648 div 1"
      using lim(1) zdiv_mono2 [of _ 1 factor] by simp_all
    then show "x \<le> INT_MAX div factor \<Longrightarrow> x \<le> INT_MAX" "- (2147483648 div factor) \<le> x \<Longrightarrow> INT_MIN \<le> x"
      by auto
  qed
  show "v * factor \<in> {INT_MIN..INT_MAX} \<Longrightarrow>
      scale_int factor (if val > INT_MAX \<or> val < INT_MIN then ARG_ERR_OVERFLOW else 0) val = (0, v * factor)"
    using assms(2) big [of v] unfolding scale_int_def lim(2,3) atLeastAtMost_iff up low by fastforce
  show "v * factor \<notin> {INT_MIN..INT_MAX} \<Longrightarrow>
      fst (scale_int factor (if val > INT_MAX \<or> val < INT_MIN then ARG_ERR_OVERFLOW else 0) val) = ARG_ERR_OVERFLOW"
    using assms(2) big [of val] unfolding scale_int_def lim(2,3) atLeastAtMost_iff up low
    by (auto simp: not_le split: if_splits)
qed

lemma integers_scanned_run:
  assumes "sign \<in> {[], ''-'', ''+''}" "b \<in> {2, 8, 10, 16}" "(sfx, factor) \<in> set suffix_factors"
    and "arg_data a = Int_data ival" "0 \<le> arg_count a" "arg_count a < hdr_maxcount a"
    and "hdr_maxcount a = int (length ival)"
  shows "arg_scanfn a (Some (int_text sign b n @ sfx)) =
    Some (if signed_value sign n * factor \<in> {INT_MIN..INT_MAX}
      then (0, a\<lparr>arg_data := Int_data (ival[nat (arg_count a) := signed_value sign n * factor]),
                 arg_count := arg_count a + 1\<rparr>)
      else (ARG_ERR_OVERFLOW, a))"
proof -
  note sfx = arg_int_suffix_text [OF assms(3)]
  define val where "val = (if b = 10 then clamped (signed_value sign n)
      else if sign = ''-'' then - clamped (int n) else clamped (int n))"
  have number: "arg_int_number (int_text sign b n @ sfx) = Some (Some (val, sfx))"
    unfolding val_def by (rule arg_int_number_text [OF assms(1,2) sfx(2)])
  have "val = signed_value sign n \<or> INT_MAX < val \<and> INT_MAX < signed_value sign n \<or>
      val < INT_MIN \<and> signed_value sign n < INT_MIN"
    by (auto simp: val_def clamped_def signed_value_def)
  note exact = scale_int_exact [OF assms(3) this]
  have store: "wr ival (arg_count a) v = Some (ival[nat (arg_count a) := v])" for v
    using assms(5-7) by (simp add: wr_def)
  show ?thesis
  proof (cases "signed_value sign n * factor \<in> {INT_MIN..INT_MAX}")
    case True
    then show ?thesis using exact(1) assms(4,6) number store sfx(1)
      by (simp add: arg_scanfn_def arg_int_scanfn_def)
  next
    case False
    obtain x where "arg_int_suffix val sfx = (ARG_ERR_OVERFLOW, x)"
      using exact(2) [OF False] sfx(1) by (metis prod.collapse)
    then show ?thesis using False assms(4,6) number by (simp add: arg_scanfn_def arg_int_scanfn_def)
  qed
qed

text \<open>C24: An integer on the command line is scanned to the value it is written for: in decimal, or
  behind \<open>0x\<close>, \<open>0o\<close>, \<open>0b\<close> in base 16, 8 or 2, with or without a sign and one of the suffixes KB, MB and
  GB, it is stored behind the values scanned before and counted when the product fits an \<open>int\<close>, and
  refused as an overflow, with nothing stored, otherwise, however many digits it has.\<close>

theorem integers_scanned:
  assumes "sign \<in> {[], ''-'', ''+''}" "b \<in> {2, 8, 10, 16}" "(sfx, factor) \<in> set suffix_factors"
    and "arg_data a = Int_data ival" "0 \<le> arg_count a" "arg_count a < hdr_maxcount a"
    and "hdr_maxcount a = int (length ival)"
  shows "arg_scanfn a (Some (int_text sign b n @ sfx)) =
    Some (if signed_value sign n * factor \<in> {INT_MIN..INT_MAX}
      then (0, a\<lparr>arg_data := Int_data (ival[nat (arg_count a) := signed_value sign n * factor]),
                 arg_count := arg_count a + 1\<rparr>)
      else (ARG_ERR_OVERFLOW, a))"
  using assms by (rule integers_scanned_run)

theorem integers_scanned_witness:
  "arg_scanfn (arg_intn (\<lambda>i. 0) (Some ''r'') (Some ''reg'') 1 1) (Some ''-0x1fKB'') =
     Some (0, (arg_intn (\<lambda>i. 0) (Some ''r'') (Some ''reg'') 1 1)\<lparr>arg_count := 1, arg_data := Int_data [-31744]\<rparr>)"
proof -
  have "int_text ''-'' 16 31 = ''-0x1f''" by code_simp
  then show ?thesis
    using integers_scanned [of "''-''" 16 "''KB''" 1024 "arg_intn (\<lambda>i. 0) (Some ''r'') (Some ''reg'') 1 1" "[0]" 31]
    by (simp add: suffix_factors_def arg_intn_def signed_value_def)
qed

end
