(* ===== verification/Command_Values.thy ===== *)
theory Command_Values
  imports Command_Line Argtable_Safe Argtable_Numbers
begin

text \<open>
  What a command line says: the values an entry is given are scanned in their order, whatever the
  other entries are given in between.
\<close>

subsection \<open>One entry\<close>

fun scan_all :: "string option list \<Rightarrow> arg \<Rightarrow> arg option" where
  "scan_all [] a = Some a"
| "scan_all (v # vs) a =
     (case arg_scanfn a v of
        None \<Rightarrow> None
      | Some (r, a') \<Rightarrow> if r = 0 then scan_all vs a' else None)"

definition item_values :: "nat \<Rightarrow> item list \<Rightarrow> string option list" where
  "item_values i xs = map snd (filter (\<lambda>(j, v). j = i) (concat (map item_reads xs)))"

lemma scan_reads_entries:
  assumes "\<And>i. i < length entries \<Longrightarrow> scan_all (map snd (filter (\<lambda>(j, v). j = i) rs)) (entries ! i) = Some (b i)"
    and "list_all (\<lambda>(i, v). i < length entries) rs"
  shows "scan_reads rs entries e = Some (map b [0..<length entries], e)"
  using assms
proof (induction rs arbitrary: entries)
  case Nil
  have "entries = map b [0..<length entries]"
    using Nil(1) by (intro nth_equalityI) simp_all
  then show ?case by simp
next
  case (Cons p rs)
  obtain j v where p: "p = (j, v)" by (cases p)
  then have j: "j < length entries" using Cons.prems(2) by simp
  obtain a' where a': "arg_scanfn (entries ! j) v = Some (0, a')"
      "scan_all (map snd (filter (\<lambda>(i, v). i = j) rs)) a' = Some (b j)"
    using Cons.prems(1) [OF j] p by (auto split: option.splits if_splits)
  have "scan_reads rs (entries[j := a']) e = Some (map b [0..<length (entries[j := a'])], e)"
  proof (rule Cons.IH)
    fix i assume "i < length (entries[j := a'])"
    then show "scan_all (map snd (filter (\<lambda>(j, v). j = i) rs)) (entries[j := a'] ! i) = Some (b i)"
      using Cons.prems(1) [of i] a'(2) p by (cases "i = j") simp_all
  qed (use Cons.prems(2) in simp)
  then show ?case using p j a'(1) by (simp add: arg_scan_report_def arg_scan_def rd_nat wr_nat)
qed

lemma scan_items_entries:
  assumes "\<And>i. i < length entries \<Longrightarrow> scan_all (item_values i xs) (entries ! i) = Some (b i)"
    and "list_all (\<lambda>x. list_all (\<lambda>(i, v). i < length entries) (item_reads x)) xs"
  shows "scan_items xs entries e = Some (map b [0..<length entries], e)"
  unfolding scan_items_def
  by (rule scan_reads_entries) (use assms in \<open>auto simp: item_values_def list_all_iff\<close>)

subsection \<open>The kinds of values\<close>

text \<open>A text for an integer that fits an \<open>int\<close>.\<close>

definition writes_int :: "string option \<Rightarrow> int \<Rightarrow> bool" where
  "writes_int t v \<longleftrightarrow> v \<in> {INT_MIN..INT_MAX} \<and>
     (\<exists>sign \<in> {[], ''-'', ''+''}. \<exists>b \<in> {2, 8, 10, 16}. \<exists>(sfx, factor) \<in> set suffix_factors. \<exists>n.
        t = Some (int_text sign b n @ sfx) \<and> v = signed_value sign n * factor)"

lemma scan_all_lit:
  assumes "arg_data a = Lit_data" "arg_count a + int (length vs) \<le> hdr_maxcount a"
  shows "scan_all vs a = Some (a\<lparr>arg_count := arg_count a + int (length vs)\<rparr>)"
  using assms
  by (induction vs arbitrary: a) (simp_all add: arg_scanfn_def arg_lit_scanfn_def)

lemma scan_all_int:
  assumes "list_all2 writes_int vs ns" "arg_data a = Int_data (pre @ rest)" "arg_count a = int (length pre)"
    "hdr_maxcount a = int (length (pre @ rest))" "length ns \<le> length rest"
  shows "scan_all vs a = Some (a\<lparr>arg_data := Int_data (pre @ ns @ drop (length ns) rest), arg_count := int (length (pre @ ns))\<rparr>)"
  using assms
proof (induction arbitrary: a pre rest rule: list_all2_induct)
  case Nil
  then show ?case by (cases a) simp
next
  case (Cons v vs n ns)
  obtain sign b sfx factor m where t: "sign \<in> {[], ''-'', ''+''}" "b \<in> {2, 8, 10, 16}" "(sfx, factor) \<in> set suffix_factors"
    "v = Some (int_text sign b m @ sfx)" "n = signed_value sign m * factor" "n \<in> {INT_MIN..INT_MAX}"
    using Cons.hyps(1) unfolding writes_int_def by blast
  obtain r rest' where r: "rest = r # rest'" using Cons.prems(4) by (cases rest) auto
  let ?a = "a\<lparr>arg_data := Int_data ((pre @ [n]) @ rest'), arg_count := arg_count a + 1\<rparr>"
  have "arg_scanfn a v = Some (0, ?a)"
    using integers_scanned_run [OF t(1-3) Cons.prems(1), of m] Cons.prems r t(4-6) by simp
  moreover have "scan_all vs ?a = Some (?a\<lparr>arg_data := Int_data ((pre @ [n]) @ ns @ drop (length ns) rest'),
      arg_count := int (length ((pre @ [n]) @ ns))\<rparr>)"
    by (rule Cons.IH) (use Cons.prems r in simp_all)
  ultimately show ?case using r by simp
qed

lemma scan_all_str:
  assumes "arg_data a = Str_data (pre @ rest)" "arg_count a = int (length pre)"
    "hdr_maxcount a = int (length (pre @ rest))" "length ss \<le> length rest"
  shows "scan_all (map Some ss) a =
    Some (a\<lparr>arg_data := Str_data (pre @ ss @ drop (length ss) rest), arg_count := int (length (pre @ ss))\<rparr>)"
  using assms
proof (induction ss arbitrary: a pre rest)
  case Nil
  then show ?case by (cases a) simp
next
  case (Cons s ss)
  obtain r rest' where r: "rest = r # rest'" using Cons.prems(4) by (cases rest) auto
  let ?a = "a\<lparr>arg_data := Str_data ((pre @ [s]) @ rest'), arg_count := arg_count a + 1\<rparr>"
  have "arg_scanfn a (Some s) = Some (0, ?a)"
    using Cons.prems r by (simp add: arg_scanfn_def arg_str_scanfn_def wr_def nat_add_distrib)
  moreover have "scan_all (map Some ss) ?a = Some (?a\<lparr>arg_data := Str_data ((pre @ [s]) @ ss @ drop (length ss) rest'),
      arg_count := int (length ((pre @ [s]) @ ss))\<rparr>)"
    by (rule Cons.IH) (use Cons.prems r in simp_all)
  ultimately show ?case using r by simp
qed

text \<open>A pattern that compiles and accepts exactly the texts of \<open>T\<close>.\<close>

definition accepts :: "string \<Rightarrow> bool \<Rightarrow> (string \<Rightarrow> bool) \<Rightarrow> bool" where
  "accepts pattern icase T \<longleftrightarrow>
     (\<forall>fuel \<ge> 14. \<forall>s. \<exists>e. trex_compile pattern icase = Some (Inr e) \<and> trex_match fuel e s = Some (T s))"

lemma accepts_patterns:
  "accepts ADDRESS_PATTERN False address_text" "accepts ''^(7|8)$'' False (\<lambda>s. s = ''7'' \<or> s = ''8'')"
  "accepts ''^(1|2)$'' False (\<lambda>s. s = ''1'' \<or> s = ''2'')" "accepts ''^(N|E|O)$'' True parity_text"
  "accepts ''rtu'' True (\<lambda>s. equals_ignore_case s ''rtu'')" "accepts ''tcp'' True (\<lambda>s. equals_ignore_case s ''tcp'')"
  using patterns_match_run unfolding accepts_def by blast+

lemma rex_scanned:
  assumes "accepts pattern icase T" "arg_data a = Rex_data pattern icase xs" "0 \<le> arg_count a"
    "arg_count a < hdr_maxcount a" "hdr_maxcount a = int (length xs)"
  shows "arg_scanfn a (Some s) = Some (if T s
    then (0, a\<lparr>arg_data := Rex_data pattern icase (xs[nat (arg_count a) := s]), arg_count := arg_count a + 1\<rparr>)
    else (ARG_ERR_REGNOMATCH, a))"
proof -
  obtain e where e: "trex_compile pattern icase = Some (Inr e)"
    using assms(1) unfolding accepts_def by blast
  moreover obtain e' where "trex_compile pattern icase = Some (Inr e')"
      "trex_match (65538 + length (tx_nodes e)) e' s = Some (T s)"
    using assms(1) [unfolded accepts_def, rule_format, of "65538 + length (tx_nodes e)" s] by auto
  ultimately show ?thesis
    using assms(2-5) by (auto simp: arg_scanfn_def arg_rex_scanfn_def wr_def)
qed

lemma scan_all_rex:
  assumes "accepts pattern icase T" "list_all T ss" "arg_data a = Rex_data pattern icase (pre @ rest)"
    "arg_count a = int (length pre)" "hdr_maxcount a = int (length (pre @ rest))" "length ss \<le> length rest"
  shows "scan_all (map Some ss) a =
    Some (a\<lparr>arg_data := Rex_data pattern icase (pre @ ss @ drop (length ss) rest), arg_count := int (length (pre @ ss))\<rparr>)"
  using assms(2-)
proof (induction ss arbitrary: a pre rest)
  case Nil
  then show ?case by (cases a) simp
next
  case (Cons s ss)
  obtain r rest' where r: "rest = r # rest'" using Cons.prems(5) by (cases rest) auto
  let ?a = "a\<lparr>arg_data := Rex_data pattern icase ((pre @ [s]) @ rest'), arg_count := arg_count a + 1\<rparr>"
  have "arg_scanfn a (Some s) = Some (0, ?a)"
    using rex_scanned [OF assms(1) Cons.prems(2), of s] Cons.prems r by simp
  moreover have "scan_all (map Some ss) ?a = Some (?a\<lparr>arg_data := Rex_data pattern icase ((pre @ [s]) @ ss @ drop (length ss) rest'),
      arg_count := int (length ((pre @ [s]) @ ss))\<rparr>)"
    by (rule Cons.IH) (use Cons.prems r in simp_all)
  ultimately show ?case using r by simp
qed

subsection \<open>A table\<close>

text \<open>What is known of an entry once its values are scanned.\<close>

definition entry_says :: "arg \<Rightarrow> string option list \<Rightarrow> (arg \<Rightarrow> bool) \<Rightarrow> bool" where
  "entry_says a vs K \<longleftrightarrow> (\<exists>a'. scan_all vs a = Some a' \<and> hdr_mincount a' \<le> arg_count a' \<and> K a')"

fun all_said :: "nat \<Rightarrow> arg list \<Rightarrow> (arg \<Rightarrow> bool) list \<Rightarrow> item list \<Rightarrow> bool" where
  "all_said k [] Ks xs = (Ks = [])"
| "all_said k (a # entries) [] xs = False"
| "all_said k (a # entries) (K # Ks) xs = (entry_says a (item_values k xs) K \<and> all_said (k + 1) entries Ks xs)"

lemma all_said_length: "all_said k entries Ks xs \<Longrightarrow> length Ks = length entries"
  by (induction k entries Ks xs rule: all_said.induct) auto

lemma all_said_nth: "all_said k entries Ks xs \<Longrightarrow> i < length entries \<Longrightarrow> entry_says (entries ! i) (item_values (k + i) xs) (Ks ! i)"
proof (induction k entries Ks xs arbitrary: i rule: all_said.induct)
  case (3 k a entries K Ks xs)
  then show ?case by (cases i) auto
qed auto

lemma arg_parse_check_passes: "list_all (\<lambda>a. hdr_mincount a \<le> arg_count a) entries \<Longrightarrow> arg_parse_check k entries e = Some e"
  by (induction k entries e rule: arg_parse_check.induct) (simp_all add: arg_checkfn_def Let_def)

definition command_entry :: "string \<Rightarrow> arg" where
  "command_entry command = arg_rexn None None command 1 1 True"

lemma no_command_word: "option_word (command_entry command # entries) 0 w = False"
  by (simp add: option_word_def Let_def long_names_def short_names_def command_entry_def arg_rexn_def)

lemma no_command_option: "option_word (command_entry command # entries) i w \<Longrightarrow> 0 < i"
  using no_command_word [of command entries w] by (cases i) simp_all

lemma untagged_command:
  assumes "accepts command True T" "T cmd"
  shows "\<exists>a'. arg_parse_untagged 1 [Some cmd, None] 0 (command_entry command # entries) e = Some (1, a' # entries, e) \<and>
    hdr_mincount a' \<le> arg_count a'"
proof -
  let ?a = "command_entry command"
  have "arg_scanfn ?a (Some cmd) = Some (0, ?a\<lparr>arg_data := Rex_data command True [cmd], arg_count := 1\<rparr>)"
    using rex_scanned [OF assms(1), of ?a "[[]]" cmd] assms(2) by (simp add: command_entry_def arg_rexn_def)
  then have s: "arg_scan 0 (Some cmd) (?a # entries) =
      Some (0, ?a\<lparr>arg_data := Rex_data command True [cmd], arg_count := 1\<rparr> # entries)"
    by (simp add: arg_scan_def rd_0 wr_0)
  have "arg_untagged_loop 1 [Some cmd, None] 0 0 (0, None, 0) (?a # entries) =
      Some (True, 1, (0, None, 0), ?a\<lparr>arg_data := Rex_data command True [cmd], arg_count := 1\<rparr> # entries)"
    using s by (simp add: arg_untagged_loop.simps [of 1 _ 0 0] arg_untagged_loop.simps [of 1 _ 0 1] rd_0 rd_1)
      (simp add: command_entry_def arg_rexn_def)
  then show ?thesis by (simp add: arg_parse_untagged_def) (simp add: command_entry_def arg_rexn_def)
qed

lemma parse_said:
  assumes plain: "list_all plain_entry (command_entry command # entries)"
    and countable: "options_countable (command_entry command # entries)"
    and reset: "arg_reset_entries entries = Some entries"
    and ok: "list_all (item_ok (command_entry command # entries)) xs"
    and words: "plain_words xs = [cmd]" "accepts command True T" "T cmd"
    and said: "all_said 1 entries Ks xs"
  shows "\<exists>st' a ys e'. arg_parse False st (prog # item_list xs) (command_entry command # entries) e = Some (0, st', a # ys, e') \<and>
    list_all2 (\<lambda>K y. K y) Ks ys"
proof -
  let ?c = "command_entry command"
  obtain b where b: "\<And>i. i < length entries \<Longrightarrow> scan_all (item_values (1 + i) xs) (entries ! i) = Some (b i) \<and>
      hdr_mincount (b i) \<le> arg_count (b i) \<and> (Ks ! i) (b i)"
    using all_said_nth [OF said] unfolding entry_says_def by metis
  let ?ys = "map b [0..<length entries]"
  have read: "option_word (?c # entries) i w \<Longrightarrow> i \<noteq> 0 \<and> i < length (?c # entries)" for i w
    using no_command_option [of command entries i w] unfolding option_word_def by blast
  have "list_all (\<lambda>(i, v). i \<noteq> 0 \<and> i < length (?c # entries)) (item_reads x)" if "item_ok (?c # entries) x" for x
  proof (cases x)
    case (Option i w v)
    then show ?thesis using that read [of i w] by (simp add: item_ok_def)
  next
    case (Joined i w v)
    then show ?thesis using that read [of i w] by (simp add: item_ok_def)
  next
    case (Group cs)
    have "i \<noteq> 0 \<and> i < length (?c # entries)" if "(i, c) \<in> set cs" for i c
      by (rule read [of i "[CHR ''-'', c]"])
        (use \<open>item_ok (?c # entries) x\<close> Group that in \<open>auto simp: item_ok_def list_all_iff\<close>)
    then show ?thesis using Group by (auto simp: list_all_iff)
  qed simp
  then have reads: "list_all (\<lambda>x. list_all (\<lambda>(i, v). i \<noteq> 0 \<and> i < length (?c # entries)) (item_reads x)) xs"
    using ok by (auto simp: list_all_iff)
  then have "item_values 0 xs = []" by (fastforce simp: item_values_def list_all_iff filter_empty_conv)
  moreover have "list_all (\<lambda>x. list_all (\<lambda>(i, v). i < length (?c # entries)) (item_reads x)) xs"
    using reads by (fastforce simp: list_all_iff)
  ultimately have "scan_items xs (?c # entries) f = Some (map (case_nat ?c b) [0..<length (?c # entries)], f)" for f
    using b by (intro scan_items_entries) (auto simp: nth_Cons' gr0_conv_Suc)
  then have scan: "scan_items xs (?c # entries) f = Some (?c # ?ys, f)" for f
    by (simp only: length_Cons upt_conv_Cons zero_less_Suc list.map map_Suc_upt [symmetric] map_map)
      (simp add: comp_def)
  obtain a' where a': "arg_parse_untagged 1 [Some cmd, None] 0 (?c # ?ys) (e\<lparr>end_count := 0\<rparr>) = Some (1, a' # ?ys, e\<lparr>end_count := 0\<rparr>)"
    "hdr_mincount a' \<le> arg_count a'"
    using untagged_command [OF words(2,3)] by blast
  have "arg_parse_check 0 (a' # ?ys) (e\<lparr>end_count := 0\<rparr>) = Some (e\<lparr>end_count := 0\<rparr>)"
    by (rule arg_parse_check_passes) (use a'(2) b in \<open>auto simp: list_all_iff\<close>)
  moreover have "arg_reset_entries (?c # entries) = Some (?c # entries)"
    using reset by (simp add: command_entry_def arg_rexn_def arg_resetfn_def)
  ultimately have "map_option (\<lambda>(n, st, y). (n, y)) (arg_parse False st (prog # item_list xs) (?c # entries) e)
      = Some (0, a' # ?ys, e\<lparr>end_count := 0\<rparr>)"
    using arg_parse_run [OF plain countable ok, of st prog e] scan a'(1)
    by (simp add: words(1) arg_reset_def del: arg_reset_entries.simps)
  then obtain st' where "arg_parse False st (prog # item_list xs) (?c # entries) e = Some (0, st', a' # ?ys, e\<lparr>end_count := 0\<rparr>)"
    by auto
  moreover have "list_all2 (\<lambda>K y. K y) Ks ?ys"
    using b all_said_length [OF said] by (simp add: list_all2_conv_all_nth)
  ultimately show ?thesis by blast
qed

end
