(* ===== verification/Command_Line_Run.thy ===== *)
theory Command_Line_Run
  imports Command_Values Wire
begin

text \<open>
  The command lines of the two programs read back: whatever the order and the spelling of the
  options, \<open>main\<close> goes on with the values they were given.
\<close>

subsection \<open>The entries of the tables\<close>

lemma intn_fields [simp]:
  "hdr_flag (arg_intn m s l a b) = ARG_HASVALUE" "hdr_shortopts (arg_intn m s l a b) = s"
  "hdr_longopts (arg_intn m s l a b) = l" "hdr_mincount (arg_intn m s l a b) = a"
  "hdr_maxcount (arg_intn m s l a b) = max a b" "arg_count (arg_intn m s l a b) = 0"
  "arg_data (arg_intn m s l a b) = Int_data (map m [0..<nat (max a b)])"
  by (simp_all add: arg_intn_def Let_def max_def)

lemma set_ival_fields [simp]:
  "hdr_flag (set_ival v a) = hdr_flag a" "hdr_shortopts (set_ival v a) = hdr_shortopts a"
  "hdr_longopts (set_ival v a) = hdr_longopts a" "hdr_mincount (set_ival v a) = hdr_mincount a"
  "hdr_maxcount (set_ival v a) = hdr_maxcount a" "arg_count (set_ival v a) = arg_count a"
  "arg_data a = Int_data xs \<Longrightarrow> arg_data (set_ival v a) = Int_data (xs[0 := v])"
  by (simp_all add: set_ival_def split: arg_data.split)

lemma litn_fields [simp]:
  "hdr_flag (arg_litn s l a b) = 0" "hdr_shortopts (arg_litn s l a b) = s"
  "hdr_longopts (arg_litn s l a b) = l" "hdr_mincount (arg_litn s l a b) = a"
  "hdr_maxcount (arg_litn s l a b) = max a b" "arg_count (arg_litn s l a b) = 0"
  "arg_data (arg_litn s l a b) = Lit_data"
  by (simp_all add: arg_litn_def max_def)

lemma strn_fields [simp]:
  "hdr_flag (arg_strn s l a b) = ARG_HASVALUE" "hdr_shortopts (arg_strn s l a b) = s"
  "hdr_longopts (arg_strn s l a b) = l" "hdr_mincount (arg_strn s l a b) = a"
  "hdr_maxcount (arg_strn s l a b) = max a b" "arg_count (arg_strn s l a b) = 0"
  "arg_data (arg_strn s l a b) = Str_data (replicate (nat (max a b)) [])"
  by (simp_all add: arg_strn_def Let_def max_def)

lemma rexn_fields [simp]:
  "hdr_flag (arg_rexn s l p a b i) = ARG_HASVALUE" "hdr_shortopts (arg_rexn s l p a b i) = s"
  "hdr_longopts (arg_rexn s l p a b i) = l" "hdr_mincount (arg_rexn s l p a b i) = a"
  "hdr_maxcount (arg_rexn s l p a b i) = max a b" "arg_count (arg_rexn s l p a b i) = 0"
  "arg_data (arg_rexn s l p a b i) = Rex_data p i (replicate (nat (max a b)) [])"
  by (simp_all add: arg_rexn_def Let_def max_def)

lemma set_sval_fields [simp]:
  "hdr_flag (set_sval v a) = hdr_flag a" "hdr_shortopts (set_sval v a) = hdr_shortopts a"
  "hdr_longopts (set_sval v a) = hdr_longopts a" "hdr_mincount (set_sval v a) = hdr_mincount a"
  "hdr_maxcount (set_sval v a) = hdr_maxcount a" "arg_count (set_sval v a) = arg_count a"
  "arg_data a = Str_data xs \<Longrightarrow> arg_data (set_sval v a) = Str_data (xs[0 := v])"
  "arg_data a = Rex_data p i xs \<Longrightarrow> arg_data (set_sval v a) = Rex_data p i (xs[0 := v])"
  by (simp_all add: set_sval_def split: arg_data.split)

text \<open>What each kind of entry holds afterwards.\<close>

lemma says_ints:
  assumes "list_all2 writes_int vs ns" "arg_data a = Int_data xs" "arg_count a = 0"
    "hdr_maxcount a = int (length xs)" "length ns \<le> length xs" "hdr_mincount a \<le> int (length ns)"
  shows "entry_says a vs (\<lambda>a'. ival a' = ns @ drop (length ns) xs \<and> ivals a' = ns)"
  using scan_all_int [of vs ns a "[]" xs] assms by (simp add: entry_says_def ival_def ivals_def)

lemma says_flag:
  assumes "arg_data a = Lit_data" "arg_count a = 0" "int (length vs) \<le> hdr_maxcount a" "hdr_mincount a \<le> 0"
  shows "entry_says a vs (\<lambda>a'. arg_count a' = int (length vs))"
  using scan_all_lit [of a vs] assms by (simp add: entry_says_def)

lemma says_strings:
  assumes "vs = map Some ss" "arg_data a = Str_data xs" "arg_count a = 0"
    "hdr_maxcount a = int (length xs)" "length ss \<le> length xs" "hdr_mincount a \<le> int (length ss)"
  shows "entry_says a vs (\<lambda>a'. sval a' = ss @ drop (length ss) xs)"
  using scan_all_str [of a "[]" xs ss] assms by (simp add: entry_says_def sval_def)

lemma says_texts:
  assumes "accepts p i T" "vs = map Some ss" "list_all T ss" "arg_data a = Rex_data p i xs" "arg_count a = 0"
    "hdr_maxcount a = int (length xs)" "length ss \<le> length xs" "hdr_mincount a \<le> int (length ss)"
  shows "entry_says a vs (\<lambda>a'. sval a' = ss @ drop (length ss) xs \<and> svals a' = ss)"
  using scan_all_rex [of p i T ss a "[]" xs] assms by (simp add: entry_says_def sval_def svals_def)

lemma says_weaken: "entry_says a vs K \<Longrightarrow> (\<And>x. K x \<Longrightarrow> L x) \<Longrightarrow> entry_says a vs L"
  by (auto simp: entry_says_def)

subsection \<open>What the options of a command line say\<close>

text \<open>An entry that may be given once, with a default, or must be given once.\<close>

definition int_said :: "int option \<Rightarrow> string option list \<Rightarrow> int \<Rightarrow> bool" where
  "int_said d vs n \<longleftrightarrow> vs = [] \<and> d = Some n \<or> list_all2 writes_int vs [n]"

definition text_said :: "string option \<Rightarrow> (string \<Rightarrow> bool) \<Rightarrow> string option list \<Rightarrow> string \<Rightarrow> bool" where
  "text_said d T vs s \<longleftrightarrow> vs = [] \<and> d = Some s \<or> vs = [Some s] \<and> T s"

lemma says_int:
  assumes "int_said None vs n"
  shows "entry_says (arg_intn m s l 1 1) vs (\<lambda>a'. ival a' ! 0 = n)"
  using says_ints [of vs "[n]" "arg_intn m s l 1 1"] assms
  by (auto simp: int_said_def elim!: says_weaken)

lemma says_int_default:
  assumes "int_said (Some d) vs n"
  shows "entry_says (set_ival d (arg_intn m s l 0 1)) vs (\<lambda>a'. ival a' ! 0 = n)"
  using says_ints [of vs "[n]" "set_ival d (arg_intn m s l 0 1)"] says_ints [of vs "[]" "set_ival d (arg_intn m s l 0 1)"] assms
  by (auto simp: int_said_def elim!: says_weaken)

lemma says_text:
  assumes "accepts p i T" "text_said None T vs x"
  shows "entry_says (arg_rexn s l p 1 1 i) vs (\<lambda>a'. sval a' ! 0 = x)"
  using says_texts [OF assms(1), of vs "[x]" "arg_rexn s l p 1 1 i"] assms(2)
  by (auto simp: text_said_def elim!: says_weaken)

lemma says_text_default:
  assumes "accepts p i T" "text_said (Some d) T vs x"
  shows "entry_says (set_sval d (arg_rexn s l p 0 1 i)) vs (\<lambda>a'. sval a' ! 0 = x)"
  using says_texts [OF assms(1), of vs "[x]" "set_sval d (arg_rexn s l p 0 1 i)"]
    says_texts [OF assms(1), of vs "[]" "set_sval d (arg_rexn s l p 0 1 i)"] assms(2)
  by (auto simp: text_said_def elim!: says_weaken)

lemma says_string:
  assumes "vs = [Some x]"
  shows "entry_says (arg_strn s l 1 1) vs (\<lambda>a'. sval a' ! 0 = x)"
  using says_strings [of vs "[x]" "arg_strn s l 1 1"] assms by (auto elim!: says_weaken)

lemma says_string_default:
  assumes "text_said (Some d) (\<lambda>x. True) vs x"
  shows "entry_says (set_sval d (arg_strn s l 0 1)) vs (\<lambda>a'. sval a' ! 0 = x)"
  using says_strings [of vs "[x]" "set_sval d (arg_strn s l 0 1)"]
    says_strings [of vs "[]" "set_sval d (arg_strn s l 0 1)"] assms
  by (auto simp: text_said_def elim!: says_weaken)

lemma says_many:
  assumes "list_all2 writes_int vs ns" "int (length ns) \<le> b" "0 \<le> a" "a \<le> int (length ns)"
  shows "entry_says (arg_intn m s l a b) vs (\<lambda>a'. ivals a' = ns)"
  by (rule says_weaken, rule says_ints [where xs = "map m [0..<nat (max a b)]" and ns = ns])
    (use assms in \<open>auto simp: le_nat_iff\<close>)

lemma says_count:
  assumes "int (length vs) \<le> m" "0 \<le> m"
  shows "entry_says (arg_litn s l 0 m) vs (\<lambda>a'. arg_count a' = int (length vs))"
  using says_flag [of "arg_litn s l 0 m" vs] assms by simp

subsection \<open>The client\<close>

definition client_common_said :: "item list \<Rightarrow> client_options \<Rightarrow> bool" where
  "client_common_said xs opts \<longleftrightarrow>
     text_said None address_text (item_values 1 xs) (co_address opts) \<and>
     int_said None (item_values 2 xs) (co_reg opts) \<and>
     int_said None (item_values 3 xs) (co_function opts) \<and>
     list_all2 writes_int (item_values 4 xs) (co_write opts) \<and>
     int (length (co_write opts)) \<le> MODBUS_MAX_WRITE_BITS \<and>
     int_said (Some 1) (item_values 5 xs) (co_count opts) \<and>
     int_said (Some 1000) (item_values 6 xs) (co_timeout opts) \<and>
     length (item_values 7 xs) \<le> 1 \<and> co_base_one opts = (item_values 7 xs \<noteq> []) \<and>
     int_said (Some 200) (item_values 8 xs) (co_interframe_delay opts) \<and>
     length (item_values 9 xs) \<le> 2 \<and> co_verbose opts = int (length (item_values 9 xs)) \<and>
     item_values 10 xs = [] \<and> item_values 11 xs = []"

definition client_said :: "item list \<Rightarrow> client_options \<Rightarrow> bool" where
  "client_said xs opts \<longleftrightarrow> client_common_said xs opts \<and>
     (\<exists>cmd. plain_words xs = [cmd] \<and> equals_ignore_case cmd (if co_is_rtu opts then ''rtu'' else ''tcp'')) \<and>
     (if co_is_rtu opts then
        item_values 12 xs = [Some (co_device opts)] \<and>
        list_all2 writes_int (item_values 13 xs) (co_baud opts) \<and> co_baud opts \<noteq> [] \<and> length (co_baud opts) \<le> 16 \<and>
        text_said (Some ''8'') (\<lambda>s. s = ''7'' \<or> s = ''8'') (item_values 14 xs) (co_data_bits opts) \<and>
        text_said (Some ''1'') (\<lambda>s. s = ''1'' \<or> s = ''2'') (item_values 15 xs) (co_stop_bits opts) \<and>
        item_values 16 xs = map Some (co_parity opts) \<and> list_all parity_text (co_parity opts) \<and>
        length (co_parity opts) \<le> 3 \<and> co_port opts = 502 \<and> co_host opts = ''127.0.0.1''
      else
        int_said (Some 502) (item_values 12 xs) (co_port opts) \<and>
        text_said (Some ''127.0.0.1'') (\<lambda>s. True) (item_values 13 xs) (co_host opts) \<and>
        co_device opts = [] \<and> co_baud opts = [] \<and> co_parity opts = [] \<and> co_data_bits opts = ''8'' \<and>
        co_stop_bits opts = ''1'')"

abbreviation client_table :: "(nat \<Rightarrow> nat \<Rightarrow> int) \<Rightarrow> bool \<Rightarrow> arg list" where
  "client_table mem is_rtu \<equiv> (if is_rtu then rtu_table mem else tcp_table mem)"

lemma client_table_plain: "list_all plain_entry (client_table mem is_rtu)"
  by (simp add: rtu_table_def tcp_table_def client_common_def plain_entry_def short_names_def option_letter_def)

lemma client_table_countable: "options_countable (client_table mem is_rtu)"
  by (simp add: options_countable_def alloc_longoptions_def rtu_table_def tcp_table_def client_common_def
      count_names_def option_names.simps Let_def)

lemma reset_entry: "arg_count a = 0 \<Longrightarrow> arg_resetfn a = Some a"
  by (cases a) (simp add: arg_resetfn_def split: arg_data.split)

lemma reset_entries: "list_all (\<lambda>a. arg_count a = 0) entries \<Longrightarrow> arg_reset_entries entries = Some entries"
  by (induction entries) (simp_all add: reset_entry)

lemma client_table_reset: "list_all (\<lambda>a. arg_count a = 0) (client_table mem is_rtu)"
  by (simp add: rtu_table_def tcp_table_def client_common_def)

definition client_common_known :: "client_options \<Rightarrow> (arg \<Rightarrow> bool) list" where
  "client_common_known opts =
     [\<lambda>a. sval a ! 0 = co_address opts, \<lambda>a. ival a ! 0 = co_reg opts, \<lambda>a. ival a ! 0 = co_function opts,
      \<lambda>a. ivals a = co_write opts, \<lambda>a. ival a ! 0 = co_count opts, \<lambda>a. ival a ! 0 = co_timeout opts,
      \<lambda>a. (arg_count a \<noteq> 0) = co_base_one opts, \<lambda>a. ival a ! 0 = co_interframe_delay opts,
      \<lambda>a. arg_count a = co_verbose opts, \<lambda>a. arg_count a = 0, \<lambda>a. arg_count a = 0]"

lemma all_said_append:
  "all_said k (as @ bs) Ks xs \<longleftrightarrow>
   all_said k as (take (length as) Ks) xs \<and> all_said (k + length as) bs (drop (length as) Ks) xs"
proof (induction as arbitrary: k Ks)
  case (Cons a as)
  then show ?case by (cases Ks) (simp_all add: ac_simps)
qed simp

lemma client_common_all_said:
  assumes "client_common_said xs opts"
  shows "all_said 1 (client_common mem) (client_common_known opts) xs"
proof -
  note c = assms [unfolded client_common_said_def]
  have "entry_says (arg_intn (mem 4) (Some ''w'') (Some ''write'') 0 MODBUS_MAX_WRITE_BITS) (item_values 4 xs)
      (\<lambda>a. ivals a = co_write opts)"
    by (rule says_many) (use c in simp_all)
  moreover have "entry_says (arg_litn (Some ''1'') (Some ''base-1'') 0 1) (item_values 7 xs)
      (\<lambda>a. (arg_count a \<noteq> 0) = co_base_one opts)"
    by (rule says_weaken, rule says_count) (use c in auto)
  moreover have "entry_says (arg_litn (Some ''v'') (Some ''verbose'') 0 2) (item_values 9 xs)
      (\<lambda>a. arg_count a = co_verbose opts)"
    by (rule says_weaken, rule says_count) (use c in auto)
  moreover have "entry_says (arg_litn s l 0 1) [] (\<lambda>a. arg_count a = 0)" for s l
    by (rule says_weaken, rule says_count) auto
  ultimately show ?thesis
    using c says_text [OF accepts_patterns(1)] says_int says_int_default
    by (simp add: client_common_def client_common_known_def numeral_2_eq_2 numeral_3_eq_3 eval_nat_numeral del: upt_rec_numeral)
qed

definition client_known :: "client_options \<Rightarrow> (arg \<Rightarrow> bool) list" where
  "client_known opts = client_common_known opts @
     (if co_is_rtu opts then
        [\<lambda>a. sval a ! 0 = co_device opts, \<lambda>a. ivals a = co_baud opts, \<lambda>a. sval a ! 0 = co_data_bits opts,
         \<lambda>a. sval a ! 0 = co_stop_bits opts, \<lambda>a. svals a = co_parity opts]
      else [\<lambda>a. ival a ! 0 = co_port opts, \<lambda>a. sval a ! 0 = co_host opts])"

lemma says_parity:
  assumes "vs = map Some ss" "list_all parity_text ss" "length ss \<le> 3"
  shows "entry_says (arg_rexn s l ''^(N|E|O)$'' 0 3 True) vs (\<lambda>a'. svals a' = ss)"
  by (rule says_weaken, rule says_texts [OF accepts_patterns(4)]) (use assms in auto)

lemma client_all_said:
  assumes "client_said xs opts"
  shows "all_said 1 (tl (client_table mem (co_is_rtu opts))) (client_known opts) xs"
proof -
  have c: "all_said 1 (client_common mem) (client_common_known opts) xs"
    by (rule client_common_all_said) (use assms in \<open>simp add: client_said_def\<close>)
  have n: "length (client_common mem) = 11" "length (client_common_known opts) = 11"
    by (simp_all add: client_common_def client_common_known_def)
  show ?thesis
  proof (cases "co_is_rtu opts")
    case True
    then have d: "item_values 12 xs = [Some (co_device opts)]"
        "list_all2 writes_int (item_values 13 xs) (co_baud opts)" "1 \<le> int (length (co_baud opts))" "int (length (co_baud opts)) \<le> 16"
        "text_said (Some ''8'') (\<lambda>s. s = ''7'' \<or> s = ''8'') (item_values 14 xs) (co_data_bits opts)"
        "text_said (Some ''1'') (\<lambda>s. s = ''1'' \<or> s = ''2'') (item_values 15 xs) (co_stop_bits opts)"
        "item_values 16 xs = map Some (co_parity opts)" "list_all parity_text (co_parity opts)" "length (co_parity opts) \<le> 3"
      using assms by (simp_all add: client_said_def Suc_le_eq)
    show ?thesis
      using True c n says_string [OF d(1)] says_many [OF d(2) d(4) _ d(3)]
        says_text_default [OF accepts_patterns(2) d(5)] says_text_default [OF accepts_patterns(3) d(6)]
        says_parity [OF d(7-9)]
      by (simp add: rtu_table_def client_known_def all_said_append)
  next
    case False
    then have d: "int_said (Some 502) (item_values 12 xs) (co_port opts)"
        "text_said (Some ''127.0.0.1'') (\<lambda>s. True) (item_values 13 xs) (co_host opts)"
      using assms by (simp_all add: client_said_def)
    show ?thesis
      using False c n says_int_default [OF d(1)] says_string_default [OF d(2)]
      by (simp add: tcp_table_def client_known_def all_said_append)
  qed
qed

lemma client_parse_said:
  assumes ok: "list_all (item_ok (client_table mem (co_is_rtu opts))) xs" and said: "client_said xs opts"
  shows "client_parse False mem e (prog # item_list xs) (co_is_rtu opts) = Some (0, 0, 0, opts)"
proof -
  define command where "command = (if co_is_rtu opts then ''rtu'' else ''tcp'')"
  define entries where "entries = tl (client_table mem (co_is_rtu opts))"
  have t: "client_table mem (co_is_rtu opts) = command_entry command # entries"
      "command = (if co_is_rtu opts then ''rtu'' else ''tcp'')"
    by (cases "co_is_rtu opts"; simp add: command_def entries_def rtu_table_def tcp_table_def command_entry_def)+
  obtain cmd where cmd: "plain_words xs = [cmd]" "equals_ignore_case cmd command"
    using said t(2) by (auto simp: client_said_def)
  have a: "accepts command True (\<lambda>s. equals_ignore_case s command)"
    using accepts_patterns(5,6) t(2) by simp
  have r: "arg_reset_entries entries = Some entries"
    using client_table_reset [of "co_is_rtu opts" mem] unfolding t(1) by (auto intro: reset_entries)
  obtain st' x ys e' where p: "arg_parse False getopt_start (prog # item_list xs) (command_entry command # entries) e = Some (0, st', x # ys, e')"
    "list_all2 (\<lambda>K y. K y) (client_known opts) ys"
    using parse_said [OF client_table_plain [of "co_is_rtu opts" mem, unfolded t(1)]
        client_table_countable [of "co_is_rtu opts" mem, unfolded t(1)] r ok [unfolded t(1)] cmd(1) a cmd(2)
        client_all_said [OF said, of mem, unfolded t(1) list.sel]] by blast
  have k: "(client_known opts ! i) (ys ! i)" if "i < length (client_known opts)" for i
    using list_all2_nthD [OF p(2) that] .
  have n: "length (client_common_known opts) = 11" by (simp add: client_common_known_def)
  have common: "sval (ys ! 0) ! 0 = co_address opts" "ival (ys ! 1) ! 0 = co_reg opts"
      "ival (ys ! 2) ! 0 = co_function opts" "ivals (ys ! 3) = co_write opts" "ival (ys ! 4) ! 0 = co_count opts"
      "ival (ys ! 5) ! 0 = co_timeout opts" "(arg_count (ys ! 6) \<noteq> 0) = co_base_one opts"
      "ival (ys ! 7) ! 0 = co_interframe_delay opts" "arg_count (ys ! 8) = co_verbose opts"
      "arg_count (ys ! 9) = 0" "arg_count (ys ! 10) = 0"
    using k [of 0] k [of 1] k [of 2] k [of 3] k [of 4] k [of 5] k [of 6] k [of 7] k [of 8] k [of 9] k [of 10]
    by (simp_all add: client_known_def client_common_known_def)
  have "client_read (co_is_rtu opts) (x # ys) = opts"
  proof (cases "co_is_rtu opts")
    case True
    have "sval (ys ! 11) ! 0 = co_device opts" "ivals (ys ! 12) = co_baud opts" "sval (ys ! 13) ! 0 = co_data_bits opts"
        "sval (ys ! 14) ! 0 = co_stop_bits opts" "svals (ys ! 15) = co_parity opts"
      using k [of 11] k [of 12] k [of 13] k [of 14] k [of 15] True n
      by (simp_all add: client_known_def nth_append)
    moreover have "co_port opts = 502" "co_host opts = ''127.0.0.1''"
      using said True by (simp_all add: client_said_def)
    ultimately show ?thesis using common True
      by (intro client_options.equality) (simp_all add: client_read_def client_defaults_def Let_def)
  next
    case False
    have "ival (ys ! 11) ! 0 = co_port opts" "sval (ys ! 12) ! 0 = co_host opts"
      using k [of 11] k [of 12] False n by (simp_all add: client_known_def nth_append)
    moreover have "co_device opts = []" "co_baud opts = []" "co_parity opts = []" "co_data_bits opts = ''8''"
        "co_stop_bits opts = ''1''"
      using said False by (simp_all add: client_said_def)
    ultimately show ?thesis using common False
      by (intro client_options.equality) (simp_all add: client_read_def client_defaults_def Let_def)
  qed
  then show ?thesis using p(1) common by (simp add: client_parse_def flip: t(1))
qed

subsection \<open>The server\<close>

definition server_said :: "item list \<Rightarrow> server_options \<Rightarrow> bool" where
  "server_said xs opts \<longleftrightarrow>
     (\<exists>cmd. plain_words xs = [cmd] \<and> equals_ignore_case cmd (if so_is_rtu opts then ''rtu'' else ''tcp'')) \<and>
     int_said (Some 1) (item_values 1 xs) (so_address opts) \<and>
     int_said (Some 100) (item_values 2 xs) (so_coils opts) \<and>
     int_said (Some 100) (item_values 3 xs) (so_discrete_inputs opts) \<and>
     int_said (Some 100) (item_values 4 xs) (so_holding_registers opts) \<and>
     int_said (Some 100) (item_values 5 xs) (so_input_registers opts) \<and>
     (let k = (if so_is_rtu opts then 11 else 8) in
        length (item_values k xs) \<le> 1 \<and> so_verbose opts = int (length (item_values k xs)) \<and>
        item_values (k + 1) xs = [] \<and> item_values (k + 2) xs = []) \<and>
     (if so_is_rtu opts then
        item_values 6 xs = [Some (so_device opts)] \<and>
        int_said None (item_values 7 xs) (so_baud opts) \<and>
        text_said (Some ''8'') (\<lambda>s. s = ''7'' \<or> s = ''8'') (item_values 8 xs) (so_data_bits opts) \<and>
        text_said (Some ''1'') (\<lambda>s. s = ''1'' \<or> s = ''2'') (item_values 9 xs) (so_stop_bits opts) \<and>
        text_said (Some ''E'') parity_text (item_values 10 xs) (so_parity opts) \<and>
        so_port opts = 502 \<and> so_bind_address opts = ''127.0.0.1''
      else
        int_said (Some 502) (item_values 6 xs) (so_port opts) \<and>
        text_said (Some ''127.0.0.1'') (\<lambda>s. True) (item_values 7 xs) (so_bind_address opts) \<and>
        so_device opts = [] \<and> so_baud opts = 0 \<and> so_data_bits opts = ''8'' \<and> so_stop_bits opts = ''1'' \<and>
        so_parity opts = ''E'')"

abbreviation server_table :: "(nat \<Rightarrow> nat \<Rightarrow> int) \<Rightarrow> bool \<Rightarrow> arg list" where
  "server_table mem is_rtu \<equiv> (if is_rtu then server_rtu_table mem else server_tcp_table mem)"

lemmas server_tables = server_rtu_table_def server_tcp_table_def server_common_def server_flags_def

lemma server_table_plain: "list_all plain_entry (server_table mem is_rtu)"
  by (simp add: server_tables plain_entry_def short_names_def option_letter_def)

lemma server_table_countable: "options_countable (server_table mem is_rtu)"
  by (simp add: options_countable_def alloc_longoptions_def server_tables count_names_def option_names.simps Let_def)

lemma server_table_reset: "list_all (\<lambda>a. arg_count a = 0) (server_table mem is_rtu)"
  by (simp add: server_tables)

definition server_known :: "server_options \<Rightarrow> (arg \<Rightarrow> bool) list" where
  "server_known opts =
     [\<lambda>a. ival a ! 0 = so_address opts, \<lambda>a. ival a ! 0 = so_coils opts, \<lambda>a. ival a ! 0 = so_discrete_inputs opts,
      \<lambda>a. ival a ! 0 = so_holding_registers opts, \<lambda>a. ival a ! 0 = so_input_registers opts] @
     (if so_is_rtu opts then
        [\<lambda>a. sval a ! 0 = so_device opts, \<lambda>a. ival a ! 0 = so_baud opts, \<lambda>a. sval a ! 0 = so_data_bits opts,
         \<lambda>a. sval a ! 0 = so_stop_bits opts, \<lambda>a. sval a ! 0 = so_parity opts]
      else [\<lambda>a. ival a ! 0 = so_port opts, \<lambda>a. sval a ! 0 = so_bind_address opts]) @
     [\<lambda>a. arg_count a = so_verbose opts, \<lambda>a. arg_count a = 0, \<lambda>a. arg_count a = 0]"

lemma says_flags:
  assumes "length vs \<le> 1"
  shows "entry_says (arg_litn s l 0 1) vs (\<lambda>a'. arg_count a' = int (length vs))"
  by (rule says_count) (use assms in simp_all)

lemma server_all_said:
  assumes "server_said xs opts"
  shows "all_said 1 (tl (server_table mem (so_is_rtu opts))) (server_known opts) xs"
proof -
  have c: "int_said (Some 1) (item_values 1 xs) (so_address opts)"
     "int_said (Some 100) (item_values 2 xs) (so_coils opts)"
     "int_said (Some 100) (item_values 3 xs) (so_discrete_inputs opts)"
     "int_said (Some 100) (item_values 4 xs) (so_holding_registers opts)"
     "int_said (Some 100) (item_values 5 xs) (so_input_registers opts)"
    using assms by (simp_all add: server_said_def)
  note c = c [THEN says_int_default]
  have h: "entry_says (arg_litn s l 0 1) [] (\<lambda>a'. arg_count a' = 0)" for s l using says_flags [of "[]"] by simp
  show ?thesis
  proof (cases "so_is_rtu opts")
    case True
    then have d: "item_values 6 xs = [Some (so_device opts)]" "int_said None (item_values 7 xs) (so_baud opts)"
        "text_said (Some ''8'') (\<lambda>s. s = ''7'' \<or> s = ''8'') (item_values 8 xs) (so_data_bits opts)"
        "text_said (Some ''1'') (\<lambda>s. s = ''1'' \<or> s = ''2'') (item_values 9 xs) (so_stop_bits opts)"
        "text_said (Some ''E'') parity_text (item_values 10 xs) (so_parity opts)" "length (item_values 11 xs) \<le> 1"
        "so_verbose opts = int (length (item_values 11 xs))" "item_values 12 xs = []" "item_values 13 xs = []"
      using assms by (simp_all add: server_said_def Let_def)
    show ?thesis
      using True c h says_string [OF d(1)] says_int [OF d(2)] says_text_default [OF accepts_patterns(2) d(3)]
        says_text_default [OF accepts_patterns(3) d(4)] says_text_default [OF accepts_patterns(4) d(5)]
        says_flags [OF d(6)] d(7-9)
      by (simp add: server_rtu_table_def server_common_def server_flags_def server_known_def eval_nat_numeral)
  next
    case False
    then have d: "int_said (Some 502) (item_values 6 xs) (so_port opts)"
        "text_said (Some ''127.0.0.1'') (\<lambda>s. True) (item_values 7 xs) (so_bind_address opts)" "length (item_values 8 xs) \<le> 1"
        "so_verbose opts = int (length (item_values 8 xs))" "item_values 9 xs = []" "item_values 10 xs = []"
      using assms by (simp_all add: server_said_def Let_def)
    show ?thesis
      using False c h says_int_default [OF d(1)] says_string_default [OF d(2)] says_flags [OF d(3)] d(4-6)
      by (simp add: server_tcp_table_def server_common_def server_flags_def server_known_def eval_nat_numeral)
  qed
qed

lemma server_parse_said:
  assumes ok: "list_all (item_ok (server_table mem (so_is_rtu opts))) xs" and said: "server_said xs opts"
  shows "server_parse False mem e (prog # item_list xs) (so_is_rtu opts) = Some (0, 0, 0, opts)"
proof -
  define command where "command = (if so_is_rtu opts then ''rtu'' else ''tcp'')"
  define entries where "entries = tl (server_table mem (so_is_rtu opts))"
  have t: "server_table mem (so_is_rtu opts) = command_entry command # entries"
      "command = (if so_is_rtu opts then ''rtu'' else ''tcp'')"
    by (cases "so_is_rtu opts"; simp add: command_def entries_def server_tables command_entry_def)+
  obtain cmd where cmd: "plain_words xs = [cmd]" "equals_ignore_case cmd command"
    using said t(2) by (auto simp: server_said_def)
  have a: "accepts command True (\<lambda>s. equals_ignore_case s command)"
    using accepts_patterns(5,6) t(2) by simp
  have r: "arg_reset_entries entries = Some entries"
    using server_table_reset [of "so_is_rtu opts" mem] unfolding t(1) by (auto intro: reset_entries)
  obtain st' x ys e' where p: "arg_parse False getopt_start (prog # item_list xs) (command_entry command # entries) e = Some (0, st', x # ys, e')"
    "list_all2 (\<lambda>K y. K y) (server_known opts) ys"
    using parse_said [OF server_table_plain [of "so_is_rtu opts" mem, unfolded t(1)]
        server_table_countable [of "so_is_rtu opts" mem, unfolded t(1)] r ok [unfolded t(1)] cmd(1) a cmd(2)
        server_all_said [OF said, of mem, unfolded t(1) list.sel]] by blast
  have k: "(server_known opts ! i) (ys ! i)" if "i < length (server_known opts)" for i
    using list_all2_nthD [OF p(2) that] .
  have n: "length ys = (if so_is_rtu opts then 13 else 10)"
    using list_all2_lengthD [OF p(2)] by (cases "so_is_rtu opts") (simp_all add: server_known_def)
  have common: "ival (ys ! 0) ! 0 = so_address opts" "ival (ys ! 1) ! 0 = so_coils opts"
      "ival (ys ! 2) ! 0 = so_discrete_inputs opts" "ival (ys ! 3) ! 0 = so_holding_registers opts"
      "ival (ys ! 4) ! 0 = so_input_registers opts"
    using k [of 0] k [of 1] k [of 2] k [of 3] k [of 4] by (simp_all add: server_known_def)
  have "server_read (so_is_rtu opts) (x # ys) = opts \<and> arg_count ((x # ys) ! (length ys)) = 0 \<and>
      arg_count ((x # ys) ! (length ys - 1)) = 0"
  proof (cases "so_is_rtu opts")
    case True
    have "sval (ys ! 5) ! 0 = so_device opts" "ival (ys ! 6) ! 0 = so_baud opts" "sval (ys ! 7) ! 0 = so_data_bits opts"
        "sval (ys ! 8) ! 0 = so_stop_bits opts" "sval (ys ! 9) ! 0 = so_parity opts" "arg_count (ys ! 10) = so_verbose opts"
        "arg_count (ys ! 11) = 0" "arg_count (ys ! 12) = 0"
      using k [of 5] k [of 6] k [of 7] k [of 8] k [of 9] k [of 10] k [of 11] k [of 12] True
      by (simp_all add: server_known_def nth_append)
    moreover have "so_port opts = 502" "so_bind_address opts = ''127.0.0.1''"
      using said True by (simp_all add: server_said_def)
    ultimately show ?thesis using common True n
      by (intro conjI server_options.equality) (simp_all add: server_read_def server_defaults_def Let_def)
  next
    case False
    have "ival (ys ! 5) ! 0 = so_port opts" "sval (ys ! 6) ! 0 = so_bind_address opts" "arg_count (ys ! 7) = so_verbose opts"
        "arg_count (ys ! 8) = 0" "arg_count (ys ! 9) = 0"
      using k [of 5] k [of 6] k [of 7] k [of 8] k [of 9] False by (simp_all add: server_known_def nth_append)
    moreover have "so_device opts = []" "so_baud opts = 0" "so_data_bits opts = ''8''" "so_stop_bits opts = ''1''"
        "so_parity opts = ''E''"
      using said False by (simp_all add: server_said_def)
    ultimately show ?thesis using common False n
      by (intro conjI server_options.equality) (simp_all add: server_read_def server_defaults_def Let_def)
  qed
  then show ?thesis using p(1) by (simp add: server_parse_def Let_def flip: t(1))
qed

subsection \<open>The programs\<close>

lemma equals_ignore_case_map: "equals_ignore_case s t \<longleftrightarrow> map to_lower s = map to_lower t"
  by (induction s t rule: equals_ignore_case.induct) auto

lemma command_words:
  assumes "equals_ignore_case cmd (if b then ''rtu'' else ''tcp'')"
  shows "equals_ignore_case cmd ''rtu'' = b" "equals_ignore_case cmd ''rtu'' \<or> equals_ignore_case cmd ''tcp''"
    "\<not> equals_ignore_case cmd ''--help''" "\<not> equals_ignore_case cmd ''-h''" "\<not> equals_ignore_case cmd ''--version''"
  using assms by (auto simp: equals_ignore_case_map to_lower_def split: if_splits)

lemma start_program_parses:
  assumes "equals_ignore_case cmd (if b then ''rtu'' else ''tcp'')" "parse b = Some (0, 0, 0, opts)"
  shows "start_program True parse (prog # cmd # words) = Some (Inr opts)"
  using command_words [OF assms(1)] assms(2) by (simp add: start_program_def Let_def)

lemma command_first:
  assumes "plain_words xs = [cmd]" "hd xs = Plain c" "xs \<noteq> []"
  shows "\<exists>words. item_list xs = cmd # words"
  using assms by (cases xs) (auto simp: item_list_def plain_words_def)

lemma writes_intI:
  assumes "s = int_text sign b n @ sfx" "sign \<in> {[], ''-'', ''+''}" "b \<in> {2, 8, 10, 16}" "(sfx, factor) \<in> set suffix_factors"
    "v = signed_value sign n * factor" "v \<in> {INT_MIN..INT_MAX}"
  shows "writes_int (Some s) v"
  unfolding writes_int_def using assms by blast

lemma client_program_run:
  assumes "client_said xs opts" "list_all (item_ok (client_table mem (co_is_rtu opts))) xs"
    and "xs \<noteq> []" "hd xs = Plain cmd"
  shows "client_program os False True mem mem_end mem_data mem_rtu mem_ctx mem_ip (prog # item_list xs) err raw w =
    client_main os mem_data mem_rtu mem_ctx mem_ip opts err raw w"
proof -
  obtain c where c: "plain_words xs = [c]" "equals_ignore_case c (if co_is_rtu opts then ''rtu'' else ''tcp'')"
    using assms(1) by (auto simp: client_said_def)
  obtain words where w: "item_list xs = c # words" using command_first [OF c(1) assms(4,3)] by blast
  show ?thesis
    using start_program_parses [OF c(2), of _ opts prog words] client_parse_said [OF assms(2,1), of _ prog]
    by (simp add: client_program_def w)
qed

text \<open>C7: The command line of \<open>modbusc\<close> says what it means: after the command, the options may stand
  in any order, each spelled with its letter or its whole name, its value in the next word or in
  the same one (\<open>-xvalue\<close>, \<open>--name=value\<close>), flags in a group of letters, the integers in any base,
  and \<open>main\<close> goes on with exactly the values given, the defaults for those left out, and no error.
  (\<open>POSIXLY_CORRECT\<close>, which ends the options at the first other word, is not set.)\<close>

theorem client_program_reads:
  assumes "client_said xs opts" "list_all (item_ok (client_table mem (co_is_rtu opts))) xs"
    and "xs \<noteq> []" "hd xs = Plain cmd"
  shows "client_program os False True mem mem_end mem_data mem_rtu mem_ctx mem_ip (prog # item_list xs) err raw w =
    client_main os mem_data mem_rtu mem_ctx mem_ip opts err raw w"
  using assms by (rule client_program_run)

definition read_words :: "item list" where
  "read_words = [Plain ''TCP'', Joined 1 ''-a'' ''17'', Joined 3 ''--func'' ''0x3'',
     Option 2 ''-r'' (Some ''100''), Group [(9, CHR ''v''), (9, CHR ''v'')], Option 5 ''--count'' (Some ''2'')]"

definition read_options :: client_options where
  "read_options = (client_defaults False)\<lparr>co_address := ''17'', co_reg := 100, co_function := 3, co_count := 2, co_verbose := 2\<rparr>"

theorem client_program_reads_witness:
  "\<forall>mem mem_end mem_data mem_rtu mem_ctx mem_ip err raw w.
     client_program wire_os False True mem mem_end mem_data mem_rtu mem_ctx mem_ip
       [''modbusc'', ''TCP'', ''-a17'', ''--func=0x3'', ''-r'', ''100'', ''-vv'', ''--count'', ''2''] err raw w =
     client_main wire_os mem_data mem_rtu mem_ctx mem_ip read_options err raw w"
proof -
  have t: "''0x3'' = int_text [] 16 3 @ []" "''100'' = int_text [] 10 100 @ []" "''2'' = int_text [] 10 2 @ []"
    by code_simp+
  have ints: "writes_int (Some ''0x3'') 3"
    by (rule writes_intI [OF t(1), where factor = 1]) (simp_all add: suffix_factors_def signed_value_def)
  moreover have "writes_int (Some ''100'') 100"
    by (rule writes_intI [OF t(2), where factor = 1]) (simp_all add: suffix_factors_def signed_value_def)
  moreover have "writes_int (Some ''2'') 2"
    by (rule writes_intI [OF t(3), where factor = 1]) (simp_all add: suffix_factors_def signed_value_def)
  moreover have a: "address_text ''17''"
    by (simp add: address_text_def short_number_def is_decimal_def c_isdigit_def char_int_def)
  ultimately have said: "client_said read_words read_options"
    using a by (simp add: client_said_def client_common_said_def read_words_def read_options_def client_defaults_def
        item_values_def plain_words_def int_said_def text_said_def equals_ignore_case_map to_lower_def)
  have ok: "list_all (item_ok (client_table mem (co_is_rtu read_options))) read_words" for mem
    by (simp add: read_words_def read_options_def client_defaults_def item_ok_def option_word_def takes_value_def is_word_def at_def
        tcp_table_def client_common_def short_names_def long_names_def option_names.simps Let_def less_Suc_eq numeral_eq_Suc)
  have il: "item_list read_words = [''TCP'', ''-a17'', ''--func=0x3'', ''-r'', ''100'', ''-vv'', ''--count'', ''2'']"
    by (simp add: read_words_def item_list_def)
  have hd: "read_words \<noteq> []" "hd read_words = Plain ''TCP''" by (simp_all add: read_words_def)
  show ?thesis unfolding il [symmetric] by (intro allI, rule client_program_reads [OF said ok hd])
qed

text \<open>C8: The same of \<open>modbuss\<close>: any order and any of these spellings of the options after the command
  hand \<open>main\<close> the values given and the defaults for those left out.\<close>

theorem server_program_reads:
  assumes "server_said xs opts" "list_all (item_ok (server_table mem (so_is_rtu opts))) xs"
    and "xs \<noteq> []" "hd xs = Plain cmd"
  shows "server_program os False True mem mem_end sm (prog # item_list xs) err w = server_main os sm opts err w"
proof -
  obtain c where c: "plain_words xs = [c]" "equals_ignore_case c (if so_is_rtu opts then ''rtu'' else ''tcp'')"
    using assms(1) by (auto simp: server_said_def)
  obtain words where w: "item_list xs = c # words" using command_first [OF c(1) assms(4,3)] by blast
  show ?thesis
    using start_program_parses [OF c(2), of _ opts prog words] server_parse_said [OF assms(2,1), of _ prog]
    by (simp add: server_program_def w)
qed

definition serve_words :: "item list" where
  "serve_words = [Plain ''rtu'', Joined 7 ''--baud'' ''110'', Option 2 ''--co'' (Some ''1KB''),
     Option 6 ''-d'' (Some ''/dev/ttyS0''), Joined 10 ''-p'' ''n'']"

definition serve_options :: server_options where
  "serve_options = (server_defaults True)\<lparr>so_baud := 110, so_coils := 1024, so_device := ''/dev/ttyS0'', so_parity := ''n''\<rparr>"

theorem server_program_reads_witness:
  "\<forall>mem mem_end sm err w.
     server_program wire_os False True mem mem_end sm
       [''modbuss'', ''rtu'', ''--baud=110'', ''--co'', ''1KB'', ''-d'', ''/dev/ttyS0'', ''-pn''] err w =
     server_main wire_os sm serve_options err w"
proof -
  have t: "''110'' = int_text [] 10 110 @ []" "''1KB'' = int_text [] 10 1 @ ''KB''"
    by code_simp+
  have "writes_int (Some ''110'') 110"
    by (rule writes_intI [OF t(1), where factor = 1]) (simp_all add: suffix_factors_def signed_value_def)
  moreover have "writes_int (Some ''1KB'') 1024"
    by (rule writes_intI [OF t(2), where factor = 1024]) (simp_all add: suffix_factors_def signed_value_def)
  ultimately have said: "server_said serve_words serve_options"
    by (simp add: server_said_def serve_words_def serve_options_def server_defaults_def Let_def
        item_values_def plain_words_def int_said_def text_said_def equals_ignore_case_map to_lower_def parity_text_def)
  have ok: "list_all (item_ok (server_table mem (so_is_rtu serve_options))) serve_words" for mem
    by (simp add: serve_words_def serve_options_def server_defaults_def item_ok_def option_word_def takes_value_def is_word_def at_def
        server_tables short_names_def long_names_def option_names.simps Let_def less_Suc_eq numeral_eq_Suc)
  have il: "item_list serve_words = [''rtu'', ''--baud=110'', ''--co'', ''1KB'', ''-d'', ''/dev/ttyS0'', ''-pn'']"
    by (simp add: serve_words_def item_list_def)
  have hd: "serve_words \<noteq> []" "hd serve_words = Plain ''rtu''" by (simp_all add: serve_words_def)
  show ?thesis unfolding il [symmetric] by (intro allI, rule server_program_reads [OF said ok hd])
qed

end
