(* ===== verification/Modbusc_Program.thy ===== *)
theory Modbusc_Program
  imports Modbusc_Run Command_Line_Run
begin

text \<open>
  The whole client: from the words of the command line through the connection to the device and
  back to the exit code.
\<close>

text \<open>The context the one setting of the options asks for.\<close>

definition client_context ::
    "(nat \<Rightarrow> modbus option \<times> termios option \<times> bool) \<Rightarrow> modbus option \<Rightarrow> string option \<Rightarrow> client_options
     \<Rightarrow> int \<Rightarrow> (modbus option \<times> int) option" where
  "client_context mem_rtu mem_ctx mem_ip opts err =
     (if co_is_rtu opts then (case mem_rtu 0 of (mem_ctx, mem_data, mem_device) \<Rightarrow>
        modbus_new_rtu mem_ctx mem_data mem_device (Some (co_device opts)) (hd (co_baud opts))
          (to_upper (at (hd (co_parity opts @ [''E''])) 0)) (of_char (at (co_data_bits opts) 0) - 48)
          (of_char (at (co_stop_bits opts) 0) - 48) err)
      else modbus_new_tcp mem_ctx mem_ip (Some (co_host opts)) (co_port opts) err)"

definition one_setting :: "client_options \<Rightarrow> bool" where
  "one_setting opts \<longleftrightarrow> (co_is_rtu opts \<longrightarrow> length (co_baud opts) = 1 \<and> length (co_parity opts) \<le> 1)"

lemma accepted_register:
  "check_options opts = Some plan \<Longrightarrow> \<not> register_overflow opts"
  by (auto simp: register_overflow_def check_options_def validate_register_range_def Let_def
      split: bind_splits if_splits prod.splits)

lemma client_main_one:
  assumes "check_options opts = Some plan" "prepare_data mem_data opts plan = Some data" "one_setting opts"
    and "client_context mem_rtu mem_ctx mem_ip opts err = Some (ctx, err1)"
    and "run_plan os ctx err1 opts plan data raw w = Some (rc, data1, err2, w1)"
  shows "client_main os mem_data mem_rtu mem_ctx mem_ip opts err raw w = Some (if rc = 0 then 0 else 1, w1)"
proof (cases "co_is_rtu opts")
  case True
  then obtain baud where b: "co_baud opts = [baud]" "length (co_parity opts) \<le> 1"
    using assms(3) by (auto simp: one_setting_def length_Suc_conv)
  obtain parity where p: "(if co_parity opts = [] then [''E''] else co_parity opts) = [parity]"
      "hd (co_parity opts @ [''E'']) = parity"
    using b(2) by (cases "co_parity opts") auto
  obtain a c d where m: "mem_rtu 0 = (a, c, d)" by (cases "mem_rtu 0") auto
  show ?thesis
    using True assms b(1) p m accepted_register [OF assms(1)] by (simp add: client_main_def client_context_def)
next
  case False
  then show ?thesis using assms accepted_register [OF assms(1)] by (simp add: client_main_def client_context_def)
qed

text \<open>C10: \<open>modbusc\<close> from \<open>argv\<close> to its exit code: a command line that gives one slave and one setting, its
  options in any order and spelling, makes the device with that address carry out exactly the
  request the options describe, once the connection stands; the connection is closed, and the exit
  code tells whether the device accepted the request.\<close>

theorem client_program_request:
  assumes "client_said xs opts" "list_all (item_ok (client_table mem (co_is_rtu opts))) xs"
    and "xs \<noteq> []" "hd xs = Plain cmd"
    and "check_options opts = Some plan" "prepare_data mem_data opts plan = Some data"
    and "co_timeout opts \<le> INT_MAX" "cp_address_end plan = cp_address_start plan" "one_setting opts"
    and "client_context mem_rtu mem_ctx mem_ip opts err = Some (Some ctx, err1)"
    and "modbus_connect os The_ctx (configured opts plan \<lparr>st_ctx = ctx, st_errno = err1, st_world = w\<rparr>) = (0, st1)"
    and "client_at L os slave d (with_slave (cp_address_start plan) st1)"
    and "r = planned_request (co_function opts) (cp_register plan) (nat (cp_count plan)) data"
  shows "\<exists>st'. client_program os False True mem mem_end mem_data mem_rtu mem_ctx mem_ip (prog # item_list xs) err raw w =
      Some (if exit_status (snd (serve d r)) = 0 then 0 else 1, st_world (modbus_close os The_ctx st')) \<and>
    client_at L os slave (fst (serve d r)) st'"
proof -
  obtain st' where c: "connect_and_process os The_ctx (cp_address_start plan) (cp_address_end plan) (co_function opts)
      (cp_register plan) (cp_count plan) (cp_type plan) data (word_of_int (co_interframe_delay opts)) (co_verbose opts)
      (cp_seconds plan) (cp_microseconds plan) \<lparr>st_ctx = ctx, st_errno = err1, st_world = w\<rparr> =
      Some (exit_status (snd (serve d r)), data_after (co_function opts) (snd (serve d r)) data,
        modbus_close os The_ctx st')" "client_at L os slave (fst (serve d r)) st'"
    using modbusc_request_run [OF assms(5-8,11-13)] by blast
  have "run_plan os (Some ctx) err1 opts plan data raw w = Some (exit_status (snd (serve d r)),
      data_after (co_function opts) (snd (serve d r)) data, st_errno (modbus_close os The_ctx st'),
      st_world (modbus_close os The_ctx st'))"
    using c(1) by (simp add: run_plan_def)
  from client_main_one [OF assms(5,6,9,10) this] show ?thesis
    using c(2) unfolding client_program_run [OF assms(1-4)] by blast
qed


text \<open>\<open>modbusc RTU --baud 9600 --dev=/dev/ttyS0 -a 17 -f 3 --reg 1 -c 2\<close>, to a device that is the library's server.\<close>

definition read_two_words :: "item list" where
  "read_two_words = [Plain ''RTU'', Option 13 ''--baud'' (Some ''9600''), Option 12 ''--dev'' (Some ''/dev/ttyS0''),
     Option 1 ''-a'' (Some ''17''), Option 3 ''-f'' (Some ''3''), Option 2 ''--reg'' (Some ''1''),
     Option 5 ''-c'' (Some ''2''), Option 16 ''-p'' (Some ''E'')]"

definition made_ctx :: modbus where
  "made_ctx = (modbus_init_common rtu_ctx)\<lparr>ctx_backend := RTU_backend
     \<lparr>rtu_device = ''/dev/ttyS0'', rtu_baud = 9600, rtu_data_bit = 8, rtu_stop_bit = 1, rtu_parity = CHR ''E'',
      rtu_old_tios = zero_termios, rtu_serial_mode = 0, rtu_rts = 0, rtu_rts_delay = 1145, rtu_onebyte_time = 1145,
      rtu_set_rts = Modbus_rtu_ioctl_rts, rtu_confirmation_to_ignore = False\<rparr>\<rparr>"

definition used_ctx :: modbus where
  "used_ctx = made_ctx\<lparr>ctx_s := 3, ctx_response_timeout := \<lparr>tv_sec = 1, tv_usec = 0\<rparr>\<rparr>"

definition addressed_ctx :: modbus where
  "addressed_ctx = used_ctx\<lparr>ctx_slave := 17\<rparr>"

lemma made_context: "client_context (\<lambda>i. (Some rtu_ctx, Some zero_termios, True)) None None read_two 0 = Some (Some made_ctx, 0)"
  by code_simp

lemma made_connected:
  "modbus_connect (loop_os addressed_ctx) The_ctx (configured read_two two_plan (loop_client made_ctx small_mapping)) =
     (0, loop_client used_ctx small_mapping)"
  by (simp add: modbus_connect_def be_connect_def configured_def loop_client_def read_two_def two_plan_def made_ctx_def
      rtu_connect_def loop_os_def set_rtu_def ret_count_def ret_unit_def zero_termios_def used_ctx_def modbus_init_common_def)

lemma used_at: "client_at loop_link (loop_os addressed_ctx) 17 (abs_mapping small_mapping)
    (with_slave (cp_address_start two_plan) (loop_client used_ctx small_mapping))"
proof -
  have "with_slave (cp_address_start two_plan) (loop_client used_ctx small_mapping) = loop_client addressed_ctx small_mapping"
    by (simp add: with_slave_def loop_client_def two_plan_def addressed_ctx_def)
  moreover have "client_at loop_link (loop_os addressed_ctx) 17 (abs_mapping small_mapping) (loop_client addressed_ctx small_mapping)"
    by (rule loop_client_at) (simp_all add: small_mapping_ok addressed_ctx_def used_ctx_def)
  ultimately show ?thesis by simp
qed

theorem client_program_request_witness:
  "\<exists>st'. client_program (loop_os addressed_ctx) False True (\<lambda>i j. 0) (0, \<lambda>i. (0, None, None)) True
      (\<lambda>i. (Some rtu_ctx, Some zero_termios, True)) None None
      [''modbusc'', ''RTU'', ''--baud'', ''9600'', ''--dev'', ''/dev/ttyS0'', ''-a'', ''17'', ''-f'', ''3'', ''--reg'', ''1'',
       ''-c'', ''2'', ''-p'', ''E''] 0 rtu_ctx \<lparr>lp_in = [], lp_map = small_mapping\<rparr> = Some (0, st')"
proof -
  have t: "''9600'' = int_text [] 10 9600 @ []" "''3'' = int_text [] 10 3 @ []" "''1'' = int_text [] 10 1 @ []"
      "''2'' = int_text [] 10 2 @ []"
    by (simp_all add: int_text_def int_prefix_def digits.simps digit_def) code_simp+
  have "writes_int (Some ''9600'') 9600"
    by (rule writes_intI [OF t(1), where factor = 1]) (simp_all add: suffix_factors_def signed_value_def)
  moreover have "writes_int (Some ''3'') 3"
    by (rule writes_intI [OF t(2), where factor = 1]) (simp_all add: suffix_factors_def signed_value_def)
  moreover have "writes_int (Some ''1'') 1"
    by (rule writes_intI [OF t(3), where factor = 1]) (simp_all add: suffix_factors_def signed_value_def)
  moreover have "writes_int (Some ''2'') 2"
    by (rule writes_intI [OF t(4), where factor = 1]) (simp_all add: suffix_factors_def signed_value_def)
  moreover have "address_text ''17''"
    by (simp add: address_text_def short_number_def is_decimal_def c_isdigit_def char_int_def)
  ultimately have said: "client_said read_two_words read_two"
    by (simp add: client_said_def client_common_said_def read_two_words_def read_two_def client_defaults_def Let_def
        item_values_def plain_words_def int_said_def text_said_def equals_ignore_case_map to_lower_def parity_text_def)
  have ok: "list_all (item_ok (client_table (\<lambda>i j. 0) (co_is_rtu read_two))) read_two_words"
    by (simp add: read_two_words_def read_two_def item_ok_def option_word_def takes_value_def is_word_def at_def rtu_table_def
        client_common_def short_names_def long_names_def option_names.simps Let_def less_Suc_eq numeral_eq_Suc)
  have il: "item_list read_two_words = [''RTU'', ''--baud'', ''9600'', ''--dev'', ''/dev/ttyS0'', ''-a'', ''17'', ''-f'', ''3'',
      ''--reg'', ''1'', ''-c'', ''2'', ''-p'', ''E'']"
    by (simp add: read_two_words_def item_list_def)
  have hd: "read_two_words \<noteq> []" "hd read_two_words = Plain ''RTU''" by (simp_all add: read_two_words_def)
  have one: "cp_address_end two_plan = cp_address_start two_plan" "co_timeout read_two \<le> INT_MAX" "one_setting read_two"
    by (simp_all add: two_plan_def read_two_def one_setting_def)
  have srv: "snd (serve (abs_mapping small_mapping) (Read_holding_registers 1 2)) = Registers [20, 30]"
    by code_simp
  have r: "Read_holding_registers 1 2 =
      planned_request (co_function read_two) (cp_register two_plan) (nat (cp_count two_plan)) two_data"
    by (simp add: planned_request_def read_two_def two_plan_def)
  show ?thesis
    using client_program_request [OF said ok hd read_two_plan one(2,1,3) made_context
        made_connected [unfolded loop_client_def [of made_ctx]] used_at r, of "(0, \<lambda>i. (0, None, None))" "''modbusc''" rtu_ctx,
        unfolded srv il]
    by (auto simp: exit_status_def)
qed

end
