(* ===== verification/Modbuss_Start.thy ===== *)
theory Modbuss_Start
  imports Modbuss_Tcp
begin

text \<open>
  The server program up to its loop: the context and the mapping it serves with.
\<close>

lemma mapping_size_word:
  assumes "1 \<le> n" "n \<le> 65536"
  shows "sint (word_of_int n :: u32) = n" "unat (word_of_int n :: u32) = nat n" "(word_of_int n :: u32) \<noteq> 0"
proof -
  have "uint (word_of_int n :: u32) = n" using assms by (simp add: uint_word_of_int take_bit_int_eq_self)
  then show "unat (word_of_int n :: u32) = nat n" "(word_of_int n :: u32) \<noteq> 0"
    using assms by (auto simp: unat_eq_nat_uint)
  show "sint (word_of_int n :: u32) = n"
    using assms by (simp add: sint_sbintrunc' signed_take_bit_int_eq_self)
qed

text \<open>The tables of the server: as many zeros as the options say.\<close>

definition zero_mapping :: "server_options \<Rightarrow> mapping" where
  "zero_mapping opts = \<lparr>mb_nb_bits = so_coils opts, mb_start_bits = 0,
     mb_nb_input_bits = so_discrete_inputs opts, mb_start_input_bits = 0,
     mb_nb_input_registers = so_input_registers opts, mb_start_input_registers = 0,
     mb_nb_registers = so_holding_registers opts, mb_start_registers = 0,
     mb_tab_bits = replicate (nat (so_coils opts)) 0,
     mb_tab_input_bits = replicate (nat (so_discrete_inputs opts)) 0,
     mb_tab_input_registers = replicate (nat (so_input_registers opts)) 0,
     mb_tab_registers = replicate (nat (so_holding_registers opts)) 0\<rparr>"

lemma server_mapping_zero:
  assumes "server_options_ok opts" "server_mapping mem opts err = (Some m, err')"
  shows "m = zero_mapping opts" "err' = err" "mapping_ok m"
proof -
  have sizes: "1 \<le> so_coils opts" "so_coils opts \<le> 65536" "1 \<le> so_discrete_inputs opts"
    "so_discrete_inputs opts \<le> 65536" "1 \<le> so_holding_registers opts" "so_holding_registers opts \<le> 65536"
    "1 \<le> so_input_registers opts" "so_input_registers opts \<le> 65536"
    using assms(1) by (auto simp: server_options_ok_def)
  note w = mapping_size_word [OF sizes(1,2)] mapping_size_word [OF sizes(3,4)]
    mapping_size_word [OF sizes(5,6)] mapping_size_word [OF sizes(7,8)]
  show "m = zero_mapping opts" "err' = err"
    using assms(2)
    by (auto simp: server_mapping_def modbus_mapping_new_def modbus_mapping_new_start_address_def w
        zero_mapping_def split: prod.splits if_splits)
  then show "mapping_ok m"
    using sizes by (simp add: mapping_ok_def zero_mapping_def is_bit_def list_all_iff)
qed

lemma server_context_made:
  assumes "server_context mem opts err = Some (Some c, e)"
  shows "ctx_error_recovery c = 0" "ctx_quirks c = 0"
    "if so_is_rtu opts then \<exists>d. ctx_backend c = RTU_backend d else \<exists>d. ctx_backend c = TCP_backend d"
    "e = err"
  using assms
  by (auto simp: server_context_def modbus_new_rtu_def modbus_new_tcp_def Let_def modbus_init_common_def
      split: option.splits if_splits bind_splits)

text \<open>The state the server runs from, and the variables of \<open>run_tcp_server\<close> before its loop.\<close>

definition start_state :: "server_options \<Rightarrow> modbus \<Rightarrow> int \<Rightarrow> 'w \<Rightarrow> 'w mst" where
  "start_state opts c err w =
     \<lparr>st_ctx = c\<lparr>ctx_debug := so_verbose opts, ctx_slave := so_address opts\<rparr>, st_errno = err, st_world = w\<rparr>"

definition tcp_start :: "'w os \<Rightarrow> int \<Rightarrow> mapping \<Rightarrow> 'w mst \<Rightarrow> 'w server" where
  "tcp_start os listener m st =
     \<lparr>sv_connections = {listener}, sv_listener = listener, sv_highest = listener,
      sv_query = uninit os 260, sv_mapping = m, sv_st = st\<rparr>"

lemma tcp_start_ok:
  assumes "0 \<le> listener" "listener < FD_SETSIZE" "mapping_ok m" "be st = TCP_backend d"
    and "ctx_error_recovery (st_ctx st) = 0"
  shows "server_ok (tcp_start os listener m st)"
  using assms by (simp add: server_ok_def tcp_start_def)

lemma start_slave:
  assumes "server_options_ok opts"
  shows "modbus_set_slave The_ctx (so_address opts) st = (0, set_ctx ((st_ctx st)\<lparr>ctx_slave := so_address opts\<rparr>) st)"
  using assms by (simp add: server_options_ok_def modbus_set_slave_def be_set_slave_def rtu_set_slave_def
      tcp_set_slave_def Let_def split: backend.splits)

text \<open>C39: \<open>modbuss\<close> serves only what its options describe: unsuitable options end it with a failure
  before anything happens; with suitable ones, and memory and signal handlers granted, \<open>main\<close>
  runs the serial or the TCP server on tables of the given sizes, all zero and well formed, with
  a context of that kind whose slave number is the one given and which does no error recovery,
  and exits with success exactly when the server does. The variables \<open>run_tcp_server\<close> starts its
  loop with then satisfy the invariant of the server, whichever descriptor listens.\<close>

theorem server_main_starts:
  assumes "server_options_ok opts" "server_context mem opts err = Some (Some c, e)"
    and "server_mapping mem opts e = (Some m, e')" "os_signal os w = (True, w')"
    and "\<not> server_options_ok bad"
  shows "server_main os mem bad err w = Some (EXIT_FAILURE, w) \<and>
    m = zero_mapping opts \<and> mapping_ok m \<and> ctx_error_recovery c = 0 \<and>
    (if so_is_rtu opts then \<exists>d. ctx_backend c = RTU_backend d else \<exists>d. ctx_backend c = TCP_backend d) \<and>
    server_main os mem opts err w = do {
      (status, m', st') \<leftarrow> (if so_is_rtu opts then run_rtu_server os m (start_state opts c err w')
        else run_tcp_server os m (start_state opts c err w'));
      Some (if status = 0 then EXIT_SUCCESS else EXIT_FAILURE, st_world st') } \<and>
    (\<not> so_is_rtu opts \<longrightarrow> (\<forall>listener st'. 0 \<le> listener \<and> listener < FD_SETSIZE \<and>
      st_ctx st' = st_ctx (start_state opts c err w') \<longrightarrow> server_ok (tcp_start os listener m st')))"
proof -
  note made = server_context_made [OF assms(2)] and zero = server_mapping_zero [OF assms(1,3)]
  have "server_main os mem bad err w = Some (EXIT_FAILURE, w)"
    using assms(5) by (simp add: server_main_def)
  moreover have "server_main os mem opts err w = do {
      (status, m', st') \<leftarrow> (if so_is_rtu opts then run_rtu_server os m (start_state opts c err w')
        else run_tcp_server os m (start_state opts c err w'));
      Some (if status = 0 then EXIT_SUCCESS else EXIT_FAILURE, st_world st') }"
    using assms(1-4) made(4) zero(2)
    by (simp add: server_main_def modbus_set_debug_def start_slave start_state_def)
  moreover have "server_ok (tcp_start os listener m st')"
    if "\<not> so_is_rtu opts" "0 \<le> listener" "listener < FD_SETSIZE" "st_ctx st' = st_ctx (start_state opts c err w')"
    for listener st'
    using that made zero(3) tcp_start_ok [of listener m st' _ os] by (auto simp: start_state_def)
  ultimately show ?thesis using made(1,3) zero(1,3) by blast
qed

definition small_server :: server_options where
  "small_server = (server_defaults True)\<lparr>so_device := ''/dev/ttyS0'', so_baud := 9600\<rparr>"

theorem server_main_starts_witness:
  "\<exists>c m. ctx_backend c \<noteq> ctx_backend tcp_ctx \<and> length (mb_tab_bits m) = 100 \<and> mapping_ok m \<and>
    server_main wire_os \<lparr>sm_ctx = Some tcp_ctx, sm_ip = None, sm_rtu = Some zero_termios, sm_device = True,
      sm_mapping = (True, True, True, True, True)\<rparr> small_server 0 \<lparr>w_in = [], w_out = []\<rparr> =
    do { (status, m', st') \<leftarrow> run_rtu_server wire_os m (start_state small_server c 0 \<lparr>w_in = [], w_out = []\<rparr>);
      Some (if status = 0 then EXIT_SUCCESS else EXIT_FAILURE, st_world st') }"
proof -
  let ?mem = "\<lparr>sm_ctx = Some tcp_ctx, sm_ip = None, sm_rtu = Some zero_termios, sm_device = True,
      sm_mapping = (True, True, True, True, True)\<rparr>"
  let ?w = "\<lparr>w_in = [], w_out = []\<rparr>"
  have ok: "server_options_ok small_server" "\<not> server_options_ok (small_server\<lparr>so_baud := 0\<rparr>)"
    by (simp_all add: small_server_def server_defaults_def server_options_ok_def)
  obtain c where c: "server_context ?mem small_server 0 = Some (Some c, 0)"
    by (simp add: server_context_def small_server_def server_defaults_def modbus_new_rtu_def rtu_onebyte_micros_def
        fits_int_def to_upper_def Let_def at_def of_char_of)
  obtain m where m: "server_mapping ?mem small_server 0 = (Some m, 0)"
    by (simp add: server_mapping_def modbus_mapping_new_def modbus_mapping_new_start_address_def)
  have sig: "os_signal wire_os ?w = (True, ?w)" by (simp add: wire_os_def)
  from server_main_starts [OF ok(1) c m sig ok(2)] show ?thesis
    by (intro exI [of _ c] exI [of _ m]) (auto simp: small_server_def server_defaults_def zero_mapping_def)
qed

end
