(* ===== verification/Modbus_Descriptors.thy ===== *)
theory Modbus_Descriptors
  imports Modbuss_Start
begin

text \<open>
  Descriptor accounting: \<open>F w\<close> is the set of descriptors the process has open in the world \<open>w\<close>.
  Connecting, closing, receiving, replying and the TCP server's steps are followed through it.
\<close>

subsection \<open>The system's part\<close>

text \<open>Documented behaviour: only \<open>socket\<close>, \<open>open\<close> and \<open>accept\<close> open a descriptor, a new one, and only
  \<open>close\<close> closes one.\<close>

definition opens :: "('w \<Rightarrow> int set) \<Rightarrow> 'w \<Rightarrow> (int + nat) \<times> 'w \<Rightarrow> bool" where
  "opens F w x = (case x of
     (Inl e, w') \<Rightarrow> F w' = F w
   | (Inr n, w') \<Rightarrow> int n \<notin> F w \<and> F w' = insert (int n) (F w))"

definition accounts :: "('w \<Rightarrow> int set) \<Rightarrow> 'w os \<Rightarrow> bool" where
  "accounts F os \<longleftrightarrow>
     (\<forall>x y z w. opens F w (os_socket os x y z w)) \<and> (\<forall>x w. opens F w (os_open os x w)) \<and>
     (\<forall>x w. opens F w (os_accept os x w)) \<and> (\<forall>fd w. F (os_close os fd w) = F w - {fd}) \<and>
     (\<forall>x y w. F (snd (os_send os x y w)) = F w) \<and> (\<forall>x y w. F (snd (os_write os x y w)) = F w) \<and>
     (\<forall>x y w. F (snd (os_recv os x y w)) = F w) \<and> (\<forall>x y w. F (snd (os_recv_dontwait os x y w)) = F w) \<and>
     (\<forall>x y w. F (snd (os_read os x y w)) = F w) \<and> (\<forall>x y w. F (snd (snd (os_select os x y w))) = F w) \<and>
     (\<forall>x y w. F (snd (os_select_write os x y w)) = F w) \<and> (\<forall>x w. F (snd (os_nanosleep os x w)) = F w) \<and>
     (\<forall>x w. F (os_usleep os x w) = F w) \<and> (\<forall>x y w. F (snd (os_setsockopt os x y w)) = F w) \<and>
     (\<forall>x w. F (snd (os_getsockopt_error os x w)) = F w) \<and> (\<forall>x y z w. F (snd (os_getaddrinfo os x y z w)) = F w) \<and>
     (\<forall>x y w. F (snd (os_connect os x y w)) = F w) \<and> (\<forall>x y w. F (snd (os_bind os x y w)) = F w) \<and>
     (\<forall>x y w. F (snd (os_listen os x y w)) = F w) \<and> (\<forall>x w. F (os_shutdown os x w) = F w) \<and>
     (\<forall>x w. F (snd (os_tcgetattr os x w)) = F w) \<and> (\<forall>x y w. F (snd (os_tcsetattr os x y w)) = F w) \<and>
     (\<forall>x w. F (snd (os_tcflush os x w)) = F w) \<and> (\<forall>x w. F (snd (os_tiocmget os x w)) = F w) \<and>
     (\<forall>x y w. F (os_tiocmset os x y w) = F w) \<and> (\<forall>x w. F (snd (os_select_set os x w)) = F w) \<and>
     (\<forall>w. F (snd (os_stop_requested os w)) = F w) \<and> (\<forall>k fd on w. F (os_custom_rts os k fd on w) = F w)"

lemma accountsD:
  assumes "accounts F os"
  shows "opens F w (os_socket os a b c w)" "opens F w (os_open os path w)" "opens F w (os_accept os s w)"
    "F (os_close os s w) = F w - {s}"
    "F (snd (os_send os s bs w)) = F w" "F (snd (os_write os s bs w)) = F w"
    "F (snd (os_recv os s n w)) = F w" "F (snd (os_recv_dontwait os s n w)) = F w"
    "F (snd (os_read os s n w)) = F w" "F (snd (snd (os_select os s tvo w))) = F w"
    "F (snd (os_select_write os s tv w)) = F w" "F (snd (os_nanosleep os tm w)) = F w"
    "F (os_usleep os us w) = F w" "F (snd (os_setsockopt os s so w)) = F w"
    "F (snd (os_getsockopt_error os s w)) = F w" "F (snd (os_getaddrinfo os nd sv pb w)) = F w"
    "F (snd (os_connect os s ad w)) = F w" "F (snd (os_bind os s ad w)) = F w"
    "F (snd (os_listen os s n w)) = F w" "F (os_shutdown os s w) = F w"
    "F (snd (os_tcgetattr os s w)) = F w" "F (snd (os_tcsetattr os s tio w)) = F w"
    "F (snd (os_tcflush os s w)) = F w" "F (snd (os_tiocmget os s w)) = F w"
    "F (os_tiocmset os s fl w) = F w" "F (snd (os_select_set os fds w)) = F w"
    "F (snd (os_stop_requested os w)) = F w" "F (os_custom_rts os k s on w) = F w"
  using assms by (simp_all add: accounts_def del: split_paired_All)

lemma ret_world [simp]:
  "st_world (snd (ret_count x st)) = snd x" "st_world (snd (ret_unit y st)) = snd y"
  "st_ctx (snd (ret_count x st)) = st_ctx st" "st_ctx (snd (ret_unit y st)) = st_ctx st"
  by (simp_all add: ret_count_def ret_unit_def split: prod.splits sum.splits)

lemma ret_unit_cases: "fst (ret_unit y st) = 0 \<or> fst (ret_unit y st) = -1"
  by (simp add: ret_unit_def split: prod.splits sum.splits)

lemma ret_bytes_world:
  "ret_bytes x buf k st = Some (rc, buf', st') \<Longrightarrow> st_world st' = snd x \<and> st_ctx st' = st_ctx st"
  by (auto simp: ret_bytes_def split: prod.splits sum.splits bind_splits)

lemma close_fd_world [simp]: "st_world (close_fd os s st) = os_close os s (st_world st)"
  by (simp add: close_fd_def)

text \<open>The same descriptors are open, and the error recovery is as it was.\<close>

definition same_fds :: "('w \<Rightarrow> int set) \<Rightarrow> 'w mst \<Rightarrow> 'w mst \<Rightarrow> bool" where
  "same_fds F st st' \<longleftrightarrow> F (st_world st') = F (st_world st) \<and>
     ctx_error_recovery (st_ctx st') = ctx_error_recovery (st_ctx st)"

lemma same_fds_refl [simp]: "same_fds F st st"
  by (simp add: same_fds_def)

lemma same_fds_trans: "same_fds F st st' \<Longrightarrow> same_fds F st' st'' \<Longrightarrow> same_fds F st st''"
  by (simp add: same_fds_def)

lemma same_fds_errno [simp]: "same_fds F st (set_errno e st') = same_fds F st st'"
  "same_fds F (set_errno e st) st' = same_fds F st st'"
  by (simp_all add: same_fds_def)

lemma ret_count_same:
  assumes "ret_count x st = (rc, st')" "F (snd x) = F (st_world st)"
  shows "same_fds F st st'"
proof -
  have "st' = snd (ret_count x st)" using assms(1) by simp
  then show ?thesis using assms(2) by (simp add: same_fds_def)
qed

subsection \<open>Connecting and closing\<close>

text \<open>The call opened the descriptor of the context and reports success, or nothing is open that
  was not.\<close>

definition connected_or_clean :: "('w \<Rightarrow> int set) \<Rightarrow> 'w mst \<Rightarrow> int \<times> 'w mst \<Rightarrow> bool" where
  "connected_or_clean F st x = (case x of (rc, st') \<Rightarrow>
     rc = 0 \<and> 0 \<le> ctx_s (st_ctx st') \<and> ctx_s (st_ctx st') \<notin> F (st_world st) \<and>
       F (st_world st') = insert (ctx_s (st_ctx st')) (F (st_world st)) \<or>
     rc = -1 \<and> ctx_s (st_ctx st') < 0 \<and> F (st_world st') = F (st_world st))"

lemma connect_sock_fds:
  assumes "accounts F os"
  shows "F (st_world (snd (connect_sock os s ad tv st))) = F (st_world st) \<and>
    st_ctx (snd (connect_sock os s ad tv st)) = st_ctx st \<and> fst (connect_sock os s ad tv st) \<in> {0, -1}"
  using ret_unit_cases [of "os_connect os s ad (st_world st)" st]
  by (auto simp: connect_sock_def case_prod_unfold Let_def accountsD [OF assms] split: sum.splits)

lemma tcp_options_fds:
  assumes "accounts F os"
  shows "F (st_world (snd (tcp_set_ipv4_options os s st))) = F (st_world st)"
    "st_ctx (snd (tcp_set_ipv4_options os s st)) = st_ctx st" "fst (tcp_set_ipv4_options os s st) \<in> {0, -1}"
  by (auto simp: tcp_set_ipv4_options_def case_prod_unfold Let_def accountsD [OF assms])

lemma opened_cases:
  assumes "opens F (st_world st) x" "ret_count x st = (s, st')"
  obtains "s = -1" "F (st_world st') = F (st_world st)" "st_ctx st' = st_ctx st"
    | "0 \<le> s" "s \<notin> F (st_world st)" "F (st_world st') = insert s (F (st_world st))" "st_ctx st' = st_ctx st"
proof (cases "fst x")
  case (Inl e)
  then have x: "x = (Inl e, snd x)" by (cases x) simp
  have "s = -1" "st_world st' = snd x" "st_ctx st' = st_ctx st" "F (snd x) = F (st_world st)"
    using assms by (subst (asm) x; simp add: ret_count_def opens_def; fastforce)+
  then show ?thesis using that(1) by simp
next
  case (Inr n)
  then have x: "x = (Inr n, snd x)" by (cases x) simp
  have "s = int n" "st_world st' = snd x" "st_ctx st' = st_ctx st"
      "int n \<notin> F (st_world st) \<and> F (snd x) = insert (int n) (F (st_world st))"
    using assms by (subst (asm) x; simp add: ret_count_def opens_def; fastforce)+
  then show ?thesis using that(2) by simp
qed

lemma tcp_connect_fds:
  assumes "accounts F os"
  shows "connected_or_clean F st (tcp_connect os d st)"
proof -
  obtain s st1 where open1: "ret_count (os_socket os PF_INET (SOCK_STREAM OR SOCK_CLOEXEC OR SOCK_NONBLOCK) 0
      (st_world st)) st = (s, st1)" by (meson surj_pair)
  note o = accountsD(1) [OF assms] and w = accountsD(4) [OF assms] connect_sock_fds [OF assms] tcp_options_fds [OF assms]
  show ?thesis
    by (rule opened_cases [OF o open1])
      (use open1 in \<open>auto simp: connected_or_clean_def tcp_connect_def Let_def case_prod_unfold w split: option.splits\<close>)
qed

lemma tcp_pi_loop_fds:
  assumes "accounts F os"
  shows "0 \<le> ctx_s (st_ctx (tcp_pi_connect_loop os ais st)) \<and>
      ctx_s (st_ctx (tcp_pi_connect_loop os ais st)) \<notin> F (st_world st) \<and>
      F (st_world (tcp_pi_connect_loop os ais st)) =
        insert (ctx_s (st_ctx (tcp_pi_connect_loop os ais st))) (F (st_world st)) \<or>
    st_ctx (tcp_pi_connect_loop os ais st) = st_ctx st \<and>
      F (st_world (tcp_pi_connect_loop os ais st)) = F (st_world st)"
proof (induction ais arbitrary: st)
  case (Cons ai ais)
  obtain s st1 where open1: "ret_count (os_socket os (ai_family ai) (ai_socktype ai OR SOCK_CLOEXEC OR SOCK_NONBLOCK)
      (ai_protocol ai) (st_world st)) st = (s, st1)" by (meson surj_pair)
  define st2 where "st2 = (if ai_family ai = PF_INET then snd (tcp_set_ipv4_options os s st1) else st1)"
  define x where "x = connect_sock os s (ai_addr ai) (ctx_response_timeout (st_ctx st2)) st2"
  have st2: "F (st_world st2) = F (st_world st1)" "st_ctx st2 = st_ctx st1"
    by (simp_all add: st2_def tcp_options_fds [OF assms])
  have x: "F (st_world (snd x)) = F (st_world st1)" "st_ctx (snd x) = st_ctx st1"
    using connect_sock_fds [OF assms, of s "ai_addr ai" "ctx_response_timeout (st_ctx st2)" st2] st2
    by (simp_all add: x_def)
  have step: "tcp_pi_connect_loop os (ai # ais) st =
      (if s < 0 then tcp_pi_connect_loop os ais st1
       else if fst x = -1 then tcp_pi_connect_loop os ais (close_fd os s (snd x))
       else set_ctx_s s (snd x))"
    unfolding tcp_pi_connect_loop.simps Let_def open1 prod.case st2_def [symmetric] x_def [symmetric]
    by (simp add: case_prod_unfold)
  have closed: "F (st_world (close_fd os s (snd x))) = F (st_world st1) - {s}"
    "st_ctx (close_fd os s (snd x)) = st_ctx st1"
    using x by (simp_all add: accountsD(4) [OF assms] close_fd_def)
  show ?case
    by (rule opened_cases [OF accountsD(1) [OF assms] open1])
      (use Cons.IH [of st1] Cons.IH [of "close_fd os s (snd x)"] x closed in \<open>simp_all add: step del: tcp_pi_connect_loop.simps\<close>)
qed simp

lemma rtu_connect_fds:
  assumes "accounts F os"
  shows "connected_or_clean F st (rtu_connect os d st)"
proof -
  obtain s st1 where open1: "ret_count (os_open os (rtu_device d) (st_world st)) st = (s, st1)" by (meson surj_pair)
  note o = accountsD(2) [OF assms] and w = accountsD [OF assms]
  show ?thesis
    by (rule opened_cases [OF o open1])
      (use open1 in \<open>auto simp: connected_or_clean_def rtu_connect_def Let_def case_prod_unfold w set_rtu_def split: sum.splits\<close>)
qed

lemma close_fds:
  assumes "accounts F os"
  shows "F (st_world (modbus_close os The_ctx st)) = F (st_world st) - (if ctx_s (st_ctx st) < 0 then {} else {ctx_s (st_ctx st)})"
    "ctx_s (st_ctx (modbus_close os The_ctx st)) < 0"
  by (auto simp: modbus_close_def be_close_def tcp_close_def rtu_close_def Let_def accountsD [OF assms] split: backend.splits)

text \<open>A context that is not connected: connecting it opens one descriptor or none.\<close>

lemma connect_fds:
  assumes "accounts F os" "ctx_s (st_ctx st) < 0"
  shows "connected_or_clean F st (modbus_connect os The_ctx st)"
proof (cases "be st")
  case (TCP_PI_backend d)
  define x where "x = os_getaddrinfo os (Some (pi_node d)) (pi_service d) False (st_world st)"
  have "F (snd x) = F (st_world st)" by (simp add: x_def accountsD [OF assms(1)])
  then show ?thesis
    using TCP_PI_backend assms(2) tcp_pi_loop_fds [OF assms(1), of "projr (fst x)" "st\<lparr>st_world := snd x\<rparr>"]
    by (cases "fst x") (auto simp: modbus_connect_def be_connect_def tcp_pi_connect_def connected_or_clean_def
        x_def [symmetric] case_prod_unfold Let_def)
qed (simp_all add: modbus_connect_def be_connect_def tcp_connect_fds [OF assms(1)] rtu_connect_fds [OF assms(1)])

subsection \<open>Waiting, receiving, sending\<close>

lemma nanosleep_same:
  assumes "accounts F os" "nanosleep_loop os req st = Some st'"
  shows "same_fds F st st'"
  using assms(2,1)
proof (induction os req st st' rule: nanosleep_loop.raw_induct [rotated, consumes 1, case_names step])
  case (step f os req st st')
  have w: "F (snd (os_nanosleep os req (st_world st))) = F (st_world st)" by (rule accountsD(12) [OF step(3)])
  obtain r w' where r: "os_nanosleep os req (st_world st) = (r, w')" by (meson surj_pair)
  show ?case
  proof (cases "\<exists>left. r = Some (EINTR, left)")
    case True
    then obtain left where "r = Some (EINTR, left)" by blast
    then have "f os left (st\<lparr>st_errno := EINTR, st_world := w'\<rparr>) = Some st'" using step(2) r by simp
    from step(1) [OF this step(3)] show ?thesis using w r by (simp add: same_fds_def)
  next
    case False
    then show ?thesis using step(2) r w by (cases r) (clarsimp simp: same_fds_def Let_def split: if_splits)+
  qed
qed

lemma tcp_flush_same:
  assumes "accounts F os" "tcp_flush_loop os n st = Some (rc, st')"
  shows "same_fds F st st'"
  using assms(2,1)
proof (induction os n st "(rc, st')" rule: tcp_flush_loop.raw_induct [rotated, consumes 1, case_names step])
  case (step f os n st)
  obtain rc1 buf st1 where r: "ret_bytes (os_recv_dontwait os (ctx_s (st_ctx st)) 260 (st_world st)) (uninit os 260) 0 st =
      Some (rc1, buf, st1)" using step(2) by (auto split: bind_splits)
  have "same_fds F st st1"
    using ret_bytes_world [OF r] by (simp add: same_fds_def accountsD(8) [OF step(3)])
  then show ?case
    using step(2) r step(1) [OF _ step(3), of "if rc1 > 0 then n + rc1 else n" st1]
    by (auto simp: Let_def same_fds_def split: if_splits)
qed

lemma flush_same:
  assumes "accounts F os" "modbus_flush os The_ctx st = Some (rc, st')"
  shows "same_fds F st st'"
proof (cases "be st")
  case (RTU_backend d)
  then have "st' = snd (ret_unit (os_tcflush os (ctx_s (st_ctx st)) (st_world st)) st)"
    using assms(2) by (simp add: modbus_flush_def be_flush_def rtu_flush_def)
  then show ?thesis by (simp add: same_fds_def accountsD [OF assms(1)])
qed (use assms(2) tcp_flush_same [OF assms(1)] in \<open>auto simp: modbus_flush_def be_flush_def tcp_flush_def\<close>)

lemma sleep_and_flush_same:
  assumes "accounts F os" "sleep_and_flush os st = Some st'"
  shows "same_fds F st st'"
  using assms(2) nanosleep_same [OF assms(1)] flush_same [OF assms(1)] same_fds_trans
  by (fastforce simp: sleep_and_flush_def sleep_response_timeout_def Let_def split: bind_splits)

lemma select_same:
  assumes "accounts F os" "tcp_select os tv st = Some (rc, tv', st')"
  shows "same_fds F st st' \<and> st_ctx st' = st_ctx st"
  using assms(2,1)
proof (induction os tv st "(rc, tv', st')" rule: tcp_select.raw_induct [rotated, consumes 1, case_names step])
  case (step f os tv st)
  obtain r tv1 w' where r: "os_select os (ctx_s (st_ctx st)) tv (st_world st) = (r, tv1, w')" by (metis surj_pair)
  have w: "F w' = F (st_world st)" using accountsD(10) [OF step(3), of "ctx_s (st_ctx st)" tv "st_world st"] r by simp
  show ?case
  proof (cases "r = Inl EINTR")
    case True
    then have "f os tv1 (st\<lparr>st_errno := EINTR, st_world := w'\<rparr>) = Some (rc, tv', st')" using step(2) r by simp
    from step(1) [OF this step(3)] show ?thesis using w by (simp add: same_fds_def)
  next
    case False
    then show ?thesis using step(2) r w by (cases r) (clarsimp simp: same_fds_def Let_def split: if_splits)+
  qed
qed

lemma recv_same:
  assumes "accounts F os" "be_recv os msg k n st = Some (rc, msg', st')"
  shows "same_fds F st st' \<and> st_ctx st' = st_ctx st"
  using assms(2) ret_bytes_world
  by (auto simp: be_recv_def tcp_recv_def rtu_recv_def same_fds_def accountsD [OF assms(1)] dest!: ret_bytes_world
      split: backend.splits)

lemma receive_loop_same:
  assumes "accounts F os" "receive_loop os ty n msg k step tv st = Some (ok, msg', k', st')" "\<not> link_recovery st"
  shows "same_fds F st st' \<and> \<not> link_recovery st'"
  using assms(2,1,3)
proof (induction os ty n msg k step tv st "(ok, msg', k', st')" rule: receive_loop.raw_induct [rotated, consumes 1, case_names step])
  case (step f os ty n msg k s tv st)
  show ?case
  proof (cases "n = 0")
    case True
    then show ?thesis using step(2,4) by simp
  next
    case False
    obtain rc tv1 st1 where sel: "tcp_select os tv st = Some (rc, tv1, st1)"
      using step(2) False by (auto simp: be_select_eq split: bind_splits)
    note s1 = select_same [OF step(3) sel]
    then have l1: "\<not> link_recovery st1" using step(4) by simp
    show ?thesis
    proof (cases "rc = -1")
      case True
      then have "st' = st1" using step(2) False sel l1 by (auto simp: be_select_eq receive_select_failed_def)
      then show ?thesis using s1 l1 by simp
    next
      case ready: False
      obtain rc2 msg2 st2 where rcv: "be_recv os msg k n st1 = Some (rc2, msg2, st2)"
        using step(2) False sel ready by (auto simp: be_select_eq split: bind_splits)
      note s2 = recv_same [OF step(3) rcv]
      then have l2: "\<not> link_recovery st2" using l1 by simp
      have s: "same_fds F st st2" using s1 s2 same_fds_trans by blast
      show ?thesis
      proof (cases "rc2 = 0 \<or> rc2 = -1")
        case True
        then have "st' = st2 \<or> st' = set_errno ECONNRESET st2"
          using step(2) False sel ready rcv l2 by (auto simp: be_select_eq receive_recv_failed_def)
        then show ?thesis using s l2 by auto
      next
        case got: False
        let ?left = "(n - rc2) mod 4294967296"
        obtain nxt where nxt: "(if ?left = 0 then receive_advance (be st2) ty msg2 (k + rc2) s
            else Some (Some (?left, s))) = Some nxt"
          using step(2) False sel ready rcv got by (auto simp: be_select_eq Let_def split: bind_splits)
        show ?thesis
        proof (cases nxt)
          case None
          then show ?thesis using step(2) False sel ready rcv got nxt s l2 by (clarsimp simp: be_select_eq Let_def)
        next
          case (Some p)
          obtain n2 s2 where p: "p = (n2, s2)" by (cases p)
          have "\<exists>tv2. f os ty n2 msg2 (k + rc2) s2 tv2 st2 = Some (ok, msg', k', st')"
            using step(2) False sel ready rcv got nxt Some p by (auto simp: be_select_eq Let_def)
          then obtain tv2 where "f os ty n2 msg2 (k + rc2) s2 tv2 st2 = Some (ok, msg', k', st')" by blast
          from step(1) [OF this step(3) l2] show ?thesis using s same_fds_trans by blast
        qed
      qed
    qed
  qed
qed

lemma check_integrity_same:
  assumes "accounts F os" "be_check_integrity os msg n st = Some (rc, st')"
  shows "same_fds F st st'"
  using assms(2)
  by (auto simp: be_check_integrity_def tcp_check_integrity_def rtu_check_integrity_def rtu_flush_def same_fds_def
      Let_def accountsD [OF assms(1)] split: backend.splits bind_splits if_splits)

lemma receive_msg_same:
  assumes "accounts F os" "modbus_receive_msg os msg ty st = Some (rc, msg', st')" "\<not> link_recovery st"
  shows "same_fds F st st'"
proof (cases "be_is_connected st")
  case True
  then obtain ok msg1 k st1 where loop: "receive_loop os ty (header_length (be st) + 1) msg 0 STEP_FUNCTION
      (initial_timeout ty (st_ctx st)) st = Some (ok, msg1, k, st1)"
    using assms(2) by (auto simp: modbus_receive_msg_def split: bind_splits)
  have "same_fds F st1 st'"
    using assms(2) True loop check_integrity_same [OF assms(1)]
    by (auto simp: modbus_receive_msg_def split: if_splits bind_splits)
  then show ?thesis using receive_loop_same [OF assms(1) loop assms(3)] same_fds_trans by blast
qed (use assms(2) in \<open>simp add: modbus_receive_msg_def\<close>)

lemma receive_same:
  assumes "accounts F os" "modbus_receive os The_ctx msg st = Some (rc, msg', st')" "\<not> link_recovery st"
    and "be st = TCP_backend d"
  shows "same_fds F st st'"
  using assms(2,4) receive_msg_same [OF assms(1) _ assms(3)] by (simp add: modbus_receive_def tcp_receive_def)

lemma set_rts_same: "accounts F os \<Longrightarrow> F (st_world (call_set_rts os f on st)) = F (st_world st)"
  by (cases f) (simp_all add: rtu_ioctl_rts_def Let_def case_prod_unfold accountsD)

lemma tcp_send_same:
  assumes "accounts F os" "tcp_send os msg n st = Some (rc, st')"
  shows "same_fds F st st'"
proof -
  obtain bs where "ret_count (os_send os (ctx_s (st_ctx st)) bs (st_world st)) st = (rc, st')"
    using assms(2) by (auto simp: tcp_send_def split: bind_splits)
  then show ?thesis by (rule ret_count_same) (rule accountsD(5) [OF assms(1)])
qed

lemma send_same:
  assumes "accounts F os" "be_send os msg n st = Some (rc, st')"
  shows "same_fds F st st'"
proof (cases "be st")
  case (RTU_backend d)
  obtain bs where bs: "rd_block msg 0 n = Some bs"
    using assms(2) RTU_backend by (auto simp: be_send_def rtu_send_def split: bind_splits)
  show ?thesis
  proof (cases "rtu_rts d = MODBUS_RTU_RTS_NONE")
    case True
    then show ?thesis
      using assms(2) RTU_backend bs ret_count_same accountsD(6) [OF assms(1)] by (fastforce simp: be_send_def rtu_send_def)
  next
    case False
    have "F (st_world (snd (the (be_send os msg n st)))) = F (st_world st) \<and>
        ctx_error_recovery (st_ctx (snd (the (be_send os msg n st)))) = ctx_error_recovery (st_ctx st)"
      using False
      by (simp add: be_send_def RTU_backend rtu_send_def bs do_usleep_def Let_def case_prod_unfold
          set_rts_same [OF assms(1)] accountsD [OF assms(1)])
    then show ?thesis using assms(2) by (simp add: same_fds_def)
  qed
qed (use assms(2) tcp_send_same [OF assms(1)] in \<open>simp_all add: be_send_def\<close>)

lemma send_msg_same:
  assumes "accounts F os" "send_msg os msg n st = Some (rc, msg', st')" "\<not> link_recovery st"
  shows "same_fds F st st'"
proof -
  obtain n1 msg1 rc1 st1 where s: "send_loop os msg1 n1 st = Some (rc1, st1)" "same_fds F st1 st'"
    using assms(2) by (auto simp: send_msg_def split: bind_splits if_splits)
  obtain rc2 st2 where b: "be_send os msg1 n1 st = Some (rc2, st2)"
    using s(1) by (auto simp: send_loop.simps split: bind_splits)
  note s2 = send_same [OF assms(1) b]
  then have "\<not> link_recovery st2" using assms(3) by (simp add: same_fds_def)
  then have "st1 = st2" using s(1) b by (simp add: send_loop.simps)
  then show ?thesis using s(2) s2 same_fds_trans by blast
qed

lemma exception_same:
  assumes "accounts F os" "response_exception os sft e rsp fl m st = Some (n, rsp', m', st')"
  shows "same_fds F st st'"
  using assms(2) sleep_and_flush_same [OF assms(1)]
  by (auto simp: response_exception_def split: bind_splits if_splits)

text \<open>Every case of the switch ends with an exception or leaves the state alone.\<close>

lemma dispatch_same:
  assumes "accounts F os" "reply_dispatch os req k sft a rsp m st = Some (Some (n, rsp', m', st'))"
  shows "same_fds F st st'"
proof -
  note e = exception_same [OF assms(1)] and sp = bind_splits if_splits
  have 1: "reply_read_bits os req sft a rsp m st = Some (n, rsp', m', st') \<Longrightarrow> same_fds F st st'"
    by (auto simp: reply_read_bits_def Let_def dest: e split: sp)
  have 2: "reply_read_registers os req sft a rsp m st = Some (n, rsp', m', st') \<Longrightarrow> same_fds F st st'"
    by (auto simp: reply_read_registers_def Let_def dest: e split: sp)
  have 3: "reply_write_single_coil os req k sft a rsp m st = Some (n, rsp', m', st') \<Longrightarrow> same_fds F st st'"
    by (auto simp: reply_write_single_coil_def Let_def dest: e split: sp)
  have 4: "reply_write_single_register os req k sft a rsp m st = Some (n, rsp', m', st') \<Longrightarrow> same_fds F st st'"
    by (auto simp: reply_write_single_register_def Let_def dest: e split: sp)
  have 5: "reply_write_multiple_coils os req sft a rsp m st = Some (n, rsp', m', st') \<Longrightarrow> same_fds F st st'"
    by (auto simp: reply_write_multiple_coils_def Let_def dest: e split: sp)
  have 6: "reply_write_multiple_registers os req sft a rsp m st = Some (n, rsp', m', st') \<Longrightarrow> same_fds F st st'"
    by (auto simp: reply_write_multiple_registers_def Let_def dest: e split: sp)
  have 7: "reply_report_slave_id sft rsp m st = Some (n, rsp', m', st') \<Longrightarrow> same_fds F st st'"
    by (auto simp: reply_report_slave_id_def Let_def split: sp)
  have 8: "reply_mask_write_register os req k sft a rsp m st = Some (n, rsp', m', st') \<Longrightarrow> same_fds F st st'"
    by (auto simp: reply_mask_write_register_def Let_def dest: e split: sp)
  have 9: "reply_write_and_read_registers os req sft a rsp m st = Some (n, rsp', m', st') \<Longrightarrow> same_fds F st st'"
    by (auto simp: reply_write_and_read_registers_def Let_def dest: e split: sp)
  show ?thesis
    using assms(2) 1 2 3 4 5 6 7 8 9 e unfolding reply_dispatch_def Let_def
    by (auto split: if_splits)
qed

lemma reply_same:
  assumes "accounts F os" "modbus_reply os The_ctx req n m st = Some (rc, m', st')" "\<not> link_recovery st"
  shows "same_fds F st st'"
proof -
  obtain k sft a r slave where d: "reply_dispatch os req k sft a (uninit os 260) m st = Some r"
    and rest: "(case r of None \<Rightarrow> Some (-1, m, set_errno ENOPROTOOPT st)
        | Some (rsp_length, rsp, mb_mapping, st) \<Rightarrow>
            if silent_broadcast slave st then Some (0, mb_mapping, st)
            else do {
              (rc, rsp, st) \<leftarrow> send_msg os rsp rsp_length st;
              Some (rc, mb_mapping, st) }) = Some (rc, m', st')"
    using assms(2) by (auto simp: modbus_reply_def Let_def split: bind_splits; blast)
  show ?thesis
  proof (cases r)
    case None
    then show ?thesis using rest by auto
  next
    case (Some p)
    obtain k1 rsp1 m1 st1 where p: "p = (k1, rsp1, m1, st1)" by (cases p)
    have s1: "same_fds F st st1" using dispatch_same [OF assms(1)] d Some p by blast
    then have "\<not> link_recovery st1" using assms(3) by (simp add: same_fds_def)
    then have "same_fds F st1 st'"
      using rest Some p send_msg_same [OF assms(1)] by (auto split: if_splits bind_splits)
    then show ?thesis using s1 same_fds_trans by blast
  qed
qed

subsection \<open>The TCP server\<close>

text \<open>Besides \<open>base\<close>, what was open before, the process holds exactly the descriptors it watches.\<close>

definition holds_watched :: "('w \<Rightarrow> int set) \<Rightarrow> int set \<Rightarrow> 'w server \<Rightarrow> bool" where
  "holds_watched F base sv \<longleftrightarrow> server_ok sv \<and>
     F (st_world (sv_st sv)) = base \<union> sv_connections sv \<and> base \<inter> sv_connections sv = {}"

lemma accept_holds:
  assumes "accounts F os" "holds_watched F base sv"
  shows "holds_watched F base (accept_client os sv)"
proof -
  obtain s st1 where open1: "ret_count (os_accept os (sv_listener sv) (st_world (sv_st sv))) (sv_st sv) = (s, st1)"
    by (meson surj_pair)
  have ok: "server_ok (accept_client os sv)" using assms(2) accept_ok [of sv os] by (simp add: holds_watched_def)
  have F: "F (st_world (sv_st sv)) = base \<union> sv_connections sv" "base \<inter> sv_connections sv = {}"
    using assms(2) by (simp_all add: holds_watched_def)
  show ?thesis
    unfolding holds_watched_def
    by (rule opened_cases [OF accountsD(3) [OF assms(1)] open1])
      (use ok F open1 in \<open>auto simp: accept_client_def accountsD(4) [OF assms(1)]\<close>)
qed

lemma drop_holds:
  assumes "accounts F os" "holds_watched F base sv" "fd \<in> sv_connections sv" "fd \<noteq> sv_listener sv"
  shows "holds_watched F base (drop_client os fd sv)"
  using assms drop_ok [of sv fd os]
  by (auto simp: holds_watched_def drop_client_def Let_def accountsD(4) [OF assms(1)])

lemma serve_holds:
  assumes "accounts F os" "bounded_io mu os" "holds_watched F base sv" "fd \<in> sv_connections sv" "fd \<noteq> sv_listener sv"
    and "serve_client os fd sv = Some sv'"
  shows "holds_watched F base sv'"
proof -
  have ok: "server_ok sv" using assms(3) by (simp add: holds_watched_def)
  then obtain d where tcp: "be (sv_st sv) = TCP_backend d" "\<not> link_recovery (sv_st sv)" by (auto simp: server_ok_def)
  define st0 where "st0 = set_ctx_s fd (sv_st sv)"
  have st0: "be st0 = TCP_backend d" "\<not> link_recovery st0" "same_fds F (sv_st sv) st0"
    using tcp by (simp_all add: st0_def same_fds_def)
  obtain rc q st1 where rcv: "modbus_receive os The_ctx (sv_query sv) st0 = Some (rc, q, st1)"
    using assms(6) by (auto simp: serve_client_def modbus_set_socket_def st0_def split: bind_splits)
  have s1: "same_fds F st0 st1" by (rule receive_same [OF assms(1) rcv st0(2,1)])
  then have l1: "\<not> link_recovery st1" using st0(2) by (simp add: same_fds_def)
  define y where "y = (if rc > 0 then do {
          (rc2, mapping, st) \<leftarrow> modbus_reply os The_ctx q rc (sv_mapping sv) st1;
          Some (if rc2 = -1 then -1 else rc, mapping, st) }
        else Some (rc, sv_mapping sv, st1))"
  have run: "serve_client os fd sv = do {
      (rc', mapping, st) \<leftarrow> y;
      let sv = sv\<lparr>sv_query := q, sv_mapping := mapping, sv_st := st\<rparr>;
      Some (if rc' = -1 then drop_client os fd sv else sv) }"
    using rcv by (simp add: serve_client_def modbus_set_socket_def st0_def [symmetric] y_def)
  obtain rc' m' st2 where rep: "y = Some (rc', m', st2)" using run assms(6) by (cases y) auto
  have sv': "sv' = (if rc' = -1 then drop_client os fd (sv\<lparr>sv_query := q, sv_mapping := m', sv_st := st2\<rparr>)
        else sv\<lparr>sv_query := q, sv_mapping := m', sv_st := st2\<rparr>)"
    using run assms(6) rep by (simp add: Let_def)
  have "same_fds F st1 st2"
    using rep reply_same [OF assms(1) _ l1] by (auto simp: y_def split: if_splits bind_splits)
  then have fds: "F (st_world st2) = F (st_world (sv_st sv))" using s1 st0(3) by (simp add: same_fds_def)
  have conn: "sv_connections sv' = (if rc' = -1 then sv_connections sv - {fd} else sv_connections sv)"
    and world: "st_world (sv_st sv') = (if rc' = -1 then os_close os fd (st_world st2) else st_world st2)"
    by (simp_all add: sv' drop_client_def Let_def)
  have "server_ok sv'"
    using serve_ok [OF assms(2) ok assms(5), of "server_ok sv'"] assms(6) by simp
  then show ?thesis
    using assms(3,4) fds by (auto simp: holds_watched_def conn world accountsD(4) [OF assms(1)])
qed

lemma handle_holds:
  assumes "accounts F os" "bounded_io mu os" "holds_watched F base sv" "fd \<in> sv_connections sv"
    and "handle_socket os fd sv = Some sv'"
  shows "holds_watched F base sv'"
  using assms(5) accept_holds [OF assms(1,3)] serve_holds [OF assms(1-4)]
  by (auto simp: handle_socket_def split: if_splits)

lemma scan_holds:
  assumes "accounts F os" "bounded_io mu os" "holds_watched F base sv" "ready \<inter> {k..} \<subseteq> sv_connections sv"
    and "scan_ready os ready n k sv = Some sv'"
  shows "holds_watched F base sv'"
  using assms(5,1-4)
proof (induction os ready n k sv sv' rule: scan_ready.raw_induct [rotated, consumes 1, case_names step])
  case (step f os ready n k sv sv')
  show ?case
  proof (cases "k \<le> sv_highest sv \<and> n > 0")
    case False
    then have "sv' = sv" using step(2) by (auto split: if_splits)
    then show ?thesis using step(5) by simp
  next
    case True
    show ?thesis
    proof (cases "k \<in> ready")
      case False
      then have "f os ready n (k + 1) sv = Some sv'" using step(2) True by simp
      then show ?thesis using step(1) [OF _ step(3-5)] step(6) by force
    next
      case rdy: True
      then obtain sv1 where sv1: "handle_socket os k sv = Some sv1" "f os ready (n - 1) (k + 1) sv1 = Some sv'"
        using step(2) True by (auto split: bind_splits)
      have k: "k \<in> sv_connections sv" using step(6) rdy by auto
      have "server_ok sv" using step(5) by (simp add: holds_watched_def)
      then have "sv_connections sv - {k} \<subseteq> sv_connections sv1"
        using handle_ok [OF step(4), of sv k "sv_connections sv - {k} \<subseteq> sv_connections sv1"] sv1(1) by simp
      moreover have "ready \<inter> {k + 1..} \<subseteq> sv_connections sv - {k}" using step(6) by auto
      ultimately have "ready \<inter> {k + 1..} \<subseteq> sv_connections sv1" by blast
      from step(1) [OF sv1(2) step(3,4) handle_holds [OF step(3-5) k sv1(1)] this] show ?thesis .
    qed
  qed
qed

lemma holds_world:
  assumes "holds_watched F base sv" "F w = F (st_world (sv_st sv))"
  shows "holds_watched F base (sv\<lparr>sv_st := (sv_st sv)\<lparr>st_errno := e, st_world := w\<rparr>\<rparr>)"
    "holds_watched F base (sv\<lparr>sv_st := (sv_st sv)\<lparr>st_world := w\<rparr>\<rparr>)"
  using assms by (simp_all add: holds_watched_def server_ok_world)

lemma loop_holds:
  assumes "accounts F os" "bounded_io mu os" "reports_watched os" "holds_watched F base sv"
    and "tcp_server_loop os sv = Some (rc, sv')"
  shows "holds_watched F base sv'"
  using assms(5,1-4)
proof (induction os sv "(rc, sv')" rule: tcp_server_loop.raw_induct [rotated, consumes 1, case_names step])
  case (step f os sv)
  obtain stop w where stop: "os_stop_requested os (st_world (sv_st sv)) = (stop, w)" by (meson surj_pair)
  have w: "F w = F (st_world (sv_st sv))" using accountsD(27) [OF step(3), of "st_world (sv_st sv)"] stop by simp
  obtain r w2 where sel: "os_select_set os (sv_connections sv) w = (r, w2)" by (meson surj_pair)
  have w2: "F w2 = F (st_world (sv_st sv))" using accountsD(26) [OF step(3), of "sv_connections sv" w] sel w by simp
  show ?case
  proof (cases stop)
    case True
    then show ?thesis using step(2) stop holds_world(2) [OF step(6) w] by (simp add: stop_requested_def)
  next
    case False
    note body = step(2) [simplified stop_requested_def stop Let_def prod.case False if_False, simplified]
    show ?thesis
    proof (cases r)
      case (Inl e)
      obtain stop2 w3 where stop2: "os_stop_requested os w2 = (stop2, w3)" by (meson surj_pair)
      have "F w3 = F (st_world (sv_st sv))" using accountsD(27) [OF step(3), of w2] stop2 w2 by simp
      then show ?thesis
        using body sel Inl stop2 holds_world(1) [OF step(6)] w2
        by (auto simp: stop_requested_def Let_def split: if_splits)
    next
      case (Inr ready)
      define sv2 where "sv2 = sv\<lparr>sv_st := (sv_st sv)\<lparr>st_world := w2\<rparr>\<rparr>"
      have sv2: "holds_watched F base sv2" unfolding sv2_def by (rule holds_world(2) [OF step(6) w2])
      obtain sv3 where sv3: "scan_ready os ready (int (card ready)) 0 sv2 = Some sv3" "f os sv3 = Some (rc, sv')"
        using body sel Inr by (auto simp: sv2_def split: bind_splits)
      have "ready \<inter> {0..} \<subseteq> sv_connections sv2"
        using step(5) sel Inr by (auto simp: reports_watched_def sv2_def)
      from step(1) [OF sv3(2) step(3-5) scan_holds [OF step(3,4) sv2 this sv3(1)]] show ?thesis .
    qed
  qed
qed

lemma close_all_releases:
  assumes "accounts F os" "holds_watched F base sv"
  obtains st' where "close_all os sv = Some st'" "F (st_world st') = base"
proof -
  let ?W = "sv_connections sv"
  have ok: "server_ok sv" using assms(2) by (simp add: holds_watched_def)
  note d = server_okD [OF ok]
  have F: "F (st_world (sv_st sv)) = base \<union> ?W" "base \<inter> ?W = {}" using assms(2) by (simp_all add: holds_watched_def)
  have "\<exists>st'. for_loop (nat (sv_highest sv + 1)) 0
      (\<lambda>fd st. Some (if fd \<in> ?W then close_fd os fd st else st)) (sv_st sv) = Some st' \<and>
      F (st_world st') = base \<union> (?W - {0..<int (nat (sv_highest sv + 1))})"
  proof (rule for_loop_inv [where P = "\<lambda>k st. F (st_world st) = base \<union> (?W - {0..<int k})"])
    show "F (st_world (sv_st sv)) = base \<union> (?W - {0..<int 0})" using F by simp
  next
    fix k and st :: "'a mst"
    assume st: "F (st_world st) = base \<union> (?W - {0..<int k})"
    show "\<exists>s'. Some (if 0 + int k \<in> ?W then close_fd os (0 + int k) st else st) = Some s' \<and>
        F (st_world s') = base \<union> (?W - {0..<int (Suc k)})"
    proof -
      have "{0..<int (Suc k)} = insert (int k) {0..<int k}" by auto
      then show ?thesis using st F(2) by (auto simp: accountsD(4) [OF assms(1)])
    qed
  qed
  moreover have "?W - {0..<int (nat (sv_highest sv + 1))} = {}"
    using d(3-5) by force
  ultimately show ?thesis using that by (auto simp: close_all_def)
qed

text \<open>A listening socket is one more descriptor; when listening fails nothing is open that was not.\<close>

definition listens_or_clean :: "('w \<Rightarrow> int set) \<Rightarrow> 'w mst \<Rightarrow> int \<times> 'w mst \<Rightarrow> bool" where
  "listens_or_clean F st x = (case x of (l, st') \<Rightarrow> st_ctx st' = st_ctx st \<and>
    (0 \<le> l \<and> l \<notin> F (st_world st) \<and> F (st_world st') = insert l (F (st_world st)) \<or>
     l = -1 \<and> F (st_world st') = F (st_world st)))"

lemma listen_fds:
  assumes "accounts F os" "be st = TCP_backend d" "modbus_tcp_listen os The_ctx n st = Some x"
  shows "listens_or_clean F st x"
proof -
  obtain s st1 where open1: "ret_count (os_socket os PF_INET (SOCK_STREAM OR SOCK_CLOEXEC) IPPROTO_TCP (st_world st)) st =
      (s, st1)" by (meson surj_pair)
  note w = accountsD [OF assms(1)]
  have "listens_or_clean F st (the (modbus_tcp_listen os The_ctx n st))"
    by (rule opened_cases [OF accountsD(1) [OF assms(1)] open1])
      (use open1 assms(2) in \<open>auto simp: listens_or_clean_def modbus_tcp_listen_def Let_def case_prod_unfold w
        split: option.splits\<close>)
  then show ?thesis using assms(3) by simp
qed

lemma run_releases:
  assumes "accounts F os" "bounded_io mu os" "reports_watched os"
    and "be st = TCP_backend d" "ctx_error_recovery (st_ctx st) = 0" "mapping_ok m"
    and "run_tcp_server os m st = Some (status, m', st')"
  shows "F (st_world st') = F (st_world st) \<and> mapping_ok m'"
proof -
  obtain l st1 where listen: "modbus_tcp_listen os The_ctx MAX_CONNECTIONS st = Some (l, st1)"
    using assms(7) by (auto simp: run_tcp_server_def split: bind_splits)
  have fds: "listens_or_clean F st (l, st1)" by (rule listen_fds [OF assms(1,4) listen])
  show ?thesis
  proof (cases "l = -1")
    case True
    then show ?thesis using assms(6,7) listen fds by (auto simp: run_tcp_server_def listens_or_clean_def)
  next
    case False
    then have l: "0 \<le> l" "l \<notin> F (st_world st)" "F (st_world st1) = insert l (F (st_world st))" "st_ctx st1 = st_ctx st"
      using fds by (auto simp: listens_or_clean_def)
    have low: "l < FD_SETSIZE" using assms(7) listen False by (auto simp: run_tcp_server_def split: if_splits)
    have "server_ok (tcp_start os l m st1)"
      by (rule tcp_start_ok [OF l(1) _ assms(6)]) (use assms(4,5) l(4) low in simp_all)
    then have start: "holds_watched F (F (st_world st)) (tcp_start os l m st1)"
      using l by (simp add: holds_watched_def tcp_start_def)
    obtain sv where sv: "tcp_server_loop os (tcp_start os l m st1) = Some (status, sv)"
        "m' = sv_mapping sv" "close_all os sv = Some st'"
      using assms(7) listen False low by (auto simp: run_tcp_server_def tcp_start_def split: bind_splits)
    have holds: "holds_watched F (F (st_world st)) sv" by (rule loop_holds [OF assms(1-3) start sv(1)])
    then show ?thesis
      using close_all_releases [OF assms(1) holds] sv(2,3) by (auto simp: holds_watched_def server_ok_def)
  qed
qed

text \<open>C13: The TCP server leaks no descriptor, whatever its clients do. Besides those open before, the
  process holds exactly the descriptors the server watches: every scan of ready descriptors ends
  and keeps it so, whether clients are accepted, served, refused or dropped, and closing all of
  them at the end gives the descriptors open before. So a run of \<open>run_tcp_server\<close> that has ended,
  by a signal or an error, even one of listening, leaves the process with the descriptors it had (a listener that does not fit an
  \<open>fd_set\<close>, which the code does not test, is a fault of the model, so no run ends with one).\<close>

theorem server_leaks_nothing:
  assumes "accounts F os" "bounded_io mu os" "reports_watched os"
    and "be st = TCP_backend d" "ctx_error_recovery (st_ctx st) = 0" "mapping_ok m"
  shows "(\<forall>sv ready. holds_watched F base sv \<and> ready \<subseteq> sv_connections sv \<longrightarrow>
      (\<exists>sv' st'. scan_ready os ready (int (card ready)) 0 sv = Some sv' \<and> holds_watched F base sv' \<and>
        close_all os sv' = Some st' \<and> F (st_world st') = base)) \<and>
    (\<forall>status m' st'. run_tcp_server os m st = Some (status, m', st') \<longrightarrow>
      F (st_world st') = F (st_world st) \<and> mapping_ok m')"
proof (intro conjI allI impI)
  fix sv ready
  assume sv: "holds_watched F base sv \<and> ready \<subseteq> sv_connections sv"
  then have ready: "ready \<inter> {0..} \<subseteq> sv_connections sv" and ok: "server_ok sv"
    by (auto simp: holds_watched_def)
  obtain sv' where sv': "scan_ready os ready (int (card ready)) 0 sv = Some sv'"
    by (rule scan_returns [OF assms(2) ok ready])
  have holds: "holds_watched F base sv'" using scan_holds [OF assms(1,2) _ ready sv'] sv by blast
  obtain st' where "close_all os sv' = Some st'" "F (st_world st') = base"
    by (rule close_all_releases [OF assms(1) holds])
  then show "\<exists>sv' st'. scan_ready os ready (int (card ready)) 0 sv = Some sv' \<and> holds_watched F base sv' \<and>
      close_all os sv' = Some st' \<and> F (st_world st') = base"
    using sv' holds by blast
next
  fix status m' st'
  assume "run_tcp_server os m st = Some (status, m', st')"
  from run_releases [OF assms this] show "F (st_world st') = F (st_world st)" "mapping_ok m'" by simp_all
qed

subsection \<open>A concrete system\<close>

text \<open>Two descriptors at most, 3 for a listener and 4 for a client; every peer hangs up; the signal comes
  when the rounds are used up.\<close>

record desk =
  k_open :: "int set"
  k_rounds :: nat

definition take_fd :: "nat \<Rightarrow> desk \<Rightarrow> (int + nat) \<times> desk" where
  "take_fd n w = (if int n \<in> k_open w then (Inl 24, w) else (Inr n, w\<lparr>k_open := insert (int n) (k_open w)\<rparr>))"

definition desk_os :: "desk os" where
  "desk_os = \<lparr>
     os_send = (\<lambda>fd bs w. (Inl 104, w)), os_write = (\<lambda>fd bs w. (Inl 104, w)), os_recv = (\<lambda>fd n w. (Inr [], w)),
     os_recv_dontwait = (\<lambda>fd n w. (Inl 11, w)), os_read = (\<lambda>fd n w. (Inr [], w)), os_select = (\<lambda>fd tv w. (Inr 1, tv, w)),
     os_select_write = (\<lambda>fd tv w. (Inr 1, w)),
     os_nanosleep = (\<lambda>req w. (None, w)), os_usleep = (\<lambda>us w. w),
     os_socket = (\<lambda>a b c. take_fd 3), os_setsockopt = (\<lambda>fd o' w. (Inr (), w)),
     os_getsockopt_error = (\<lambda>fd w. (Inr 0, w)), os_inet_pton = (\<lambda>s. Some 0),
     os_getaddrinfo = (\<lambda>n s p w. (Inr [], w)), os_connect = (\<lambda>fd a w. (Inr (), w)),
     os_bind = (\<lambda>fd a w. (Inr (), w)), os_listen = (\<lambda>fd n w. (Inr (), w)),
     os_accept = (\<lambda>fd. take_fd 4), os_shutdown = (\<lambda>fd w. w), os_close = (\<lambda>fd w. w\<lparr>k_open := k_open w - {fd}\<rparr>),
     os_open = (\<lambda>d. take_fd 3),
     os_tcgetattr = (\<lambda>fd w. (\<lparr>c_iflag = 0, c_oflag = 0, c_cflag = 0, c_lflag = 0,
        c_ispeed = 0, c_ospeed = 0, c_vmin = 0, c_vtime = 0\<rparr>, w)),
     os_tcsetattr = (\<lambda>fd t w. (Inr (), w)),
     os_cfsetispeed = (\<lambda>s t. Inr (t\<lparr>c_ispeed := s\<rparr>)), os_cfsetospeed = (\<lambda>s t. Inr (t\<lparr>c_ospeed := s\<rparr>)),
     os_tcflush = (\<lambda>fd w. (Inr (), w)),
     os_tiocmget = (\<lambda>fd w. (0, w)), os_tiocmset = (\<lambda>fd f w. w),
     os_tiocgrs485 = (\<lambda>fd w. (Inr 0, w)), os_tiocsrs485 = (\<lambda>fd f w. (Inr (), w)),
     os_select_set = (\<lambda>fds w. (Inr fds, w)),
     os_stop_requested = (\<lambda>w. (k_rounds w = 0, w\<lparr>k_rounds := k_rounds w - 1\<rparr>)),
     os_signal = (\<lambda>w. (True, w)), os_stack = (\<lambda>i. 0), os_custom_rts = (\<lambda>k fd on w. w)\<rparr>"

lemma desk_accounts: "accounts k_open desk_os"
  by (simp add: accounts_def desk_os_def opens_def take_fd_def)

lemma desk_bounded: "bounded_io (\<lambda>w. 0) desk_os"
  by (simp add: bounded_io_def settles_def desk_os_def)

definition busy_desk :: "nat \<Rightarrow> desk mst" where
  "busy_desk n = \<lparr>st_ctx = tcp_ctx, st_errno = 0, st_world = \<lparr>k_open = {0, 1, 2}, k_rounds = n\<rparr>\<rparr>"

theorem server_leaks_nothing_witness:
  "map_option (\<lambda>(status, m, st). (status, k_open (st_world st))) (run_tcp_server desk_os small_mapping (busy_desk 2)) =
     Some (0, {0, 1, 2})"
proof -
  have run: "map_option (\<lambda>(status, m, st). (status, m)) (run_tcp_server desk_os small_mapping (busy_desk 2)) =
      Some (0, small_mapping)"
    by code_simp
  then show ?thesis
    using server_leaks_nothing [OF desk_accounts desk_bounded, of "busy_desk 2" _ small_mapping "{}"]
    by (auto simp: busy_desk_def reports_watched_def desk_os_def take_fd_def small_mapping_ok tcp_ctx_def)
qed

end
