(* ===== verification/Argtable_Total.thy ===== *)
theory Argtable_Total
  imports Argtable_Safe
begin

text \<open>
  \<open>arg_parse\<close> returns: on every command line, however wrong, it stays inside its arrays and ends,
  except for two kinds of words, which are named here.
\<close>

subsection \<open>Words\<close>

text \<open>
  A group of letters with a dash at its end: the scan stops at that dash and starts again with the
  same word. The other kind makes the negation of a number overflow.
\<close>

definition dash_behind :: "string \<Rightarrow> bool" where
  "dash_behind w \<longleftrightarrow> 3 \<le> length w \<and> hd w = CHR ''-'' \<and> last w = CHR ''-'' \<and> CHR ''-'' \<notin> set (butlast (tl w))"

definition number_safe :: "string \<Rightarrow> bool" where
  "number_safe w \<longleftrightarrow> list_all (\<lambda>i. arg_int_number (drop i w) \<noteq> None) [0..<Suc (length w)]"

definition good_word :: "string \<Rightarrow> bool" where
  "good_word w \<longleftrightarrow> NUL \<notin> set w \<and> \<not> dash_behind w \<and> number_safe w"

definition good_value :: "string option \<Rightarrow> bool" where
  "good_value v \<longleftrightarrow> (case v of None \<Rightarrow> True | Some s \<Rightarrow> arg_int_number s \<noteq> None)"

lemma good_value_drop: "good_word w \<Longrightarrow> good_value (Some (drop i w))"
proof (cases "i \<le> length w")
  case False
  assume "good_word w"
  then have "arg_int_number (drop (length w) w) \<noteq> None"
    by (simp only: good_word_def number_safe_def list_all_iff) (auto simp del: drop_all)
  then show ?thesis using False by (simp add: good_value_def)
qed (auto simp: good_word_def number_safe_def good_value_def list_all_iff)

lemma good_value_word: "good_word w \<Longrightarrow> good_value (Some w)"
  using good_value_drop [of w 0] by simp

subsection \<open>The arguments\<close>

text \<open>The arguments of the command line and the null pointer behind them.\<close>

definition holds_words :: "nat \<Rightarrow> string option list \<Rightarrow> bool" where
  "holds_words n nargv \<longleftrightarrow> (\<exists>ws. nargv = map Some ws @ [None] \<and> length ws = n \<and> list_all good_word ws)"

lemma holds_words_rd:
  assumes "holds_words n nargv" "0 \<le> i" "i < int n"
  obtains w where "rd nargv i = Some (Some w)" "good_word w"
  using assms by (auto simp: holds_words_def rd_def nth_append list_all_length nat_less_iff)

lemma holds_words_end: "holds_words n nargv \<Longrightarrow> rd nargv (int n) = Some None"
  by (auto simp: holds_words_def rd_def nth_append)

lemma permute_holds:
  assumes "holds_words n nargv" "0 \<le> s" "s \<le> e" "e < t" "t \<le> int n"
  shows "\<exists>nargv'. permute_args s e t nargv = Some nargv' \<and> holds_words n nargv'"
proof -
  obtain ws where ws: "nargv = map Some ws @ [None]" "length ws = n" "list_all good_word ws"
    using assms(1) by (auto simp: holds_words_def)
  define pre xs ys post where "pre = take (nat s) ws" and "xs = take (nat e - nat s) (drop (nat s) ws)"
    and "ys = take (nat t - nat e) (drop (nat e) ws)" and "post = drop (nat t) ws"
  have "ws = take (nat s) ws @ drop (nat s) ws" by simp
  also have "drop (nat s) ws = xs @ drop (nat e) ws"
    using assms(2,3) append_take_drop_id [of "nat e - nat s" "drop (nat s) ws"] by (simp add: xs_def nat_diff_distrib nat_mono)
  also have "drop (nat e) ws = ys @ post"
    using assms(2-4) append_take_drop_id [of "nat t - nat e" "drop (nat e) ws"] by (simp add: ys_def post_def nat_mono)
  finally have split: "ws = pre @ xs @ ys @ post" by (simp add: pre_def)
  have l: "int (length pre) = s" "int (length xs) = e - s" "int (length ys) = t - e"
    using assms ws(2) by (auto simp: pre_def xs_def ys_def nat_le_iff min_def nat_mono split: if_splits)
  have "permute_args s e t (map Some pre @ map Some xs @ map Some ys @ (map Some post @ [None])) =
    Some (map Some pre @ map Some ys @ map Some xs @ (map Some post @ [None]))"
    using l assms by (intro permute_args_blocks) auto
  moreover have "holds_words n (map Some pre @ map Some ys @ map Some xs @ map Some post @ [None])"
    unfolding holds_words_def using split ws(2,3)
    by (intro exI [of _ "pre @ ys @ xs @ post"]) (auto simp: list_all_iff)
  moreover have "nargv = map Some pre @ map Some xs @ map Some ys @ map Some post @ [None]"
    using split ws(1) by simp
  ultimately show ?thesis by metis
qed

subsection \<open>Between two options\<close>

text \<open>\<open>skipped\<close>: the blocks to exchange lie before the word \<open>k\<close>.\<close>

definition skipped :: "getopt_state \<Rightarrow> int \<Rightarrow> bool" where
  "skipped st k \<longleftrightarrow>
     (if gs_nonopt_start st = -1 then gs_nonopt_end st = -1
      else 1 \<le> gs_nonopt_start st \<and> gs_nonopt_start st < k \<and>
        (gs_nonopt_end st = -1 \<or> gs_nonopt_start st \<le> gs_nonopt_end st \<and> gs_nonopt_end st < k))"

lemma skipped_update [simp]:
  "skipped (st\<lparr>gs_place := p\<rparr>) k = skipped st k" "skipped (st\<lparr>gs_offset := i\<rparr>) k = skipped st k"
  "skipped (st\<lparr>gs_optind := j\<rparr>) k = skipped st k" "skipped (st\<lparr>gs_optreset := b\<rparr>) k = skipped st k"
  "skipped (st\<lparr>gs_optarg := v\<rparr>) k = skipped st k" "skipped (st\<lparr>gs_optopt := c\<rparr>) k = skipped st k"
  "skipped (st\<lparr>gs_flag := f\<rparr>) k = skipped st k"
  by (simp_all add: skipped_def)

lemma skipped_mono: "skipped st k \<Longrightarrow> k \<le> l \<Longrightarrow> skipped st l"
  by (auto simp: skipped_def split: if_splits)

definition scanning :: "nat \<Rightarrow> getopt_state \<Rightarrow> bool" where
  "scanning n st \<longleftrightarrow> holds_words n (gs_nargv st) \<and> 1 \<le> gs_optind st \<and> gs_optind st \<le> int n"

lemma scanning_word: "scanning n st \<Longrightarrow> \<exists>w. rd (gs_nargv st) (gs_optind st - 1) = Some w"
  using holds_words_rd [of n "gs_nargv st" "gs_optind st - 1"] by (auto simp: scanning_def)

definition between :: "nat \<Rightarrow> getopt_state \<Rightarrow> bool" where
  "between n st \<longleftrightarrow> scanning n st \<and> at (gs_place st) (gs_offset st) = NUL \<and> skipped st (gs_optind st)"

text \<open>In a word, with a letter before it.\<close>

definition inside :: "nat \<Rightarrow> getopt_state \<Rightarrow> bool" where
  "inside n st \<longleftrightarrow> scanning n st \<and> gs_optind st < int n \<and> skipped st (gs_optind st + 1) \<and>
     rd (gs_nargv st) (gs_optind st) = Some (Some (gs_place st)) \<and>
     1 \<le> gs_offset st \<and> gs_offset st < length (gs_place st) \<and> at (gs_place st) 0 = CHR ''-'' \<and>
     \<not> (at (gs_place st) 1 = CHR ''-'' \<and> at (gs_place st) 2 = NUL) \<and>
     (\<forall>i. 1 \<le> i \<and> i < gs_offset st \<longrightarrow> at (gs_place st) i \<noteq> CHR ''-'')"

lemma getopt_skip_between:
  assumes "between n st" "gs_optind st < int n" "gs_place st = []"
  shows "\<exists>st'. getopt_skip st = Some st' \<and> between n st' \<and> gs_optind st' = gs_optind st + 1 \<and>
    gs_place st' = [] \<and> gs_optarg st' = gs_optarg st"
proof (cases "gs_nonopt_start st \<noteq> -1 \<and> gs_nonopt_end st \<noteq> -1")
  case True
  obtain nargv where "permute_args (gs_nonopt_start st) (gs_nonopt_end st) (gs_optind st) (gs_nargv st) = Some nargv"
      "holds_words n nargv"
    using permute_holds [of n "gs_nargv st" "gs_nonopt_start st" "gs_nonopt_end st" "gs_optind st"] True assms(1)
    by (auto simp: between_def scanning_def skipped_def)
  then show ?thesis using True assms
    by (auto simp: getopt_skip_def between_def scanning_def skipped_def)
next
  case False
  then show ?thesis using assms
    by (auto simp: getopt_skip_def between_def scanning_def skipped_def)
qed

lemma getopt_finish_scanning:
  assumes "holds_words n (gs_nargv st)" "1 \<le> k" "gs_optind st = k" "k \<le> int n" "skipped st k"
  shows "\<exists>st'. getopt_finish st = Some st' \<and> scanning n st'"
proof (cases "gs_nonopt_end st = -1")
  case True
  then show ?thesis using assms by (simp add: getopt_finish_def scanning_def)
next
  case False
  then obtain nargv where "permute_args (gs_nonopt_start st) (gs_nonopt_end st) (gs_optind st) (gs_nargv st) = Some nargv"
      "holds_words n nargv"
    using permute_holds [of n "gs_nargv st" "gs_nonopt_start st" "gs_nonopt_end st" "gs_optind st"] assms
    by (auto simp: skipped_def split: if_splits)
  then show ?thesis using False assms by (auto simp: getopt_finish_def scanning_def skipped_def split: if_splits)
qed


text \<open>What \<open>getopt_next\<close> can give.\<close>

definition next_ok :: "nat \<Rightarrow> getopt_state \<Rightarrow> (int \<times> getopt_state) + getopt_state \<Rightarrow> bool" where
  "next_ok n st r \<longleftrightarrow> (case r of
     Inl (c, st') \<Rightarrow> c = -1 \<and> scanning n st'
   | Inr st' \<Rightarrow> inside n st' \<and> \<not> gs_optreset st' \<and> gs_offset st' = 1 \<and> gs_optind st \<le> gs_optind st' \<and>
       gs_optarg st' = gs_optarg st)"

lemma getopt_next_at_end:
  assumes "scanning n st" "skipped st (gs_optind st)" "gs_optind st = int n"
    "gs_optreset st \<or> at (gs_place st) (gs_offset st) = NUL"
  shows "\<exists>r. getopt_next (int n) permute False st = Some r \<and> next_ok n st r"
proof (cases "gs_nonopt_end st = -1")
  case True
  then show ?thesis using assms
    by (subst getopt_next.simps) (auto simp: Let_def next_ok_def scanning_def skipped_def)
next
  case False
  let ?st = "st\<lparr>gs_optreset := False, gs_place := [], gs_offset := 0\<rparr>"
  obtain st' where "getopt_finish ?st = Some st'" "scanning n st'"
    using getopt_finish_scanning [of n ?st "gs_optind st"] assms by (auto simp: scanning_def)
  then show ?thesis using False assms by (subst getopt_next.simps) (auto simp: Let_def next_ok_def)
qed

lemma getopt_next_at_option:
  assumes "scanning n st" "skipped st (gs_optind st)" "gs_optind st < int n"
    "gs_optreset st \<or> at (gs_place st) (gs_offset st) = NUL"
    "rd (gs_nargv st) (gs_optind st) = Some (Some w)" "\<not> is_word w"
  shows "\<exists>r. getopt_next (int n) permute False st = Some r \<and> next_ok n st r"
proof -
  define st1 where "st1 = (if gs_nonopt_start st \<noteq> -1 \<and> gs_nonopt_end st = -1
    then st\<lparr>gs_optreset := False, gs_nonopt_end := gs_optind st\<rparr> else st\<lparr>gs_optreset := False\<rparr>)"
  have st1: "scanning n st1" "skipped st1 (gs_optind st + 1)" "gs_optind st1 = gs_optind st"
      "gs_nargv st1 = gs_nargv st" "\<not> gs_optreset st1" "gs_optarg st1 = gs_optarg st"
    using assms(1,2) by (auto simp: st1_def scanning_def skipped_def split: if_splits)
  let ?w = "st1\<lparr>gs_place := w, gs_offset := 1\<rparr>"
  let ?d = "st1\<lparr>gs_optind := gs_optind st1 + 1, gs_place := [], gs_offset := 0\<rparr>"
  have n: "getopt_next (int n) permute False st =
      (if at w 1 = CHR ''-'' \<and> at w 2 = NUL then map_option (\<lambda>st. Inl (-1, st)) (getopt_finish ?d)
       else Some (Inr ?w))"
    using assms(3-6) by (subst getopt_next.simps) (auto simp: Let_def is_word_def st1_def)
  have l: "1 < length w" "at w 0 = CHR ''-''" using assms(6) by (auto simp: is_word_def at_def split: if_splits)
  obtain st' where f: "getopt_finish ?d = Some st'" "scanning n st'"
    using getopt_finish_scanning [of n ?d "gs_optind st + 1"] st1 assms(3) by (auto simp: scanning_def)
  have "inside n ?w" if "\<not> (at w 1 = CHR ''-'' \<and> at w 2 = NUL)"
    using st1 assms(3,5) l that by (auto simp: inside_def scanning_def)
  then have "\<not> (at w 1 = CHR ''-'' \<and> at w 2 = NUL) \<Longrightarrow> next_ok n st (Inr ?w)" using st1 by (auto simp: next_ok_def)
  then show ?thesis using n f by (auto simp: next_ok_def)
qed

lemma getopt_next_total:
  assumes "scanning n st" "skipped st (gs_optind st)" "gs_optreset st \<or> at (gs_place st) (gs_offset st) = NUL"
  shows "\<exists>r. getopt_next (int n) permute False st = Some r \<and> next_ok n st r"
  using assms
proof (induction "nat (int n - gs_optind st)" arbitrary: st)
  case 0
  then show ?case using getopt_next_at_end [of n st permute] by (simp add: scanning_def)
next
  case (Suc k)
  have lt: "gs_optind st < int n" using Suc.hyps(2) by simp
  obtain w where w: "rd (gs_nargv st) (gs_optind st) = Some (Some w)"
    using holds_words_rd [of n "gs_nargv st" "gs_optind st"] Suc.prems(1) lt by (auto simp: scanning_def)
  let ?st = "st\<lparr>gs_optreset := False, gs_place := [], gs_offset := 0\<rparr>"
  consider "\<not> is_word w" | "is_word w" "\<not> permute" | "is_word w" "permute" by blast
  then show ?case
  proof cases
    case 1
    then show ?thesis using getopt_next_at_option [OF Suc.prems(1,2) lt Suc.prems(3) w] by blast
  next
    case 2
    then show ?thesis using Suc.prems lt w
      by (subst getopt_next.simps) (auto simp: Let_def is_word_def next_ok_def scanning_def)
  next
    case 3
    have "between n ?st" using Suc.prems by (simp add: between_def scanning_def)
    then obtain st' where st': "getopt_skip ?st = Some st'" "between n st'" "gs_optind st' = gs_optind st + 1"
        "gs_place st' = []" "gs_optarg st' = gs_optarg st"
      using getopt_skip_between [of n ?st] lt by auto
    then have "\<exists>r. getopt_next (int n) permute False st' = Some r \<and> next_ok n st' r"
      using Suc.hyps(2) by (intro Suc.hyps(1)) (auto simp: between_def)
    moreover have "getopt_next (int n) permute False st = getopt_next (int n) permute False st'"
      using Suc.prems(3) lt w 3 st'(1) by (subst getopt_next.simps) (auto simp: Let_def is_word_def)
    moreover have "next_ok n st' r \<Longrightarrow> next_ok n st r" for r
      using st'(3,5) by (auto simp: next_ok_def split: sum.splits)
    ultimately show ?thesis by auto
  qed
qed


subsection \<open>One option\<close>

definition same_scan :: "getopt_state \<Rightarrow> getopt_state \<Rightarrow> bool" where
  "same_scan st st' \<longleftrightarrow> gs_nargv st' = gs_nargv st \<and> gs_nonopt_start st' = gs_nonopt_start st \<and>
     gs_nonopt_end st' = gs_nonopt_end st \<and> gs_optreset st' = gs_optreset st"

lemma match_long_options_member:
  "match_long_options name short_too long_only ps i m second = (Some (j, q), b, c) \<Longrightarrow>
   q \<in> set ps \<or> m = Some (j, q)"
  by (induction name short_too long_only ps i m second rule: match_long_options.induct)
    (auto split: if_splits option.splits)

lemma parse_long_options_total:
  assumes "holds_words n (gs_nargv st)" "0 \<le> gs_optind st" "gs_optind st < int n"
    and "\<And>i. good_value (Some (drop i (gs_place st)))" "gs_optarg st = None"
    and "\<And>p. p \<in> set longs \<Longrightarrow> opt_flag p"
  shows "\<exists>c st'. parse_long_options options longs False long_only st = Some (c, st') \<and> c \<noteq> -1 \<and>
    same_scan st st' \<and> gs_optind st < gs_optind st' \<and> gs_optind st' \<le> int n \<and> good_value (gs_optarg st') \<and>
    (c = 0 \<longrightarrow> (\<exists>p \<in> set longs. gs_flag st' = opt_val p))"
proof -
  define name where "name = takeWhile (\<lambda>c. c \<noteq> CHR ''='') (drop (gs_offset st) (gs_place st))"
  obtain m exact second where m: "match_long_options name False long_only longs 0 None False = (m, exact, second)"
    by (metis prod_cases3)
  have v: "good_value (Some (drop (Suc (length name)) (drop (gs_offset st) (gs_place st))))"
    using assms(4) by simp
  have next_word: "(gs_optind st + 1 = int n \<and> rd (gs_nargv st) (gs_optind st + 1) = Some None) \<or>
    (gs_optind st + 1 < int n \<and> (\<exists>w. rd (gs_nargv st) (gs_optind st + 1) = Some (Some w) \<and> good_value (Some w)))"
  proof (cases "gs_optind st + 1 < int n")
    case True
    then obtain w where "rd (gs_nargv st) (gs_optind st + 1) = Some (Some w)" "good_word w"
      using holds_words_rd [of n "gs_nargv st" "gs_optind st + 1"] assms(1-3) by auto
    then show ?thesis using True good_value_word by blast
  next
    case False
    then have "gs_optind st + 1 = int n" using assms(3) by simp
    then show ?thesis using holds_words_end [OF assms(1)] by simp
  qed
  show ?thesis
  proof (cases m)
    case None
    then show ?thesis using m assms(3,5)
      by (auto simp: parse_long_options_def Let_def name_def [symmetric] same_scan_def good_value_def)
  next
    case (Some jp)
    then obtain j p where p: "m = Some (j, p)" by (cases jp) simp
    have mem: "p \<in> set longs" using match_long_options_member [of name False long_only longs 0 None False j p] m p by auto
    then have f: "opt_flag p" by (rule assms(6))
    show ?thesis
      using m p f mem v next_word assms(3,5)
      by (auto simp: parse_long_options_def Let_def name_def [symmetric] same_scan_def good_value_def BADARG_def)
  qed
qed

text \<open>What an option leaves: more of its word, or the next one.\<close>

definition rest_ok :: "nat \<Rightarrow> getopt_option list \<Rightarrow> getopt_state \<Rightarrow> int \<times> getopt_state \<Rightarrow> bool" where
  "rest_ok n longs st r \<longleftrightarrow> (case r of (c, st') \<Rightarrow>
     \<not> gs_optreset st' \<and> good_value (gs_optarg st') \<and> (c = 0 \<longrightarrow> (\<exists>p \<in> set longs. gs_flag st' = opt_val p)) \<and>
     (between n st' \<and> gs_optind st < gs_optind st' \<or>
      inside n st' \<and> gs_optind st' = gs_optind st \<and> gs_place st' = gs_place st \<and> gs_offset st < gs_offset st'))"

lemma rest_ok_between:
  assumes "inside n st" "\<not> gs_optreset st" "same_scan st st'" "gs_optind st < gs_optind st'" "gs_optind st' \<le> int n"
    and "at (gs_place st') (gs_offset st') = NUL" "good_value (gs_optarg st')"
    and "c = 0 \<Longrightarrow> \<exists>p \<in> set longs. gs_flag st' = opt_val p"
  shows "rest_ok n longs st (c, st')"
proof -
  have "skipped st (gs_optind st')" using assms(1,4) by (auto simp: inside_def intro: skipped_mono)
  then show ?thesis using assms
    by (auto simp: rest_ok_def between_def scanning_def inside_def same_scan_def skipped_def)
qed

lemma rest_ok_inside:
  assumes "inside n st" "\<not> gs_optreset st" "same_scan st st'" "gs_optind st' = gs_optind st"
    and "gs_place st' = gs_place st" "gs_offset st' = gs_offset st + 1" "at (gs_place st) (gs_offset st') \<noteq> NUL"
    and "at (gs_place st) (gs_offset st) \<noteq> CHR ''-''"
    and "good_value (gs_optarg st')" "c \<noteq> 0"
  shows "rest_ok n longs st (c, st')"
proof -
  have "gs_offset st' < length (gs_place st)" using assms(7) by (simp add: at_def split: if_splits)
  then show ?thesis using assms
    by (auto simp: rest_ok_def scanning_def inside_def same_scan_def skipped_def less_Suc_eq)
qed


lemma inside_word:
  assumes "inside n st"
  shows "good_word (gs_place st)" "good_value (Some (drop i (gs_place st)))" "at (gs_place st) (gs_offset st) \<noteq> NUL"
proof -
  have r: "holds_words n (gs_nargv st)" "0 \<le> gs_optind st" "gs_optind st < int n"
      "rd (gs_nargv st) (gs_optind st) = Some (Some (gs_place st))" "gs_offset st < length (gs_place st)"
    using assms by (auto simp: inside_def scanning_def)
  then show "good_word (gs_place st)" using holds_words_rd [OF r(1-3)] by auto
  then show "good_value (Some (drop i (gs_place st)))" "at (gs_place st) (gs_offset st) \<noteq> NUL"
    using r(5) by (auto simp: good_value_drop good_word_def at_def dest: nth_mem)
qed

lemma option_word_total:
  assumes "inside n st" "\<not> gs_optreset st" and longs: "\<And>p. p \<in> set longs \<Longrightarrow> opt_flag p"
    and "same_scan st sw" "gs_optarg sw = None" "gs_optind st \<le> gs_optind sw" "gs_optind sw < int n"
    and "good_word (gs_place sw)"
  shows "\<exists>c st'. parse_long_options options longs False long_only sw = Some (c, st') \<and> c \<noteq> -1 \<and>
    rest_ok n longs st (c, st'\<lparr>gs_place := [], gs_offset := 0\<rparr>)"
proof -
  have n: "holds_words n (gs_nargv sw)" "0 \<le> gs_optind sw"
    using assms(1,4,6) by (auto simp: inside_def scanning_def same_scan_def)
  obtain c st' where p: "parse_long_options options longs False long_only sw = Some (c, st')" "c \<noteq> -1"
      "same_scan sw st'" "gs_optind sw < gs_optind st'" "gs_optind st' \<le> int n" "good_value (gs_optarg st')"
      "c = 0 \<longrightarrow> (\<exists>p \<in> set longs. gs_flag st' = opt_val p)"
    using parse_long_options_total [OF n assms(7) good_value_drop [OF assms(8)] assms(5), where options = options and longs = longs and long_only = long_only]
      longs by blast
  have "rest_ok n longs st (c, st'\<lparr>gs_place := [], gs_offset := 0\<rparr>)"
    using p(3-7) assms(4,6) by (intro rest_ok_between [OF assms(1,2)]) (auto simp: same_scan_def)
  then show ?thesis using p(1,2) by blast
qed

lemma char_int_nonzero: "c \<noteq> NUL \<Longrightarrow> char_int c \<noteq> 0"
proof -
  assume c: "c \<noteq> NUL"
  have "(of_char c :: int) \<noteq> of_char NUL" using c by (simp only: of_char_eq_iff not_False_eq_True)
  moreover have "(of_char c :: int) < 256" using of_char_mod_256 [of c, where 'a = int] by presburger
  ultimately show ?thesis by (simp add: char_int_def Let_def)
qed

lemma getopt_short_total:
  assumes "inside n st" "\<not> gs_optreset st" "gs_optarg st = None" "at (gs_place st) (gs_offset st) \<noteq> CHR ''-''"
    and longs: "\<And>p. p \<in> set longs \<Longrightarrow> opt_flag p"
  shows "\<exists>r. getopt_short (int n) options longs long_only st = Some r \<and> rest_ok n longs st r"
proof -
  define c where "c = at (gs_place st) (gs_offset st)"
  define more where "more \<longleftrightarrow> at (gs_place st) (Suc (gs_offset st)) \<noteq> NUL"
  define oli where "oli = dropWhile (\<lambda>d. d \<noteq> c) options"
  have c: "c \<noteq> NUL" "char_int c \<noteq> 0" "c \<noteq> CHR ''-''"
    using inside_word(3) [OF assms(1)] assms(4) by (simp_all add: c_def char_int_nonzero)
  have n: "gs_optind st < int n" "0 \<le> gs_optind st" "holds_words n (gs_nargv st)"
    using assms(1) by (auto simp: inside_def scanning_def)
  note ok = rest_ok_between [OF assms(1,2)] rest_ok_inside [OF assms(1,2)]
  have none: "good_value None" by (simp add: good_value_def)
  have word: "\<exists>w. rd (gs_nargv st) (gs_optind st + 1) = Some (Some w) \<and> good_word w" if "gs_optind st + 1 < int n"
    using holds_words_rd [of n "gs_nargv st" "gs_optind st + 1"] that n by auto
  have f: "getopt_short (int n) options longs long_only st =
     (let st = st\<lparr>gs_offset := Suc (gs_offset st)\<rparr>;
          st1 = st\<lparr>gs_optind := (if more then gs_optind st else gs_optind st + 1)\<rparr> in
      if c = CHR '':'' \<or> oli = [] then Some (BADCH, st1\<lparr>gs_optopt := char_int c\<rparr>)
      else if c = CHR ''W'' \<and> at oli 1 = CHR '';'' then
        (if \<not> more \<and> gs_optind st1 \<ge> int n then
           Some (BADARG options, st1\<lparr>gs_place := [], gs_offset := 0, gs_optopt := char_int c\<rparr>)
         else do {
           st \<leftarrow> (if more then Some st1 else do {
             word \<leftarrow> rd (gs_nargv st) (gs_optind st1);
             s \<leftarrow> word;
             Some (st1\<lparr>gs_place := s, gs_offset := 0\<rparr>) });
           (r, st) \<leftarrow> parse_long_options options longs False long_only st;
           Some (r, st\<lparr>gs_place := [], gs_offset := 0\<rparr>) })
      else if at oli 1 \<noteq> CHR '':'' then Some (char_int c, st1)
      else if more then
        Some (char_int c, st\<lparr>gs_optarg := Some (drop (gs_offset st) (gs_place st)), gs_place := [],
            gs_offset := 0, gs_optind := gs_optind st + 1\<rparr>)
      else if at oli 2 \<noteq> CHR '':'' then
        (if gs_optind st1 \<ge> int n then
           Some (BADARG options, st1\<lparr>gs_place := [], gs_offset := 0, gs_optopt := char_int c\<rparr>)
         else do {
           word \<leftarrow> rd (gs_nargv st) (gs_optind st1);
           Some (char_int c, st1\<lparr>gs_optarg := word, gs_place := [], gs_offset := 0,
             gs_optind := gs_optind st1 + 1\<rparr>) })
      else Some (char_int c, st1\<lparr>gs_place := [], gs_offset := 0\<rparr>))"
    using c(3) assms(3)
    by (simp add: getopt_short_def Let_def c_def [symmetric] more_def [symmetric] oli_def [symmetric]
        del: dropWhile_eq_Nil_conv)
  have letter: "rest_ok n longs st (k, st')"
    if "same_scan st st'" "gs_place st' = gs_place st" "gs_offset st' = Suc (gs_offset st)" "gs_optarg st' = None"
      "gs_optind st' = (if more then gs_optind st else gs_optind st + 1)" "k \<noteq> 0" for k st'
  proof (cases more)
    case True
    then show ?thesis using that assms(4) none by (intro ok(2)) (simp_all add: more_def)
  next
    case False
    then show ?thesis using that n(1) none by (intro ok(1)) (simp_all add: more_def)
  qed
  consider "c = CHR '':'' \<or> oli = []" | "\<not> (c = CHR '':'' \<or> oli = [])" "c = CHR ''W'' \<and> at oli 1 = CHR '';''"
    | "\<not> (c = CHR '':'' \<or> oli = [])" "\<not> (c = CHR ''W'' \<and> at oli 1 = CHR '';'')" "at oli 1 \<noteq> CHR '':''"
    | "\<not> (c = CHR '':'' \<or> oli = [])" "\<not> (c = CHR ''W'' \<and> at oli 1 = CHR '';'')" "at oli 1 = CHR '':''"
    by blast
  then show ?thesis
  proof cases
    case 1
    show ?thesis unfolding f Let_def if_P [OF 1]
      using c(2) assms(3) by (auto simp: same_scan_def intro!: letter)
  next
    case 2
    define st2 where "st2 = st\<lparr>gs_offset := Suc (gs_offset st), gs_optind := (if more then gs_optind st else gs_optind st + 1)\<rparr>"
    show ?thesis
    proof (cases "\<not> more \<and> gs_optind st2 \<ge> int n")
      case True
      then show ?thesis unfolding f Let_def if_not_P [OF 2(1)] if_P [OF 2(2)]
        using n c none assms(3,4) by (auto simp: same_scan_def BADARG_def st2_def intro!: ok)
    next
      case False
      obtain st3 where st3: "(if more then Some st2 else do {
             word \<leftarrow> rd (gs_nargv st2) (gs_optind st2);
             s \<leftarrow> word;
             Some (st2\<lparr>gs_place := s, gs_offset := 0\<rparr>) }) = Some st3"
          "same_scan st st3" "gs_optarg st3 = None" "gs_optind st3 = gs_optind st2" "good_word (gs_place st3)"
        using False word inside_word(1) [OF assms(1)] assms(3)
        by (cases more) (auto simp: st2_def same_scan_def)
      have "gs_optind st \<le> gs_optind st3" "gs_optind st3 < int n"
        using False n(1) st3(4) by (auto simp: st2_def split: if_splits)
      then obtain r st4 where st4: "parse_long_options options longs False long_only st3 = Some (r, st4)"
          "rest_ok n longs st (r, st4\<lparr>gs_place := [], gs_offset := 0\<rparr>)"
        using option_word_total [OF assms(1,2) _ st3(2,3) _ _ st3(5), where options = options and longs = longs and long_only = long_only]
          longs by blast
      have "getopt_short (int n) options longs long_only st = Some (r, st4\<lparr>gs_place := [], gs_offset := 0\<rparr>)"
        using f 2 False st3(1) st4(1) by (cases more) (auto simp: Let_def st2_def split: bind_splits)
      then show ?thesis using st4(2) by blast
    qed
  next
    case 3
    show ?thesis unfolding f Let_def if_not_P [OF 3(1)] if_not_P [OF 3(2)] if_P [OF 3(3)]
      using c(2) assms(3) by (auto simp: same_scan_def intro!: letter)
  next
    case 4
    show ?thesis
    proof (cases "more \<or> at oli 2 = CHR '':''")
      case True
      then show ?thesis unfolding f Let_def if_not_P [OF 4(1)] if_not_P [OF 4(2)]
        using n c none assms(3,4) 4(3) inside_word(2) [OF assms(1)]
        by (cases more) (auto simp: same_scan_def intro!: ok)
    next
      case False
      then show ?thesis unfolding f Let_def if_not_P [OF 4(1)] if_not_P [OF 4(2)]
        using n c none assms(3,4) 4(3) word good_value_word
        by (cases "gs_optind st + 1 < int n") (auto simp: same_scan_def BADARG_def intro!: ok)
    qed
  qed
qed


lemma dash_inside:
  assumes "inside n st" "at (gs_place st) (gs_offset st) = CHR ''-''"
  shows "at (gs_place st) (Suc (gs_offset st)) \<noteq> NUL"
proof
  define w where "w = gs_place st"
  define k where "k = gs_offset st"
  assume e: "at (gs_place st) (Suc (gs_offset st)) = NUL"
  have w: "good_word w" using inside_word(1) [OF assms(1)] by (simp add: w_def)
  have k: "1 \<le> k" "k < length w" "at w 0 = CHR ''-''" "at w k = CHR ''-''" "\<not> (at w 1 = CHR ''-'' \<and> at w 2 = NUL)"
    and d: "\<And>i. 1 \<le> i \<Longrightarrow> i < k \<Longrightarrow> at w i \<noteq> CHR ''-''"
    using assms by (auto simp: inside_def w_def k_def)
  have l: "length w = Suc k"
    using e k(2) w by (auto simp: at_def w_def [symmetric] k_def [symmetric] good_word_def split: if_splits dest: nth_mem)
  have w_ne: "w \<noteq> []" using l by auto
  have "k \<noteq> 1" using k(4,5) l by (auto simp: at_def numeral_2_eq_2)
  moreover have "CHR ''-'' \<notin> set (butlast (tl w))"
    using d l by (auto simp: in_set_conv_nth nth_butlast nth_tl at_def)
  moreover have "hd w = CHR ''-''" "last w = CHR ''-''"
    using k(3,4) l w_ne by (auto simp: at_def hd_conv_nth last_conv_nth)
  ultimately have "dash_behind w" using k(1) l by (simp add: dash_behind_def)
  then show False using w by (simp add: good_word_def)
qed

lemma getopt_rest_total:
  assumes "inside n st" "\<not> gs_optreset st" "gs_optarg st = None"
    and longs: "\<And>p. p \<in> set longs \<Longrightarrow> opt_flag p"
  shows "\<exists>r. getopt_rest (int n) options longs False st = Some r \<and> rest_ok n longs st r"
proof (cases "at (gs_place st) (gs_offset st) = CHR ''-''")
  case False
  then show ?thesis
    using getopt_short_total [OF assms(1-3) False longs] by (simp add: getopt_rest_def Let_def)
next
  case True
  let ?st = "st\<lparr>gs_offset := gs_offset st + 1\<rparr>"
  have n: "gs_optind st < int n" "1 \<le> gs_offset st" using assms(1) by (auto simp: inside_def)
  obtain c st' where p: "parse_long_options options longs False False ?st = Some (c, st')" "c \<noteq> -1"
      "rest_ok n longs st (c, st'\<lparr>gs_place := [], gs_offset := 0\<rparr>)"
    using option_word_total [OF assms(1,2), where sw = ?st and options = options and longs = longs and long_only = False] longs n(1) assms(3) inside_word(1) [OF assms(1)]
    by (auto simp: same_scan_def)
  then have "getopt_rest (int n) options longs False st = Some (c, st'\<lparr>gs_place := [], gs_offset := 0\<rparr>)"
    using True dash_inside [OF assms(1) True] n(2) by (simp add: getopt_rest_def Let_def)
  then show ?thesis using p(3) by blast
qed


subsection \<open>One call\<close>

definition at_call :: "nat \<Rightarrow> getopt_state \<Rightarrow> bool" where
  "at_call n st \<longleftrightarrow>
     (if gs_optreset st then scanning n st else between n st \<or> inside n st)"

text \<open>Every call comes nearer to the end of the words.\<close>

definition nearer :: "nat \<Rightarrow> (getopt_state \<times> getopt_state) set" where
  "nearer n = measures [\<lambda>st. nat (int n - gs_optind st),
     \<lambda>st. if gs_optreset st \<or> at (gs_place st) (gs_offset st) = NUL then 1 else 0,
     \<lambda>st. length (gs_place st) - gs_offset st]"

lemma wf_nearer: "wf (nearer n)"
  by (simp add: nearer_def)

lemma rest_ok_nearer:
  assumes "rest_ok n longs st' (c, st'')" "inside n st'" "\<not> gs_optreset st'" "gs_optind st \<le> gs_optind st'"
    and "gs_optreset st \<or> at (gs_place st) (gs_offset st) = NUL \<or> st' = st\<lparr>gs_optarg := None\<rparr>"
  shows "(st'', st) \<in> nearer n \<and> at_call n st''"
proof -
  have i: "inside n x \<Longrightarrow> at (gs_place x) (gs_offset x) \<noteq> NUL" for x by (rule inside_word(3))
  have l: "inside n st'' \<Longrightarrow> gs_offset st'' < length (gs_place st'')" "gs_optind st' < int n"
    using assms(2) by (auto simp: inside_def)
  have c: "\<not> gs_optreset st''" "between n st'' \<and> gs_optind st' < gs_optind st'' \<or>
      inside n st'' \<and> gs_optind st'' = gs_optind st' \<and> gs_place st'' = gs_place st' \<and> gs_offset st' < gs_offset st''"
    using assms(1) by (auto simp: rest_ok_def)
  from c(2) have "(st'', st) \<in> nearer n"
  proof
    assume "between n st'' \<and> gs_optind st' < gs_optind st''"
    then have "nat (int n - gs_optind st'') < nat (int n - gs_optind st)" using assms(4) l(2) by simp
    then show ?thesis by (simp add: nearer_def)
  next
    assume o: "inside n st'' \<and> gs_optind st'' = gs_optind st' \<and> gs_place st'' = gs_place st' \<and> gs_offset st' < gs_offset st''"
    from assms(5) show ?thesis
    proof (elim disjE)
      assume "st' = st\<lparr>gs_optarg := None\<rparr>"
      then show ?thesis using o i [of st''] l(1) c(1) by (auto simp: nearer_def)
    next
      assume "gs_optreset st"
      then show ?thesis using o i [of st''] l(1) c(1) assms(4) by (auto simp: nearer_def)
    next
      assume "at (gs_place st) (gs_offset st) = NUL"
      then show ?thesis using o i [of st''] l(1) c(1) assms(4) by (auto simp: nearer_def)
    qed
  qed
  moreover have "at_call n st''" using c by (auto simp: at_call_def)
  ultimately show ?thesis by simp
qed

lemma getopt_long_total:
  assumes "at_call n st" "at options 0 = CHR '':''" and longs: "\<And>p. p \<in> set longs \<Longrightarrow> opt_flag p"
  shows "\<exists>c st'. getopt_long posixly_correct (int n) options longs st = Some (c, st') \<and> scanning n st' \<and>
    (c \<noteq> -1 \<longrightarrow> (st', st) \<in> nearer n \<and> at_call n st' \<and> good_value (gs_optarg st') \<and>
      (c = 0 \<longrightarrow> (\<exists>p \<in> set longs. gs_flag st' = opt_val p)))"
proof -
  have sc: "scanning n st" using assms(1) by (auto simp: at_call_def between_def inside_def split: if_splits)
  then have "gs_optind st \<noteq> 0" by (auto simp: scanning_def)
  then have g: "getopt_long posixly_correct (int n) options longs st = do {
      r \<leftarrow> getopt_next (int n) (\<not> posixly_correct) False (prepared st);
      case r of Inl x \<Rightarrow> Some x | Inr st \<Rightarrow> getopt_rest (int n) options longs False st }"
    using assms(2) by (simp add: getopt_long_def getopt_internal_def prepared_def Let_def)
  have rest: "\<exists>c st''. getopt_rest (int n) options longs False st' = Some (c, st'') \<and> scanning n st'' \<and>
    (c \<noteq> -1 \<longrightarrow> (st'', st) \<in> nearer n \<and> at_call n st'' \<and> good_value (gs_optarg st'') \<and>
      (c = 0 \<longrightarrow> (\<exists>p \<in> set longs. gs_flag st'' = opt_val p)))"
    if st': "inside n st'" "\<not> gs_optreset st'" "gs_optarg st' = None" "gs_optind st \<le> gs_optind st'"
      "gs_optreset st \<or> at (gs_place st) (gs_offset st) = NUL \<or> st' = st\<lparr>gs_optarg := None\<rparr>" for st'
  proof -
    obtain c st'' where r: "getopt_rest (int n) options longs False st' = Some (c, st'')" "rest_ok n longs st' (c, st'')"
      using getopt_rest_total [OF st'(1-3) longs] by force
    then show ?thesis using rest_ok_nearer [OF r(2) st'(1,2,4,5)]
      by (auto simp: rest_ok_def at_call_def between_def inside_def)
  qed
  show ?thesis
  proof (cases "gs_optreset st \<or> at (gs_place st) (gs_offset st) = NUL")
    case True
    have "skipped (prepared st) (gs_optind (prepared st))"
    proof (cases "gs_optreset st")
      case True
      then show ?thesis by (simp add: prepared_def Let_def skipped_def)
    next
      case False
      then have "between n st" using assms(1) True inside_word(3) by (auto simp: at_call_def)
      then show ?thesis using False by (simp add: prepared_def Let_def between_def)
    qed
    moreover have "scanning n (prepared st)" using sc by (simp add: prepared_def Let_def scanning_def)
    moreover have "gs_optreset (prepared st) \<or> at (gs_place (prepared st)) (gs_offset (prepared st)) = NUL"
      using True by (auto simp: prepared_def Let_def)
    ultimately obtain r where r: "getopt_next (int n) (\<not> posixly_correct) False (prepared st) = Some r"
        "next_ok n (prepared st) r"
      using getopt_next_total by blast
    show ?thesis
    proof (cases r)
      case (Inl x)
      then show ?thesis using g r by (auto simp: next_ok_def)
    next
      case (Inr st')
      have "gs_optarg (prepared st) = None" "gs_optind (prepared st) = gs_optind st"
        by (simp_all add: prepared_def Let_def)
      then show ?thesis using g r Inr True rest [of st'] by (auto simp: next_ok_def)
    qed
  next
    case False
    then have i: "inside n st" using assms(1) by (auto simp: at_call_def between_def)
    then have i': "inside n (st\<lparr>gs_optarg := None\<rparr>)" by (simp add: inside_def scanning_def)
    have "prepared st = st\<lparr>gs_optarg := None\<rparr>" using False by (simp add: prepared_def Let_def)
    then have "getopt_next (int n) (\<not> posixly_correct) False (prepared st) = Some (Inr (st\<lparr>gs_optarg := None\<rparr>))"
      using False by (subst getopt_next.simps) simp
    then show ?thesis using g False i' rest [of "st\<lparr>gs_optarg := None\<rparr>"] by auto
  qed
qed


subsection \<open>The entries\<close>

definition rex_total :: "string \<Rightarrow> bool \<Rightarrow> bool" where
  "rex_total pattern icase \<longleftrightarrow> (\<exists>exp. trex_compile pattern icase = Some (Inr exp) \<and>
     (\<forall>text. trex_match (65538 + length (tx_nodes exp)) exp text \<noteq> None))"

definition entry_good :: "arg \<Rightarrow> bool" where
  "entry_good a \<longleftrightarrow> entry_ok a \<and>
     (case arg_data a of Rex_data pattern icase sval \<Rightarrow> rex_total pattern icase | _ \<Rightarrow> True)"

lemma arg_scanfn_total:
  assumes "entry_good a" "good_value v"
  shows "\<exists>r a'. arg_scanfn a v = Some (r, a') \<and> entry_good a'"
proof -
  have ok: "entry_ok a" using assms(1) by (simp add: entry_good_def)
  have "\<exists>r a'. arg_scanfn a v = Some (r, a') \<and>
    (case arg_data a' of Rex_data pattern icase sval \<Rightarrow> rex_total pattern icase | _ \<Rightarrow> True)"
  proof (cases "arg_data a")
    case Lit_data
    then show ?thesis by (cases "arg_lit_scanfn a") (auto simp: arg_scanfn_def arg_lit_scanfn_def split: if_splits)
  next
    case (Int_data ival)
    then show ?thesis using ok assms(2)
      by (cases v) (auto simp: arg_scanfn_def arg_int_scanfn_def entry_ok_def good_value_def wr_def Let_def
          split: option.splits prod.splits)
  next
    case (Str_data sval)
    then show ?thesis using ok
      by (cases v) (auto simp: arg_scanfn_def arg_str_scanfn_def entry_ok_def wr_def)
  next
    case (Rex_data pattern icase sval)
    then have t: "rex_total pattern icase" using assms(1) by (simp add: entry_good_def)
    then obtain exp where e: "trex_compile pattern icase = Some (Inr exp)"
      "\<And>text. \<exists>b. trex_match (65538 + length (tx_nodes exp)) exp text = Some b"
      by (auto simp: rex_total_def)
    show ?thesis
    proof (cases v)
      case None
      then show ?thesis using Rex_data t by (auto simp: arg_scanfn_def arg_rex_scanfn_def)
    next
      case (Some s)
      obtain b where "trex_match (65538 + length (tx_nodes exp)) exp s = Some b" using e(2) by blast
      then show ?thesis using Rex_data t ok Some e(1)
        by (auto simp: arg_scanfn_def arg_rex_scanfn_def entry_ok_def wr_def)
    qed
  qed
  then show ?thesis using ok arg_scanfn_ok by (metis entry_good_def)
qed

definition table_good :: "arg list \<Rightarrow> arg_end \<Rightarrow> bool" where
  "table_good entries e \<longleftrightarrow> list_all entry_good entries \<and> end_ok e"

lemma arg_scan_total:
  assumes "list_all entry_good entries" "0 \<le> i" "i < int (length entries)" "good_value v"
  shows "\<exists>r entries'. arg_scan i v entries = Some (r, entries') \<and> list_all entry_good entries' \<and>
    length entries' = length entries"
proof -
  have l: "nat i < length entries" using assms(2,3) by simp
  then have "entry_good (entries ! nat i)" using assms(1) by (simp add: list_all_length)
  then obtain r a' where "arg_scanfn (entries ! nat i) v = Some (r, a')" "entry_good a'"
    using arg_scanfn_total assms(4) by blast
  then show ?thesis using assms l by (auto simp: arg_scan_def rd_def wr_def list_all_length nth_list_update)
qed

lemma register_total: "end_ok e \<Longrightarrow> \<exists>e'. arg_register_error e p r v = Some e' \<and> end_ok e'"
  using register_ok [of e p r v] by auto

lemma arg_scan_report_total:
  assumes "table_good entries e" "0 \<le> i" "i < int (length entries)" "good_value v"
  shows "\<exists>entries' e'. arg_scan_report i v entries e = Some (entries', e') \<and> table_good entries' e' \<and>
    length entries' = length entries"
proof -
  obtain r entries' where s: "arg_scan i v entries = Some (r, entries')" "list_all entry_good entries'"
      "length entries' = length entries"
    using arg_scan_total [of entries i v] assms by (auto simp: table_good_def)
  obtain e' where "arg_register_error e (Some i) r v = Some e'" "end_ok e'"
    using register_total [of e "Some i" r v] assms(1) by (auto simp: table_good_def)
  then show ?thesis using s assms(1) by (cases "r = 0") (auto simp: arg_scan_report_def table_good_def)
qed

lemma find_shortoption_range:
  "find_shortoption k entries c = -1 \<or>
   k \<le> find_shortoption k entries c \<and> find_shortoption k entries c < k + int (length entries)"
proof (induction k entries c rule: find_shortoption.induct)
  case (2 k a entries c)
  then show ?case by (auto split: option.splits)
qed simp

lemma arg_tagged_total:
  assumes "table_good entries e" "rd (gs_nargv st) (gs_optind st - 1) = Some w" "good_value (gs_optarg st)"
    and "copt = 0 \<Longrightarrow> 0 \<le> gs_flag st \<and> gs_flag st < int (length entries)"
  shows "\<exists>entries' e'. arg_tagged copt st entries e = Some (entries', e') \<and> table_good entries' e' \<and>
    length entries' = length entries"
proof -
  note w = assms(2)
  have e: "end_ok e" using assms(1) by (simp add: table_good_def)
  have reg: "\<exists>e'. arg_register_error e p r v = Some e' \<and> table_good entries e'" for p r v
    using register_total [OF e] assms(1) by (auto simp: table_good_def)
  have rep: "table_good entries f \<Longrightarrow> 0 \<le> i \<Longrightarrow> i < int (length entries) \<Longrightarrow>
    \<exists>entries' e'. arg_scan_report i (gs_optarg st) entries f = Some (entries', e') \<and> table_good entries' e' \<and>
      length entries' = length entries" for i f
    using arg_scan_report_total assms(3) by blast
  consider "copt = 0" | "copt = BADCH" | "copt = char_int (CHR '':'')"
    | "copt \<noteq> 0" "copt \<noteq> BADCH" "copt \<noteq> char_int (CHR '':'')" by blast
  then show ?thesis
  proof cases
    case 1
    then have i: "0 \<le> gs_flag st" "gs_flag st < int (length entries)" using assms(4) by simp_all
    then obtain a where a: "rd entries (gs_flag st) = Some a" by (simp add: rd_def)
    obtain e1 where e1: "arg_register_error e None ARG_EMISSARG w = Some e1" "table_good entries e1" using reg by blast
    show ?thesis
      using 1 a w e1 rep [OF assms(1) i] rep [OF e1(2) i] by (auto simp: arg_tagged_def)
  next
    case 2
    then show ?thesis using w reg [of None ARG_ELONGOPT w] reg [of None "gs_optopt st" None]
      by (auto simp: arg_tagged_def)
  next
    case 3
    then show ?thesis using w reg [of None ARG_EMISSARG w] by (auto simp: arg_tagged_def char_int_def)
  next
    case 4
    then show ?thesis
      using reg [of None copt None] rep [OF assms(1)] find_shortoption_range [of 0 entries "char_of copt"]
      by (cases "find_shortoption 0 entries (char_of copt) = -1") (auto simp: arg_tagged_def Let_def)
  qed
qed

lemma arg_tagged_loop_total:
  assumes "at_call n st" "table_good entries e" "at options 0 = CHR '':''"
    and "\<And>p. p \<in> set longs \<Longrightarrow> opt_flag p \<and> 0 \<le> opt_val p \<and> opt_val p < int (length entries)"
  shows "\<exists>st' entries' e'. arg_tagged_loop posixly_correct (int n) options longs st entries e = Some (st', entries', e') \<and>
    scanning n st' \<and> table_good entries' e' \<and> length entries' = length entries"
  using assms
proof (induction st arbitrary: entries e rule: wf_induct_rule [OF wf_nearer [of n], case_names less])
  case (less st)
  have flags: "\<And>p. p \<in> set longs \<Longrightarrow> opt_flag p" using less(5) by blast
  obtain c st' where g: "getopt_long posixly_correct (int n) options longs st = Some (c, st')" "scanning n st'"
      "c \<noteq> -1 \<Longrightarrow> (st', st) \<in> nearer n \<and> at_call n st' \<and> good_value (gs_optarg st') \<and>
        (c = 0 \<longrightarrow> (\<exists>p \<in> set longs. gs_flag st' = opt_val p))"
    using getopt_long_total [OF less(2,4) flags, where posixly_correct = posixly_correct] by blast
  show ?case
  proof (cases "c = -1")
    case True
    then show ?thesis using g(1,2) less(3) by (subst arg_tagged_loop.simps) auto
  next
    case False
    note g3 = g(3) [OF False]
    obtain entries1 e1 where t: "arg_tagged c st' entries e = Some (entries1, e1)" "table_good entries1 e1"
        "length entries1 = length entries"
      using arg_tagged_total [OF less(3), of st' _ c] scanning_word [OF g(2)] g3 less(5) by force
    have "\<exists>st'' entries' e'. arg_tagged_loop posixly_correct (int n) options longs st' entries1 e1 = Some (st'', entries', e') \<and>
      scanning n st'' \<and> table_good entries' e' \<and> length entries' = length entries1"
      using g3 t(3) less(5) by (intro less(1) t(2) less(4)) auto
    then show ?thesis using g(1) False t(1,3) by (subst arg_tagged_loop.simps) auto
  qed
qed


subsection \<open>The words behind the options\<close>

lemma arg_untagged_loop_total:
  assumes "holds_words n argv" "0 \<le> i" "i \<le> int (length entries)" "0 \<le> optind" "optind \<le> int n"
    "list_all entry_good entries"
  shows "\<exists>x j t' entries'. arg_untagged_loop (int n) argv i optind t entries = Some (x, j, t', entries') \<and>
    0 \<le> j \<and> j \<le> int n \<and> list_all entry_good entries' \<and> length entries' = length entries"
  using assms
proof (induction "nat (int (length entries) - i + (int n - optind))" arbitrary: i optind t entries rule: less_induct)
  case less
  show ?case
  proof (cases "i < int (length entries) \<and> optind < int n")
    case False
    then show ?thesis using less.prems by (cases t) (subst arg_untagged_loop.simps; auto)
  next
    case True
    then obtain a where a: "rd entries i = Some a" using less.prems(2) by (simp add: rd_def)
    obtain w where w: "rd argv optind = Some (Some w)" "good_word w"
      using holds_words_rd [OF less.prems(1,4)] True by auto
    obtain r entries1 where r: "arg_scan i (Some w) entries = Some (r, entries1)" "list_all entry_good entries1"
        "length entries1 = length entries"
      using arg_scan_total [OF less.prems(6,2) _ good_value_word [OF w(2)]] True by blast
    note IH = less.hyps [OF _ less.prems(1)]
    consider "hdr_longopts a \<noteq> None \<or> hdr_shortopts a \<noteq> None"
      | "\<not> (hdr_longopts a \<noteq> None \<or> hdr_shortopts a \<noteq> None)" "r = 0"
      | "\<not> (hdr_longopts a \<noteq> None \<or> hdr_shortopts a \<noteq> None)" "r \<noteq> 0" by blast
    then show ?thesis
    proof cases
      case 1
      then show ?thesis using True less.prems a IH [of entries "i + 1" optind t]
        by (subst arg_untagged_loop.simps) auto
    next
      case 2
      then show ?thesis using True less.prems a w r IH [of entries1 i "optind + 1" "(0, snd t)"]
        by (subst arg_untagged_loop.simps) auto
    next
      case 3
      then show ?thesis using True less.prems a w r IH [of entries1 "i + 1" optind "(r, Some w, i)"]
        by (subst arg_untagged_loop.simps) auto
    qed
  qed
qed


lemma arg_unused_total:
  assumes "holds_words n argv" "0 \<le> optind" "end_ok e"
  shows "\<exists>e'. arg_unused (int n) argv optind e = Some e' \<and> end_ok e'"
  unfolding arg_unused_def
proof (rule for_loop_inv [where P = "\<lambda>_ e. end_ok e"])
  fix k f
  assume k: "k < nat (int n - optind)" "end_ok f"
  obtain w where "rd argv (optind + int k) = Some (Some w)"
    by (rule holds_words_rd [OF assms(1), of "optind + int k"]) (use assms(2) k(1) in auto)
  then show "\<exists>f'. (do { word \<leftarrow> rd argv (optind + int k); arg_register_error f None ARG_ENOMATCH word }) = Some f' \<and> end_ok f'"
    using register_total [OF k(2)] by auto
qed (rule assms(3))

lemma arg_parse_untagged_total:
  assumes "holds_words n argv" "0 \<le> optind" "optind \<le> int n" "table_good entries e"
  shows "\<exists>j entries' e'. arg_parse_untagged (int n) argv optind entries e = Some (j, entries', e') \<and>
    table_good entries' e'"
proof -
  obtain x j el ol pl entries1 where l: "arg_untagged_loop (int n) argv 0 optind (0, None, 0) entries = Some (x, j, (el, ol, pl), entries1)"
      "0 \<le> j" "list_all entry_good entries1"
    using arg_untagged_loop_total [OF assms(1), of 0 entries optind "(0, None, 0)"] assms by (auto simp: table_good_def)
  have e: "end_ok e" using assms(4) by (simp add: table_good_def)
  obtain e1 where e1: "arg_register_error e (Some pl) el ol = Some e1" "end_ok e1" using register_total [OF e] by blast
  obtain e2 where e2: "arg_unused (int n) argv (j + 1) e1 = Some e2" "end_ok e2"
    using arg_unused_total [OF assms(1) _ e1(2), of "j + 1"] l(2) by auto
  obtain e3 where e3: "arg_unused (int n) argv j e = Some e3" "end_ok e3"
    using arg_unused_total [OF assms(1) l(2) e] by auto
  show ?thesis
    using l e e1 e2 e3 by (cases x; cases "el = 0") (simp_all add: arg_parse_untagged_def table_good_def)
qed

subsection \<open>The whole\<close>

lemma arg_parse_check_total: "end_ok e \<Longrightarrow> \<exists>e'. arg_parse_check i entries e = Some e' \<and> end_ok e'"
proof (induction i entries e rule: arg_parse_check.induct)
  case (2 i a entries e)
  obtain e1 where e1: "(let errorcode = arg_checkfn a in
      if errorcode \<noteq> 0 then arg_register_error e (Some i) errorcode None else Some e) = Some e1" "end_ok e1"
    using register_total [OF 2(2), of "Some i" "arg_checkfn a" None] 2(2)
    by (cases "arg_checkfn a = 0") (auto simp: Let_def)
  then show ?case using 2(1) [of e1] by simp
qed simp

lemma arg_resetfn_total:
  assumes "entry_good a"
  shows "\<exists>a'. arg_resetfn a = Some a' \<and> entry_good a'"
proof (cases "arg_data a")
  case (Str_data sval)
  have l: "nat (arg_count a) \<le> length sval" using assms Str_data by (auto simp: entry_good_def entry_ok_def)
  have "\<exists>ys. for_loop (nat (arg_count a)) 0 (\<lambda>i sval. wr sval i []) sval = Some ys \<and> length ys = length sval"
    using l by (intro for_loop_inv [where P = "\<lambda>_ ys. length ys = length sval"]) (auto simp: wr_def)
  then show ?thesis using assms Str_data by (auto simp: arg_resetfn_def entry_good_def entry_ok_def)
qed (use assms in \<open>auto simp: arg_resetfn_def entry_good_def entry_ok_def\<close>)

lemma arg_reset_total:
  assumes "list_all entry_good entries" "0 < hdr_maxcount e" "end_ok (e\<lparr>end_count := 0\<rparr>)"
  shows "\<exists>entries' e'. arg_reset entries e = Some (entries', e') \<and> table_good entries' e' \<and>
    same_headers entries' entries"
proof -
  have "\<exists>entries'. arg_reset_entries entries = Some entries' \<and> list_all entry_good entries'"
    using assms(1)
  proof (induction entries)
    case (Cons a entries)
    then show ?case using arg_resetfn_total [of a] by auto
  qed simp
  then show ?thesis using assms(3) arg_reset_headers by (auto simp: arg_reset_def table_good_def)
qed

lemma table_options_values: "p \<in> set (table_options k entries) \<Longrightarrow> opt_flag p \<and> k \<le> opt_val p \<and> opt_val p < k + int (length entries)"
  by (induction k entries rule: table_options.induct) auto

lemma holds_words_argv: "list_all good_word argv \<Longrightarrow> holds_words (length argv) (map Some argv @ [None])"
  by (auto simp: holds_words_def)

lemma arg_parse_total:
  assumes "list_all entry_good entries" "options_countable entries" "end_ok (e\<lparr>end_count := 0\<rparr>)"
    and "list_all good_word argv"
  shows "arg_parse posixly_correct st argv entries e \<noteq> None"
proof -
  define n where "n = length argv"
  obtain entries1 e1 where r: "arg_reset entries e = Some (entries1, e1)" "table_good entries1 e1"
      "same_headers entries1 entries"
    using arg_reset_total [OF assms(1) _ assms(3)] assms(3) by (auto simp: end_ok_def)
  show ?thesis
  proof (cases "argv = []")
    case True
    then show ?thesis using r arg_parse_check_total [of e1 0 entries1] by (auto simp: arg_parse_def table_good_def)
  next
    case False
    let ?st = "st\<lparr>gs_nargv := map Some argv @ [None], gs_flag := 0, gs_optind := 1, gs_optreset := True\<rparr>"
    have "at_call n ?st"
      using holds_words_argv [OF assms(4)] False by (cases argv) (auto simp: at_call_def scanning_def n_def)
    moreover have "at (alloc_shortoptions entries1) 0 = CHR '':''" by (simp add: alloc_shortoptions_def at_def)
    ultimately obtain st' entries2 e2 where t: "arg_tagged_loop posixly_correct (int n) (alloc_shortoptions entries1)
        (table_options 0 entries1) ?st entries1 e1 = Some (st', entries2, e2)" "scanning n st'" "table_good entries2 e2"
      using arg_tagged_loop_total [OF _ r(2), of n ?st "alloc_shortoptions entries1" "table_options 0 entries1" posixly_correct]
        table_options_values [of _ 0 entries1] by auto
    obtain j entries3 e3 where u: "arg_parse_untagged (int n) (gs_nargv st') (gs_optind st') entries2 e2 = Some (j, entries3, e3)"
        "table_good entries3 e3"
      using arg_parse_untagged_total [of n "gs_nargv st'" "gs_optind st'" entries2 e2] t by (auto simp: scanning_def)
    obtain e4 where c: "arg_parse_check 0 entries3 e3 = Some e4"
      using arg_parse_check_total [of e3 0 entries3] u(2) by (auto simp: table_good_def)
    have o: "alloc_longoptions entries1 = Some (table_options 0 entries1)"
      using assms(2) same_headers_lists [OF r(3)] by (simp add: options_countable_def alloc_longoptions_def)
    have "arg_parse_tagged posixly_correct (int n) (st\<lparr>gs_nargv := map Some argv @ [None]\<rparr>) entries1 e1 = Some (st', entries2, e2)"
      using t(1) o by (simp add: arg_parse_tagged_def arg_tagged_loop_start)
    then show ?thesis using r(1) u(1) c False by (auto simp: arg_parse_def n_def)
  qed
qed

end
