(* ===== verification/Argtable_Hang.thy ===== *)
theory Argtable_Hang
  imports Argtable_Total
begin

text \<open>
  The words that \<open>Argtable_Total\<close> excludes: a letter between two dashes makes \<open>getopt_long\<close> report a
  missing argument and then the same letter again, so that the loop of \<open>arg_parse_tagged\<close> never ends.
\<close>

subsection \<open>Two calls and back\<close>

definition caught :: "getopt_state \<Rightarrow> string option list \<Rightarrow> string option list \<Rightarrow> char
    \<Rightarrow> string option list \<Rightarrow> bool" where
  "caught st A P c R \<longleftrightarrow> (\<exists>st0. at_option st0 A P [] [CHR ''-'', c, CHR ''-''] R \<and>
     (st = st0\<lparr>gs_offset := 2\<rparr> \<or> st = st0\<lparr>gs_offset := 3\<rparr>))"

lemma at_3:
  "at [a, b, c] 0 = a" "at [a, b, c] 1 = b" "at [a, b, c] (Suc 0) = b" "at [a, b, c] 2 = c"
  "at [a, b, c] (Suc (Suc 0)) = c" "at [a, b, c] 3 = NUL" "at [a, b, c] (Suc (Suc (Suc 0))) = NUL"
  by (simp_all add: at_def)

lemma getopt_rest_caught:
  assumes "at_option st A P [] [CHR ''-'', c, CHR ''-''] R" "option_letter c"
    "dropWhile (\<lambda>d. d \<noteq> c) options = c # o2" "at o2 0 \<noteq> CHR '':''"
  shows "getopt_rest n options longs False st = Some (char_int c, st\<lparr>gs_offset := 2\<rparr>)"
proof -
  have o1: "at (c # o2) 1 = at o2 0" by (simp add: at_def)
  show ?thesis
    using assms option_letterD [OF assms(2)] o1
    by (simp add: at_option_def getopt_rest_def getopt_short_def Let_def at_3 numeral_2_eq_2 del: dropWhile_eq_Nil_conv)
qed

lemma getopt_long_caught:
  assumes "caught st A P c R" "option_letter c" "at options 0 = CHR '':''"
    "dropWhile (\<lambda>d. d \<noteq> c) options = c # o2" "at o2 0 \<noteq> CHR '':''" "int (length (A @ P)) < n"
  shows "\<exists>copt st'. getopt_long False n options longs st = Some (copt, st') \<and> (copt = 58 \<or> copt = char_int c) \<and>
    caught st' A P c R"
proof -
  obtain st0 where st0: "at_option st0 A P [] [CHR ''-'', c, CHR ''-''] R"
      "st = st0\<lparr>gs_offset := 2\<rparr> \<or> st = st0\<lparr>gs_offset := 3\<rparr>"
    using assms(1) by (auto simp: caught_def)
  have f: "gs_place st0 = [CHR ''-'', c, CHR ''-'']" "gs_offset st0 = 1" "\<not> gs_optreset st0" "gs_optarg st0 = None"
      "gs_optind st0 = int (length (A @ P))" "gs_nargv st0 = A @ P @ Some [CHR ''-'', c, CHR ''-''] # R"
      "gs_nonopt_start st0 \<noteq> -1 \<Longrightarrow> gs_nonopt_end st0 \<noteq> -1" "A \<noteq> []"
    using st0(1) by (auto simp: at_option_def)
  have ind: "gs_optind st0 \<noteq> 0" using f(5,8) by (cases A) auto
  have u: "st0\<lparr>gs_offset := k, gs_optarg := None\<rparr> = st0\<lparr>gs_offset := k\<rparr>" for k using f(4) by (cases st0) simp
  have start: "getopt_long False n options longs x =
      (do { r \<leftarrow> getopt_next n True False x;
            case r of Inl x \<Rightarrow> Some x | Inr st \<Rightarrow> getopt_rest n options longs False st })"
    if "x = st0\<lparr>gs_offset := k\<rparr>" for x k
    using that ind f(3) u assms(3) by (simp add: getopt_long_def getopt_internal_def Let_def cong: sum.case_cong)
  have w: "rd (gs_nargv st0) (gs_optind st0) = Some (Some [CHR ''-'', c, CHR ''-''])"
    using rd_at_block [of A P "[]" "Some [CHR ''-'', c, CHR ''-'']" R] f(5,6) by simp
  have c: "c \<noteq> NUL" "c \<noteq> CHR ''-''" using option_letterD [OF assms(2)] by simp_all
  show ?thesis
  proof (cases "st = st0\<lparr>gs_offset := 2\<rparr>")
    case True
    have "getopt_next n True False st = Some (Inr st)"
      using True f(1-3) by (subst getopt_next.simps) (simp add: at_3)
    moreover have "getopt_rest n options longs False st = Some (58, st0\<lparr>gs_offset := 3\<rparr>)"
      using True f(1) assms(3) by (simp add: getopt_rest_def Let_def at_3 BADARG_def)
    ultimately show ?thesis using start [OF True] st0(1) by (auto simp: caught_def)
  next
    case False
    then have e: "st = st0\<lparr>gs_offset := 3\<rparr>" using st0(2) by simp
    have "st0\<lparr>gs_optreset := False, gs_place := [CHR ''-'', c, CHR ''-''], gs_offset := Suc 0\<rparr> = st0"
      using f(1-3) by (cases st0) simp
    then have "getopt_next n True False st = Some (Inr st0)"
      using e f c w assms(6) by (subst getopt_next.simps) (auto simp: at_3 Let_def)
    moreover have "getopt_rest n options longs False st0 = Some (char_int c, st0\<lparr>gs_offset := 2\<rparr>)"
      by (rule getopt_rest_caught [OF st0(1) assms(2,4,5)])
    ultimately show ?thesis using start [OF e] st0(1) by (auto simp: caught_def)
  qed
qed


subsection \<open>Any number of turns\<close>

text \<open>The loop of \<open>arg_parse_tagged\<close>, stopped after a number of turns; \<open>None\<close> also when it ends before.\<close>

primrec tagged_turns ::
    "nat \<Rightarrow> bool \<Rightarrow> int \<Rightarrow> string \<Rightarrow> getopt_option list \<Rightarrow> getopt_state \<Rightarrow> arg list \<Rightarrow> arg_end
     \<Rightarrow> (getopt_state \<times> arg list \<times> arg_end) option" where
  "tagged_turns 0 posixly_correct argc shortoptions longoptions st table e = Some (st, table, e)"
| "tagged_turns (Suc k) posixly_correct argc shortoptions longoptions st table e = do {
     (copt, st) \<leftarrow> getopt_long posixly_correct argc shortoptions longoptions st;
     if copt = -1 then None
     else do {
       (table, e) \<leftarrow> arg_tagged copt st table e;
       tagged_turns k posixly_correct argc shortoptions longoptions st table e } }"

lemma caught_word: "caught st A P c R \<Longrightarrow> \<exists>w. rd (gs_nargv st) (gs_optind st - 1) = Some w"
proof -
  assume "caught st A P c R"
  then obtain w where "gs_nargv st = (A @ P) @ Some w # R" "gs_optind st = int (length (A @ P))" "A \<noteq> []"
    by (auto simp: caught_def at_option_def)
  then show ?thesis by (cases A) (auto simp: rd_def)
qed

lemma caught_tagged:
  assumes "caught st A P c R" "table_good entries e" "copt \<noteq> 0"
  shows "\<exists>entries' e'. arg_tagged copt st entries e = Some (entries', e') \<and> table_good entries' e'"
proof -
  have "good_value (gs_optarg st)" using assms(1) by (auto simp: caught_def at_option_def good_value_def)
  then show ?thesis using caught_word [OF assms(1)] arg_tagged_total [OF assms(2), of st _ copt] assms(3) by auto
qed

lemma letter_codes: "option_letter c \<Longrightarrow> char_int c \<noteq> 0 \<and> char_int c \<noteq> -1"
  by (simp add: option_letter_int)

lemma caught_turns:
  assumes "caught st A P c R" "table_good entries e" "option_letter c" "at options 0 = CHR '':''"
    "dropWhile (\<lambda>d. d \<noteq> c) options = c # o2" "at o2 0 \<noteq> CHR '':''" "int (length (A @ P)) < n"
  shows "tagged_turns k False n options longs st entries e \<noteq> None"
  using assms(1,2)
proof (induction k arbitrary: st entries e)
  case (Suc k)
  obtain copt st' where g: "getopt_long False n options longs st = Some (copt, st')" "copt = 58 \<or> copt = char_int c"
      "caught st' A P c R"
    using getopt_long_caught [OF Suc.prems(1) assms(3-7)] by blast
  then have c: "copt \<noteq> 0" "copt \<noteq> -1" using letter_codes [OF assms(3)] by auto
  obtain entries' e' where "arg_tagged copt st' entries e = Some (entries', e')" "table_good entries' e'"
    using caught_tagged [OF g(3) Suc.prems(2) c(1)] by blast
  then show ?case using g(1,3) c(2) Suc.IH by simp
qed simp

lemma caught_loop:
  assumes "arg_tagged_loop posixly_correct n options longs st entries e = Some (st', entries', e')"
    and "\<not> posixly_correct" "caught st A P c R" "option_letter c" "at options 0 = CHR '':''"
    "dropWhile (\<lambda>d. d \<noteq> c) options = c # o2" "at o2 0 \<noteq> CHR '':''" "int (length (A @ P)) < n"
  shows False
  using assms
proof (induction posixly_correct n options longs st entries e "(st', entries', e')"
    rule: arg_tagged_loop.raw_induct [rotated, consumes 1, case_names step])
  case (step f p n options longs st entries e)
  obtain copt st1 where g: "getopt_long p n options longs st = Some (copt, st1)" "copt = 58 \<or> copt = char_int c"
      "caught st1 A P c R"
    using getopt_long_caught [OF step(4-9), of longs] step(3) by auto
  then have "copt \<noteq> -1" using letter_codes [OF step(5)] by auto
  then obtain entries1 e1 where "f p n options longs st1 entries1 e1 = Some (st', entries', e')"
    using step(2) g(1) by (auto split: bind_splits)
  then show ?case by (rule step(1)) (rule step(3) g(3) step(5-9))+
qed

subsection \<open>The whole\<close>

lemma getopt_next_words:
  assumes "ready st A P [] (map Some ws @ R)" "list_all is_word ws" "int (length (A @ P @ map Some ws)) < n"
  shows "\<exists>st'. getopt_next n True False (prepared st) = getopt_next n True False (prepared st') \<and>
    ready st' A (P @ map Some ws) [] R"
  using assms
proof (induction ws arbitrary: st P)
  case Nil
  then show ?case by auto
next
  case (Cons w ws)
  obtain st1 where st1: "getopt_next n True False (prepared st) = getopt_next n True False st1" "prepared st1 = st1"
      "ready st1 (A @ []) (P @ [Some w]) [] (map Some ws @ R)"
    using getopt_next_word [of st A P "[]" w "map Some ws @ R" n] Cons.prems by auto
  then show ?case using Cons.IH [of st1 "P @ [Some w]"] Cons.prems(2,3) by auto
qed

lemma arg_parse_hangs:
  fixes prog :: string and c :: char and ws rest :: "string list"
  defines "argv \<equiv> prog # ws @ [CHR ''-'', c, CHR ''-''] # rest"
  assumes entries: "list_all entry_good entries" "options_countable entries" "list_all plain_entry entries"
      "end_ok (e\<lparr>end_count := 0\<rparr>)"
    and c: "i < length entries" "c \<in> set (short_names (entries ! i))" "\<And>j. j < i \<Longrightarrow> c \<notin> set (short_names (entries ! j))"
      "hdr_flag (entries ! i) = 0"
    and ws: "list_all is_word ws"
  shows "arg_parse False st argv entries e = None"
    and "\<exists>entries1 e1. arg_reset entries e = Some (entries1, e1) \<and>
      tagged_turns k False (int (length argv)) (alloc_shortoptions entries1) (table_options 0 entries1)
        (st\<lparr>gs_nargv := map Some argv @ [None], gs_flag := 0, gs_optind := 1, gs_optreset := True\<rparr>) entries1 e1 \<noteq> None"
proof -
  obtain entries1 e1 where r: "arg_reset entries e = Some (entries1, e1)" "table_good entries1 e1"
      "same_headers entries1 entries"
    using arg_reset_total [OF entries(1) _ entries(4)] entries(4) by (auto simp: end_ok_def)
  define options where "options = alloc_shortoptions entries1"
  define longs where "longs = table_options 0 entries1"
  define st0 where "st0 = st\<lparr>gs_nargv := map Some argv @ [None], gs_flag := 0, gs_optind := 1, gs_optreset := True\<rparr>"
  define n where "n = int (length argv)"
  note h = same_headers_lists [OF r(3)]
  have l: "option_letter c"
    using entries(3) c(1,2) by (auto simp: plain_entry_def list_all_iff)
  then have "c \<noteq> CHR '':''" by (auto dest: option_letterD)
  then obtain o2 where o: "at options 0 = CHR '':''" "dropWhile (\<lambda>d. d \<noteq> c) options = c # o2" "at o2 0 \<noteq> CHR '':''"
    using letters_found [OF entries(3) c(1-3)] c(4) alloc_shortoptions_plain [OF entries(3)] h
    by (auto simp: options_def at_def)
  have "ready st0 [Some prog] [] [] (map Some ws @ Some [CHR ''-'', c, CHR ''-''] # map Some rest @ [None])"
    by (simp add: ready_def st0_def argv_def)
  moreover have n: "int (length ([Some prog] @ map Some ws)) < n" by (simp add: n_def argv_def)
  ultimately obtain st1 where st1: "getopt_next n True False (prepared st0) = getopt_next n True False (prepared st1)"
      "ready st1 [Some prog] (map Some ws) [] (Some [CHR ''-'', c, CHR ''-''] # map Some rest @ [None])"
    using getopt_next_words [OF _ ws, of st0 "[Some prog]" "[]" _ n] by auto
  obtain st2 where st2: "getopt_next n True False (prepared st1) = Some (Inr st2)"
      "at_option st2 [Some prog] (map Some ws) [] [CHR ''-'', c, CHR ''-''] (map Some rest @ [None])"
    using getopt_next_option [OF st1(2)] option_letterD [OF l] n by (auto simp: is_word_def at_3)
  define st3 where "st3 = st2\<lparr>gs_offset := 2\<rparr>"
  have caught: "caught st3 [Some prog] (map Some ws) c (map Some rest @ [None])"
    using st2(2) by (auto simp: caught_def st3_def)
  have first: "getopt_long False n options longs st0 = Some (char_int c, st3)"
    using getopt_long_ready [OF \<open>ready st0 _ _ _ _\<close> o(1), of n longs] st1(1) st2(1)
      getopt_rest_caught [OF st2(2) l o(2,3), of n longs] by (simp add: st3_def)
  obtain entries2 e2 where t: "arg_tagged (char_int c) st3 entries1 e1 = Some (entries2, e2)" "table_good entries2 e2"
    using caught_tagged [OF caught r(2)] letter_codes [OF l] by blast
  have "tagged_turns k False n options longs st0 entries1 e1 \<noteq> None"
    using first t letter_codes [OF l] caught_turns [OF caught t(2) l o n, of _ longs] by (cases k) simp_all
  then show "\<exists>entries1 e1. arg_reset entries e = Some (entries1, e1) \<and>
      tagged_turns k False (int (length argv)) (alloc_shortoptions entries1) (table_options 0 entries1)
        (st\<lparr>gs_nargv := map Some argv @ [None], gs_flag := 0, gs_optind := 1, gs_optreset := True\<rparr>) entries1 e1 \<noteq> None"
    using r(1) by (auto simp: options_def longs_def st0_def n_def)
  have "arg_tagged_loop False n options longs st3 entries2 e2 = None"
    using caught_loop [OF _ _ caught l o n, of False longs entries2 e2] by (cases "arg_tagged_loop False n options longs st3 entries2 e2") auto
  then have "arg_tagged_loop False n options longs st0 entries1 e1 = None"
    using first t(1) letter_codes [OF l] by (subst arg_tagged_loop.simps) simp
  then have "arg_parse_tagged False n (st\<lparr>gs_nargv := map Some argv @ [None]\<rparr>) entries1 e1 = None"
    by (auto simp: arg_parse_tagged_def arg_tagged_loop_start options_def longs_def st0_def alloc_longoptions_def Let_def
        split: bind_splits)
  then show "arg_parse False st argv entries e = None"
    using r(1) by (auto simp: arg_parse_def n_def argv_def)
qed

end
