(* ===== verification/Command_Line_Total.thy ===== *)
theory Command_Line_Total
  imports Argtable_Hang Command_Line_Run
begin

text \<open>
  Which command lines the two programs get through: all but those with a word that \<open>Argtable_Total\<close>
  excludes, and never one with a letter between two dashes.
\<close>

subsection \<open>The tables\<close>

lemma programs_rex_total:
  "rex_total ADDRESS_PATTERN False" "rex_total ''^(7|8)$'' False" "rex_total ''^(1|2)$'' False"
  "rex_total ''^(N|E|O)$'' True" "rex_total ''rtu'' True" "rex_total ''tcp'' True"
proof -
  have "rex_total p i" if t: "\<And>fuel text. 14 \<le> fuel \<Longrightarrow> \<exists>e. trex_compile p i = Some (Inr e) \<and> trex_match fuel e text = Some (f text)"
    for p i f
  proof -
    obtain e where e: "trex_compile p i = Some (Inr e)" using t [of 14 "[]"] by auto
    have "trex_match fuel e s = Some (f s)" if "14 \<le> fuel" for fuel s
      using t [OF that, of s] e by auto
    then show ?thesis using e by (auto simp: rex_total_def)
  qed
  from this [of ADDRESS_PATTERN False address_text] this [of "''^(7|8)$''" False "\<lambda>s. s = ''7'' \<or> s = ''8''"]
    this [of "''^(1|2)$''" False "\<lambda>s. s = ''1'' \<or> s = ''2''"] this [of "''^(N|E|O)$''" True parity_text]
    this [of "''rtu''" True "\<lambda>s. equals_ignore_case s ''rtu''"] this [of "''tcp''" True "\<lambda>s. equals_ignore_case s ''tcp''"]
  show "rex_total ADDRESS_PATTERN False" "rex_total ''^(7|8)$'' False" "rex_total ''^(1|2)$'' False"
    "rex_total ''^(N|E|O)$'' True" "rex_total ''rtu'' True" "rex_total ''tcp'' True"
    using patterns_match_run by auto
qed

lemma constructors_good:
  "0 \<le> b \<Longrightarrow> entry_good (arg_litn s l a b)" "0 \<le> b \<Longrightarrow> entry_good (arg_strn s l a b)"
  "0 \<le> b \<Longrightarrow> rex_total p i \<Longrightarrow> entry_good (arg_rexn s l p a b i)"
  "0 \<le> b \<Longrightarrow> (\<And>k. int_ok (m k)) \<Longrightarrow> entry_good (arg_intn m s l a b)"
  by (auto simp: entry_good_def entry_ok_def list_all_iff)

lemma set_values_good:
  "entry_good a \<Longrightarrow> int_ok v \<Longrightarrow> entry_good (set_ival v a)" "entry_good a \<Longrightarrow> entry_good (set_sval w a)"
  by (auto simp: entry_good_def entry_ok_def set_ival_def set_sval_def list_all_iff split: arg_data.splits
      dest!: subsetD [OF set_update_subset_insert])

lemma tables_good:
  assumes "\<And>i j. int_ok (mem i j)"
  shows "list_all entry_good (client_table mem is_rtu)" "list_all entry_good (server_table mem is_rtu)"
  using assms
  by (simp_all add: rtu_table_def tcp_table_def client_common_def server_tables constructors_good set_values_good
      programs_rex_total int_ok_def)

lemma new_end_ok: "end_ok ((new_arg_end c m 20)\<lparr>end_count := 0\<rparr>)"
  by (simp add: end_ok_def new_arg_end_def)

subsection \<open>The command lines\<close>

lemma parses_total:
  assumes "list_all good_word argv" "\<And>i j. int_ok (mem i j)"
  shows "client_parse posixly_correct mem (new_arg_end c m 20) argv is_rtu \<noteq> None"
    and "server_parse posixly_correct mem (new_arg_end c m 20) argv is_rtu \<noteq> None"
proof -
  have "arg_parse posixly_correct getopt_start argv (client_table mem is_rtu) (new_arg_end c m 20) \<noteq> None"
    by (rule arg_parse_total [OF tables_good(1) client_table_countable new_end_ok assms(1)]) (rule assms(2))
  then show "client_parse posixly_correct mem (new_arg_end c m 20) argv is_rtu \<noteq> None"
    by (auto simp: client_parse_def)
  have "arg_parse posixly_correct getopt_start argv (server_table mem is_rtu) (new_arg_end c m 20) \<noteq> None"
    by (rule arg_parse_total [OF tables_good(2) server_table_countable new_end_ok assms(1)]) (rule assms(2))
  then show "server_parse posixly_correct mem (new_arg_end c m 20) argv is_rtu \<noteq> None"
    by (auto simp: server_parse_def Let_def)
qed

lemma start_program_total:
  "(\<And>b. parse b \<noteq> None) \<Longrightarrow> start_program ok parse argv \<noteq> None"
  by (auto simp: start_program_def Let_def split: bind_splits) (metis option.distinct(1) option.exhaust)+


text \<open>C20: Parsing a command line always ends: whatever the words, in any number, known to the program or
  not, \<open>modbusc\<close> and \<open>modbuss\<close> get to the exit code or to the options, inside all arrays, unless a word
  has letters between two dashes or writes a number whose negation overflows.\<close>

theorem command_lines_parsed:
  assumes "list_all good_word argv" "\<forall>i j. int_ok (mem i j)"
  shows "start_program tables_ok (client_parse posixly_correct mem (new_arg_end c m 20) argv) argv \<noteq> None \<and>
    start_program tables_ok (server_parse posixly_correct mem (new_arg_end c m 20) argv) argv \<noteq> None"
proof -
  have mem: "int_ok (mem i j)" for i j using assms(2) by blast
  show ?thesis
    by (intro conjI start_program_total parses_total assms(1) mem)
qed

theorem command_lines_parsed_witness:
  "start_program True (client_parse True (\<lambda>i j. 0) (new_arg_end 7 (\<lambda>i. (0, None, None)) 20)
     [''modbusc'', ''rtu'', ''-xyz'', ''--'', ''-q'', ''--reg'', ''--re=0x-1'', ''-w1'', ''-w'']) [''modbusc'', ''rtu'', ''-xyz'', ''--'', ''-q'', ''--reg'', ''--re=0x-1'', ''-w1'', ''-w''] \<noteq> None"
proof -
  have "list_all good_word [''modbusc'', ''rtu'', ''-xyz'', ''--'', ''-q'', ''--reg'', ''--re=0x-1'', ''-w1'', ''-w'']"
    by code_simp
  then show ?thesis
    using command_lines_parsed [of "[''modbusc'', ''rtu'', ''-xyz'', ''--'', ''-q'', ''--reg'', ''--re=0x-1'', ''-w1'', ''-w'']"
        "\<lambda>i j. 0" True True 7 "\<lambda>i. (0, None, None)"] by (simp add: int_ok_def)
qed

lemma start_program_hangs:
  assumes "equals_ignore_case cmd (if b then ''rtu'' else ''tcp'')" "parse b = None"
  shows "start_program True parse (prog # cmd # words) = None"
  using command_words [OF assms(1)] assms(2) by (simp add: start_program_def Let_def)

lemma verbose_entries:
  "9 < length (client_table mem is_rtu)" "CHR ''v'' \<in> set (short_names (client_table mem is_rtu ! 9))"
  "hdr_flag (client_table mem is_rtu ! 9) = 0"
  "j < 9 \<Longrightarrow> CHR ''v'' \<notin> set (short_names (client_table mem is_rtu ! j))"
  by (auto simp: rtu_table_def tcp_table_def client_common_def short_names_def less_Suc_eq numeral_eq_Suc)

definition verbose_index :: "bool \<Rightarrow> nat" where
  "verbose_index is_rtu = (if is_rtu then 11 else 8)"

lemma server_verbose_entries:
  "verbose_index is_rtu < length (server_table mem is_rtu)"
  "CHR ''v'' \<in> set (short_names (server_table mem is_rtu ! verbose_index is_rtu))"
  "hdr_flag (server_table mem is_rtu ! verbose_index is_rtu) = 0"
  "j < verbose_index is_rtu \<Longrightarrow> CHR ''v'' \<notin> set (short_names (server_table mem is_rtu ! j))"
  by (auto simp: server_tables verbose_index_def short_names_def less_Suc_eq numeral_eq_Suc split: if_splits)

text \<open>C21: A letter between two dashes is never got over: with \<open>-v-\<close> for the first option, whatever
  follows, neither program returns. It is no fault: the loop that reads the options makes any number
  of turns.\<close>

theorem dashed_letter_hangs:
  fixes prog cmd :: string and ws rest :: "string list"
  defines "argv \<equiv> prog # cmd # ws @ ''-v-'' # rest"
  assumes cmd: "equals_ignore_case cmd (if is_rtu then ''rtu'' else ''tcp'')"
    and "list_all is_word ws" "\<forall>i j. int_ok (mem i j)"
  shows "client_program os False True mem (c, m) mem_data mem_rtu mem_ctx mem_ip argv err raw w = None \<and>
    server_program os False True mem (c, m) sm argv err w = None \<and>
    (\<forall>table \<in> {client_table mem is_rtu, server_table mem is_rtu}.
       \<exists>tbl e. arg_reset table (new_arg_end c m 20) = Some (tbl, e) \<and>
         tagged_turns k False (int (length argv)) (alloc_shortoptions tbl) (table_options 0 tbl)
           (getopt_start\<lparr>gs_nargv := map Some argv @ [None], gs_optreset := True\<rparr>) tbl e \<noteq> None)"
proof -
  have mem: "\<And>i j. int_ok (mem i j)" using assms(4) by blast
  have words: "list_all is_word (cmd # ws)"
    using cmd assms(3) by (auto simp: equals_ignore_case_map is_word_def at_def to_lower_def split: if_splits)
  have st: "getopt_start\<lparr>gs_nargv := nv, gs_flag := 0, gs_optind := 1, gs_optreset := True\<rparr> =
    getopt_start\<lparr>gs_nargv := nv, gs_optreset := True\<rparr>" for nv by (simp add: getopt_start_def)
  note client = arg_parse_hangs [OF tables_good(1) [where mem = mem and is_rtu = is_rtu, OF mem] client_table_countable client_table_plain
      new_end_ok [of c m] verbose_entries(1,2,4,3) words, where st = getopt_start and prog = prog and rest = rest, unfolded st]
  note server = arg_parse_hangs [OF tables_good(2) [where mem = mem and is_rtu = is_rtu, OF mem] server_table_countable server_table_plain
      new_end_ok [of c m] server_verbose_entries(1,2,4,3) words, where st = getopt_start and prog = prog and rest = rest, unfolded st]
  have p: "client_parse False mem (new_arg_end c m 20) argv is_rtu = None"
    "server_parse False mem (new_arg_end c m 20) argv is_rtu = None"
    using client(1) server(1) by (simp_all add: client_parse_def server_parse_def argv_def)
  have "client_program os False True mem (c, m) mem_data mem_rtu mem_ctx mem_ip argv err raw w = None"
    "server_program os False True mem (c, m) sm argv err w = None"
    using start_program_hangs [OF cmd, of "client_parse False mem (new_arg_end c m 20) argv" prog "ws @ ''-v-'' # rest"]
      start_program_hangs [OF cmd, of "server_parse False mem (new_arg_end c m 20) argv" prog "ws @ ''-v-'' # rest"] p
    unfolding argv_def [symmetric]
    by (simp_all add: client_program_def server_program_def)
  then show ?thesis using client(2) server(2) by (simp add: argv_def)
qed

theorem dashed_letter_hangs_witness:
  "\<forall>mem_data mem_rtu mem_ctx mem_ip err raw w.
     client_program wire_os False True (\<lambda>i j. 0) (0, \<lambda>i. (0, None, None)) mem_data mem_rtu mem_ctx mem_ip
       [''modbusc'', ''tcp'', ''-v-''] err raw w = None"
  using dashed_letter_hangs [of "''tcp''" False "[]" "\<lambda>i j. 0" wire_os 0 "\<lambda>i. (0, None, None)" _ _ _ _ "''modbusc''" "[]"]
  by (simp add: equals_ignore_case_map to_lower_def int_ok_def)

end
