(* ===== verification/Spec2Isabelle.thy ===== *)
theory Spec2Isabelle
  imports Modbuss_Session Modbus_Client_Safe Modbus_Edges Modbusc_Program Mbu_Numbers Modbus_Descriptors
    Command_Line_Total
begin

text \<open>
  libmodbus (\<open>libmodbus/src\<close>) and the programs \<open>modbusc\<close> and \<open>modbuss\<close> built on it, verified.

  \<^bold>\<open>The program.\<close> The library speaks Modbus over TCP (IPv4 or protocol independent) and over a serial
  line (RTU). A context \<open>modbus_t\<close> holds the slave number, the connection, timeouts and the data
  of its backend, whose functions are called through a table. The client's functions build a
  request, send it, wait for the confirmation, check it and decode it; the server receives a
  request (\<open>modbus_receive\<close>), carries it out on four tables of bits and registers and answers
  (\<open>modbus_reply\<close>). \<open>modbusc\<close> runs one kind of request for a range of slaves and a set of serial
  settings, \<open>modbuss\<close> serves a mapping to one serial line or to many TCP clients. Both hand \<open>argv\<close> to
  \<open>argtable3\<close> (\<open>argtable3/argtable3.c\<close>): a table of options, each with a scan function, is filled by
  \<open>arg_parse\<close> over a bundled \<open>getopt_long\<close>; texts are checked with a bundled matcher of regular
  expressions.

  \<^bold>\<open>The model.\<close> A C function is a function of the same name (\<open>tcp_\<close>, \<open>rtu_\<close> and \<open>be_\<close> stand for
  \<open>_modbus_tcp_\<close>, \<open>_modbus_rtu_\<close> and a call through the table). The state of a call is
  \<open>'w mst\<close>: the context, \<open>errno\<close> and the world \<open>'w\<close>, on which the system calls act; these are the
  fields of the record \<open>'w os\<close> and parameters of every definition. Arrays are lists read and
  written with \<open>rd\<close>, \<open>wr\<close>, \<open>rd_block\<close>, \<open>wr_block\<close>; \<open>None\<close> is an access outside an array (or a loop
  that does not end), so a theorem with \<open>Some\<close> says that there is neither. Local arrays the C
  code leaves uninitialised hold arbitrary bytes (\<open>uninit\<close>). Bytes and registers are \<open>u8\<close>, \<open>u16\<close>;
  a C \<open>int\<close> is an \<open>int\<close> whose values stay far inside 32 bits; where input reaches an addition or a
  product that could leave them, overflow is a fault too (\<open>fits_int\<close>, \<open>register_overflow\<close>);
  conversions are written out. The context's own descriptor is taken to fit an \<open>fd_set\<close> where a
  message is awaited: \<open>FD_SET\<close> of a larger one is a fault only where the server program watches
  many (\<open>run_tcp_server\<close>). Loops that depend on the system are \<open>partial_function (option)\<close>, which
  \<open>code_simp\<close> evaluates.

  \<^bold>\<open>Theories that model code.\<close>
  \<^item> \<open>Prelude\<close>, \<open>Modbus_Types\<close>: arrays, counting loops (\<open>for_loop\<close>, with the rules \<open>for_loop_inv\<close> and
    \<open>for_loop_states\<close>), big-endian fields; constants and structures of the headers, \<open>'w os\<close>.
  \<^item> \<open>Modbus_Data\<close>: \<open>modbus-data.c\<close>. \<open>Modbus_Strings\<close>: \<open>strlcpy\<close>.
  \<^item> \<open>Modbus_Framing\<close>: the contract a backend owes the protocol code, a locale (building a frame
    around a body gives \<open>header @ body @ trailer\<close>); \<open>Modbus_Tcp\<close> and \<open>Modbus_Rtu\<close> (with the CRC of
    \<open>Modbus_Crc\<close>) interpret it. \<open>Modbus_Tcp_Connect\<close>, \<open>Modbus_Rtu_Connect\<close>: opening, closing,
    waiting and draining.
  \<^item> \<open>Modbus_Context\<close>: the table of the backends, the constructors, the settings, \<open>connect\<close>, \<open>close\<close>.
  \<^item> \<open>Modbus_Core\<close>: \<open>send_msg\<close>, \<open>_modbus_receive_msg\<close> and \<open>modbus_receive\<close>; \<open>Modbus_Confirmation\<close>:
    \<open>check_confirmation\<close>; \<open>Modbus_Server\<close>: \<open>modbus_reply\<close>, the exception and the mapping;
    \<open>Modbus_Client\<close>: every request function. All of \<open>modbus.c\<close>.
  \<^item> \<open>Mbu_Common\<close>, \<open>Modbusc\<close>, \<open>Modbuss\<close>: \<open>mbu-common.c\<close>, \<open>modbusc.c\<close>, \<open>modbuss.c\<close>.
  \<^item> \<open>Argtable_Regex\<close>: the compiler and the matcher of regular expressions (\<open>trex_\<close>); \<open>Argtable_Getopt\<close>:
    \<open>getopt_long\<close> with \<open>permute_args\<close>; \<open>Argtable_Scan\<close>: the entries of a table, flags, integers, strings
    and regular expressions, and their scan functions; \<open>Argtable_Parse\<close>: \<open>arg_end\<close>, the option lists
    made from a table, and \<open>arg_parse\<close>.
  \<^item> \<open>Command_Line\<close>: the tables of the two programs, and the programs from \<open>argv\<close> to the exit code
    (\<open>client_program\<close>, \<open>server_program\<close>).

  \<^bold>\<open>The specification.\<close> \<open>Modbus_Protocol\<close> is the application protocol: requests and responses as
  datatypes, their bytes (\<open>encode_request\<close>, \<open>encode_response\<close>), and \<open>serve\<close>, what a server does to
  the tables. \<open>crc_spec\<close> is the bitwise CRC. \<open>Wire\<close> is a concrete system, \<open>Loopback\<close> a connection
  whose other end runs the modelled server; the theorems are applied to them.

  \<^bold>\<open>What the lemmas show.\<close>
  \<^item> Refinement (\<open>Modbus_Reply\<close>): \<open>modbus_reply\<close> sends the frame of the response \<open>serve\<close> gives and
    leaves the tables it leaves, for every request and backend. The table-driven CRC is the
    bitwise one (\<open>Modbus_Crc\<close>); it detects bursts within two bytes (\<open>Modbus_Rtu\<close>).
  \<^item> Messages (\<open>Modbus_Receive\<close>): however the system cuts the stream, exactly one frame is taken.
  \<^item> Safety against anything (\<open>Modbus_Receive_Safe\<close>, \<open>Modbus_Reply_Safe\<close>, \<open>Modbus_Client_Safe\<close>): with
    arbitrary bytes the functions return, inside their arrays, keeping the mapping well formed; what
    a read reports as read is what the accepted response carries.
  \<^item> Client and server (\<open>Modbus_Exchange\<close>, \<open>Modbus_Requests\<close>, \<open>Loopback\<close>): each request function
    against any device that behaves like \<open>serve\<close>; the examples run against the library's own server.
  \<^item> The edges (\<open>Modbus_Edges\<close>): refused arguments, unknown functions, raw requests, exceptions.
  \<^item> The programs: the serial server loop serves any number of requests in order
    until the signal comes and loses none, although it flushes its input (\<open>Modbuss_Session\<close>);
    the TCP server as a transition system with its invariant and the termination of a scan (\<open>Modbuss_Tcp\<close>), its start (\<open>Modbuss_Start\<close>) and the descriptors it holds
    (\<open>Modbus_Descriptors\<close>); the client from the checked options to the device
    (\<open>Modbusc_Run\<close>) and the parsing of its numbers (\<open>Mbu_Numbers\<close>).
  \<^item> The command line: the patterns of the programs accept the texts they are meant for
    (\<open>Argtable_Patterns\<close>), integers in four bases with suffixes are scanned or refused
    (\<open>Argtable_Numbers\<close>), blocks of arguments are exchanged (\<open>Argtable_Permute\<close>), \<open>arg_parse\<close> does what a
    reference does that reads options in order, in every spelling but abbreviated names and groups
    of flags that end in a letter with a value (\<open>Argtable_Order\<close>), and keeps its table well formed
    whatever it reads (\<open>Argtable_Safe\<close>). It returns on every command line but those with a word of
    two kinds (\<open>Argtable_Total\<close>), and for one of these, a letter between dashes, it never does
    (\<open>Argtable_Hang\<close>). \<open>Command_Values\<close> and \<open>Command_Line_Run\<close> put these together: the
    two programs run with the values their command line gives; \<open>Command_Line_Total\<close> says on which
    command lines they get there, and \<open>Modbusc_Program\<close> follows the client from \<open>argv\<close> to the device
    and back to its exit code.

  \<^bold>\<open>Hypotheses about the system\<close>, all documented behaviour of POSIX and each shown to hold of a
  concrete system by a witness: \<open>settles\<close> (interrupted sleeps and pending input run out, which
  bounds the loops that retry), \<open>bounded_io\<close> (also: \<open>select\<close> is not interrupted for ever, \<open>recv\<close>
  returns no more than asked), \<open>delivers\<close> (a stream arrives in order, in pieces of any size),
  \<open>quiet\<close> (an idle connection), \<open>device_at\<close>, \<open>client_at\<close> and \<open>master_at\<close> (what the other end does;
  the last a master that waits its turn, on a line whose \<open>tcflush\<close> discards what has arrived),
  \<open>reports_watched\<close> (\<open>select\<close> reports descriptors it was asked about), \<open>accounts\<close> (which calls open
  and close descriptors). The server loops run until a signal: for them the theorems say what
  each round does and, for a session of given length, that it ends. Only the regular expressions
  have a fuel: the compiler twice the length of the pattern and 2, as every call in its recursion
  takes a character or is followed by one that does; the matcher 65538 and the number of nodes, as
  a repetition is tried at most 65536 times. That both return on the patterns of the programs, and
  the matcher with any fuel from 14 on, is a theorem.

  \<^bold>\<open>Not modelled.\<close> Of \<open>argtable3\<close>: the kinds of arguments the programs do not use (numbers with a
  fraction, dates, files, remarks), sub-commands, dynamic strings and hash tables, the captures of
  regular expressions, and all that prints usage, glossary and errors; whether \<open>POSIXLY_CORRECT\<close> is
  set is a parameter. The Windows branches; printing; \<open>modbus_free\<close>,
  \<open>modbus_mapping_free\<close> and \<open>arg_freetable\<close>, as the heap is not modelled (allocations are arguments that
  may fail); the test programs.
\<close>

end
